(* ===== verification/Neksur_Prelude.thy ===== *)
theory Neksur_Prelude
  imports Main
begin

text \<open>
  Shared vocabulary of the development.

  A Go \<open>string\<close> is a byte sequence, and so is an Isabelle \<^typ>\<open>string\<close>: a list of
  8-bit characters. The theory fixes the result type of fallible code, models the
  functions of Go's \<open>strings\<close> and \<open>unicode\<close> packages that the sources call
  (\<open>TrimSpace\<close>, \<open>EqualFold\<close>, \<open>HasPrefix\<close>, \<open>HasSuffix\<close>, \<open>Contains\<close>, \<open>Join\<close>), the byte
  classes the two SQL lexers share, and collects the lemmas the components use.
\<close>

named_theorems byte_simps \<open>evaluation of byte classes\<close>
named_theorems result_simps \<open>unfolding of chained fallible calls\<close>

section \<open>Results\<close>

text \<open>A Go pair \<open>(value, error)\<close>: \<open>Inl\<close> is the error, \<open>Inr\<close> the value.\<close>

fun rbind :: "'e + 'a \<Rightarrow> ('a \<Rightarrow> 'e + 'b) \<Rightarrow> 'e + 'b" where
  "rbind (Inl e) f = Inl e"
| "rbind (Inr x) f = f x"

lemma rbind_eq_Inr [result_simps]:
  "rbind m f = Inr y \<longleftrightarrow> (\<exists>x. m = Inr x \<and> f x = Inr y)"
  by (cases m) auto

lemma rbind_eq_Inl [result_simps]:
  "rbind m f = Inl e \<longleftrightarrow> m = Inl e \<or> (\<exists>x. m = Inr x \<and> f x = Inl e)"
  by (cases m) auto

lemma rbind_InrE:
  assumes "rbind m f = Inr y"
  obtains x where "m = Inr x" "f x = Inr y"
  using assms by (cases m) auto

lemma rbind_InlE:
  assumes "rbind m f = Inl e"
  obtains (now) "m = Inl e" | (later) x where "m = Inr x" "f x = Inl e"
  using assms by (cases m) auto

lemma rbind_cong [fundef_cong]:
  "m = m' \<Longrightarrow> (\<And>x. m' = Inr x \<Longrightarrow> f x = f' x) \<Longrightarrow> rbind m f = rbind m' f'"
  by (cases m') auto

text \<open>A loop that appends to a result and returns at the first error.\<close>

fun traverse :: "('a \<Rightarrow> 'e + 'b) \<Rightarrow> 'a list \<Rightarrow> 'e + 'b list" where
  "traverse f [] = Inr []"
| "traverse f (x # xs) = rbind (f x) (\<lambda>y. rbind (traverse f xs) (\<lambda>ys. Inr (y # ys)))"

lemma traverse_Inr: "traverse f xs = Inr ys \<longleftrightarrow> list_all2 (\<lambda>x y. f x = Inr y) xs ys"
proof (induction xs arbitrary: ys)
  case (Cons x xs)
  then show ?case by (cases ys) (auto simp: result_simps)
qed (auto simp: eq_commute)

section \<open>Byte classes\<close>

abbreviation byte_val :: "char \<Rightarrow> nat" where
  "byte_val c \<equiv> of_char c"

definition is_digit :: "char \<Rightarrow> bool" where
  "is_digit b \<longleftrightarrow> 48 \<le> byte_val b \<and> byte_val b \<le> 57"

definition isIdentStart :: "char \<Rightarrow> bool" where
  "isIdentStart b \<longleftrightarrow>
     (97 \<le> byte_val b \<and> byte_val b \<le> 122) \<or> (65 \<le> byte_val b \<and> byte_val b \<le> 90) \<or>
     b = CHR ''_''"

definition isWordChar :: "char \<Rightarrow> bool" where
  "isWordChar b \<longleftrightarrow> isIdentStart b \<or> is_digit b"

lemmas byte_class_defs [byte_simps] = is_digit_def isIdentStart_def isWordChar_def

text \<open>\<open>isSimpleIdent\<close>: the regular expression \<open>[A-Za-z_][A-Za-z0-9_]*\<close>.\<close>

fun isSimpleIdent :: "string \<Rightarrow> bool" where
  "isSimpleIdent [] = False"
| "isSimpleIdent (c # cs) = (isIdentStart c \<and> list_all isWordChar cs)"

lemma isIdentStart_imp_word: "isIdentStart c \<Longrightarrow> isWordChar c"
  by (simp add: isWordChar_def)

lemma isSimpleIdent_word: "isSimpleIdent s \<Longrightarrow> list_all isWordChar s"
  by (cases s) (auto simp: isIdentStart_imp_word)

lemma isSimpleIdent_nonempty: "isSimpleIdent s \<Longrightarrow> s \<noteq> []"
  by (cases s) auto

text \<open>ASCII case folding, one byte at a time.\<close>

definition lower_byte :: "char \<Rightarrow> char" where
  "lower_byte b =
     (if 65 \<le> byte_val b \<and> byte_val b \<le> 90 then char_of (byte_val b + 32) else b)"

text \<open>
  \<open>strings.EqualFold(got, kw)\<close> and \<open>strings.ToUpper(got) == strings.ToUpper(kw)\<close>, as the
  lexers use them: \<open>kw\<close> is ASCII and \<open>got\<close> has the byte length of \<open>kw\<close>. A rune of
  \<open>got\<close> outside ASCII takes two bytes or more, so such a \<open>got\<close> has fewer runes than
  \<open>kw\<close> has bytes and neither comparison succeeds; what is left is folding of ASCII
  letters, byte by byte.
\<close>

definition fold_eq :: "string \<Rightarrow> string \<Rightarrow> bool" where
  "fold_eq s t \<longleftrightarrow> map lower_byte s = map lower_byte t"

lemma fold_eq_refl [simp]: "fold_eq s s"
  by (simp add: fold_eq_def)

text \<open>Byte by byte, stopping at the first difference: the form evaluation uses.\<close>

lemma fold_eq_code [code]:
  "fold_eq [] t = (case t of [] \<Rightarrow> True | _ # _ \<Rightarrow> False)"
  "fold_eq (a # s) t =
     (case t of [] \<Rightarrow> False
      | b # u \<Rightarrow> if a = b then fold_eq s u
               else if lower_byte a = lower_byte b then fold_eq s u else False)"
  by (auto simp: fold_eq_def split: list.splits)

lemma fold_eq_length: "fold_eq s t \<Longrightarrow> length s = length t"
  using map_eq_imp_length_eq by (fastforce simp: fold_eq_def)

lemma lower_byte_val:
  "byte_val (lower_byte b) =
     (if 65 \<le> byte_val b \<and> byte_val b \<le> 90 then byte_val b + 32 else byte_val b)"
  by (simp add: lower_byte_def)

lemma underscore_val: "b = CHR ''_'' \<longleftrightarrow> byte_val b = 95"
proof
  assume "byte_val b = 95"
  then have "byte_val b = byte_val (CHR ''_'')" by simp
  then show "b = CHR ''_''" by (simp only: of_char_eq_iff)
qed simp

lemma isWordChar_lower: "isWordChar (lower_byte b) \<longleftrightarrow> isWordChar b"
  by (auto simp: isWordChar_def isIdentStart_def is_digit_def underscore_val lower_byte_val)

text \<open>Folding evaluated on literal bytes.\<close>

lemma lower_byte_upper [simp]:
  "lower_byte (CHR ''A'') = CHR ''a''" "lower_byte (CHR ''B'') = CHR ''b''"
  "lower_byte (CHR ''C'') = CHR ''c''" "lower_byte (CHR ''D'') = CHR ''d''"
  "lower_byte (CHR ''E'') = CHR ''e''" "lower_byte (CHR ''F'') = CHR ''f''"
  "lower_byte (CHR ''G'') = CHR ''g''" "lower_byte (CHR ''H'') = CHR ''h''"
  "lower_byte (CHR ''I'') = CHR ''i''" "lower_byte (CHR ''J'') = CHR ''j''"
  "lower_byte (CHR ''K'') = CHR ''k''" "lower_byte (CHR ''L'') = CHR ''l''"
  "lower_byte (CHR ''M'') = CHR ''m''" "lower_byte (CHR ''N'') = CHR ''n''"
  "lower_byte (CHR ''O'') = CHR ''o''" "lower_byte (CHR ''P'') = CHR ''p''"
  "lower_byte (CHR ''Q'') = CHR ''q''" "lower_byte (CHR ''R'') = CHR ''r''"
  "lower_byte (CHR ''S'') = CHR ''s''" "lower_byte (CHR ''T'') = CHR ''t''"
  "lower_byte (CHR ''U'') = CHR ''u''" "lower_byte (CHR ''V'') = CHR ''v''"
  "lower_byte (CHR ''W'') = CHR ''w''" "lower_byte (CHR ''X'') = CHR ''x''"
  "lower_byte (CHR ''Y'') = CHR ''y''" "lower_byte (CHR ''Z'') = CHR ''z''"
  by (simp_all add: lower_byte_def char_of_def bit_0)

lemma lower_byte_other [simp]:
  "lower_byte (CHR ''('') = CHR ''(''" "lower_byte (CHR '')'') = CHR '')''"
  "lower_byte (CHR '','') = CHR '',''" "lower_byte (CHR '' '') = CHR '' ''"
  by (simp_all add: lower_byte_def)

section \<open>Go's \<open>strings\<close> package\<close>

definition has_prefix :: "string \<Rightarrow> string \<Rightarrow> bool" where
  "has_prefix s p \<longleftrightarrow> take (length p) s = p"

definition has_suffix :: "string \<Rightarrow> string \<Rightarrow> bool" where
  "has_suffix s p \<longleftrightarrow> length p \<le> length s \<and> drop (length s - length p) s = p"

fun str_contains :: "string \<Rightarrow> string \<Rightarrow> bool" where
  "str_contains [] p = (p = [])"
| "str_contains (c # cs) p = (has_prefix (c # cs) p \<or> str_contains cs p)"

fun join_with :: "string \<Rightarrow> string list \<Rightarrow> string" where
  "join_with sep [] = []"
| "join_with sep [x] = x"
| "join_with sep (x # y # xs) = x @ sep @ join_with sep (y # xs)"

lemma has_prefix_append [simp]: "has_prefix (p @ s) p"
  by (simp add: has_prefix_def)

lemma has_prefix_Nil [simp]: "has_prefix s []"
  by (simp add: has_prefix_def)

lemma has_prefix_Cons [simp]:
  "has_prefix (c # s) (d # p) \<longleftrightarrow> c = d \<and> has_prefix s p"
  by (auto simp: has_prefix_def)

lemma has_prefix_Nil_Cons [simp]: "\<not> has_prefix [] (d # p)"
  by (simp add: has_prefix_def)

lemma has_prefixE: "has_prefix s p \<Longrightarrow> \<exists>r. s = p @ r"
  unfolding has_prefix_def by (metis append_take_drop_id)

lemma join_with_Cons: "xs \<noteq> [] \<Longrightarrow> join_with sep (x # xs) = x @ sep @ join_with sep xs"
  by (cases xs) auto

subsection \<open>\<open>strings.TrimSpace\<close>\<close>

text \<open>
  The UTF-8 encodings of the runes \<open>unicode.IsSpace\<close> accepts. \<open>TrimSpace\<close> removes them
  from both ends; a rune is decoded from its bytes alone, so removing a rune from an end
  is removing its encoding.
\<close>

definition utf8_spaces :: "string list" where
  "utf8_spaces =
     [[CHR 0x09], [CHR 0x0A], [CHR 0x0B], [CHR 0x0C], [CHR 0x0D], [CHR 0x20],
      [CHR 0xC2, CHR 0x85], [CHR 0xC2, CHR 0xA0], [CHR 0xE1, CHR 0x9A, CHR 0x80],
      [CHR 0xE2, CHR 0x80, CHR 0xA8], [CHR 0xE2, CHR 0x80, CHR 0xA9],
      [CHR 0xE2, CHR 0x80, CHR 0xAF], [CHR 0xE2, CHR 0x81, CHR 0x9F],
      [CHR 0xE3, CHR 0x80, CHR 0x80], [CHR 0xE2, CHR 0x80, CHR 0x80],
      [CHR 0xE2, CHR 0x80, CHR 0x81], [CHR 0xE2, CHR 0x80, CHR 0x82],
      [CHR 0xE2, CHR 0x80, CHR 0x83], [CHR 0xE2, CHR 0x80, CHR 0x84],
      [CHR 0xE2, CHR 0x80, CHR 0x85], [CHR 0xE2, CHR 0x80, CHR 0x86],
      [CHR 0xE2, CHR 0x80, CHR 0x87], [CHR 0xE2, CHR 0x80, CHR 0x88],
      [CHR 0xE2, CHR 0x80, CHR 0x89], [CHR 0xE2, CHR 0x80, CHR 0x8A]]"

definition utf8_spaces_rev :: "string list" where
  "utf8_spaces_rev = map rev utf8_spaces"

fun strip1 :: "string list \<Rightarrow> string \<Rightarrow> string option" where
  "strip1 [] s = None"
| "strip1 (p # ps) s =
     (if p \<noteq> [] \<and> has_prefix s p then Some (drop (length p) s) else strip1 ps s)"

lemma strip1_shorter: "strip1 ps s = Some s' \<Longrightarrow> length s' < length s"
proof (induction ps)
  case (Cons p ps)
  show ?case
  proof (cases "p \<noteq> [] \<and> has_prefix s p")
    case True
    moreover from True have "s \<noteq> []" by (cases p) auto
    ultimately show ?thesis using Cons.prems by auto
  next
    case False
    then show ?thesis using Cons by auto
  qed
qed simp

lemma strip1_SomeD: "strip1 ps s = Some s' \<Longrightarrow> \<exists>p \<in> set ps. p \<noteq> [] \<and> s = p @ s'"
proof (induction ps)
  case (Cons p ps)
  then show ?case
    by (auto simp: has_prefix_def split: if_splits) (metis append_take_drop_id)
qed simp

function strip_all :: "string list \<Rightarrow> string \<Rightarrow> string" where
  "strip_all ps s = (case strip1 ps s of None \<Rightarrow> s | Some s' \<Rightarrow> strip_all ps s')"
  by pat_completeness auto
termination
  by (relation "measure (\<lambda>(ps, s). length s)") (auto dest: strip1_shorter)

declare strip_all.simps [simp del]

definition TrimSpace :: "string \<Rightarrow> string" where
  "TrimSpace s = rev (strip_all utf8_spaces_rev (rev (strip_all utf8_spaces s)))"

lemma strip_all_None: "strip1 ps s = None \<Longrightarrow> strip_all ps s = s"
  by (simp add: strip_all.simps)

lemma strip_all_stuck: "strip1 ps (strip_all ps s) = None"
proof (induction ps s rule: strip_all.induct)
  case (1 ps s)
  then show ?case
    by (cases "strip1 ps s") (auto simp: strip_all.simps [of ps s])
qed

text \<open>What is stripped is a concatenation of members of the list.\<close>

lemma strip_all_split:
  "\<exists>qs. set qs \<subseteq> set ps \<and> s = concat qs @ strip_all ps s"
proof (induction ps s rule: strip_all.induct)
  case (1 ps s)
  show ?case
  proof (cases "strip1 ps s")
    case None
    then show ?thesis by (intro exI [of _ "[]"]) (simp add: strip_all_None)
  next
    case (Some s')
    then obtain p where p: "p \<in> set ps" "s = p @ s'"
      using strip1_SomeD by blast
    obtain qs where qs: "set qs \<subseteq> set ps" "s' = concat qs @ strip_all ps s'"
      using "1.IH" [OF Some] by blast
    have "strip_all ps s = strip_all ps s'"
      using Some by (simp add: strip_all.simps [of ps s])
    with p qs show ?thesis
      by (intro exI [of _ "p # qs"]) simp
  qed
qed

lemma strip1_head:
  "(\<And>p. p \<in> set ps \<Longrightarrow> p = [] \<or> hd p \<noteq> c) \<Longrightarrow> strip1 ps (c # s) = None"
proof (induction ps)
  case (Cons p ps)
  have "p = [] \<or> hd p \<noteq> c" using Cons.prems by simp
  then have "\<not> (p \<noteq> [] \<and> has_prefix (c # s) p)" by (cases p) auto
  moreover have "strip1 ps (c # s) = None" using Cons by simp
  ultimately show ?case by simp
qed simp

text \<open>Bytes that end or start no white-space rune; every printable ASCII byte is one.\<close>

definition solid :: "char \<Rightarrow> bool" where
  "solid c \<longleftrightarrow> 33 \<le> byte_val c \<and> byte_val c \<le> 126"

lemma solid_not_space_head:
  "solid c \<Longrightarrow> p \<in> set utf8_spaces \<Longrightarrow> p = [] \<or> hd p \<noteq> c"
  by (auto simp: utf8_spaces_def solid_def)

lemma solid_not_space_last:
  "solid c \<Longrightarrow> p \<in> set utf8_spaces_rev \<Longrightarrow> p = [] \<or> hd p \<noteq> c"
  by (auto simp: utf8_spaces_rev_def utf8_spaces_def solid_def)

lemma strip_left_solid [simp]: "solid c \<Longrightarrow> strip_all utf8_spaces (c # s) = c # s"
  by (rule strip_all_None, rule strip1_head) (rule solid_not_space_head)

lemma strip_right_solid [simp]: "solid c \<Longrightarrow> strip_all utf8_spaces_rev (c # s) = c # s"
  by (rule strip_all_None, rule strip1_head) (rule solid_not_space_last)

lemma strip_all_Nil [simp]: "strip_all utf8_spaces [] = []" "strip_all utf8_spaces_rev [] = []"
  using strip_all_split [of utf8_spaces "[]"] strip_all_split [of utf8_spaces_rev "[]"] by auto

lemma TrimSpace_Nil [simp]: "TrimSpace [] = []"
  by (simp add: TrimSpace_def)

lemma TrimSpace_solid:
  assumes "s \<noteq> []" "solid (hd s)" "solid (last s)"
  shows "TrimSpace s = s"
proof -
  obtain c cs where s: "s = c # cs" using assms(1) by (cases s) auto
  obtain b bs where r: "s = bs @ [b]" using assms(1) by (cases s rule: rev_cases) auto
  have "strip_all utf8_spaces s = s" using assms(2) s by simp
  moreover have "strip_all utf8_spaces_rev (rev s) = rev s" using assms(3) r by simp
  ultimately show ?thesis by (simp add: TrimSpace_def)
qed

lemma strip_all_space: "strip_all utf8_spaces (CHR '' '' # s) = strip_all utf8_spaces s"
proof -
  have "strip1 utf8_spaces (CHR '' '' # s) = Some s"
    by (simp add: utf8_spaces_def)
  then show ?thesis by (simp add: strip_all.simps [of utf8_spaces "CHR '' '' # s"])
qed

lemma strip_all_space_rev:
  "strip_all utf8_spaces_rev (CHR '' '' # s) = strip_all utf8_spaces_rev s"
proof -
  have "strip1 utf8_spaces_rev (CHR '' '' # s) = Some s"
    by (simp add: utf8_spaces_rev_def utf8_spaces_def)
  then show ?thesis by (simp add: strip_all.simps [of utf8_spaces_rev "CHR '' '' # s"])
qed

lemma TrimSpace_Cons_space [simp]: "TrimSpace (CHR '' '' # s) = TrimSpace s"
  by (simp add: TrimSpace_def strip_all_space)

text \<open>The trimmed string sits in the original, between two runs of white space.\<close>

lemma TrimSpace_split:
  obtains a b where "s = concat a @ TrimSpace s @ concat b"
    "set a \<subseteq> set utf8_spaces" "set b \<subseteq> set utf8_spaces"
proof -
  let ?l = "strip_all utf8_spaces s"
  obtain a where a: "set a \<subseteq> set utf8_spaces" "s = concat a @ ?l"
    using strip_all_split by blast
  obtain b where b: "set b \<subseteq> set utf8_spaces_rev"
    "rev ?l = concat b @ strip_all utf8_spaces_rev (rev ?l)"
    using strip_all_split by blast
  have "?l = TrimSpace s @ rev (concat b)"
    using arg_cong [OF b(2), of rev] by (simp add: TrimSpace_def)
  moreover have "rev (concat b) = concat (rev (map rev b))"
    by (simp add: rev_concat rev_map)
  moreover have "set (rev (map rev b)) \<subseteq> set utf8_spaces"
    using b(1) by (auto simp: utf8_spaces_rev_def)
  ultimately show thesis
    using that [of a "rev (map rev b)"] a by metis
qed

section \<open>Numbers as text\<close>

text \<open>\<open>strconv.Itoa\<close> and the \<open>%d\<close> verb on non-negative numbers.\<close>

definition digit_char :: "nat \<Rightarrow> char" where
  "digit_char n = char_of (48 + n)"

fun itoa :: "nat \<Rightarrow> string" where
  "itoa n = (if n < 10 then [digit_char n] else itoa (n div 10) @ [digit_char (n mod 10)])"

declare itoa.simps [simp del]

lemma is_digit_char [simp]: "n < 10 \<Longrightarrow> is_digit (digit_char n)"
  by (simp add: is_digit_def digit_char_def)

lemma itoa_digits: "list_all is_digit (itoa n) \<and> itoa n \<noteq> []"
  by (induction n rule: itoa.induct) (simp add: itoa.simps)

definition itoaInt :: "int \<Rightarrow> string" where
  "itoaInt n = (if n < 0 then ''-'' @ itoa (nat (- n)) else itoa (nat n))"

section \<open>Quoted literals\<close>

text \<open>The texts between pairs of single quotes, left to right.\<close>

function quotedParts :: "string \<Rightarrow> string list" where
  "quotedParts [] = []"
| "quotedParts (c # s) =
     (if c = CHR 0x27
      then takeWhile (\<lambda>d. d \<noteq> CHR 0x27) s # quotedParts (drop 1 (dropWhile (\<lambda>d. d \<noteq> CHR 0x27) s))
      else quotedParts s)"
  by pat_completeness auto
termination
  by (relation "measure length") (auto simp: less_Suc_eq_le le_diff_conv intro: le_SucI length_dropWhile_le)

lemma quotedParts_literal:
  "CHR 0x27 \<notin> set v \<Longrightarrow> quotedParts (CHR 0x27 # v @ CHR 0x27 # s) = v # quotedParts s"
proof -
  assume v: "CHR 0x27 \<notin> set v"
  then have "takeWhile (\<lambda>d. d \<noteq> CHR 0x27) (v @ CHR 0x27 # s) = v"
    "dropWhile (\<lambda>d. d \<noteq> CHR 0x27) (v @ CHR 0x27 # s) = CHR 0x27 # s"
    by (induction v) auto
  then show ?thesis by simp
qed

lemma quotedParts_plain: "CHR 0x27 \<notin> set u \<Longrightarrow> quotedParts (u @ s) = quotedParts s"
  by (induction u) auto

declare quotedParts.simps(2) [simp del]

subsection \<open>\<open>strings.ToLower\<close> and \<open>strings.Fields\<close>\<close>

text \<open>
  \<open>strings.ToLower\<close>, as far as its result can be ASCII: ASCII letters, and the two runes outside
  ASCII whose lower case is an ASCII letter (dotted capital I and the Kelvin sign).
\<close>

fun toLowerAscii :: "string \<Rightarrow> string" where
  "toLowerAscii (a # b # c # s) =
     (if a = CHR 0xC4 \<and> b = CHR 0xB0 then CHR ''i'' # toLowerAscii (c # s)
      else if a = CHR 0xE2 \<and> b = CHR 0x84 \<and> c = CHR 0xAA then CHR ''k'' # toLowerAscii s
      else lower_byte a # toLowerAscii (b # c # s))"
| "toLowerAscii [a, b] =
     (if a = CHR 0xC4 \<and> b = CHR 0xB0 then ''i'' else [lower_byte a, lower_byte b])"
| "toLowerAscii [a] = [lower_byte a]"
| "toLowerAscii [] = []"

text \<open>
  \<open>strings.Fields\<close>: the maximal runs without white space. No white-space encoding starts with a
  continuation byte, so testing it at every byte tests it at every rune.
\<close>

function fieldsFrom :: "string \<Rightarrow> string \<Rightarrow> string list" where
  "fieldsFrom w [] = (if w = [] then [] else [w])"
| "fieldsFrom w (c # s) =
     (case strip1 utf8_spaces (c # s) of
        Some r \<Rightarrow> (if w = [] then [] else [w]) @ fieldsFrom [] r
      | None \<Rightarrow> fieldsFrom (w @ [c]) s)"
  by pat_completeness auto
termination
  by (relation "measure (\<lambda>(w, s). length s)") (auto dest: strip1_shorter)

definition Fields :: "string \<Rightarrow> string list" where
  "Fields s = fieldsFrom [] s"

text \<open>\<open>strings.Split\<close> on a single byte.\<close>

fun splitOn :: "char \<Rightarrow> string \<Rightarrow> string list" where
  "splitOn sep [] = [[]]"
| "splitOn sep (c # s) =
     (if c = sep then [] # splitOn sep s
      else (case splitOn sep s of w # ws \<Rightarrow> (c # w) # ws | [] \<Rightarrow> [[c]]))"

section \<open>LRU caches\<close>

text \<open>
  The process-local caches are \<open>hashicorp/golang-lru\<close>. The content of a cache is a map; \<open>Get\<close>
  reads it and \<open>Remove\<close> deletes a key. What \<open>Add\<close> evicts is the library's choice, so \<open>Add\<close> is a
  parameter, and \<open>lru_add\<close> states what its documentation promises: the added key is present
  with its value, and no other key changes its value (it may disappear).
\<close>

definition lru_add :: "('k \<Rightarrow> 'v \<Rightarrow> ('k \<rightharpoonup> 'v) \<Rightarrow> ('k \<rightharpoonup> 'v)) \<Rightarrow> bool" where
  "lru_add add \<longleftrightarrow>
     (\<forall>k v m. add k v m k = Some v \<and> (\<forall>k'. k' \<noteq> k \<longrightarrow> add k v m k' = None \<or> add k v m k' = m k'))"

definition cache_sound :: "('k \<Rightarrow> 'v \<Rightarrow> bool) \<Rightarrow> ('k \<rightharpoonup> 'v) \<Rightarrow> bool" where
  "cache_sound I c \<longleftrightarrow> (\<forall>k e. c k = Some e \<longrightarrow> I k e)"

lemma lru_add_sound:
  "lru_add add \<Longrightarrow> cache_sound I c \<Longrightarrow> I k e \<Longrightarrow> cache_sound I (add k e c)"
  unfolding lru_add_def cache_sound_def by (metis option.distinct(1) option.inject)

end
