(* ===== verification/SQL_Grammar.thy ===== *)
theory SQL_Grammar
  imports Neksur_Prelude
begin

text \<open>
  The policy fragment language (\<open>internal/policy/compiler/sql_grammar.go\<close>): the AST,
  the lexer primitives and the recursive-descent parser for row filters and column masks.

  The Go parser is a pair of a source string and a position. The model passes the rest of
  the input, \<open>src[pos:]\<close>; an error carries the rest at which it was raised, so the offset
  in Go's message is the length of the source less the length of that rest. The mutual
  recursion of the expression parsers runs on fuel; \<open>parse_fuel_enough\<close> shows that four
  units per input byte are enough, so \<open>OutOfFuel\<close> never leaves the entry points.
\<close>

section \<open>Abstract syntax\<close>

datatype literal = Literal (lit_kind: string) (lit_value: string)

datatype node =
    BinaryOp string node node
  | UnaryOp string node
  | ColumnRef string string
  | LitNode literal
  | InList node "literal list"
  | FuncCall string node
  | NilNode

record mask_project =
  mp_column :: string
  mp_expr :: node

datatype fragment = RowFragment node | MaskFragment "mask_project list"

datatype parse_error = ParseFailed string string | OutOfFuel

section \<open>Lexer primitives\<close>

text \<open>\<open>unicode.IsSpace(rune(b))\<close> on a single byte: the Latin-1 white space.\<close>

definition isSpaceByte :: "char \<Rightarrow> bool" where
  "isSpaceByte b \<longleftrightarrow>
     (9 \<le> byte_val b \<and> byte_val b \<le> 13) \<or> byte_val b = 32 \<or> byte_val b = 133 \<or> byte_val b = 160"

definition skipSpace :: "string \<Rightarrow> string" where
  "skipSpace s = dropWhile isSpaceByte s"

definition atEnd :: "string \<Rightarrow> bool \<times> string" where
  "atEnd s = (let r = skipSpace s in (r = [], r))"

definition peek :: "string \<Rightarrow> char option" where
  "peek s = (case skipSpace s of [] \<Rightarrow> None | c # _ \<Rightarrow> Some c)"

definition consume :: "string \<Rightarrow> string \<Rightarrow> bool \<times> string" where
  "consume lit s =
     (let r = skipSpace s in
      if has_prefix r lit then
        (let r' = drop (length lit) r in
         if isWordChar (last lit) \<and> r' \<noteq> [] \<and> isWordChar (hd r') then (False, r)
         else (True, r'))
      else (False, r))"

definition expectKeyword :: "string \<Rightarrow> string \<Rightarrow> bool \<times> string" where
  "expectKeyword kw s =
     (let r = skipSpace s in
      if length r < length kw then (False, r)
      else if \<not> fold_eq (take (length kw) r) kw then (False, r)
      else let r' = drop (length kw) r in
        if r' \<noteq> [] \<and> isWordChar (hd r') then (False, r) else (True, r'))"

definition expectIdent :: "string \<Rightarrow> string option \<times> string" where
  "expectIdent s =
     (let r = skipSpace s in
      case r of
        [] \<Rightarrow> (None, r)
      | c # cs \<Rightarrow>
          if isIdentStart c then (Some (c # takeWhile isWordChar cs), dropWhile isWordChar cs)
          else (None, r))"

section \<open>Literals and column references\<close>

abbreviation quote_char :: char where
  "quote_char \<equiv> CHR 0x27"

fun stringBody :: "string \<Rightarrow> parse_error + (string \<times> string)" where
  "stringBody [] = Inl (ParseFailed ''unterminated string literal'' [])"
| "stringBody (ch # cs) =
     (if ch = quote_char then
        (case cs of
           c2 # cs' \<Rightarrow>
             if c2 = quote_char
             then rbind (stringBody cs') (\<lambda>(out, r). Inr (quote_char # out, r))
             else Inr ([], cs)
         | [] \<Rightarrow> Inr ([], []))
      else if byte_val ch < 32 \<or> byte_val ch = 127
      then Inl (ParseFailed ''control character in string literal'' (ch # cs))
      else rbind (stringBody cs) (\<lambda>(out, r). Inr (ch # out, r)))"

text \<open>The number lexeme \<open>[+-]?[0-9]*(\.[0-9]*)?\<close> at the head of the input, its digit count and
  the rest.\<close>

definition numberLexeme :: "string \<Rightarrow> string \<times> nat \<times> string" where
  "numberLexeme s =
     (let sg = (case s of c # _ \<Rightarrow> if c = CHR ''+'' \<or> c = CHR ''-'' then [c] else [] | [] \<Rightarrow> []);
          r1 = drop (length sg) s;
          d1 = takeWhile is_digit r1;
          r2 = dropWhile is_digit r1
      in case r2 of
           c # t \<Rightarrow>
             if c = CHR ''.''
             then (sg @ d1 @ c # takeWhile is_digit t,
                   length d1 + length (takeWhile is_digit t), dropWhile is_digit t)
             else (sg @ d1, length d1, r2)
         | [] \<Rightarrow> (sg @ d1, length d1, r2))"

definition parseLiteral :: "string \<Rightarrow> parse_error + (literal \<times> string)" where
  "parseLiteral s =
     (let r = skipSpace s in
      case r of
        [] \<Rightarrow> Inl (ParseFailed ''expected literal'' r)
      | c # cs \<Rightarrow>
          if c = quote_char
          then rbind (stringBody cs) (\<lambda>(v, r'). Inr (Literal ''string'' v, r'))
          else case numberLexeme r of
            (v, digits, r') \<Rightarrow>
              if digits = 0
              then (case expectKeyword ''NULL'' r of
                      (True, r'') \<Rightarrow> Inr (Literal ''null'' ''NULL'', r'')
                    | (False, r'') \<Rightarrow> Inl (ParseFailed ''expected literal'' r''))
              else Inr (Literal ''number'' v, r'))"

definition parseValue :: "string \<Rightarrow> parse_error + (node \<times> string)" where
  "parseValue s = rbind (parseLiteral s) (\<lambda>(l, r). Inr (LitNode l, r))"

definition parseColumnRef :: "string \<Rightarrow> parse_error + (node \<times> string)" where
  "parseColumnRef s =
     (case expectIdent s of
        (None, r) \<Rightarrow> Inl (ParseFailed ''expected column identifier'' r)
      | (Some id1, r) \<Rightarrow>
          (case consume ''.'' r of
             (True, r1) \<Rightarrow>
               (case expectIdent r1 of
                  (None, r2) \<Rightarrow> Inl (ParseFailed ''expected column identifier after .'' r2)
                | (Some id2, r2) \<Rightarrow> Inr (ColumnRef id1 id2, r2))
           | (False, r1) \<Rightarrow> Inr (ColumnRef [] id1, r1)))"

section \<open>Comparisons\<close>

text \<open>The \<open>IN\<close> list, after its opening parenthesis. Every literal takes at least one byte.\<close>

lemma skipSpace_le: "length (skipSpace s) \<le> length s"
  by (simp add: skipSpace_def length_dropWhile_le)

lemma stringBody_le: "stringBody s = Inr (v, r) \<Longrightarrow> length r \<le> length s"
  by (induction s arbitrary: v r rule: stringBody.induct)
     (fastforce simp: result_simps split: if_splits list.splits)+

lemma numberLexeme_split: "numberLexeme s = (v, n, r) \<Longrightarrow> s = v @ r \<and> n \<le> length v"
  by (auto simp: numberLexeme_def Let_def split: list.splits if_splits)
     (metis append.assoc append_Cons takeWhile_dropWhile_id append_Nil)+

lemma consume_length:
  "consume lit s = (True, r) \<Longrightarrow> length r + length lit \<le> length s"
  using skipSpace_le [of s]
  by (auto simp: consume_def Let_def has_prefix_def split: if_splits dest!: arg_cong [of _ _ length])

lemma consume_le: "consume lit s = (b, r) \<Longrightarrow> length r \<le> length s"
  using skipSpace_le [of s] by (auto simp: consume_def Let_def split: if_splits)

lemma expectKeyword_length:
  "expectKeyword kw s = (True, r) \<Longrightarrow> length r + length kw \<le> length s"
  using skipSpace_le [of s] by (auto simp: expectKeyword_def Let_def split: if_splits)

lemma expectKeyword_le: "expectKeyword kw s = (b, r) \<Longrightarrow> length r \<le> length s"
  using skipSpace_le [of s] by (auto simp: expectKeyword_def Let_def split: if_splits)

lemma expectIdent_less: "expectIdent s = (Some i, r) \<Longrightarrow> length r < length s"
proof -
  assume a: "expectIdent s = (Some i, r)"
  then obtain c cs where "skipSpace s = c # cs" "r = dropWhile isWordChar cs"
    by (auto simp: expectIdent_def Let_def split: list.splits if_splits)
  then show ?thesis
    using skipSpace_le [of s] length_dropWhile_le [of isWordChar cs] by simp
qed

lemma parseLiteral_less: "parseLiteral s = Inr (l, r) \<Longrightarrow> length r < length s"
proof -
  assume a: "parseLiteral s = Inr (l, r)"
  have le: "length (skipSpace s) \<le> length s" by (rule skipSpace_le)
  obtain c cs where r0: "skipSpace s = c # cs"
    using a by (auto simp: parseLiteral_def Let_def split: list.splits)
  show ?thesis
  proof (cases "c = quote_char")
    case True
    with a r0 obtain v where "stringBody cs = Inr (v, r)"
      by (auto simp: parseLiteral_def Let_def result_simps)
    then show ?thesis using stringBody_le r0 le by fastforce
  next
    case False
    obtain v n r' where nl: "numberLexeme (skipSpace s) = (v, n, r')"
      by (cases "numberLexeme (skipSpace s)") auto
    have sp: "skipSpace s = v @ r'" "n \<le> length v" using numberLexeme_split [OF nl] by auto
    show ?thesis
    proof (cases "n = 0")
      case True
      with a r0 False nl have "expectKeyword ''NULL'' (c # cs) = (True, r)"
        by (auto simp: parseLiteral_def Let_def split: prod.splits bool.splits)
      then show ?thesis using expectKeyword_length r0 le by fastforce
    next
      case n0: False
      with a r0 False nl have "r = r'"
        by (auto simp: parseLiteral_def Let_def split: prod.splits bool.splits)
      then show ?thesis using arg_cong [OF sp(1), of length] sp(2) n0 le by simp
    qed
  qed
qed

function parseInValues :: "string \<Rightarrow> parse_error + (literal list \<times> string)" where
  "parseInValues s =
     rbind (parseLiteral s) (\<lambda>(lit, r).
       case consume '')'' r of
         (True, r1) \<Rightarrow> Inr ([lit], r1)
       | (False, r1) \<Rightarrow>
           (case consume '','' r1 of
              (True, r2) \<Rightarrow> rbind (parseInValues r2) (\<lambda>(vals, r3). Inr (lit # vals, r3))
            | (False, r2) \<Rightarrow> Inl (ParseFailed ''expected , or ) in IN list'' r2)))"
  by pat_completeness auto
termination
  by (relation "measure length")
     (auto dest!: parseLiteral_less consume_le [OF sym] consume_length [OF sym])

declare parseInValues.simps [simp del]

fun compareValue :: "string \<Rightarrow> node \<Rightarrow> string \<Rightarrow> parse_error + (node \<times> string)" where
  "compareValue oper left s = rbind (parseValue s) (\<lambda>(v, r). Inr (BinaryOp oper left v, r))"

text \<open>The operator \<open>switch\<close>: the symbols are tried in the order of the source.\<close>

fun symbolOps :: "string list \<Rightarrow> string \<Rightarrow> string option \<times> string" where
  "symbolOps [] s = (None, s)"
| "symbolOps (oper # ops) s =
     (case consume oper s of (True, r) \<Rightarrow> (Some oper, r) | (False, r) \<Rightarrow> symbolOps ops r)"

definition comparisonSymbols :: "string list" where
  "comparisonSymbols = [''='', ''!='', ''<>'', ''<='', ''>='', ''<'', ''>'']"

definition parseComparison :: "string \<Rightarrow> parse_error + (node \<times> string)" where
  "parseComparison s =
     rbind (parseColumnRef s) (\<lambda>(left, r0).
       case symbolOps comparisonSymbols r0 of
         (Some oper, r) \<Rightarrow> compareValue oper left r
       | (None, r) \<Rightarrow>
           (case expectKeyword ''IN'' r of
              (True, r1) \<Rightarrow>
                (case consume ''('' r1 of
                   (False, r2) \<Rightarrow> Inl (ParseFailed ''expected ( after IN'' r2)
                 | (True, r2) \<Rightarrow>
                     rbind (parseInValues r2) (\<lambda>(vals, r3). Inr (InList left vals, r3)))
            | (False, r1) \<Rightarrow>
                (case expectKeyword ''LIKE'' r1 of
                   (True, r2) \<Rightarrow> compareValue ''LIKE'' left r2
                 | (False, r2) \<Rightarrow> Inl (ParseFailed ''expected comparison operator'' r2))))"

section \<open>Predicates\<close>

function (sequential) parseOr :: "nat \<Rightarrow> string \<Rightarrow> parse_error + (node \<times> string)"
and parseOrLoop :: "nat \<Rightarrow> node \<Rightarrow> string \<Rightarrow> parse_error + (node \<times> string)"
and parseAnd :: "nat \<Rightarrow> string \<Rightarrow> parse_error + (node \<times> string)"
and parseAndLoop :: "nat \<Rightarrow> node \<Rightarrow> string \<Rightarrow> parse_error + (node \<times> string)"
and parseNot :: "nat \<Rightarrow> string \<Rightarrow> parse_error + (node \<times> string)"
and parsePrimary :: "nat \<Rightarrow> string \<Rightarrow> parse_error + (node \<times> string)" where
  "parseOr 0 s = Inl OutOfFuel"
| "parseOr (Suc n) s = rbind (parseAnd n s) (\<lambda>(left, r). parseOrLoop n left r)"
| "parseOrLoop 0 left s = Inl OutOfFuel"
| "parseOrLoop (Suc n) left s =
     (case expectKeyword ''OR'' s of
        (True, r) \<Rightarrow>
          rbind (parseAnd n r) (\<lambda>(right, r'). parseOrLoop n (BinaryOp ''OR'' left right) r')
      | (False, r) \<Rightarrow> Inr (left, r))"
| "parseAnd 0 s = Inl OutOfFuel"
| "parseAnd (Suc n) s = rbind (parseNot n s) (\<lambda>(left, r). parseAndLoop n left r)"
| "parseAndLoop 0 left s = Inl OutOfFuel"
| "parseAndLoop (Suc n) left s =
     (case expectKeyword ''AND'' s of
        (True, r) \<Rightarrow>
          rbind (parseNot n r) (\<lambda>(right, r'). parseAndLoop n (BinaryOp ''AND'' left right) r')
      | (False, r) \<Rightarrow> Inr (left, r))"
| "parseNot 0 s = Inl OutOfFuel"
| "parseNot (Suc n) s =
     (case expectKeyword ''NOT'' s of
        (True, r) \<Rightarrow> rbind (parseNot n r) (\<lambda>(operand, r'). Inr (UnaryOp ''NOT'' operand, r'))
      | (False, r) \<Rightarrow> parsePrimary n r)"
| "parsePrimary 0 s = Inl OutOfFuel"
| "parsePrimary (Suc n) s =
     (case consume ''('' s of
        (True, r) \<Rightarrow>
          rbind (parseOr n r) (\<lambda>(inner, r1).
            case consume '')'' r1 of
              (True, r2) \<Rightarrow> Inr (inner, r2)
            | (False, r2) \<Rightarrow> Inl (ParseFailed ''expected )'' r2))
      | (False, r) \<Rightarrow> parseComparison r)"
  by pat_completeness auto
termination
  by (relation "measure (case_sum (case_sum fst (case_sum fst fst))
                                  (case_sum fst (case_sum fst fst)))") auto

definition parse_fuel :: "string \<Rightarrow> nat" where
  "parse_fuel s = 4 * length s + 4"

definition parsePred :: "string \<Rightarrow> parse_error + (node \<times> string)" where
  "parsePred s = parseOr (parse_fuel s) s"

definition ParseRowFilter :: "string \<Rightarrow> parse_error + fragment" where
  "ParseRowFilter src =
     rbind (parsePred src) (\<lambda>(root, r).
       case atEnd r of
         (True, _) \<Rightarrow> Inr (RowFragment root)
       | (False, r') \<Rightarrow> Inl (ParseFailed ''unexpected token after predicate'' r'))"

section \<open>Column masks\<close>

definition parseMaskExpr :: "string \<Rightarrow> parse_error + (node \<times> string)" where
  "parseMaskExpr s =
     (case expectKeyword ''NULL'' (skipSpace s) of
        (True, r) \<Rightarrow> Inr (LitNode (Literal ''null'' ''NULL''), r)
      | (False, r) \<Rightarrow>
          if peek r = Some quote_char
          then rbind (parseLiteral r) (\<lambda>(l, r'). Inr (LitNode l, r'))
          else
            (case expectIdent r of
               (None, r1) \<Rightarrow> Inl (ParseFailed ''expected mask expression'' r1)
             | (Some fid, r1) \<Rightarrow>
                 (case consume ''('' r1 of
                    (True, r2) \<Rightarrow>
                      rbind (parseColumnRef r2) (\<lambda>(arg, r3).
                        case consume '')'' r3 of
                          (True, r4) \<Rightarrow> Inr (FuncCall fid arg, r4)
                        | (False, r4) \<Rightarrow> Inl (ParseFailed ''expected ) closing function call'' r4))
                  | (False, r2) \<Rightarrow>
                      (case consume ''.'' r2 of
                         (True, r3) \<Rightarrow>
                           (case expectIdent r3 of
                              (None, r4) \<Rightarrow>
                                Inl (ParseFailed ''expected column identifier after .'' r4)
                            | (Some id2, r4) \<Rightarrow> Inr (ColumnRef fid id2, r4))
                       | (False, r3) \<Rightarrow> Inr (ColumnRef [] fid, r3)))))"

lemma atEnd_le: "atEnd s = (b, r) \<Longrightarrow> length r \<le> length s"
  using skipSpace_le [of s] by (auto simp: atEnd_def Let_def)

lemma expectIdent_le: "expectIdent s = (i, r) \<Longrightarrow> length r \<le> length s"
proof (cases i)
  case None
  moreover assume "expectIdent s = (i, r)"
  ultimately have "r = skipSpace s"
    by (auto simp: expectIdent_def Let_def split: list.splits if_splits)
  then show ?thesis by (simp add: skipSpace_le)
next
  case (Some x)
  moreover assume "expectIdent s = (i, r)"
  ultimately show ?thesis using expectIdent_less by (metis less_imp_le)
qed

lemma parseColumnRef_less: "parseColumnRef s = Inr (x, r) \<Longrightarrow> length r < length s"
  by (fastforce simp: parseColumnRef_def split: prod.splits option.splits bool.splits
        dest: expectIdent_less consume_le)

lemma parseMaskExpr_le: "parseMaskExpr s = Inr (x, r) \<Longrightarrow> length r \<le> length s"
proof -
  assume a: "parseMaskExpr s = Inr (x, r)"
  obtain b q where k: "expectKeyword ''NULL'' (skipSpace s) = (b, q)"
    by (cases "expectKeyword ''NULL'' (skipSpace s)")
  have q: "length q \<le> length s"
    using expectKeyword_le [OF k] skipSpace_le [of s] by simp
  show ?thesis
  proof (cases b)
    case True
    with a k q show ?thesis by (simp add: parseMaskExpr_def)
  next
    case False
    show ?thesis
    proof (cases "peek q = Some quote_char")
      case True
      with a k False show ?thesis
        using q parseLiteral_less by (fastforce simp: parseMaskExpr_def result_simps)
    next
      case pk: False
      with a k False q show ?thesis
        by (auto simp: parseMaskExpr_def elim!: rbind_InrE
              split: prod.split_asm option.split_asm bool.split_asm
              dest!: expectIdent_less consume_le parseColumnRef_less)
    qed
  qed
qed

function parseMaskList :: "string \<Rightarrow> parse_error + mask_project list" where
  "parseMaskList s =
     (case atEnd s of
        (True, _) \<Rightarrow> Inr []
      | (False, r) \<Rightarrow>
          (case expectIdent r of
             (None, r1) \<Rightarrow> Inl (ParseFailed ''expected column identifier'' r1)
           | (Some col, r1) \<Rightarrow>
               (case expectKeyword ''AS'' r1 of
                  (False, r2) \<Rightarrow> Inl (ParseFailed ''expected AS after column'' r2)
                | (True, r2) \<Rightarrow>
                    rbind (parseMaskExpr r2) (\<lambda>(e, r3).
                      case atEnd r3 of
                        (True, _) \<Rightarrow> Inr [\<lparr>mp_column = col, mp_expr = e\<rparr>]
                      | (False, r4) \<Rightarrow>
                          (case consume '','' r4 of
                             (False, r5) \<Rightarrow>
                               Inl (ParseFailed
                                 ''expected , or end of input between mask projections'' r5)
                           | (True, r5) \<Rightarrow>
                               rbind (parseMaskList r5)
                                 (\<lambda>ps. Inr (\<lparr>mp_column = col, mp_expr = e\<rparr> # ps)))))))"
  by pat_completeness auto
termination
  by (relation "measure length")
     (auto dest!: atEnd_le [OF sym] expectIdent_less [OF sym] expectKeyword_le [OF sym]
        parseMaskExpr_le consume_length [OF sym])

declare parseMaskList.simps [simp del]

definition ParseColumnMask :: "string \<Rightarrow> parse_error + fragment" where
  "ParseColumnMask src =
     rbind (parseMaskList src) (\<lambda>ps.
       if ps = [] then Inl (ParseFailed ''column mask is empty'' []) else Inr (MaskFragment ps))"

section \<open>Fuel\<close>

lemma symbolOps_le: "symbolOps ops s = (x, r) \<Longrightarrow> length r \<le> length s"
  by (induction ops s rule: symbolOps.induct) (fastforce dest: consume_le split: prod.splits bool.splits)+

lemma parseValue_less: "parseValue s = Inr (x, r) \<Longrightarrow> length r < length s"
  by (auto simp: parseValue_def result_simps dest: parseLiteral_less)

lemma compareValue_less: "compareValue oper left s = Inr (x, r) \<Longrightarrow> length r < length s"
  by (auto simp: result_simps dest: parseValue_less)

lemma parseInValues_le: "parseInValues s = Inr (vs, r) \<Longrightarrow> length r \<le> length s"
proof (induction s arbitrary: vs r rule: parseInValues.induct)
  case (1 s)
  note step = "1.prems" [unfolded parseInValues.simps [of s]]
  show ?case
    using step "1.IH"
    by (fastforce elim!: rbind_InrE split: prod.split_asm bool.split_asm
         dest: parseLiteral_less consume_le)
qed

lemma parseComparison_less: "parseComparison s = Inr (x, r) \<Longrightarrow> length r < length s"
  unfolding parseComparison_def
  by (auto simp del: compareValue.simps elim!: rbind_InrE
        split: prod.split_asm option.split_asm bool.split_asm
        dest!: parseColumnRef_less symbolOps_le compareValue_less expectKeyword_le consume_le
          parseInValues_le)

text \<open>Every parser consumes input; a loop may leave it as it is.\<close>

lemma parse_consumes:
  "parseOr n s = Inr (x, r) \<Longrightarrow> length r < length s"
  "parseOrLoop n l s = Inr (x, r) \<Longrightarrow> length r \<le> length s"
  "parseAnd n s = Inr (x, r) \<Longrightarrow> length r < length s"
  "parseAndLoop n l s = Inr (x, r) \<Longrightarrow> length r \<le> length s"
  "parseNot n s = Inr (x, r) \<Longrightarrow> length r < length s"
  "parsePrimary n s = Inr (x, r) \<Longrightarrow> length r < length s"
proof (induction n arbitrary: s l x r)
  case (Suc n)
  {
    case 1 then show ?case by (auto elim!: rbind_InrE dest!: Suc.IH)
  next
    case 2 then show ?case
      by (auto elim!: rbind_InrE split: prod.split_asm bool.split_asm
            dest!: Suc.IH expectKeyword_le)
  next
    case 3 then show ?case by (auto elim!: rbind_InrE dest!: Suc.IH)
  next
    case 4 then show ?case
      by (auto elim!: rbind_InrE split: prod.split_asm bool.split_asm
            dest!: Suc.IH expectKeyword_le)
  next
    case 5 then show ?case
      by (auto elim!: rbind_InrE split: prod.split_asm bool.split_asm
            dest!: Suc.IH expectKeyword_le)
  next
    case 6 then show ?case
      by (auto elim!: rbind_InrE split: prod.split_asm bool.split_asm
            dest!: Suc.IH consume_le parseComparison_less)
  }
qed simp_all

lemma parseLiteral_fuelless: "parseLiteral s \<noteq> Inl OutOfFuel"
proof -
  have "stringBody t \<noteq> Inl OutOfFuel" for t
    by (induction t rule: stringBody.induct) (auto simp: result_simps split: list.splits)
  then show ?thesis
    by (auto simp: parseLiteral_def Let_def result_simps split: list.splits prod.splits bool.splits)
qed

lemma parseInValues_fuelless: "parseInValues s \<noteq> Inl OutOfFuel"
proof (induction s rule: parseInValues.induct)
  case (1 s)
  show ?case
  proof
    assume "parseInValues s = Inl OutOfFuel"
    note step = this [unfolded parseInValues.simps [of s]]
    then show False
      using "1.IH" by (fastforce simp: parseLiteral_fuelless elim!: rbind_InlE
            split: prod.split_asm bool.split_asm)
  qed
qed

lemma parseComparison_fuelless: "parseComparison s \<noteq> Inl OutOfFuel"
  by (auto simp: parseComparison_def parseColumnRef_def parseValue_def result_simps
        parseLiteral_fuelless parseInValues_fuelless
        split: prod.splits option.splits bool.splits)

lemma parse_fuel_enough:
  "4 * length s + 4 \<le> n \<Longrightarrow> parseOr n s \<noteq> Inl OutOfFuel"
  "4 * length s + 4 \<le> n \<Longrightarrow> parseOrLoop n l s \<noteq> Inl OutOfFuel"
  "4 * length s + 3 \<le> n \<Longrightarrow> parseAnd n s \<noteq> Inl OutOfFuel"
  "4 * length s + 4 \<le> n \<Longrightarrow> parseAndLoop n l s \<noteq> Inl OutOfFuel"
  "4 * length s + 2 \<le> n \<Longrightarrow> parseNot n s \<noteq> Inl OutOfFuel"
  "4 * length s + 1 \<le> n \<Longrightarrow> parsePrimary n s \<noteq> Inl OutOfFuel"
proof (induction n arbitrary: s l)
  case (Suc n)
  note less = parse_consumes
  {
    case 1 then show ?case
      using Suc.IH(2,3) less(3) by (fastforce elim!: rbind_InlE)
  next
    case 2 then show ?case
      using Suc.IH(2,3) less(3)
      by (fastforce elim!: rbind_InlE split: prod.split_asm bool.split_asm dest: expectKeyword_length)
  next
    case 3 then show ?case
      using Suc.IH(4,5) less(5) by (fastforce elim!: rbind_InlE)
  next
    case 4 then show ?case
      using Suc.IH(4,5) less(5)
      by (fastforce elim!: rbind_InlE split: prod.split_asm bool.split_asm dest: expectKeyword_length)
  next
    case 5 then show ?case
      using Suc.IH(5,6)
      by (fastforce elim!: rbind_InlE split: prod.split_asm bool.split_asm
            dest: expectKeyword_length expectKeyword_le)
  next
    case 6 then show ?case
      using Suc.IH(1)
      by (fastforce simp: parseComparison_fuelless elim!: rbind_InlE
            split: prod.split_asm bool.split_asm dest: consume_length)
  }
qed simp_all

text \<open>A result reached with some fuel is the result with any more.\<close>

lemma parse_fuel_Suc:
  "parseOr n s \<noteq> Inl OutOfFuel \<Longrightarrow> parseOr (Suc n) s = parseOr n s"
  "parseOrLoop n l s \<noteq> Inl OutOfFuel \<Longrightarrow> parseOrLoop (Suc n) l s = parseOrLoop n l s"
  "parseAnd n s \<noteq> Inl OutOfFuel \<Longrightarrow> parseAnd (Suc n) s = parseAnd n s"
  "parseAndLoop n l s \<noteq> Inl OutOfFuel \<Longrightarrow> parseAndLoop (Suc n) l s = parseAndLoop n l s"
  "parseNot n s \<noteq> Inl OutOfFuel \<Longrightarrow> parseNot (Suc n) s = parseNot n s"
  "parsePrimary n s \<noteq> Inl OutOfFuel \<Longrightarrow> parsePrimary (Suc n) s = parsePrimary n s"
proof (induction n arbitrary: s l)
  case (Suc n)
  have bind: "rbind (p' t) f' = rbind (p t) f"
    if "rbind (p t) f \<noteq> Inl OutOfFuel" "p t \<noteq> Inl OutOfFuel \<Longrightarrow> p' t = p t"
      "\<And>x r. f (x, r) \<noteq> Inl OutOfFuel \<Longrightarrow> f' (x, r) = f (x, r)"
    for p p' :: "string \<Rightarrow> parse_error + (node \<times> string)"
      and f f' :: "node \<times> string \<Rightarrow> parse_error + (node \<times> string)" and t
    using that by (cases "p t") auto
  {
    case 1 then show ?case
      unfolding parseOr.simps by (intro bind) (auto intro: Suc.IH simp del: parseOrLoop.simps parseAnd.simps)
  next
    case 2
    obtain b r where k: "expectKeyword ''OR'' s = (b, r)" by (cases "expectKeyword ''OR'' s")
    show ?case
    proof (cases b)
      case True
      with 2 k show ?thesis
        unfolding parseOrLoop.simps(2) [of _ l s]
        by (simp del: parseOrLoop.simps parseAnd.simps)
           (intro bind, auto intro: Suc.IH simp del: parseOrLoop.simps parseAnd.simps)
    qed (simp add: k)
  next
    case 3 then show ?case
      unfolding parseAnd.simps by (intro bind) (auto intro: Suc.IH simp del: parseAndLoop.simps parseNot.simps)
  next
    case 4
    obtain b r where k: "expectKeyword ''AND'' s = (b, r)" by (cases "expectKeyword ''AND'' s")
    show ?case
    proof (cases b)
      case True
      with 4 k show ?thesis
        unfolding parseAndLoop.simps(2) [of _ l s]
        by (simp del: parseAndLoop.simps parseNot.simps)
           (intro bind, auto intro: Suc.IH simp del: parseAndLoop.simps parseNot.simps)
    qed (simp add: k)
  next
    case 5
    obtain b r where k: "expectKeyword ''NOT'' s = (b, r)" by (cases "expectKeyword ''NOT'' s")
    show ?case
      using 5 k unfolding parseNot.simps(2) [of _ s]
      by (cases b; simp del: parseNot.simps parsePrimary.simps)
         (intro bind Suc.IH, auto intro: Suc.IH simp del: parseNot.simps parsePrimary.simps)+
  next
    case 6 then show ?case
      unfolding parsePrimary.simps
      by (auto split: prod.splits bool.splits simp del: parseOr.simps
           intro!: bind intro: Suc.IH)
  }
qed simp_all

lemma parseOr_fuel_mono:
  "n \<le> m \<Longrightarrow> parseOr n s \<noteq> Inl OutOfFuel \<Longrightarrow> parseOr m s = parseOr n s"
  by (induction m rule: dec_induct) (auto simp: parse_fuel_Suc(1) simp del: parseOr.simps)

lemma parseNot_fuel_mono:
  "n \<le> m \<Longrightarrow> parseNot n s \<noteq> Inl OutOfFuel \<Longrightarrow> parseNot m s = parseNot n s"
  by (induction m rule: dec_induct) (auto simp: parse_fuel_Suc(5) simp del: parseNot.simps)

lemma parsePred_eqI: "parseOr n s = Inr y \<Longrightarrow> parsePred s = Inr y"
proof -
  assume n: "parseOr n s = Inr y"
  let ?m = "max n (parse_fuel s)"
  have "parseOr ?m s = parseOr n s" using n by (intro parseOr_fuel_mono) auto
  moreover have "parseOr ?m s = parseOr (parse_fuel s) s"
    by (intro parseOr_fuel_mono parse_fuel_enough) (auto simp: parse_fuel_def)
  ultimately show ?thesis using n by (simp add: parsePred_def)
qed

section \<open>Well-formed fragments\<close>

text \<open>What a parsed literal, column or predicate looks like.\<close>

definition is_number :: "string \<Rightarrow> bool" where
  "is_number v \<longleftrightarrow> (case numberLexeme v of (w, n, r) \<Rightarrow> 0 < n \<and> r = [])"

fun wf_literal :: "literal \<Rightarrow> bool" where
  "wf_literal (Literal k v) =
     (if k = ''string'' then list_all (\<lambda>ch. 32 \<le> byte_val ch \<and> byte_val ch \<noteq> 127) v
      else if k = ''number'' then is_number v
      else k = ''null'' \<and> v = ''NULL'')"

fun wf_column :: "node \<Rightarrow> bool" where
  "wf_column (ColumnRef t c) =
     (isSimpleIdent c \<and>
      (if t = [] then \<not> fold_eq c ''NOT'' else isSimpleIdent t \<and> \<not> fold_eq t ''NOT''))"
| "wf_column _ = False"

definition comparison_ops :: "string list" where
  "comparison_ops = comparisonSymbols @ [''LIKE'']"

fun wf_row :: "node \<Rightarrow> bool" where
  "wf_row (BinaryOp oper l r) =
     (if oper = ''AND'' \<or> oper = ''OR'' then wf_row l \<and> wf_row r
      else oper \<in> set comparison_ops \<and> wf_column l \<and>
        (case r of LitNode lit \<Rightarrow> wf_literal lit | _ \<Rightarrow> False))"
| "wf_row (UnaryOp oper x) = (oper = ''NOT'' \<and> wf_row x)"
| "wf_row (InList l vs) = (wf_column l \<and> vs \<noteq> [] \<and> list_all wf_literal vs)"
| "wf_row _ = False"

subsection \<open>Every accepted row filter is well-formed\<close>

lemma skipSpace_idem [simp]: "skipSpace (skipSpace s) = skipSpace s"
  by (simp add: skipSpace_def dropWhile_idem)

lemma printable_quote: "32 \<le> byte_val quote_char \<and> byte_val quote_char \<noteq> 127"
  by simp

lemma stringBody_printable:
  "stringBody s = Inr (v, r) \<Longrightarrow> list_all (\<lambda>ch. 32 \<le> byte_val ch \<and> byte_val ch \<noteq> 127) v"
proof (induction s arbitrary: v r rule: stringBody.induct)
  case (2 ch cs)
  then show ?case
    by (auto elim!: rbind_InrE split: if_split_asm list.split_asm)
qed simp

text \<open>The parts of a lexeme: sign, integer digits, and what follows them.\<close>

definition number_parts :: "string \<Rightarrow> string \<Rightarrow> string \<Rightarrow> bool" where
  "number_parts sg d t \<longleftrightarrow>
     (sg = [] \<or> sg = ''+'' \<or> sg = ''-'') \<and> list_all is_digit d \<and>
     (t = [] \<or> \<not> is_digit (hd t)) \<and>
     (sg = [] \<and> d = [] \<longrightarrow> t = [] \<or> hd t \<noteq> CHR ''+'' \<and> hd t \<noteq> CHR ''-'')"

lemma hd_dropWhile_or: "dropWhile P xs = [] \<or> \<not> P (hd (dropWhile P xs))"
  using hd_dropWhile by blast

lemma number_parts_ex: "\<exists>sg d t. s = sg @ d @ t \<and> number_parts sg d t"
proof -
  let ?sg = "case s of c # _ \<Rightarrow> if c = CHR ''+'' \<or> c = CHR ''-'' then [c] else [] | [] \<Rightarrow> []"
  let ?r = "drop (length ?sg) s"
  let ?d = "takeWhile is_digit ?r" and ?t = "dropWhile is_digit ?r"
  have "s = ?sg @ ?d @ ?t" by (auto split: list.splits)
  moreover have "?sg = [] \<and> ?d = [] \<longrightarrow> ?t = [] \<or> hd ?t \<noteq> CHR ''+'' \<and> hd ?t \<noteq> CHR ''-''"
    by (cases s) auto
  then have "number_parts ?sg ?d ?t"
    using hd_dropWhile_or [of is_digit ?r]
    by (auto simp: number_parts_def list_all_iff dest: set_takeWhileD split: list.splits)
  ultimately show ?thesis by blast
qed

lemma takeWhile_digits:
  "list_all P d \<Longrightarrow> t = [] \<or> \<not> P (hd t) \<Longrightarrow> takeWhile P (d @ t) = d \<and> dropWhile P (d @ t) = t"
  by (induction d) (auto, (cases t; auto)+)

lemma numberLexeme_parts:
  assumes "number_parts sg d t"
  shows "numberLexeme (sg @ d @ t) =
    (case t of
       c # u \<Rightarrow>
         if c = CHR ''.''
         then (sg @ d @ c # takeWhile is_digit u, length d + length (takeWhile is_digit u),
               dropWhile is_digit u)
         else (sg @ d, length d, t)
     | [] \<Rightarrow> (sg @ d, length d, t))"
proof -
  let ?s = "sg @ d @ t"
  have sg: "(case ?s of c # _ \<Rightarrow> if c = CHR ''+'' \<or> c = CHR ''-'' then [c] else [] | [] \<Rightarrow> []) = sg"
  proof (cases "sg = []")
    case True
    then show ?thesis
      using assms by (cases d; cases t) (auto simp: number_parts_def is_digit_def)
  next
    case False
    then show ?thesis using assms by (auto simp: number_parts_def)
  qed
  have tw: "takeWhile is_digit (d @ t) = d" "dropWhile is_digit (d @ t) = t"
    using assms takeWhile_digits [of is_digit d t] by (auto simp: number_parts_def)
  have dr: "drop (length sg) ?s = d @ t" by simp
  show ?thesis
    unfolding numberLexeme_def Let_def sg dr tw by (rule refl)
qed

lemma number_parts_dot: "number_parts sg d (c # t) \<Longrightarrow> c = CHR ''.'' \<Longrightarrow> number_parts sg d (c # u)"
  by (auto simp: number_parts_def)

lemma number_parts_Nil: "number_parts sg d t \<Longrightarrow> number_parts sg d []"
  by (auto simp: number_parts_def)

lemma digits_takeWhile: "takeWhile P (takeWhile P u) = takeWhile P u \<and> dropWhile P (takeWhile P u) = []"
  by (induction u) auto

lemma is_number_lexeme:
  assumes "numberLexeme s = (v, n, r)" "0 < n"
  shows "is_number v"
proof -
  obtain sg d t where s: "s = sg @ d @ t" and p: "number_parts sg d t"
    using number_parts_ex by blast
  have "numberLexeme v = (v, n, [])"
  proof (cases t)
    case Nil
    with assms(1) s numberLexeme_parts [OF p] show ?thesis by auto
  next
    case (Cons c u)
    show ?thesis
    proof (cases "c = CHR ''.''")
      case True
      have "v = sg @ d @ c # takeWhile is_digit u" "n = length d + length (takeWhile is_digit u)"
        using assms(1) s numberLexeme_parts [OF p] Cons True by auto
      then show ?thesis
        using numberLexeme_parts [OF number_parts_dot [OF p [unfolded Cons] True]] True
          digits_takeWhile [of is_digit u] by simp
    next
      case False
      have "v = sg @ d" "n = length d"
        using assms(1) s numberLexeme_parts [OF p] Cons False by auto
      then show ?thesis
        using numberLexeme_parts [OF number_parts_Nil [OF p]] by simp
    qed
  qed
  with assms(2) show ?thesis by (simp add: is_number_def)
qed

lemma parseLiteral_wf: "parseLiteral s = Inr (l, r) \<Longrightarrow> wf_literal l"
  by (auto simp: parseLiteral_def Let_def elim!: rbind_InrE stringBody_printable is_number_lexeme
      split: list.split_asm if_split_asm prod.split_asm bool.split_asm)

lemma parseInValues_wf:
  "parseInValues s = Inr (vs, r) \<Longrightarrow> vs \<noteq> [] \<and> list_all wf_literal vs"
proof (induction s arbitrary: vs r rule: parseInValues.induct)
  case (1 s)
  note step = "1.prems" [unfolded parseInValues.simps [of s]]
  show ?case
    using step "1.IH"
    by (fastforce elim!: rbind_InrE split: prod.split_asm bool.split_asm dest: parseLiteral_wf)
qed

lemma expectIdent_Some:
  "expectIdent s = (Some i, r) \<Longrightarrow>
     isSimpleIdent i \<and> skipSpace s = i @ r \<and> (r = [] \<or> \<not> isWordChar (hd r))"
  by (auto simp: expectIdent_def Let_def list_all_iff dest: set_takeWhileD
      split: list.split_asm if_split_asm)
     (metis dropWhile_eq_Nil_conv hd_dropWhile)

lemma not_keyword_ident:
  assumes "expectKeyword kw s = (False, q)" "expectIdent s = (Some i, r)"
  shows "\<not> fold_eq i kw"
proof
  assume f: "fold_eq i kw"
  have "length i = length kw" using f by (rule fold_eq_length)
  with expectIdent_Some [OF assms(2)] f have "expectKeyword kw s = (True, r)"
    by (auto simp: expectKeyword_def Let_def)
  with assms(1) show False by simp
qed

lemma parseColumnRef_wf:
  assumes "parseColumnRef s = Inr (x, r)" "expectKeyword ''NOT'' s = (False, q)"
  shows "wf_column x"
proof -
  obtain i r1 where i: "expectIdent s = (Some i, r1)"
    using assms(1) by (auto simp: parseColumnRef_def split: prod.split_asm option.split_asm)
  have "isSimpleIdent i" "\<not> fold_eq i ''NOT''" "i \<noteq> []"
    using expectIdent_Some [OF i] not_keyword_ident [OF assms(2) i] isSimpleIdent_nonempty by auto
  with assms(1) i show ?thesis
    by (auto simp: parseColumnRef_def split: prod.split_asm bool.split_asm option.split_asm
        dest!: expectIdent_Some)
qed

lemma symbolOps_Some: "symbolOps ops s = (Some oper, r) \<Longrightarrow> oper \<in> set ops"
  by (induction ops s rule: symbolOps.induct) (auto split: prod.split_asm bool.split_asm)

lemma compareValue_wf:
  assumes "compareValue oper left s = Inr (x, r)" "oper \<in> set comparison_ops" "wf_column left"
  shows "wf_row x"
  using assms
  by (auto simp: parseValue_def comparison_ops_def comparisonSymbols_def elim!: rbind_InrE
      dest: parseLiteral_wf)

lemma parseComparison_wf:
  assumes "parseComparison s = Inr (x, r)" "expectKeyword ''NOT'' s = (False, q)"
  shows "wf_row x"
proof -
  obtain left r0 where l: "parseColumnRef s = Inr (left, r0)"
    using assms(1) by (auto simp: parseComparison_def elim!: rbind_InrE)
  have "wf_column left" by (rule parseColumnRef_wf [OF l assms(2)])
  with assms(1) l show ?thesis
    by (auto simp: parseComparison_def simp del: compareValue.simps elim!: rbind_InrE
        split: prod.split_asm option.split_asm bool.split_asm
        dest: compareValue_wf parseInValues_wf)
       (auto simp: comparison_ops_def simp del: compareValue.simps
        dest!: symbolOps_Some intro: compareValue_wf)
qed

lemma parse_wf:
  "parseOr n s = Inr (x, r) \<Longrightarrow> wf_row x"
  "parseOrLoop n l s = Inr (x, r) \<Longrightarrow> wf_row l \<Longrightarrow> wf_row x"
  "parseAnd n s = Inr (x, r) \<Longrightarrow> wf_row x"
  "parseAndLoop n l s = Inr (x, r) \<Longrightarrow> wf_row l \<Longrightarrow> wf_row x"
  "parseNot n s = Inr (x, r) \<Longrightarrow> wf_row x"
  "parsePrimary n s = Inr (x, r) \<Longrightarrow> expectKeyword ''NOT'' s = (False, q) \<Longrightarrow> wf_row x"
proof (induction n arbitrary: s l x r q)
  case (Suc n)
  {
    case 1 then show ?case by (auto elim!: rbind_InrE intro: Suc.IH)
  next
    case 2 then show ?case
      by (auto elim!: rbind_InrE split: prod.split_asm bool.split_asm intro: Suc.IH)
         (metis Suc.IH(2,3) wf_row.simps(1))
  next
    case 3 then show ?case by (auto elim!: rbind_InrE intro: Suc.IH)
  next
    case 4 then show ?case
      by (auto elim!: rbind_InrE split: prod.split_asm bool.split_asm intro: Suc.IH)
         (metis Suc.IH(4,5) wf_row.simps(1))
  next
    case 5
    obtain b q where k: "expectKeyword ''NOT'' s = (b, q)"
      by (cases "expectKeyword ''NOT'' s")
    have "\<not> b \<Longrightarrow> expectKeyword ''NOT'' q = (False, q)"
      using k by (auto simp: expectKeyword_def Let_def split: if_split_asm)
    with 5 k show ?case
      by (cases b) (auto elim!: rbind_InrE intro: Suc.IH)
  next
    case 6
    obtain b q' where k: "consume ''('' s = (b, q')" by (cases "consume ''('' s")
    have "\<not> b \<Longrightarrow> expectKeyword ''NOT'' q' = (False, q)"
      using k 6(2) by (auto simp: expectKeyword_def consume_def Let_def split: if_split_asm)
    with 6 k show ?case
      by (cases b) (auto elim!: rbind_InrE split: prod.split_asm bool.split_asm
          intro: Suc.IH parseComparison_wf)
  }
qed simp_all

lemma ParseRowFilter_wf:
  "ParseRowFilter src = Inr f \<Longrightarrow> \<exists>x. f = RowFragment x \<and> wf_row x"
  by (auto simp: ParseRowFilter_def parsePred_def elim!: rbind_InrE
      split: prod.split_asm bool.split_asm dest: parse_wf(1))

end
