(* ===== verification/Dialect_Emit.thy ===== *)
theory Dialect_Emit
  imports SQL_Grammar
begin

text \<open>
  The per-engine SQL emitters (\<open>internal/policy/compiler/dialect\<close>): the dialect view of the
  AST, the adapters of \<open>compiler.go\<close> that build it, the Trino and Spark emitters and the
  Dremio stub. The locale \<open>predicate_emitter\<close> states what the two live emitters agree on;
  that emitted row filters parse back to the policy they were compiled from is proved once,
  inside it.
\<close>

section \<open>The dialect view of the AST\<close>

datatype ast_literal = AstLit (ast_kind: string) (ast_value: string)

datatype ast =
    AstBinaryOp string ast ast
  | AstUnaryOp string ast
  | AstColumnRef string string
  | AstLiteral ast_literal
  | AstInList ast "ast_literal list"
  | AstFuncCall string ast
  | AstNil

record ast_mask_project =
  amp_column :: string
  amp_expr :: ast

datatype dialect_error = DialectStub | EmitError string

fun adaptLiteral :: "literal \<Rightarrow> ast_literal" where
  "adaptLiteral (Literal k v) = AstLit k v"

fun adaptNodeForDialect :: "node \<Rightarrow> ast" where
  "adaptNodeForDialect (BinaryOp oper l r) =
     AstBinaryOp oper (adaptNodeForDialect l) (adaptNodeForDialect r)"
| "adaptNodeForDialect (UnaryOp oper x) = AstUnaryOp oper (adaptNodeForDialect x)"
| "adaptNodeForDialect (ColumnRef t c) = AstColumnRef t c"
| "adaptNodeForDialect (LitNode l) = AstLiteral (adaptLiteral l)"
| "adaptNodeForDialect (InList l vs) = AstInList (adaptNodeForDialect l) (map adaptLiteral vs)"
| "adaptNodeForDialect (FuncCall f x) = AstFuncCall f (adaptNodeForDialect x)"
| "adaptNodeForDialect NilNode = AstNil"

definition adaptMaskForDialect :: "mask_project list \<Rightarrow> ast_mask_project list" where
  "adaptMaskForDialect =
     map (\<lambda>p. \<lparr>amp_column = mp_column p, amp_expr = adaptNodeForDialect (mp_expr p)\<rparr>)"

section \<open>Emitters\<close>

text \<open>\<open>strings.ReplaceAll(v, "'", "''")\<close>.\<close>

definition doubleQuotes :: "string \<Rightarrow> string" where
  "doubleQuotes v = concat (map (\<lambda>c. if c = quote_char then [c, c] else [c]) v)"

definition commaList :: "string list \<Rightarrow> string" where
  "commaList = join_with '', ''"

fun trino_emitLiteral :: "ast_literal \<Rightarrow> dialect_error + string" where
  "trino_emitLiteral (AstLit k v) =
     (if k = ''string'' then Inr (quote_char # doubleQuotes v @ [quote_char])
      else if k = ''number'' then Inr v
      else if k = ''null'' then Inr ''NULL''
      else Inl (EmitError ''trino: unsupported literal kind''))"

fun trino_emitPred :: "ast \<Rightarrow> dialect_error + string" where
  "trino_emitPred (AstBinaryOp oper l r) =
     rbind (trino_emitPred l) (\<lambda>a. rbind (trino_emitPred r) (\<lambda>b.
       Inr (''('' @ a @ '' '' @ oper @ '' '' @ b @ '')'')))"
| "trino_emitPred (AstUnaryOp oper x) =
     rbind (trino_emitPred x) (\<lambda>a. Inr (''('' @ oper @ '' '' @ a @ '')''))"
| "trino_emitPred (AstColumnRef t c) = Inr (if t \<noteq> [] then t @ ''.'' @ c else c)"
| "trino_emitPred (AstLiteral l) = trino_emitLiteral l"
| "trino_emitPred (AstInList l vs) =
     rbind (trino_emitPred l) (\<lambda>a. rbind (traverse trino_emitLiteral vs) (\<lambda>ss.
       Inr (a @ '' IN ('' @ commaList ss @ '')'')))"
| "trino_emitPred (AstFuncCall f x) =
     (if f = ''hash''
      then rbind (trino_emitPred x) (\<lambda>a.
        Inr (''to_hex(sha256(to_utf8(CAST('' @ a @ '' AS VARCHAR))))''))
      else if f \<in> {''lower'', ''upper'', ''length''}
      then rbind (trino_emitPred x) (\<lambda>a. Inr (f @ ''('' @ a @ '')''))
      else Inl (EmitError ''trino: function not whitelisted''))"
| "trino_emitPred AstNil = Inl (EmitError ''trino: unsupported AST node type'')"

definition trino_CompileRowFilter :: "string \<Rightarrow> ast \<Rightarrow> dialect_error + string" where
  "trino_CompileRowFilter table predicate =
     (if predicate = AstNil then Inl (EmitError ''trino: nil row-filter predicate'')
      else trino_emitPred predicate)"

definition trino_CompileColumnMask ::
  "string \<Rightarrow> ast_mask_project list \<Rightarrow> dialect_error + string" where
  "trino_CompileColumnMask table projects =
     (if projects = [] then Inl (EmitError ''trino: column mask is empty'')
      else rbind (traverse (\<lambda>p. rbind (trino_emitPred (amp_expr p))
             (\<lambda>s. Inr (s @ '' AS '' @ amp_column p))) projects)
           (\<lambda>parts. Inr (commaList parts)))"

fun spark_emitLiteral :: "ast_literal \<Rightarrow> dialect_error + string" where
  "spark_emitLiteral (AstLit k v) =
     (if k = ''string'' then Inr (quote_char # doubleQuotes v @ [quote_char])
      else if k = ''number'' then Inr v
      else if k = ''null'' then Inr ''NULL''
      else Inl (EmitError ''spark: unsupported literal kind''))"

fun spark_emitPred :: "ast \<Rightarrow> dialect_error + string" where
  "spark_emitPred (AstBinaryOp oper l r) =
     rbind (spark_emitPred l) (\<lambda>a. rbind (spark_emitPred r) (\<lambda>b.
       Inr (''('' @ a @ '' '' @ oper @ '' '' @ b @ '')'')))"
| "spark_emitPred (AstUnaryOp oper x) =
     rbind (spark_emitPred x) (\<lambda>a. Inr (''('' @ oper @ '' '' @ a @ '')''))"
| "spark_emitPred (AstColumnRef t c) = Inr (if t \<noteq> [] then t @ ''.'' @ c else c)"
| "spark_emitPred (AstLiteral l) = spark_emitLiteral l"
| "spark_emitPred (AstInList l vs) =
     rbind (spark_emitPred l) (\<lambda>a. rbind (traverse spark_emitLiteral vs) (\<lambda>ss.
       Inr (a @ '' IN ('' @ commaList ss @ '')'')))"
| "spark_emitPred (AstFuncCall f x) =
     (if f = ''hash''
      then rbind (spark_emitPred x) (\<lambda>a. Inr (''sha2(CAST('' @ a @ '' AS STRING), 256)''))
      else if f \<in> {''lower'', ''upper'', ''length''}
      then rbind (spark_emitPred x) (\<lambda>a. Inr (f @ ''('' @ a @ '')''))
      else Inl (EmitError ''spark: function not whitelisted''))"
| "spark_emitPred AstNil = Inl (EmitError ''spark: unsupported AST node type'')"

definition spark_CompileRowFilter :: "string \<Rightarrow> ast \<Rightarrow> dialect_error + string" where
  "spark_CompileRowFilter table predicate =
     (if predicate = AstNil then Inl (EmitError ''spark: nil row-filter predicate'')
      else spark_emitPred predicate)"

definition spark_CompileColumnMask ::
  "string \<Rightarrow> ast_mask_project list \<Rightarrow> dialect_error + string" where
  "spark_CompileColumnMask table projects =
     (if projects = [] then Inl (EmitError ''spark: column mask is empty'')
      else rbind (traverse (\<lambda>p. rbind (spark_emitPred (amp_expr p))
             (\<lambda>s. Inr (s @ '' AS '' @ amp_column p))) projects)
           (\<lambda>parts. Inr (commaList parts)))"

text \<open>The Dremio stub answers every request with the stub error.\<close>

definition dremio_CompileRowFilter :: "string \<Rightarrow> ast \<Rightarrow> dialect_error + string" where
  "dremio_CompileRowFilter table predicate = Inl DialectStub"

definition dremio_CompileColumnMask ::
  "string \<Rightarrow> ast_mask_project list \<Rightarrow> dialect_error + string" where
  "dremio_CompileColumnMask table projects = Inl DialectStub"

section \<open>Lexing emitted text\<close>

lemma skipSpace_space [simp]: "skipSpace (CHR '' '' # s) = skipSpace s"
  by (simp add: skipSpace_def isSpaceByte_def)

lemma skipSpace_solid: "solid c \<Longrightarrow> skipSpace (c # s) = c # s"
  by (simp add: skipSpace_def isSpaceByte_def solid_def)

lemma skipSpace_Nil [simp]: "skipSpace [] = []"
  by (simp add: skipSpace_def)

lemma parseLiteral_space [simp]: "parseLiteral (CHR '' '' # s) = parseLiteral s"
  by (simp add: parseLiteral_def)

lemma stringBody_doubled:
  "list_all (\<lambda>ch. 32 \<le> byte_val ch \<and> byte_val ch \<noteq> 127) v \<Longrightarrow> c \<noteq> quote_char \<Longrightarrow>
     stringBody (doubleQuotes v @ quote_char # c # t) = Inr (v, c # t)"
  by (induction v) (auto simp: doubleQuotes_def)

lemma numberLexeme_stop:
  assumes "is_number v" "\<not> is_digit c" "c \<noteq> CHR ''.''"
  shows "\<exists>n > 0. numberLexeme (v @ c # t) = (v, n, c # t)"
proof -
  obtain w n where w: "numberLexeme v = (w, n, [])" "0 < n"
    using assms(1) by (auto simp: is_number_def split: prod.split_asm)
  obtain sg d u where v: "v = sg @ d @ u" and p: "number_parts sg d u"
    using number_parts_ex by blast
  show ?thesis
  proof (cases u)
    case Nil
    then have d: "d \<noteq> []" using numberLexeme_parts [OF p] w v by auto
    then have "number_parts sg d (c # t)" using p assms(2) by (auto simp: number_parts_def)
    from numberLexeme_parts [OF this] show ?thesis using v Nil assms(3) d by auto
  next
    case (Cons e u')
    then have e: "e = CHR ''.''" using numberLexeme_parts [OF p] w v by (auto split: if_split_asm)
    with Cons w v numberLexeme_parts [OF p]
    have dw: "dropWhile is_digit u' = []" "n = length d + length (takeWhile is_digit u')"
      by auto
    from dw(1) have "list_all is_digit u'" by (simp add: list_all_iff)
    moreover from this dw(2) have "n = length d + length u'"
      by (simp add: list_all_iff takeWhile_eq_all_conv [THEN iffD2])
    ultimately have u': "list_all is_digit u'" "n = length d + length u'" by auto
    from numberLexeme_parts [OF number_parts_dot [OF p [unfolded Cons] e, of "u' @ c # t"]]
    show ?thesis
      using v Cons e u' w(2) assms(2) takeWhile_digits [OF u'(1), of "c # t"] by auto
  qed
qed

lemma is_number_head:
  assumes "is_number v"
  shows "v \<noteq> [] \<and> hd v \<noteq> quote_char \<and> solid (hd v)"
proof -
  obtain sg d u where v: "v = sg @ d @ u" and p: "number_parts sg d u"
    using number_parts_ex by blast
  show ?thesis
    using assms v p numberLexeme_parts [OF p]
    by (cases d; cases u) (auto simp: is_number_def number_parts_def solid_def is_digit_def
        split: if_split_asm)
qed

lemma expectKeyword_head:
  assumes "solid c" "kw \<noteq> []" "lower_byte c \<noteq> lower_byte (hd kw)"
  shows "expectKeyword kw (c # s) = (False, c # s)"
  using assms by (cases kw) (auto simp: expectKeyword_def Let_def skipSpace_solid fold_eq_def)

lemma expectKeyword_space [simp]: "expectKeyword kw (CHR '' '' # s) = expectKeyword kw s"
  by (simp add: expectKeyword_def)

lemma consume_space [simp]: "consume lit (CHR '' '' # s) = consume lit s"
  by (simp add: consume_def)

lemma consume_punct:
  "solid c \<Longrightarrow> \<not> isWordChar c \<Longrightarrow> consume [c] (c # s) = (True, s)"
  "solid d \<Longrightarrow> c \<noteq> d \<Longrightarrow> consume [c] (d # s) = (False, d # s)"
  by (auto simp: consume_def Let_def skipSpace_solid)

lemma expectKeyword_close [simp]:
  "expectKeyword ''AND'' (CHR '')'' # s) = (False, CHR '')'' # s)"
  "expectKeyword ''OR'' (CHR '')'' # s) = (False, CHR '')'' # s)"
  "expectKeyword ''NOT'' (CHR ''('' # s) = (False, CHR ''('' # s)"
  by (rule expectKeyword_head; simp add: solid_def)+

lemma consume_parens [simp]:
  "consume ''('' (CHR ''('' # s) = (True, s)" "consume '')'' (CHR '')'' # s) = (True, s)"
  by (rule consume_punct; simp add: solid_def byte_simps)+

lemma expectKeyword_hit:
  "kw \<noteq> [] \<Longrightarrow> solid (hd kw) \<Longrightarrow> t = [] \<or> \<not> isWordChar (hd t) \<Longrightarrow>
     expectKeyword kw (kw @ t) = (True, t)"
  by (cases kw) (auto simp: expectKeyword_def Let_def skipSpace_solid)

section \<open>Emitted text parses back\<close>

lemma parseLiteral_number:
  assumes "is_number v" "c = CHR '','' \<or> c = CHR '')''"
  shows "parseLiteral (v @ c # t) = Inr (Literal ''number'' v, c # t)"
proof -
  obtain a v' where v: "v = a # v'" "a \<noteq> quote_char" "solid a"
    using is_number_head [OF assms(1)] by (cases v) auto
  obtain n where "0 < n" "numberLexeme (v @ c # t) = (v, n, c # t)"
    using numberLexeme_stop [OF assms(1), of c t] assms(2) by (auto simp: is_digit_def)
  with v show ?thesis by (simp add: parseLiteral_def skipSpace_solid)
qed

lemma parseLiteral_null:
  assumes "c = CHR '','' \<or> c = CHR '')''"
  shows "parseLiteral (''NULL'' @ c # t) = Inr (Literal ''null'' ''NULL'', c # t)"
proof -
  have "numberLexeme (''NULL'' @ c # t) = ([], 0, ''NULL'' @ c # t)"
    using numberLexeme_parts [of "[]" "[]" "''NULL'' @ c # t"]
    by (simp add: number_parts_def is_digit_def)
  moreover have "expectKeyword ''NULL'' (''NULL'' @ c # t) = (True, c # t)"
    using assms by (intro expectKeyword_hit) (auto simp: solid_def byte_simps)
  ultimately show ?thesis
    by (simp add: parseLiteral_def skipSpace_solid solid_def)
qed

lemma parseLiteral_string:
  assumes "list_all (\<lambda>ch. 32 \<le> byte_val ch \<and> byte_val ch \<noteq> 127) v" "c \<noteq> quote_char"
  shows "parseLiteral (quote_char # doubleQuotes v @ quote_char # c # t) =
    Inr (Literal ''string'' v, c # t)"
  using stringBody_doubled [OF assms]
  by (simp add: parseLiteral_def skipSpace_solid solid_def)

lemma ident_start_solid: "isIdentStart c \<Longrightarrow> solid c"
  by (auto simp: isIdentStart_def solid_def)

lemma expectIdent_back:
  assumes "isSimpleIdent i" "t = [] \<or> \<not> isWordChar (hd t)"
  shows "expectIdent (i @ t) = (Some i, t)"
proof -
  obtain c cs where i: "i = c # cs" "isIdentStart c" "list_all isWordChar cs"
    using assms(1) by (cases i) auto
  then show ?thesis
    using takeWhile_digits [OF i(3) assms(2)]
    by (simp add: expectIdent_def Let_def skipSpace_solid ident_start_solid)
qed

lemma expectKeyword_other_ident:
  assumes "isSimpleIdent i" "\<not> fold_eq i kw" "list_all isWordChar kw" "\<not> isWordChar c"
  shows "expectKeyword kw (i @ c # u) = (False, i @ c # u)"
proof -
  obtain a as where i: "i = a # as" "isIdentStart a" using assms(1) by (cases i) auto
  have sk: "skipSpace (i @ c # u) = i @ c # u"
    using i by (simp add: skipSpace_solid ident_start_solid)
  have "isWordChar (hd (drop (length kw) (i @ c # u)))" "drop (length kw) (i @ c # u) \<noteq> []"
    if f: "fold_eq (take (length kw) (i @ c # u)) kw"
  proof -
    consider "length i < length kw" | "length i = length kw" | "length kw < length i" by linarith
    then have "isWordChar (hd (drop (length kw) (i @ c # u))) \<and> drop (length kw) (i @ c # u) \<noteq> []"
    proof cases
      case 1
      have "map lower_byte (take (length kw) (i @ c # u)) ! length i = map lower_byte kw ! length i"
        using f by (simp add: fold_eq_def)
      moreover have "length kw \<le> length (i @ c # u)"
        using fold_eq_length [OF f] by simp
      ultimately have "lower_byte c = lower_byte (kw ! length i)"
        using 1 by (simp add: nth_append take_Cons')
      moreover have "isWordChar (kw ! length i)" using assms(3) 1 by (simp add: list_all_length)
      ultimately show ?thesis using assms(4) isWordChar_lower by metis
    next
      case 2 then show ?thesis using f assms(2) by simp
    next
      case 3
      then have "hd (drop (length kw) (i @ c # u)) = i ! length kw"
        by (simp add: hd_drop_conv_nth nth_append)
      with 3 show ?thesis using isSimpleIdent_word [OF assms(1)] by (simp add: list_all_length)
    qed
    then show "isWordChar (hd (drop (length kw) (i @ c # u)))" "drop (length kw) (i @ c # u) \<noteq> []"
      by auto
  qed
  with sk show ?thesis by (auto simp: expectKeyword_def Let_def)
qed

lemma consume_skip: "consume lit (skipSpace s) = consume lit s"
  by (simp add: consume_def)

lemma symbolOps_hit:
  assumes "skipSpace r = oper @ CHR '' '' # u" "oper \<in> set comparisonSymbols"
  shows "symbolOps comparisonSymbols r = (Some oper, CHR '' '' # u)"
proof -
  have "symbolOps comparisonSymbols r = symbolOps comparisonSymbols (skipSpace r)"
    by (simp add: comparisonSymbols_def consume_skip)
  also have "\<dots> = (Some oper, CHR '' '' # u)"
  proof -
    have "oper = ''='' \<or> oper = ''!='' \<or> oper = ''<>'' \<or> oper = ''<='' \<or> oper = ''>='' \<or>
        oper = ''<'' \<or> oper = ''>''"
      using assms(2) by (simp add: comparisonSymbols_def)
    then show ?thesis
      unfolding assms(1)
      by (elim disjE; simp add: comparisonSymbols_def consume_def Let_def skipSpace_solid solid_def
          byte_simps)
  qed
  finally show ?thesis .
qed

lemma symbolOps_miss:
  assumes "skipSpace r = c # u" "c \<notin> {CHR ''='', CHR ''!'', CHR ''<'', CHR ''>''}"
  shows "symbolOps comparisonSymbols r = (None, c # u)"
proof -
  have sk: "skipSpace (c # u) = c # u" using assms(1) skipSpace_idem by metis
  have "symbolOps comparisonSymbols r = symbolOps comparisonSymbols (c # u)"
    using assms(1) by (simp add: comparisonSymbols_def consume_skip [of _ r, symmetric])
  with assms(2) sk show ?thesis
    by (simp add: comparisonSymbols_def consume_def Let_def)
qed

text \<open>
  \<open>literal_text\<close>, \<open>column_text\<close>, \<open>values_text\<close> and \<open>row_text\<close> say that a piece of text parses
  to a given piece of syntax, whatever follows it in an emitted fragment.
\<close>

definition literal_text :: "literal \<Rightarrow> string \<Rightarrow> bool" where
  "literal_text l s \<longleftrightarrow>
     (\<forall>c t. c = CHR '','' \<or> c = CHR '')'' \<longrightarrow> parseLiteral (s @ c # t) = Inr (l, c # t))"

definition column_text :: "node \<Rightarrow> string \<Rightarrow> bool" where
  "column_text x s \<longleftrightarrow>
     s \<noteq> [] \<and> isIdentStart (hd s) \<and>
     (\<forall>t. expectKeyword ''NOT'' (s @ CHR '' '' # t) = (False, s @ CHR '' '' # t)) \<and>
     (\<forall>c t. solid c \<longrightarrow> c \<noteq> CHR ''.'' \<longrightarrow>
        (\<exists>r. parseColumnRef (s @ CHR '' '' # c # t) = Inr (x, r) \<and> skipSpace r = c # t))"

definition values_text :: "literal list \<Rightarrow> string list \<Rightarrow> bool" where
  "values_text vs ss \<longleftrightarrow>
     ss \<noteq> [] \<and> (\<forall>t. parseInValues (commaList ss @ CHR '')'' # t) = Inr (vs, t))"

definition row_text :: "node \<Rightarrow> string \<Rightarrow> bool" where
  "row_text x s \<longleftrightarrow> (\<exists>n. \<forall>t. parseNot n (s @ t) = Inr (x, t))"

lemma column_text_bare:
  assumes "isSimpleIdent c" "\<not> fold_eq c ''NOT''"
  shows "column_text (ColumnRef [] c) c"
proof -
  have nw: "\<not> isWordChar (CHR '' '')" by (simp add: byte_simps)
  have "expectKeyword ''NOT'' (c @ CHR '' '' # t) = (False, c @ CHR '' '' # t)" for t
    using assms nw by (intro expectKeyword_other_ident) (auto simp: byte_simps)
  moreover have "parseColumnRef (c @ CHR '' '' # d # t) = Inr (ColumnRef [] c, d # t)"
    if "solid d" "d \<noteq> CHR ''.''" for d t
    using that expectIdent_back [OF assms(1), of "CHR '' '' # d # t"] nw
    by (simp add: parseColumnRef_def consume_punct(2))
  moreover have "c \<noteq> []" "isIdentStart (hd c)" using assms(1) by (cases c; auto)+
  ultimately show ?thesis by (simp add: column_text_def skipSpace_solid)
qed

lemma column_text_qualified:
  assumes "isSimpleIdent tb" "isSimpleIdent c" "\<not> fold_eq tb ''NOT''"
  shows "column_text (ColumnRef tb c) (tb @ ''.'' @ c)"
proof -
  have nw: "\<not> isWordChar (CHR '' '')" "\<not> isWordChar (CHR ''.'')" by (simp_all add: byte_simps)
  have "expectKeyword ''NOT'' (tb @ CHR ''.'' # u) = (False, tb @ CHR ''.'' # u)" for u
    using assms nw by (intro expectKeyword_other_ident) (auto simp: byte_simps)
  moreover have
    "parseColumnRef (tb @ CHR ''.'' # c @ CHR '' '' # d # t) = Inr (ColumnRef tb c, CHR '' '' # d # t)"
    for d t
    using expectIdent_back [OF assms(1), of "CHR ''.'' # c @ CHR '' '' # d # t"]
      expectIdent_back [OF assms(2), of "CHR '' '' # d # t"] nw
    by (simp add: parseColumnRef_def consume_punct(1) solid_def)
  moreover have "tb \<noteq> []" "isIdentStart (hd tb)" using assms(1) by (cases tb; auto)+
  ultimately show ?thesis by (simp add: column_text_def skipSpace_solid)
qed

lemma values_text_single: "literal_text l s \<Longrightarrow> values_text [l] [s]"
  by (simp add: literal_text_def values_text_def commaList_def parseInValues.simps)

lemma values_text_Cons:
  assumes "literal_text l s" "values_text vs ss"
  shows "values_text (l # vs) (s # ss)"
proof -
  have sp: "parseInValues (CHR '' '' # u) = parseInValues u" for u
    by (simp add: parseInValues.simps [of "CHR '' '' # u"] parseInValues.simps [of u])
  have c: "consume '')'' (CHR '','' # u) = (False, CHR '','' # u)"
    "consume '','' (CHR '','' # u) = (True, u)" for u
    by (rule consume_punct; simp add: solid_def byte_simps)+
  have "parseInValues (commaList (s # ss) @ CHR '')'' # t) = Inr (l # vs, t)" for t
    using assms c
    by (subst parseInValues.simps)
       (simp add: literal_text_def values_text_def commaList_def join_with_Cons sp)
  then show ?thesis by (simp add: values_text_def)
qed

lemma parseComparison_text:
  assumes "column_text l s" "oper \<in> set comparison_ops" "literal_text lit s'"
  shows "parseComparison (s @ CHR '' '' # oper @ CHR '' '' # s' @ CHR '')'' # t) =
    Inr (BinaryOp oper l (LitNode lit), CHR '')'' # t)"
proof -
  let ?u = "CHR '' '' # s' @ CHR '')'' # t"
  have cv: "compareValue oper l ?u = Inr (BinaryOp oper l (LitNode lit), CHR '')'' # t)"
    using assms(3) by (simp add: parseValue_def literal_text_def)
  have "list_all (\<lambda>p. p \<noteq> [] \<and> solid (hd p) \<and> hd p \<noteq> CHR ''.'') comparison_ops"
    by (simp add: comparison_ops_def comparisonSymbols_def solid_def)
  then have "oper \<noteq> [] \<and> solid (hd oper) \<and> hd oper \<noteq> CHR ''.''"
    using assms(2) by (simp add: list_all_iff)
  then obtain o1 o2 where o: "oper = o1 # o2" "solid o1" "o1 \<noteq> CHR ''.''"
    by (cases oper) auto
  have "\<exists>r. parseColumnRef (s @ CHR '' '' # o1 # o2 @ ?u) = Inr (l, r) \<and> skipSpace r = o1 # o2 @ ?u"
    using assms(1) o(2,3) unfolding column_text_def by blast
  then obtain r where r: "parseColumnRef (s @ CHR '' '' # oper @ ?u) = Inr (l, r)"
    "skipSpace r = oper @ ?u"
    using o(1) by auto
  show ?thesis
  proof (cases "oper = ''LIKE''")
    case True
    have "symbolOps comparisonSymbols r = (None, oper @ ?u)"
      using symbolOps_miss [of r "CHR ''L''"] r(2) True by simp
    moreover have "expectKeyword ''IN'' (oper @ ?u) = (False, oper @ ?u)"
      using expectKeyword_head [of "CHR ''L''" "''IN''"] True by (simp add: solid_def)
    moreover have "expectKeyword ''LIKE'' (oper @ ?u) = (True, ?u)"
      using expectKeyword_hit [of "''LIKE''" ?u] True by (simp add: solid_def byte_simps)
    ultimately show ?thesis
      using r(1) cv True by (simp add: parseComparison_def)
  next
    case False
    then have "symbolOps comparisonSymbols r = (Some oper, ?u)"
      using symbolOps_hit [OF r(2)] assms(2) by (simp add: comparison_ops_def)
    then show ?thesis using r(1) cv by (simp add: parseComparison_def)
  qed
qed

lemma parseComparison_in_text:
  assumes "column_text l s" "values_text vs ss"
  shows "parseComparison (s @ '' IN ('' @ commaList ss @ CHR '')'' # t) = Inr (InList l vs, t)"
proof -
  let ?v = "commaList ss @ CHR '')'' # t"
  let ?u = "CHR '' '' # CHR ''('' # ?v"
  have "\<exists>r. parseColumnRef (s @ CHR '' '' # CHR ''I'' # CHR ''N'' # ?u) = Inr (l, r) \<and>
      skipSpace r = CHR ''I'' # CHR ''N'' # ?u"
    using assms(1) unfolding column_text_def by (auto simp: solid_def)
  then obtain r where r: "parseColumnRef (s @ '' IN ('' @ ?v) = Inr (l, r)"
    "skipSpace r = ''IN'' @ ?u" by auto
  have "symbolOps comparisonSymbols r = (None, ''IN'' @ ?u)"
    using symbolOps_miss [of r "CHR ''I''"] r(2) by simp
  moreover have "expectKeyword ''IN'' (''IN'' @ ?u) = (True, ?u)"
    using expectKeyword_hit [of "''IN''" ?u] by (simp add: solid_def byte_simps)
  moreover have "parseInValues ?v = Inr (vs, t)"
    using assms(2) by (simp add: values_text_def)
  ultimately show ?thesis
    using r(1) by (simp add: parseComparison_def)
qed

lemma row_text_parens:
  assumes "\<And>t. parseOr n (u @ CHR '')'' # t) = Inr (x, CHR '')'' # t)"
  shows "row_text x (''('' @ u @ '')'')"
  unfolding row_text_def by (rule exI [of _ "Suc (Suc n)"]) (simp add: assms)

lemma column_text_start:
  assumes "column_text l s"
  shows "consume ''('' (s @ t) = (False, s @ t)"
proof -
  obtain c cs where "s = c # cs" "isIdentStart c"
    using assms by (cases s) (auto simp: column_text_def)
  moreover from this have "c \<noteq> CHR ''(''" by (auto simp: isIdentStart_def)
  ultimately show ?thesis by (simp add: consume_punct(2) ident_start_solid)
qed

lemma row_text_comparison:
  assumes "column_text l s" "oper \<in> set comparison_ops" "literal_text lit s'"
  shows "row_text (BinaryOp oper l (LitNode lit)) (''('' @ s @ '' '' @ oper @ '' '' @ s' @ '')'')"
proof -
  let ?u = "s @ CHR '' '' # oper @ CHR '' '' # s'"
  have "expectKeyword ''NOT'' (?u @ CHR '')'' # t) = (False, ?u @ CHR '')'' # t)" for t
    using assms(1) by (simp add: column_text_def)
  then have "parseOr (Suc (Suc (Suc (Suc 0)))) (?u @ CHR '')'' # t) =
      Inr (BinaryOp oper l (LitNode lit), CHR '')'' # t)" for t
    using parseComparison_text [OF assms, of t] column_text_start [OF assms(1)] by simp
  from row_text_parens [OF this] show ?thesis by simp
qed

lemma row_text_in:
  assumes "column_text l s" "values_text vs ss"
  shows "row_text (InList l vs) (s @ '' IN ('' @ commaList ss @ '')'')"
proof -
  have "expectKeyword ''NOT'' (s @ CHR '' '' # t) = (False, s @ CHR '' '' # t)" for t
    using assms(1) by (simp add: column_text_def)
  then show ?thesis
    unfolding row_text_def
    using parseComparison_in_text [OF assms] column_text_start [OF assms(1)]
    by (intro exI [of _ "Suc (Suc 0)"]) simp
qed

lemma parseNot_space: "parseNot n (CHR '' '' # s) = parseNot n s"
  by (cases n) simp_all

lemma parseNot_more: "(\<And>t. parseNot n (s @ t) = Inr (x, t)) \<Longrightarrow> n \<le> m \<Longrightarrow> parseNot m (s @ t) = Inr (x, t)"
  by (metis parseNot_fuel_mono sum.distinct(1))

text \<open>Two texts share enough fuel.\<close>

lemma row_text_both:
  assumes "row_text x s" "row_text y s'"
  obtains n where "\<And>m t. n \<le> m \<Longrightarrow> parseNot m (s @ t) = Inr (x, t)"
    "\<And>m t. n \<le> m \<Longrightarrow> parseNot m (s' @ t) = Inr (y, t)"
proof -
  obtain n n' where n: "\<And>t. parseNot n (s @ t) = Inr (x, t)" "\<And>t. parseNot n' (s' @ t) = Inr (y, t)"
    using assms by (auto simp: row_text_def)
  show thesis
    by (rule that [of "max n n'"]) (auto intro: parseNot_more [OF n(1)] parseNot_more [OF n(2)])
qed

lemma row_text_not:
  assumes "row_text x s"
  shows "row_text (UnaryOp ''NOT'' x) (''(NOT '' @ s @ '')'')"
proof -
  obtain n where n: "\<And>t. parseNot n (s @ t) = Inr (x, t)" using assms by (auto simp: row_text_def)
  have k: "expectKeyword ''NOT'' (CHR ''N'' # CHR ''O'' # CHR ''T'' # CHR '' '' # u) = (True, CHR '' '' # u)" for u
    using expectKeyword_hit [of "''NOT''" "CHR '' '' # u"] by (simp add: solid_def byte_simps)
  have "parseOr (Suc (Suc (Suc n))) ((''NOT '' @ s) @ CHR '')'' # t) = Inr (UnaryOp ''NOT'' x, CHR '')'' # t)" for t
    using n by (simp add: k parseNot_space)
  from row_text_parens [OF this] show ?thesis by simp
qed

lemma row_text_and:
  assumes "row_text x s" "row_text y s'"
  shows "row_text (BinaryOp ''AND'' x y) (''('' @ s @ '' AND '' @ s' @ '')'')"
proof -
  obtain n where n: "\<And>m t. n \<le> m \<Longrightarrow> parseNot m (s @ t) = Inr (x, t)"
    "\<And>m t. n \<le> m \<Longrightarrow> parseNot m (s' @ t) = Inr (y, t)"
    by (rule row_text_both [OF assms]) blast
  have k: "expectKeyword ''AND'' (CHR ''A'' # CHR ''N'' # CHR ''D'' # CHR '' '' # u) = (True, CHR '' '' # u)" for u
    using expectKeyword_hit [of "''AND''" "CHR '' '' # u"] by (simp add: solid_def byte_simps)
  have "parseOr (Suc (Suc (Suc (Suc n)))) ((s @ '' AND '' @ s') @ CHR '')'' # t) =
      Inr (BinaryOp ''AND'' x y, CHR '')'' # t)" for t
    using n(1) [of "Suc (Suc n)"] n(2) [of "Suc n"]
    by (simp add: k parseNot_space del: parseNot.simps)
  from row_text_parens [OF this] show ?thesis by simp
qed

lemma row_text_or:
  assumes "row_text x s" "row_text y s'"
  shows "row_text (BinaryOp ''OR'' x y) (''('' @ s @ '' OR '' @ s' @ '')'')"
proof -
  obtain n where n: "\<And>m t. n \<le> m \<Longrightarrow> parseNot m (s @ t) = Inr (x, t)"
    "\<And>m t. n \<le> m \<Longrightarrow> parseNot m (s' @ t) = Inr (y, t)"
    by (rule row_text_both [OF assms]) blast
  have k: "expectKeyword ''OR'' (CHR ''O'' # CHR ''R'' # CHR '' '' # u) = (True, CHR '' '' # u)"
    "expectKeyword ''AND'' (CHR ''O'' # u) = (False, CHR ''O'' # u)" for u
    using expectKeyword_hit [of "''OR''" "CHR '' '' # u"] expectKeyword_head [of "CHR ''O''" "''AND''"]
    by (simp_all add: solid_def byte_simps)
  have "parseOr (Suc (Suc (Suc (Suc (Suc n))))) ((s @ '' OR '' @ s') @ CHR '')'' # t) =
      Inr (BinaryOp ''OR'' x y, CHR '')'' # t)" for t
    using n(1) [of "Suc (Suc (Suc n))"] n(2) [of "Suc (Suc n)"]
    by (simp add: k parseNot_space del: parseNot.simps)
  from row_text_parens [OF this] show ?thesis by simp
qed

lemma expectKeyword_Nil: "kw \<noteq> [] \<Longrightarrow> expectKeyword kw [] = (False, [])"
  by (simp add: expectKeyword_def)

lemma ParseRowFilter_text:
  assumes "row_text x s"
  shows "ParseRowFilter s = Inr (RowFragment x)"
proof -
  obtain n where "\<And>t. parseNot n (s @ t) = Inr (x, t)" using assms by (auto simp: row_text_def)
  from this [of "[]"] parseNot_fuel_mono [of n "Suc n" s] have "parseNot (Suc n) s = Inr (x, [])"
    by simp
  then have "parseOr (Suc (Suc (Suc n))) s = Inr (x, [])"
    by (simp add: expectKeyword_Nil del: parseNot.simps)
  from parsePred_eqI [OF this] show ?thesis
    by (simp add: ParseRowFilter_def atEnd_def)
qed

locale predicate_emitter =
  fixes emitLiteral :: "ast_literal \<Rightarrow> dialect_error + string"
    and emitPred :: "ast \<Rightarrow> dialect_error + string"
  assumes emit_string:
      "emitLiteral (AstLit ''string'' v) = Inr (quote_char # doubleQuotes v @ [quote_char])"
    and emit_number: "emitLiteral (AstLit ''number'' v) = Inr v"
    and emit_null: "emitLiteral (AstLit ''null'' v) = Inr ''NULL''"
    and emit_literal: "emitPred (AstLiteral l) = emitLiteral l"
    and emit_column:
      "emitPred (AstColumnRef t c) = Inr (if t \<noteq> [] then t @ ''.'' @ c else c)"
    and emit_binary:
      "emitPred a = Inr s \<Longrightarrow> emitPred b = Inr s' \<Longrightarrow>
         emitPred (AstBinaryOp oper a b) = Inr (''('' @ s @ '' '' @ oper @ '' '' @ s' @ '')'')"
    and emit_unary:
      "emitPred a = Inr s \<Longrightarrow> emitPred (AstUnaryOp oper a) = Inr (''('' @ oper @ '' '' @ s @ '')'')"
    and emit_in:
      "emitPred a = Inr s \<Longrightarrow> traverse emitLiteral vs = Inr ss \<Longrightarrow>
         emitPred (AstInList a vs) = Inr (s @ '' IN ('' @ commaList ss @ '')'')"
begin

lemma literal_emitted:
  assumes "wf_literal l"
  shows "\<exists>s. emitLiteral (adaptLiteral l) = Inr s \<and> literal_text l s"
proof (cases l)
  case (Literal k v)
  consider "k = ''string''" | "k = ''number''" | "k = ''null''" "v = ''NULL''"
    using assms unfolding Literal wf_literal.simps by argo
  then show ?thesis
  proof cases
    case 1
    then show ?thesis
      using assms Literal parseLiteral_string [of v] by (auto simp: emit_string literal_text_def)
  next
    case 2
    then show ?thesis
      using assms Literal parseLiteral_number [of v] by (auto simp: emit_number literal_text_def)
  next
    case 3
    then show ?thesis using Literal parseLiteral_null by (auto simp: emit_null literal_text_def)
  qed
qed

lemma values_emitted:
  assumes "vs \<noteq> []" "list_all wf_literal vs"
  shows "\<exists>ss. traverse emitLiteral (map adaptLiteral vs) = Inr ss \<and> values_text vs ss"
  using assms
proof (induction vs rule: list_nonempty_induct)
  case (single l)
  then show ?case using literal_emitted [of l] values_text_single by fastforce
next
  case (cons l vs)
  obtain s where "emitLiteral (adaptLiteral l) = Inr s" "literal_text l s"
    using literal_emitted [of l] cons.prems by auto
  moreover obtain ss where "traverse emitLiteral (map adaptLiteral vs) = Inr ss" "values_text vs ss"
    using cons by auto
  ultimately show ?case using values_text_Cons by auto
qed

lemma column_emitted:
  assumes "wf_column x"
  shows "\<exists>s. emitPred (adaptNodeForDialect x) = Inr s \<and> column_text x s"
proof -
  obtain tb c where x: "x = ColumnRef tb c" using assms by (cases x) auto
  then show ?thesis
    using assms column_text_bare [of c] column_text_qualified [of tb c]
    by (cases "tb = []") (auto simp: emit_column)
qed

lemma row_emitted:
  "wf_row x \<Longrightarrow> \<exists>s. emitPred (adaptNodeForDialect x) = Inr s \<and> row_text x s"
proof (induction x)
  case (BinaryOp oper l r)
  show ?case
  proof (cases "oper = ''AND'' \<or> oper = ''OR''")
    case True
    with BinaryOp obtain s s' where
      "emitPred (adaptNodeForDialect l) = Inr s" "row_text l s"
      "emitPred (adaptNodeForDialect r) = Inr s'" "row_text r s'" by auto
    with True row_text_and [of l s r s'] row_text_or [of l s r s'] show ?thesis
      by (auto simp: emit_binary)
  next
    case False
    with BinaryOp.prems obtain lit where lit: "r = LitNode lit" "wf_literal lit"
      and "wf_column l" and o: "oper \<in> set comparison_ops" by (cases r) auto
    then obtain s s' where s: "emitPred (adaptNodeForDialect l) = Inr s" "column_text l s"
      and s': "emitLiteral (adaptLiteral lit) = Inr s'" "literal_text lit s'"
      using column_emitted [of l] literal_emitted [of lit] by auto
    from row_text_comparison [OF s(2) o s'(2)] s(1) s'(1) lit(1) show ?thesis
      by (simp add: emit_binary emit_literal)
  qed
next
  case (UnaryOp oper x)
  then show ?case using row_text_not by (fastforce simp: emit_unary)
next
  case (InList l vs)
  then obtain s ss where s: "emitPred (adaptNodeForDialect l) = Inr s" "column_text l s"
    and ss: "traverse emitLiteral (map adaptLiteral vs) = Inr ss" "values_text vs ss"
    using column_emitted [of l] values_emitted [of vs] by auto
  from row_text_in [OF s(2) ss(2)] s(1) ss(1) show ?case by (simp add: emit_in)
qed simp_all

lemma emitted_row_parses_back:
  assumes "ParseRowFilter src = Inr (RowFragment x)"
  shows "\<exists>s. emitPred (adaptNodeForDialect x) = Inr s \<and> ParseRowFilter s = Inr (RowFragment x)"
  using row_emitted ParseRowFilter_wf [OF assms] ParseRowFilter_text by (metis fragment.inject(1))

end

interpretation trino: predicate_emitter trino_emitLiteral trino_emitPred
  by unfold_locales simp_all

interpretation spark: predicate_emitter spark_emitLiteral spark_emitPred
  by unfold_locales simp_all

end
