(* ===== verification/SQL_Splice.thy ===== *)
theory SQL_Splice
  imports Neksur_Prelude
begin

text \<open>
  The query splicer of the SQL proxy (\<open>internal/sqlproxy/dialect/splice.go\<close>): the
  single-table \<open>SELECT\<close> decomposition, row-filter and column-mask rewriting, and the
  snapshot-pin rewrite of the \<open>FROM\<close> clause.

  The Go scanners walk an index over the source; the model walks the suffix at that index
  and carries what Go reads to its left, whether the previous byte is a word character.
  An offset \<open>i\<close> returned by a Go scanner is the pair of the text before it and the text
  from it.
\<close>

section \<open>Errors\<close>

text \<open>
  The sentinels an injector error may wrap: those of \<open>sqlproxy/errors.go\<close> and the adapters'
  \<open>iceberg.ErrAdapterStub\<close>. An error of the splicer and of the injectors wraps one, with a message.
\<close>

datatype sentinel =
    ErrPolicyEngineUnavailable
  | ErrEngineNotSupported
  | ErrInjectionFailed
  | ErrAdapterStub
  | ErrUnsupportedQueryShape
  | ErrSpliceMismatch

datatype proxy_error = ProxyError (err_is: sentinel) (err_msg: string)

definition errMalformed :: "string \<Rightarrow> proxy_error" where
  "errMalformed msg = ProxyError ErrInjectionFailed msg"

definition errUnsupported :: "string \<Rightarrow> proxy_error" where
  "errUnsupported shape = ProxyError ErrUnsupportedQueryShape (shape @ '' not supported in Phase 2'')"

section \<open>Lexer primitives\<close>

definition isBlank :: "char \<Rightarrow> bool" where
  "isBlank c \<longleftrightarrow> c = CHR '' '' \<or> c = CHR 0x09 \<or> c = CHR 0x0A \<or> c = CHR 0x0D"

definition skipBlanks :: "string \<Rightarrow> string" where
  "skipBlanks s = dropWhile isBlank s"

text \<open>The keyword at the head of the input, ended by a byte that is no word character.\<close>

definition keywordAt :: "string \<Rightarrow> string \<Rightarrow> bool" where
  "keywordAt kw s \<longleftrightarrow>
     length kw \<le> length s \<and> fold_eq (take (length kw) s) kw \<and>
     (drop (length kw) s = [] \<or> \<not> isWordChar (hd (drop (length kw) s)))"

lemma keywordAt_code [code]:
  "keywordAt kw s =
     (if fold_eq (take (length kw) s) kw
      then (case drop (length kw) s of [] \<Rightarrow> True | c # _ \<Rightarrow> \<not> isWordChar c) else False)"
  using fold_eq_length [of "take (length kw) s" kw]
  by (auto simp: keywordAt_def split: list.splits)

definition peekKeyword :: "string \<Rightarrow> string \<Rightarrow> bool" where
  "peekKeyword kw s = keywordAt kw (skipBlanks s)"

definition peekAnyKeyword :: "string list \<Rightarrow> string \<Rightarrow> bool" where
  "peekAnyKeyword kws s = list_ex (\<lambda>kw. peekKeyword kw s) kws"

definition consumeKeyword :: "string \<Rightarrow> string \<Rightarrow> bool \<times> string" where
  "consumeKeyword kw s =
     (if peekKeyword kw s then (True, drop (length kw) (skipBlanks s)) else (False, s))"

abbreviation sql_quote :: char where
  "sql_quote \<equiv> CHR 0x27"

definition quoteAhead :: "string \<Rightarrow> bool" where
  "quoteAhead cs \<longleftrightarrow> cs \<noteq> [] \<and> hd cs = sql_quote"

text \<open>
  One turn of the \<open>switch\<close> the four scanners share: the parenthesis depth and the
  in-string flag after a byte. A closing parenthesis at depth 0 leaves the depth at 0;
  the strict scanners reject it first.
\<close>

definition scanByte :: "nat \<Rightarrow> bool \<Rightarrow> char \<Rightarrow> nat \<times> bool" where
  "scanByte depth inStr c =
     (if inStr then (depth, c \<noteq> sql_quote)
      else if c = sql_quote then (depth, True)
      else if c = CHR ''('' then (Suc depth, False)
      else if c = CHR '')'' then (depth - 1, False)
      else (depth, False))"

fun scanToKeyword :: "string \<Rightarrow> bool \<Rightarrow> nat \<Rightarrow> bool \<Rightarrow> string \<Rightarrow> proxy_error + (string \<times> string)" where
  "scanToKeyword kw prev depth inStr [] =
     Inl (errMalformed
       (if inStr then ''unterminated string literal''
        else if depth \<noteq> 0 then ''unbalanced parens''
        else ''expected '' @ kw @ '' keyword''))"
| "scanToKeyword kw prev depth inStr (c # cs) =
     (if inStr \<and> c = sql_quote \<and> quoteAhead cs
      then rbind (scanToKeyword kw False depth True (tl cs)) (\<lambda>(a, b). Inr (c # hd cs # a, b))
      else if \<not> inStr \<and> c = CHR '')'' \<and> depth = 0 then Inl (errMalformed ''unbalanced parens'')
      else case scanByte depth inStr c of (depth', inStr') \<Rightarrow>
        if \<not> inStr' \<and> depth' = 0 \<and> \<not> prev \<and> keywordAt kw (c # cs) then Inr ([], c # cs)
        else rbind (scanToKeyword kw (isWordChar c) depth' inStr' cs) (\<lambda>(a, b). Inr (c # a, b)))"

definition tailKeywords :: "string list" where
  "tailKeywords = [''GROUP'', ''HAVING'', ''ORDER'', ''LIMIT'']"

fun scanToTailKeyword :: "bool \<Rightarrow> nat \<Rightarrow> bool \<Rightarrow> string \<Rightarrow> string \<times> string" where
  "scanToTailKeyword prev depth inStr [] = ([], [])"
| "scanToTailKeyword prev depth inStr (c # cs) =
     (if inStr \<and> c = sql_quote \<and> quoteAhead cs
      then case scanToTailKeyword False depth True (tl cs) of (a, b) \<Rightarrow> (c # hd cs # a, b)
      else case scanByte depth inStr c of (depth', inStr') \<Rightarrow>
        if \<not> inStr' \<and> depth' = 0 \<and> \<not> prev \<and> list_ex (\<lambda>kw. keywordAt kw (c # cs)) tailKeywords
        then ([], c # cs)
        else case scanToTailKeyword (isWordChar c) depth' inStr' cs of (a, b) \<Rightarrow> (c # a, b))"

fun findKeywordAtDepth0 :: "bool \<Rightarrow> nat \<Rightarrow> bool \<Rightarrow> string \<Rightarrow> string \<Rightarrow> (string \<times> string) option" where
  "findKeywordAtDepth0 prev depth inStr kw [] = None"
| "findKeywordAtDepth0 prev depth inStr kw (c # cs) =
     (if inStr \<and> c = sql_quote \<and> quoteAhead cs
      then map_option (\<lambda>(a, b). (c # hd cs # a, b)) (findKeywordAtDepth0 False depth True kw (tl cs))
      else case scanByte depth inStr c of (depth', inStr') \<Rightarrow>
        if \<not> inStr' \<and> depth' = 0 \<and> \<not> prev \<and> keywordAt kw (c # cs) then Some ([], c # cs)
        else map_option (\<lambda>(a, b). (c # a, b))
               (findKeywordAtDepth0 (isWordChar c) depth' inStr' kw cs))"

definition findKeyword :: "string \<Rightarrow> string \<Rightarrow> (string \<times> string) option" where
  "findKeyword s kw = findKeywordAtDepth0 False 0 False kw s"

section \<open>Decomposition of a query\<close>

record selectShape =
  sh_projection :: string
  sh_table :: string
  sh_where :: string
  sh_tail :: string

definition validateTail :: "string \<Rightarrow> proxy_error option" where
  "validateTail tail =
     (if \<not> peekAnyKeyword tailKeywords (skipBlanks tail)
      then Some (errUnsupported ''unexpected tail clause'')
      else case List.find (\<lambda>kw. findKeyword tail kw \<noteq> None)
                  [''JOIN'', ''UNION'', ''INTERSECT'', ''EXCEPT''] of
             Some kw \<Rightarrow> Some (errUnsupported (''tail contains '' @ kw))
           | None \<Rightarrow> None)"

definition isTableChar :: "char \<Rightarrow> bool" where
  "isTableChar c \<longleftrightarrow> isWordChar c \<or> c = CHR ''.''"

definition parseTable :: "string \<Rightarrow> proxy_error + (string \<times> string)" where
  "parseTable s =
     (case s of
        [] \<Rightarrow> Inl (errMalformed ''expected table name after FROM'')
      | c # _ \<Rightarrow>
          if c = CHR ''('' then Inl (errUnsupported ''subquery in FROM'')
          else if \<not> isIdentStart c then Inl (errMalformed ''expected table name after FROM'')
          else if takeWhile isTableChar s = []
          then Inl (errMalformed ''expected table name after FROM'')
          else Inr (takeWhile isTableChar s, dropWhile isTableChar s))"

definition setOperations :: "string list" where
  "setOperations = [''UNION'', ''INTERSECT'', ''EXCEPT'']"

definition checkAfterTable :: "string \<Rightarrow> proxy_error option" where
  "checkAfterTable s =
     (if s = [] then None
      else if hd s = CHR '','' then Some (errUnsupported ''multi-table comma FROM'')
      else if peekAnyKeyword
          [''JOIN'', ''INNER'', ''LEFT'', ''RIGHT'', ''FULL'', ''CROSS'', ''OUTER'', ''NATURAL''] s
      then Some (errUnsupported ''JOIN'')
      else case List.find (\<lambda>kw. peekKeyword kw s) setOperations of
        Some kw \<Rightarrow> Some (errUnsupported (''set operation ('' @ kw @ '')''))
      | None \<Rightarrow>
          if \<not> peekAnyKeyword (''WHERE'' # tailKeywords) s \<and>
             (peekKeyword ''AS'' s \<or> isIdentStart (hd s))
          then Some (errUnsupported ''table alias'') else None)"

text \<open>The part of \<open>parseSelect\<close> after the table: \<open>WHERE\<close> body, set operations and tail.\<close>

definition parseWhereTail :: "string \<Rightarrow> proxy_error + (string \<times> string)" where
  "parseWhereTail s =
     (case (case consumeKeyword ''WHERE'' s of
              (True, r) \<Rightarrow> scanToTailKeyword True 0 False r
            | (False, r) \<Rightarrow> ([], r)) of
        (whr, rest) \<Rightarrow>
          if peekAnyKeyword setOperations rest then Inl (errUnsupported ''set operation'')
          else let tail = TrimSpace rest in
            if tail = [] then Inr (whr, tail)
            else case validateTail tail of
              Some e \<Rightarrow> Inl e
            | None \<Rightarrow> Inr (whr, tail))"

definition parseSelect :: "string \<Rightarrow> proxy_error + selectShape" where
  "parseSelect query =
     (let s0 = skipBlanks query in
      if peekKeyword ''WITH'' s0 then Inl (errUnsupported ''WITH/CTE'')
      else case List.find (\<lambda>kw. peekKeyword kw s0) [''INSERT'', ''UPDATE'', ''DELETE''] of
        Some kw \<Rightarrow> Inl (errUnsupported (''non-SELECT DML ('' @ kw @ '')''))
      | None \<Rightarrow>
         (case consumeKeyword ''SELECT'' s0 of
            (False, _) \<Rightarrow> Inl (errMalformed ''expected SELECT at start of query'')
          | (True, s1) \<Rightarrow>
              rbind (scanToKeyword ''FROM'' False 0 False s1) (\<lambda>(pre, s2).
                let projection = TrimSpace pre in
                if projection = [] then Inl (errMalformed ''empty projection list'')
                else rbind (parseTable (skipBlanks (drop 4 s2))) (\<lambda>(table, s4).
                  let s5 = skipBlanks s4 in
                  case checkAfterTable s5 of
                    Some e \<Rightarrow> Inl e
                  | None \<Rightarrow>
                      rbind (parseWhereTail s5) (\<lambda>(whr, tail).
                        Inr \<lparr>sh_projection = projection, sh_table = table,
                             sh_where = whr, sh_tail = tail\<rparr>)))))"

section \<open>Row filters\<close>

definition withTail :: "string \<Rightarrow> string" where
  "withTail t = (if TrimSpace t = [] then [] else CHR '' '' # TrimSpace t)"

definition spliceRowFilter :: "string \<Rightarrow> string \<Rightarrow> proxy_error + string" where
  "spliceRowFilter query body =
     rbind (parseSelect query) (\<lambda>s.
       Inr (''SELECT '' @ sh_projection s @ '' FROM '' @ sh_table s @
            (if TrimSpace (sh_where s) = [] then '' WHERE ('' @ body @ '')''
             else '' WHERE ('' @ TrimSpace (sh_where s) @ '') AND ('' @ body @ '')'') @
            withTail (sh_tail s)))"

section \<open>Column masks\<close>

fun splitCommas :: "nat \<Rightarrow> bool \<Rightarrow> string \<Rightarrow> proxy_error + string list" where
  "splitCommas depth inStr [] =
     (if inStr then Inl (ProxyError ErrInjectionFailed ''unterminated string literal'')
      else if depth \<noteq> 0 then Inl (ProxyError ErrInjectionFailed ''unbalanced parens'')
      else Inr [[]])"
| "splitCommas depth inStr (c # cs) =
     (if inStr \<and> c = sql_quote \<and> quoteAhead cs
      then rbind (splitCommas depth True (tl cs)) (\<lambda>ps. Inr ((c # hd cs # hd ps) # tl ps))
      else if \<not> inStr \<and> c = CHR '')'' \<and> depth = 0
      then Inl (ProxyError ErrInjectionFailed ''unbalanced parens'')
      else if \<not> inStr \<and> c = CHR '','' \<and> depth = 0
      then rbind (splitCommas 0 False cs) (\<lambda>ps. Inr ([] # ps))
      else case scanByte depth inStr c of (depth', inStr') \<Rightarrow>
        rbind (splitCommas depth' inStr' cs) (\<lambda>ps. Inr ((c # hd ps) # tl ps)))"

definition splitTopLevelCommas :: "string \<Rightarrow> proxy_error + string list" where
  "splitTopLevelCommas s = splitCommas 0 False s"

record maskProj =
  mk_col :: string
  mk_expr :: string

definition maskSegment :: "string \<Rightarrow> proxy_error + maskProj" where
  "maskSegment seg =
     (case findKeywordAtDepth0 False 0 False ''AS'' seg of
        None \<Rightarrow> Inl (ProxyError ErrInjectionFailed ''mask projection missing AS'')
      | Some (a, b) \<Rightarrow>
          let col = TrimSpace a; expr = TrimSpace (drop 2 b) in
          if col = [] \<or> expr = []
          then Inl (ProxyError ErrInjectionFailed ''malformed mask projection'')
          else if \<not> isSimpleIdent col
          then Inl (ProxyError ErrInjectionFailed ''mask column must be a bare identifier'')
          else Inr \<lparr>mk_col = col, mk_expr = expr\<rparr>)"

fun maskSegments :: "string list \<Rightarrow> proxy_error + maskProj list" where
  "maskSegments [] = Inr []"
| "maskSegments (part # parts) =
     (if TrimSpace part = [] then maskSegments parts
      else rbind (maskSegment (TrimSpace part)) (\<lambda>m.
        rbind (maskSegments parts) (\<lambda>ms. Inr (m # ms))))"

definition parseMaskProjections :: "string \<Rightarrow> proxy_error + maskProj list" where
  "parseMaskProjections body =
     rbind (splitTopLevelCommas body) (\<lambda>parts.
       rbind (maskSegments parts) (\<lambda>out.
         if out = [] then Inl (ProxyError ErrInjectionFailed ''empty column-mask artifact'')
         else Inr out))"

fun projectionParts :: "string list \<Rightarrow> proxy_error + string list" where
  "projectionParts [] = Inr []"
| "projectionParts (p # ps) =
     (if TrimSpace p = [] then Inl (ProxyError ErrInjectionFailed ''empty projection element'')
      else rbind (projectionParts ps) (\<lambda>out. Inr (TrimSpace p # out)))"

definition parseProjectionList :: "string \<Rightarrow> proxy_error + string list" where
  "parseProjectionList projection = rbind (splitTopLevelCommas projection) projectionParts"

fun idxByCol :: "nat \<Rightarrow> (string \<rightharpoonup> nat) \<Rightarrow> string list \<Rightarrow> (string \<rightharpoonup> nat)" where
  "idxByCol i m [] = m"
| "idxByCol i m (col # cols) =
     idxByCol (Suc i)
       (if isSimpleIdent (TrimSpace col) then m(TrimSpace col \<mapsto> i) else m) cols"

fun maskLoop :: "(string \<rightharpoonup> nat) \<Rightarrow> string list \<Rightarrow> maskProj list \<Rightarrow> proxy_error + string list" where
  "maskLoop idx rewritten [] = Inr rewritten"
| "maskLoop idx rewritten (m # ms) =
     (case idx (mk_col m) of
        None \<Rightarrow> Inl (ProxyError ErrSpliceMismatch ''masked column not in projection'')
      | Some i \<Rightarrow> maskLoop idx (rewritten[i := mk_expr m @ '' AS '' @ mk_col m]) ms)"

definition applyMasks :: "string list \<Rightarrow> maskProj list \<Rightarrow> proxy_error + string list" where
  "applyMasks projCols masks = maskLoop (idxByCol 0 Map.empty projCols) projCols masks"

definition spliceColumnMask :: "string \<Rightarrow> string \<Rightarrow> proxy_error + string" where
  "spliceColumnMask query body =
     rbind (parseSelect query) (\<lambda>s.
       if TrimSpace (sh_projection s) = ''*''
       then Inl (ProxyError ErrSpliceMismatch ''column-mask cannot apply to SELECT *'')
       else rbind (parseMaskProjections body) (\<lambda>masks.
         rbind (parseProjectionList (sh_projection s)) (\<lambda>projCols.
           rbind (applyMasks projCols masks) (\<lambda>rewritten.
             Inr (''SELECT '' @ join_with '', '' rewritten @ '' FROM '' @ sh_table s @
                  (if TrimSpace (sh_where s) = [] then []
                   else '' WHERE '' @ TrimSpace (sh_where s)) @
                  withTail (sh_tail s))))))"

text \<open>The artifact kinds of \<open>policy/store\<close>.\<close>

definition KindRowFilter :: string where "KindRowFilter = ''row-filter''"
definition KindColumnMask :: string where "KindColumnMask = ''column-mask''"
definition KindPredicate :: string where "KindPredicate = ''predicate''"

definition SpliceArtifact :: "string \<Rightarrow> string \<Rightarrow> string \<Rightarrow> proxy_error + string" where
  "SpliceArtifact query artifactBody kind =
     (if kind = KindRowFilter \<or> kind = [] then spliceRowFilter query artifactBody
      else if kind = KindColumnMask then spliceColumnMask query artifactBody
      else Inl (ProxyError ErrInjectionFailed ''unknown artifact kind''))"

section \<open>Snapshot pins\<close>

datatype pinFromDialect = PinDialectTrino | PinDialectDremio | PinDialectOther int

definition isDecimalInt :: "string \<Rightarrow> bool" where
  "isDecimalInt s =
     (case s of
        [] \<Rightarrow> False
      | c # cs \<Rightarrow>
          if c = CHR ''-'' then cs \<noteq> [] \<and> list_all is_digit cs else list_all is_digit s)"

definition pinClause :: "pinFromDialect \<Rightarrow> string \<Rightarrow> string option" where
  "pinClause dia snapshotID =
     (case dia of
        PinDialectTrino \<Rightarrow> Some ('' FOR VERSION AS OF '' @ snapshotID)
      | PinDialectDremio \<Rightarrow> Some ('' AT SNAPSHOT '' @ [sql_quote] @ snapshotID @ [sql_quote])
      | PinDialectOther _ \<Rightarrow> None)"

definition RewriteFromForSnapshotPin :: "string \<Rightarrow> string \<Rightarrow> pinFromDialect \<Rightarrow> proxy_error + string" where
  "RewriteFromForSnapshotPin query snapshotID dia =
     (if \<not> isDecimalInt snapshotID
      then Inl (ProxyError ErrInjectionFailed ''snapshot_id is not a decimal integer'')
      else rbind (parseSelect query) (\<lambda>s.
        case pinClause dia snapshotID of
          None \<Rightarrow> Inl (ProxyError ErrInjectionFailed ''unknown PinFromDialect'')
        | Some pin \<Rightarrow>
            Inr (''SELECT '' @ sh_projection s @ '' FROM '' @ sh_table s @ pin @
                 (if TrimSpace (sh_where s) = [] then [] else '' WHERE '' @ TrimSpace (sh_where s)) @
                 withTail (sh_tail s))))"

end
