(* ===== verification/Splice_Reparse.thy ===== *)
theory Splice_Reparse
  imports SQL_Splice
begin

text \<open>
  What the splicer produces, read back by its own parser. The scanners are related to a
  lexical automaton without look-ahead (a doubled quote closes and reopens the string), and
  a query assembled from a clean projection, table and \<open>WHERE\<close> clause is shown to
  decompose into exactly those parts.
\<close>

section \<open>Text outside strings and parentheses\<close>

text \<open>The lexical state after a text; \<open>None\<close> when a parenthesis closes that was not open.\<close>

fun lexRun :: "nat \<Rightarrow> bool \<Rightarrow> string \<Rightarrow> (nat \<times> bool) option" where
  "lexRun d s [] = Some (d, s)"
| "lexRun d s (c # cs) =
     (if \<not> s \<and> c = CHR '')'' \<and> d = 0 then None
      else case scanByte d s c of (d', s') \<Rightarrow> lexRun d' s' cs)"

definition balanced :: "string \<Rightarrow> bool" where
  "balanced u \<longleftrightarrow> lexRun 0 False u = Some (0, False)"

definition lastWord :: "bool \<Rightarrow> string \<Rightarrow> bool" where
  "lastWord prev u = (if u = [] then prev else isWordChar (last u))"

text \<open>No position of \<open>u\<close>, followed by \<open>v\<close>, is at depth 0, on a left boundary and satisfies \<open>P\<close>.\<close>

fun noHit :: "(string \<Rightarrow> bool) \<Rightarrow> bool \<Rightarrow> nat \<Rightarrow> bool \<Rightarrow> string \<Rightarrow> string \<Rightarrow> bool" where
  "noHit P prev d s [] v = True"
| "noHit P prev d s (c # u) v =
     (case scanByte d s c of (d', s') \<Rightarrow>
        \<not> (\<not> s' \<and> d' = 0 \<and> \<not> prev \<and> P (c # u @ v)) \<and> noHit P (isWordChar c) d' s' u v)"

lemma lexRun_append:
  "lexRun d s (u @ v) = (case lexRun d s u of None \<Rightarrow> None | Some (d', s') \<Rightarrow> lexRun d' s' v)"
  by (induction u arbitrary: d s) (auto split: prod.splits)

lemma lexRun_more: "lexRun d s u = Some (d', s') \<Longrightarrow> lexRun d s (u @ v) = lexRun d' s' v"
  by (simp add: lexRun_append)

lemma lexRun_shift: "lexRun d s u = Some (d', s') \<Longrightarrow> lexRun (d + k) s u = Some (d' + k, s')"
proof (induction u arbitrary: d s)
  case (Cons c u)
  show ?case
    using Cons.prems Cons.IH [of "Suc d" False] Cons.IH [of "d - 1" False] Cons.IH [of d]
    by (cases d) (auto simp: scanByte_def split: if_split_asm)
qed simp

lemma lexRun_deep: "lexRun d s u \<noteq> None \<Longrightarrow> noHit P prev (Suc d) s u v"
proof (induction u arbitrary: d s prev)
  case (Cons c u)
  show ?case
    using Cons.prems Cons.IH [of "Suc d" False] Cons.IH [of "d - 1" False] Cons.IH [of d]
    by (cases d) (auto simp: scanByte_def split: if_split_asm)
qed simp

lemma noHit_append:
  assumes "lexRun d s u = Some (d', s')"
  shows "noHit P prev d s (u @ w) v \<longleftrightarrow>
    noHit P prev d s u (w @ v) \<and> noHit P (lastWord prev u) d' s' w v"
  using assms
proof (induction u arbitrary: prev d s)
  case (Cons c u)
  have "lastWord prev (c # u) = lastWord (isWordChar c) u" by (simp add: lastWord_def)
  with Cons show ?case by (auto split: if_splits prod.splits)
qed (simp add: lastWord_def)

section \<open>Keywords\<close>

lemma keywordAt_word:
  assumes "keywordAt kw (c # s)" "kw \<noteq> []" "list_all isWordChar kw"
  shows "isWordChar c"
proof -
  obtain k ks where kw: "kw = k # ks" using assms(2) by (cases kw) auto
  with assms(1) have "lower_byte c = lower_byte k" by (auto simp: keywordAt_def fold_eq_def)
  with assms(3) kw show ?thesis using isWordChar_lower by (metis list.pred_inject(2))
qed

lemma keywordAt_other: "kw \<noteq> [] \<Longrightarrow> lower_byte c \<noteq> lower_byte (hd kw) \<Longrightarrow> \<not> keywordAt kw (c # s)"
  by (cases kw) (auto simp: keywordAt_def fold_eq_def)

text \<open>A byte that is no word character ends every keyword.\<close>

lemma keywordAt_stop:
  assumes "list_all isWordChar kw" "v = [] \<or> \<not> isWordChar (hd v)"
  shows "keywordAt kw (u @ v) = keywordAt kw u"
proof (cases "length kw \<le> length u")
  case True
  then show ?thesis
    using assms(2) by (cases "drop (length kw) u") (auto simp: keywordAt_def)
next
  case False
  have "\<not> fold_eq (take (length kw) (u @ v)) kw" if "length kw \<le> length (u @ v)"
  proof
    assume "fold_eq (take (length kw) (u @ v)) kw"
    then have "map lower_byte (take (length kw) (u @ v)) ! length u = map lower_byte kw ! length u"
      by (simp add: fold_eq_def)
    then have "lower_byte (hd v) = lower_byte (kw ! length u)"
      using that False by (cases v) (auto simp: nth_append take_Cons')
    moreover have "isWordChar (kw ! length u)" using assms(1) False by (simp add: list_all_length)
    moreover have "v \<noteq> []" using that False by auto
    ultimately show False using assms(2) isWordChar_lower by metis
  qed
  with False show ?thesis by (auto simp: keywordAt_def)
qed

lemma keywordAt_extend:
  assumes "keywordAt kw u" "kw \<noteq> []" "list_all isWordChar kw" "u \<noteq> []" "\<not> isWordChar (last u)"
  shows "keywordAt kw (u @ v)"
proof -
  have "length kw \<noteq> length u"
  proof
    assume l: "length kw = length u"
    with assms(1) have "map lower_byte u = map lower_byte kw" by (simp add: keywordAt_def fold_eq_def)
    then have "lower_byte (last u) = lower_byte (last kw)"
      using assms(2,4) by (metis last_map)
    moreover have "isWordChar (last kw)" using assms(2,3) by (simp add: list_all_iff)
    ultimately show False using assms(5) isWordChar_lower by metis
  qed
  with assms(1) show ?thesis by (auto simp: keywordAt_def)
qed

text \<open>The predicates the scanners look for: one keyword, or one of several.\<close>

definition hits :: "string list \<Rightarrow> string \<Rightarrow> bool" where
  "hits kws s = list_ex (\<lambda>kw. keywordAt kw s) kws"

definition kwList :: "string list \<Rightarrow> bool" where
  "kwList kws = list_all (\<lambda>kw. kw \<noteq> [] \<and> list_all isWordChar kw) kws"

lemma hits_word: "kwList kws \<Longrightarrow> hits kws (c # s) \<Longrightarrow> isWordChar c"
  by (auto simp: hits_def kwList_def list_ex_iff list_all_iff [of _ kws] dest: keywordAt_word)

lemma hits_stop: "kwList kws \<Longrightarrow> v = [] \<or> \<not> isWordChar (hd v) \<Longrightarrow> hits kws (u @ v) = hits kws u"
  unfolding hits_def kwList_def list_ex_iff list_all_iff [of _ kws]
  by (metis keywordAt_stop)

lemma hits_extend:
  "kwList kws \<Longrightarrow> hits kws u \<Longrightarrow> u \<noteq> [] \<Longrightarrow> \<not> isWordChar (last u) \<Longrightarrow> hits kws (u @ v)"
  unfolding hits_def kwList_def list_ex_iff list_all_iff [of _ kws]
  by (metis keywordAt_extend)

lemma noHit_stop:
  assumes "kwList kws" "v = [] \<or> \<not> isWordChar (hd v)"
  shows "noHit (hits kws) prev d s u v = noHit (hits kws) prev d s u []"
proof (induction u arbitrary: prev d s)
  case (Cons c u)
  then show ?case using hits_stop [OF assms, of "c # u"] by (auto split: prod.splits)
qed simp

lemma noHit_extend:
  assumes "kwList kws" "noHit (hits kws) prev d s u v" "u = [] \<or> \<not> isWordChar (last u)"
  shows "noHit (hits kws) prev d s u []"
  using assms(2,3)
proof (induction u arbitrary: prev d s)
  case (Cons c u)
  have "hits kws (c # u) \<Longrightarrow> hits kws (c # u @ v)"
    using hits_extend [OF assms(1), of "c # u" v] Cons.prems(2) by simp
  with Cons show ?case by (auto split: prod.splits if_splits)
qed simp

section \<open>The scanners without look-ahead\<close>

lemma quoteAheadE: "quoteAhead cs \<Longrightarrow> \<exists>cs'. cs = sql_quote # cs'"
  by (cases cs) (auto simp: quoteAhead_def)

lemma not_hits_quote: "kwList kws \<Longrightarrow> \<not> hits kws (sql_quote # s)"
  using hits_word by (fastforce simp: byte_simps)

lemma kwList1: "kw \<noteq> [] \<Longrightarrow> list_all isWordChar kw \<Longrightarrow> kwList [kw]"
  by (simp add: kwList_def)

lemma scanToKeyword_step:
  assumes "kwList [kw]"
  shows "scanToKeyword kw prev d s (c # cs) =
    (if \<not> s \<and> c = CHR '')'' \<and> d = 0 then Inl (errMalformed ''unbalanced parens'')
     else case scanByte d s c of (d', s') \<Rightarrow>
       if \<not> s' \<and> d' = 0 \<and> \<not> prev \<and> hits [kw] (c # cs) then Inr ([], c # cs)
       else rbind (scanToKeyword kw (isWordChar c) d' s' cs) (\<lambda>(a, b). Inr (c # a, b)))"
proof (cases "s \<and> c = sql_quote \<and> quoteAhead cs")
  case True
  then obtain cs' where cs: "cs = sql_quote # cs'" using quoteAheadE by blast
  have "\<not> isWordChar sql_quote" by (simp add: byte_simps)
  moreover have "\<not> hits [kw] (sql_quote # u)" for u by (rule not_hits_quote [OF assms])
  ultimately show ?thesis
    using True cs by (cases "scanToKeyword kw False d True cs'") (auto simp: scanByte_def hits_def)
next
  case False
  then show ?thesis by (auto simp: hits_def)
qed

declare scanToKeyword.simps(2) [simp del]

lemma scanToTailKeyword_step:
  "scanToTailKeyword prev d s (c # cs) =
    (case scanByte d s c of (d', s') \<Rightarrow>
       if \<not> s' \<and> d' = 0 \<and> \<not> prev \<and> hits tailKeywords (c # cs) then ([], c # cs)
       else case scanToTailKeyword (isWordChar c) d' s' cs of (a, b) \<Rightarrow> (c # a, b))"
proof (cases "s \<and> c = sql_quote \<and> quoteAhead cs")
  case True
  then obtain cs' where cs: "cs = sql_quote # cs'" using quoteAheadE by blast
  have "\<not> isWordChar sql_quote" by (simp add: byte_simps)
  moreover have "kwList tailKeywords" by (simp add: kwList_def tailKeywords_def byte_simps)
  then have "\<not> hits tailKeywords (sql_quote # u)" for u by (rule not_hits_quote)
  ultimately show ?thesis
    using True cs by (auto simp: scanByte_def hits_def split: prod.splits)
next
  case False
  then show ?thesis by (auto simp: hits_def)
qed

declare scanToTailKeyword.simps(2) [simp del]

lemma scanToKeyword_sound:
  assumes "kwList [kw]" "scanToKeyword kw prev d s t = Inr (a, b)"
  shows "t = a @ b \<and> lexRun d s a = Some (0, False) \<and> noHit (hits [kw]) prev d s a b \<and>
    hits [kw] b \<and> \<not> lastWord prev a"
  using assms(2)
proof (induction t arbitrary: prev d s a b)
  case (Cons c t)
  obtain d' s' where sb: "scanByte d s c = (d', s')" by (cases "scanByte d s c")
  have nc: "\<not> (\<not> s \<and> c = CHR '')'' \<and> d = 0)"
    using Cons.prems by (auto simp: scanToKeyword_step [OF assms(1)] split: if_split_asm)
  show ?case
  proof (cases "\<not> s' \<and> d' = 0 \<and> \<not> prev \<and> hits [kw] (c # t)")
    case True
    then have "isWordChar c" using hits_word [OF assms(1)] by blast
    with sb True have "d = 0 \<and> \<not> s"
      by (auto simp: scanByte_def byte_simps split: if_split_asm)
    with True Cons.prems sb nc show ?thesis
      by (auto simp: scanToKeyword_step [OF assms(1)] lastWord_def)
  next
    case False
    with Cons.prems sb nc obtain a' where a': "a = c # a'"
      "scanToKeyword kw (isWordChar c) d' s' t = Inr (a', b)"
      by (auto simp: scanToKeyword_step [OF assms(1)] elim!: rbind_InrE)
    from Cons.IH [OF a'(2)] False sb nc a'(1) show ?thesis
      by (auto simp: lastWord_def)
  qed
qed simp

lemma scanToKeyword_complete:
  assumes "kwList [kw]" "lexRun d s a = Some (0, False)" "noHit (hits [kw]) prev d s a b"
    "hits [kw] b" "\<not> lastWord prev a"
  shows "scanToKeyword kw prev d s (a @ b) = Inr (a, b)"
  using assms(2-)
proof (induction a arbitrary: prev d s)
  case Nil
  obtain c t where b: "b = c # t"
    using Nil.prems(3) assms(1) by (cases b) (auto simp: hits_def keywordAt_def kwList_def)
  then have "isWordChar c" using Nil.prems(3) hits_word [OF assms(1)] by blast
  then have "scanByte d s c = (0, False)" "c \<noteq> CHR '')''"
    using Nil.prems(1) by (auto simp: scanByte_def byte_simps)
  with Nil.prems b show ?case by (simp add: scanToKeyword_step [OF assms(1)] lastWord_def)
next
  case (Cons c a)
  have "lastWord prev (c # a) = lastWord (isWordChar c) a" by (simp add: lastWord_def)
  with Cons show ?case
    by (auto simp: scanToKeyword_step [OF assms(1)] split: prod.splits if_split_asm)
qed

lemma kwList_tail: "kwList tailKeywords"
  by (simp add: kwList_def tailKeywords_def byte_simps)

lemma scanToTailKeyword_complete:
  assumes "lexRun d s a = Some (0, False)" "noHit (hits tailKeywords) prev d s a b"
    "b = [] \<or> hits tailKeywords b \<and> \<not> lastWord prev a"
  shows "scanToTailKeyword prev d s (a @ b) = (a, b)"
  using assms
proof (induction a arbitrary: prev d s)
  case Nil
  show ?case
  proof (cases b)
    case (Cons c t)
    then have "isWordChar c" using Nil.prems(3) hits_word [OF kwList_tail] by blast
    then have "scanByte d s c = (0, False)"
      using Nil.prems(1) by (auto simp: scanByte_def byte_simps)
    with Nil.prems Cons show ?thesis by (simp add: scanToTailKeyword_step lastWord_def)
  qed simp
next
  case (Cons c a)
  have "lastWord prev (c # a) = lastWord (isWordChar c) a" by (simp add: lastWord_def)
  with Cons show ?case
    by (auto simp: scanToTailKeyword_step split: prod.splits if_split_asm)
qed

section \<open>White space is inert\<close>

text \<open>Bytes that change no lexical state and belong to no word.\<close>

definition inert :: "char \<Rightarrow> bool" where
  "inert c \<longleftrightarrow> c \<noteq> sql_quote \<and> c \<noteq> CHR ''('' \<and> c \<noteq> CHR '')'' \<and> \<not> isWordChar c"

lemma inert_spaces: "set qs \<subseteq> set utf8_spaces \<Longrightarrow> list_all inert (concat qs)"
proof (induction qs)
  case (Cons q qs)
  have "list_all (list_all inert) utf8_spaces" by (simp add: utf8_spaces_def inert_def byte_simps)
  with Cons show ?case by (auto simp: list_all_iff)
qed simp

lemma lexRun_inert: "list_all inert u \<Longrightarrow> lexRun d False u = Some (d, False)"
  by (induction u) (auto simp: inert_def scanByte_def)

lemma lastWord_inert: "list_all inert u \<Longrightarrow> lastWord False u = False"
  by (auto simp: lastWord_def list_all_iff inert_def)

lemma noHit_inert: "kwList kws \<Longrightarrow> list_all inert u \<Longrightarrow> noHit (hits kws) prev d s u v"
  by (induction u arbitrary: prev d s) (auto simp: inert_def split: prod.splits dest: hits_word)

lemma inert_hd: "list_all inert u \<Longrightarrow> u = [] \<or> \<not> isWordChar (hd u)"
  by (cases u) (auto simp: inert_def)

lemma TrimSpace_inert:
  obtains a b where "s = a @ TrimSpace s @ b" "list_all inert a" "list_all inert b"
  using TrimSpace_split [of s] inert_spaces by metis

lemma lexRun_trim:
  assumes "lexRun 0 False s = Some (0, False)"
  shows "lexRun 0 False (TrimSpace s) = Some (0, False)"
proof -
  obtain a b where s: "s = a @ TrimSpace s @ b" "list_all inert a" "list_all inert b"
    by (rule TrimSpace_inert)
  have run: "lexRun 0 False (a @ TrimSpace s @ b) = Some (0, False)" using assms s(1) by simp
  then obtain d s' where t: "lexRun 0 False (TrimSpace s) = Some (d, s')"
    by (auto simp: lexRun_append lexRun_inert [OF s(2)] split: option.split_asm)
  with run have "lexRun d s' b = Some (0, False)" by (simp add: lexRun_append lexRun_inert [OF s(2)])
  moreover have "s'' = s' \<and> d'' = d" if "lexRun d s' b = Some (d'', s'')" "list_all inert b" for d'' s'' b
    using that by (induction b arbitrary: d s') (auto simp: inert_def scanByte_def split: if_split_asm)
  ultimately show ?thesis using t s(3) by auto
qed

lemma noHit_trim:
  assumes "kwList kws" "noHit (hits kws) False 0 False s []"
  shows "noHit (hits kws) False 0 False (TrimSpace s) []"
proof -
  obtain a b where s: "s = a @ TrimSpace s @ b" "list_all inert a" "list_all inert b"
    by (rule TrimSpace_inert)
  have "noHit (hits kws) False 0 False (a @ TrimSpace s @ b) []" using assms(2) s(1) by simp
  then have n: "noHit (hits kws) False 0 False (TrimSpace s @ b) []"
    by (simp add: noHit_append [OF lexRun_inert [OF s(2)]] lastWord_inert [OF s(2)])
  have "noHit P prev d q (u @ v) [] \<Longrightarrow> noHit P prev d q u v" for P prev d q u v
    by (induction u arbitrary: prev d q) (auto split: prod.splits)
  with n have "noHit (hits kws) False 0 False (TrimSpace s) b" by blast
  then show ?thesis using noHit_stop [OF assms(1) inert_hd [OF s(3)]] by blast
qed

subsection \<open>Trimmed text\<close>

lemma strip1_prefix: "strip1 ps s = None \<Longrightarrow> strip1 ps (take k s) = None"
proof (induction ps)
  case (Cons p ps)
  have "has_prefix (take k s) p \<Longrightarrow> has_prefix s p"
    by (metis append_take_drop_id append.assoc has_prefixE has_prefix_append)
  with Cons show ?case by (auto split: if_split_asm)
qed simp

lemma TrimSpace_stuck:
  "strip1 utf8_spaces (TrimSpace s) = None" "strip1 utf8_spaces_rev (rev (TrimSpace s)) = None"
proof -
  let ?l = "strip_all utf8_spaces s"
  obtain qs where "rev ?l = concat qs @ strip_all utf8_spaces_rev (rev ?l)"
    using strip_all_split by blast
  then have "?l = TrimSpace s @ rev (concat qs)"
    by (metis TrimSpace_def rev_append rev_rev_ident)
  then have "TrimSpace s = take (length (TrimSpace s)) ?l" by simp
  then show "strip1 utf8_spaces (TrimSpace s) = None"
    using strip1_prefix [OF strip_all_stuck] by metis
  show "strip1 utf8_spaces_rev (rev (TrimSpace s)) = None"
    by (simp add: TrimSpace_def strip_all_stuck)
qed

definition trimmed :: "string \<Rightarrow> bool" where
  "trimmed s \<longleftrightarrow> strip1 utf8_spaces s = None \<and> strip1 utf8_spaces_rev (rev s) = None"

lemma trimmed_TrimSpace [simp]: "trimmed (TrimSpace s)"
  by (simp add: trimmed_def TrimSpace_stuck)

lemma TrimSpace_trimmed [simp]: "trimmed s \<Longrightarrow> TrimSpace s = s"
  by (simp add: trimmed_def TrimSpace_def strip_all_None)

lemma strip1_space_end:
  assumes "strip1 utf8_spaces s = None" "s \<noteq> []"
  shows "strip1 utf8_spaces (s @ CHR '' '' # t) = None"
proof -
  have "strip1 ps (s @ CHR '' '' # t) = None"
    if "strip1 ps s = None" "list_all (\<lambda>p. CHR '' '' \<notin> set (tl p)) ps" for ps
    using that
  proof (induction ps)
    case (Cons p ps)
    have "\<not> (p \<noteq> [] \<and> has_prefix (s @ CHR '' '' # t) p)"
    proof
      assume p: "p \<noteq> [] \<and> has_prefix (s @ CHR '' '' # t) p"
      then have tk: "take (length p) (s @ CHR '' '' # t) = p" by (simp add: has_prefix_def)
      show False
      proof (cases "length p \<le> length s")
        case True
        then have "has_prefix s p" using tk by (simp add: has_prefix_def)
        with p Cons.prems(1) show False by simp
      next
        case False
        then have "p ! length s = CHR '' ''" using tk by (metis nth_append_length nth_take not_le)
        moreover have "0 < length s" using assms(2) by simp
        moreover have "length s - 1 < length (tl p)" 
          unfolding length_tl using False \<open>0 < length s\<close> by linarith
        ultimately have "CHR '' '' \<in> set (tl p)"
          using nth_mem [of "length s - 1" "tl p"] by (simp add: nth_tl)
        with Cons.prems(2) show False by simp
      qed
    qed
    with Cons show ?case by (simp split: if_split_asm)
  qed simp
  moreover have "list_all (\<lambda>p. CHR '' '' \<notin> set (tl p)) utf8_spaces" by (simp add: utf8_spaces_def)
  ultimately show ?thesis using assms(1) by blast
qed

lemma TrimSpace_space_end:
  assumes "trimmed s" "s \<noteq> []"
  shows "TrimSpace (s @ '' '') = s"
  using assms strip1_space_end [of s "[]"]
  by (simp add: TrimSpace_def trimmed_def strip_all_None strip_all_space_rev)

section \<open>Queries assembled from parts\<close>

lemma skipBlanks_space [simp]: "skipBlanks (CHR '' '' # s) = skipBlanks s"
  by (simp add: skipBlanks_def isBlank_def)

lemma skipBlanks_solid [simp]: "solid c \<Longrightarrow> skipBlanks (c # s) = c # s"
  by (auto simp: skipBlanks_def isBlank_def solid_def)

lemma skipBlanks_idem [simp]: "skipBlanks (skipBlanks s) = skipBlanks s"
  by (simp add: skipBlanks_def dropWhile_idem)

lemma peekKeyword_skip [simp]: "peekKeyword kw (skipBlanks s) = peekKeyword kw s"
  by (simp add: peekKeyword_def)

lemma solid_upper [simp]:
  "solid (CHR ''S'')" "solid (CHR ''W'')" "solid (CHR ''F'')" "solid (CHR ''G'')"
  "solid (CHR ''H'')" "solid (CHR ''O'')" "solid (CHR ''L'')" "solid (CHR ''('')"
  by (simp_all add: solid_def)

text \<open>What \<open>parseSelect\<close> guarantees of the parts of an accepted query.\<close>

definition from_free :: "string \<Rightarrow> bool" where
  "from_free p \<longleftrightarrow> balanced p \<and> noHit (hits [''FROM'']) False 0 False p []"

definition wf_table :: "string \<Rightarrow> bool" where
  "wf_table t \<longleftrightarrow> t \<noteq> [] \<and> isIdentStart (hd t) \<and> list_all isTableChar t"

definition wf_tail :: "string \<Rightarrow> bool" where
  "wf_tail t \<longleftrightarrow> trimmed t \<and> (t = [] \<or> validateTail t = None)"

definition wf_shape :: "selectShape \<Rightarrow> bool" where
  "wf_shape s \<longleftrightarrow>
     sh_projection s \<noteq> [] \<and> trimmed (sh_projection s) \<and> from_free (sh_projection s) \<and>
     wf_table (sh_table s) \<and> wf_tail (sh_tail s)"

lemma kwList_from: "kwList [''FROM'']"
  by (simp add: kwList_def byte_simps)

lemma parseTable_wf: "parseTable s = Inr (t, r) \<Longrightarrow> wf_table t"
proof -
  assume a: "parseTable s = Inr (t, r)"
  then obtain c cs where s: "s = c # cs" by (cases s) (auto simp: parseTable_def)
  have "t = takeWhile isTableChar s" "isIdentStart c"
    using a s by (auto simp: parseTable_def split: if_split_asm)
  then show ?thesis
    using s by (auto simp: wf_table_def isTableChar_def isIdentStart_imp_word list_all_iff
        dest: set_takeWhileD)
qed

lemma parseWhereTail_wf: "parseWhereTail s = Inr (w, t) \<Longrightarrow> wf_tail t"
  by (auto simp: parseWhereTail_def wf_tail_def Let_def
      split: prod.split_asm bool.split_asm if_split_asm option.split_asm)
     (metis TrimSpace_Nil trimmed_TrimSpace)+

lemma parseSelect_wf:
  assumes "parseSelect q = Inr sh"
  shows "wf_shape sh"
proof -
  obtain s1 pre s2 table s4 whr tail where
    sc: "scanToKeyword ''FROM'' False 0 False s1 = Inr (pre, s2)" and
    ne: "TrimSpace pre \<noteq> []" and
    tb: "parseTable (skipBlanks (drop 4 s2)) = Inr (table, s4)" and
    wt: "parseWhereTail (skipBlanks s4) = Inr (whr, tail)" and
    sh: "sh = \<lparr>sh_projection = TrimSpace pre, sh_table = table, sh_where = whr, sh_tail = tail\<rparr>"
    using assms
    by (auto simp: parseSelect_def Let_def elim!: rbind_InrE
        split: if_split_asm option.split_asm prod.split_asm bool.split_asm)
  have p: "lexRun 0 False pre = Some (0, False)" "noHit (hits [''FROM'']) False 0 False pre s2"
    "\<not> lastWord False pre"
    using scanToKeyword_sound [OF kwList_from sc] by auto
  have "noHit (hits [''FROM'']) False 0 False pre []"
    using noHit_extend [OF kwList_from p(2)] p(3) by (auto simp: lastWord_def split: if_split_asm)
  then have "from_free (TrimSpace pre)"
    by (simp add: from_free_def balanced_def lexRun_trim [OF p(1)] noHit_trim [OF kwList_from])
  with ne tb wt sh show ?thesis
    by (simp add: wf_shape_def parseTable_wf [OF tb] parseWhereTail_wf [OF wt])
qed

lemma SELECT_head:
  "peekKeyword ''WITH'' (''SELECT '' @ s) = False"
  "peekKeyword ''INSERT'' (''SELECT '' @ s) = False"
  "peekKeyword ''UPDATE'' (''SELECT '' @ s) = False"
  "peekKeyword ''DELETE'' (''SELECT '' @ s) = False"
  "consumeKeyword ''SELECT'' (''SELECT '' @ s) = (True, CHR '' '' # s)"
  by (simp_all add: peekKeyword_def consumeKeyword_def keywordAt_other)
     (simp_all add: keywordAt_def byte_simps)

lemma scan_assembled:
  assumes "from_free p"
  shows "scanToKeyword ''FROM'' False 0 False (CHR '' '' # p @ '' FROM '' @ t) =
    Inr (CHR '' '' # p @ '' '', ''FROM '' @ t)"
proof -
  let ?a = "'' '' @ p @ '' ''" and ?b = "''FROM '' @ t"
  have i: "list_all inert '' ''" by (simp add: inert_def byte_simps)
  have bp: "lexRun 0 False p = Some (0, False)" using assms by (simp add: from_free_def balanced_def)
  have "lexRun 0 False ?a = Some (0, False)"
    by (simp only: lexRun_append lexRun_inert [OF i] bp option.case prod.case)
  moreover have "noHit (hits [''FROM'']) False 0 False ?a ?b"
    using assms noHit_stop [OF kwList_from, of "'' FROM '' @ t" False 0 False p]
    by (simp only: noHit_append [OF lexRun_inert [OF i]] noHit_append [OF bp] lastWord_inert [OF i]
         noHit_inert [OF kwList_from i])
       (simp add: from_free_def byte_simps)
  moreover have "hits [''FROM''] ?b" by (simp add: hits_def keywordAt_def byte_simps)
  moreover have "\<not> lastWord False ?a" by (simp add: lastWord_def byte_simps)
  ultimately have "scanToKeyword ''FROM'' False 0 False (?a @ ?b) = Inr (?a, ?b)"
    by (rule scanToKeyword_complete [OF kwList_from])
  then show ?thesis by simp
qed

lemma parseTable_assembled:
  assumes "wf_table tb"
  shows "parseTable (skipBlanks (tb @ '' '' @ r)) = Inr (tb, '' '' @ r)"
proof -
  have "\<not> isTableChar (CHR '' '')" by (simp add: isTableChar_def byte_simps)
  then have "takeWhile isTableChar (tb @ '' '' @ r) = tb" "dropWhile isTableChar (tb @ '' '' @ r) = '' '' @ r"
    using assms by (auto simp: wf_table_def list_all_iff takeWhile_append2 dropWhile_append2)
  moreover obtain c cs where tb: "tb = c # cs" "isIdentStart c"
    using assms by (cases tb) (auto simp: wf_table_def)
  moreover from tb have "c \<noteq> CHR ''(''" "solid c" by (auto simp: isIdentStart_def solid_def)
  ultimately show ?thesis by (simp add: parseTable_def)
qed

lemma parseSelect_assembled:
  assumes "p \<noteq> []" "trimmed p" "from_free p" "wf_table tb"
    "skipBlanks r = r" "checkAfterTable r = None" "parseWhereTail r = Inr (w, t)"
  shows "parseSelect (''SELECT '' @ p @ '' FROM '' @ tb @ '' '' @ r) =
    Inr \<lparr>sh_projection = p, sh_table = tb, sh_where = w, sh_tail = t\<rparr>"
proof -
  let ?rest = "tb @ '' '' @ r"
  have "parseTable (skipBlanks (CHR '' '' # ?rest)) = Inr (tb, '' '' @ r)"
    using parseTable_assembled [OF assms(4)] by simp
  moreover have "TrimSpace (CHR '' '' # p @ '' '') = p"
    using assms(1,2) by (simp add: TrimSpace_space_end)
  moreover note scan_assembled [OF assms(3), of ?rest]
  moreover have "skipBlanks (''SELECT '' @ x) = ''SELECT '' @ x" for x by simp
  ultimately show ?thesis
    using assms(1,5-7) SELECT_head [of "p @ '' FROM '' @ ?rest"]
    by (simp add: parseSelect_def Let_def)
qed

section \<open>The spliced \<open>WHERE\<close> clause\<close>

lemma findKeywordAtDepth0_step:
  assumes "kwList [kw]"
  shows "findKeywordAtDepth0 prev d s kw (c # cs) =
    (case scanByte d s c of (d', s') \<Rightarrow>
       if \<not> s' \<and> d' = 0 \<and> \<not> prev \<and> hits [kw] (c # cs) then Some ([], c # cs)
       else map_option (\<lambda>(a, b). (c # a, b)) (findKeywordAtDepth0 (isWordChar c) d' s' kw cs))"
proof (cases "s \<and> c = sql_quote \<and> quoteAhead cs")
  case True
  then obtain cs' where cs: "cs = sql_quote # cs'" using quoteAheadE by blast
  have "\<not> isWordChar sql_quote" by (simp add: byte_simps)
  moreover have "\<not> hits [kw] (sql_quote # u)" for u by (rule not_hits_quote [OF assms])
  ultimately show ?thesis
    using True cs
    by (cases "findKeywordAtDepth0 False d True kw cs'") (auto simp: scanByte_def hits_def)
next
  case False
  then show ?thesis by (auto simp: hits_def)
qed

declare findKeywordAtDepth0.simps(2) [simp del]

lemma find_none:
  assumes "kwList [kw]" "noHit (hits [kw]) prev d s u []"
  shows "findKeywordAtDepth0 prev d s kw u = None"
  using assms(2)
  by (induction u arbitrary: prev d s)
     (auto simp: findKeywordAtDepth0_step [OF assms(1)] split: prod.splits)

lemma parens_quiet:
  assumes "kwList kws" "balanced w"
  shows "lexRun 0 False (''('' @ w @ '')'') = Some (0, False)"
    "noHit (hits kws) prev 0 False (''('' @ w @ '')'') v"
proof -
  have w: "lexRun 1 False w = Some (1, False)" "lexRun 0 False w \<noteq> None"
    using lexRun_shift [of 0 False w 0 False 1] assms(2) by (auto simp: balanced_def)
  show "lexRun 0 False (''('' @ w @ '')'') = Some (0, False)"
    using w(1) by (simp add: lexRun_append scanByte_def)
  have "noHit (hits kws) False 1 False w u" for u
    using lexRun_deep [OF w(2)] by simp
  moreover have "\<not> hits kws (CHR '')'' # u)" for u
    using hits_word [OF assms(1), of "CHR '')''" u] by (auto simp: byte_simps)
  ultimately show "noHit (hits kws) prev 0 False (''('' @ w @ '')'') v"
    using noHit_append [OF w(1), of "hits kws" False "'')''" v]
    by (simp add: scanByte_def byte_simps)
qed

definition conjoined :: "string \<Rightarrow> string \<Rightarrow> string" where
  "conjoined w body =
     (if w = [] then ''('' @ body @ '')'' else ''('' @ w @ '') AND ('' @ body @ '')'')"

lemma conjoined_quiet:
  assumes "balanced w" "balanced body" "kwList kws"
    "\<And>u. \<not> hits kws (CHR ''A'' # CHR ''N'' # CHR ''D'' # u)"
  shows "lexRun 0 False (conjoined w body) = Some (0, False)"
    "noHit (hits kws) prev 0 False (conjoined w body) v"
proof -
  note q = parens_quiet [OF assms(3) assms(1)] parens_quiet [OF assms(3) assms(2)]
  have a: "lexRun 0 False '' AND '' = Some (0, False)" by (simp add: scanByte_def)
  have sp: "\<not> hits kws (CHR '' '' # u)" for u
    using hits_word [OF assms(3), of "CHR '' ''" u] by (auto simp: byte_simps)
  have n: "noHit (hits kws) p 0 False '' AND '' u" for p u
    using assms(4) sp by (simp add: scanByte_def byte_simps)
  have split: "''('' @ w @ '') AND ('' @ body @ '')'' = (''('' @ w @ '')'') @ '' AND '' @ ''('' @ body @ '')''"
    by simp
  show "lexRun 0 False (conjoined w body) = Some (0, False)"
    unfolding conjoined_def split
    by (cases "w = []") (simp_all only: lexRun_more [OF q(1)] lexRun_more [OF a] q(3) if_True if_False simp_thms)
  show "noHit (hits kws) prev 0 False (conjoined w body) v"
    unfolding conjoined_def split using q(2,4) n
    by (cases "w = []") (simp_all only: noHit_append [OF q(1)] noHit_append [OF a] if_True if_False simp_thms)
qed

lemma trimmed_unblank: "trimmed t \<Longrightarrow> skipBlanks t = t"
proof (cases t)
  case (Cons c u)
  assume "trimmed t"
  then have "\<not> isBlank c"
    using Cons by (auto simp: trimmed_def isBlank_def utf8_spaces_def)
  with Cons show ?thesis by (simp add: skipBlanks_def)
qed (simp add: skipBlanks_def)

lemma wf_tail_hits: "wf_tail t \<Longrightarrow> t = [] \<or> hits tailKeywords t"
  by (auto simp: wf_tail_def validateTail_def peekAnyKeyword_def peekKeyword_def hits_def
      trimmed_unblank split: if_split_asm)

lemma wf_tail_no_setop: "wf_tail t \<Longrightarrow> \<not> peekAnyKeyword setOperations t"
proof
  assume wf: "wf_tail t" and p: "peekAnyKeyword setOperations t"
  have "skipBlanks t = t" using wf by (simp add: wf_tail_def trimmed_unblank)
  with p obtain c u where t: "t = c # u" "hits setOperations t"
    by (cases t) (auto simp: peekAnyKeyword_def peekKeyword_def hits_def setOperations_def keywordAt_def)
  have low: "lower_byte c \<in> lower_byte ` hd ` set kws" if "hits kws (c # u)" "kwList kws" for kws
    using that by (fastforce simp: hits_def kwList_def list_ex_iff list_all_iff dest: keywordAt_other)
  have "kwList setOperations" by (simp add: kwList_def setOperations_def byte_simps)
  from low [OF _ this] t have "lower_byte c \<in> {CHR ''u'', CHR ''i'', CHR ''e''}"
    by (simp add: setOperations_def)
  moreover from low [OF _ kwList_tail] wf_tail_hits [OF wf] t
  have "lower_byte c \<in> {CHR ''g'', CHR ''h'', CHR ''o'', CHR ''l''}"
    by (simp add: tailKeywords_def)
  ultimately show False by auto
qed

lemma WHERE_head:
  "checkAfterTable (''WHERE '' @ u) = None"
  "consumeKeyword ''WHERE'' (''WHERE '' @ u) = (True, CHR '' '' # u)"
proof -
  have p: "peekKeyword ''WHERE'' (''WHERE '' @ u)"
    by (simp add: peekKeyword_def keywordAt_def byte_simps)
  then show "consumeKeyword ''WHERE'' (''WHERE '' @ u) = (True, CHR '' '' # u)"
    by (simp add: consumeKeyword_def)
  have "\<not> peekKeyword kw (''WHERE '' @ u)" if "kw \<noteq> []" "lower_byte (hd kw) \<noteq> CHR ''w''" for kw
    using that by (simp add: peekKeyword_def keywordAt_other)
  then show "checkAfterTable (''WHERE '' @ u) = None"
    using p by (simp add: checkAfterTable_def peekAnyKeyword_def setOperations_def)
qed

lemma parseWhereTail_assembled:
  assumes "lexRun 0 False w = Some (0, False)"
    "\<And>v. noHit (hits tailKeywords) False 0 False w v" "wf_tail t"
  shows "parseWhereTail (''WHERE '' @ w @ withTail t) = Inr ('' '' @ w @ (if t = [] then [] else '' ''), t)"
proof -
  let ?a = "'' '' @ w @ (if t = [] then [] else '' '')"
  have i: "list_all inert '' ''" "list_all inert (if t = [] then [] else '' '')"
    by (simp_all add: inert_def byte_simps)
  have tr: "trimmed t" using assms(3) by (simp add: wf_tail_def)
  have "lexRun 0 False ?a = Some (0, False)"
    by (simp only: lexRun_append lexRun_inert [OF i(1)] lexRun_inert [OF i(2)] assms(1) option.case prod.case)
  moreover have lw: "lastWord True '' '' = False" by (simp add: lastWord_def byte_simps)
  have "noHit (hits tailKeywords) True 0 False ?a t"
    by (simp only: noHit_append [OF lexRun_inert [OF i(1)]] noHit_append [OF assms(1)]
        noHit_inert [OF kwList_tail i(1)] noHit_inert [OF kwList_tail i(2)] lw assms(2) simp_thms)
  moreover have "t = [] \<or> hits tailKeywords t \<and> \<not> lastWord True ?a"
    using wf_tail_hits [OF assms(3)] by (auto simp: lastWord_def byte_simps)
  ultimately have "scanToTailKeyword True 0 False (?a @ t) = (?a, t)"
    by (rule scanToTailKeyword_complete)
  moreover have "'' '' @ w @ withTail t = ?a @ t" using tr by (simp add: withTail_def)
  ultimately show ?thesis
    using assms(3) wf_tail_no_setop [OF assms(3)] WHERE_head(2) [of "w @ withTail t"] tr
    by (auto simp: parseWhereTail_def wf_tail_def)
qed

lemma conjoined_trimmed: "trimmed (conjoined w body)" "conjoined w body \<noteq> []"
proof -
  have "TrimSpace (conjoined w body) = conjoined w body"
    by (rule TrimSpace_solid) (simp_all add: conjoined_def solid_def)
  then show "trimmed (conjoined w body)" by (metis trimmed_TrimSpace)
qed (simp add: conjoined_def)

lemma spliced_where_trim:
  "TrimSpace ('' '' @ conjoined w body @ (if t = [] then [] else '' '')) = conjoined w body"
  using conjoined_trimmed by (simp add: TrimSpace_space_end)

lemma splice_row_filter:
  assumes "parseSelect q = Inr sh" "balanced (sh_where sh)" "balanced body"
  obtains q' w where "spliceRowFilter q body = Inr q'"
    "parseSelect q' = Inr (sh\<lparr>sh_where := w\<rparr>)"
    "TrimSpace w = conjoined (TrimSpace (sh_where sh)) body"
    "findKeyword (TrimSpace w) ''OR'' = None"
proof -
  let ?w = "TrimSpace (sh_where sh)"
  let ?W = "conjoined ?w body"
  let ?raw = "'' '' @ ?W @ (if sh_tail sh = [] then [] else '' '')"
  have wf: "wf_shape sh" by (rule parseSelect_wf [OF assms(1)])
  have b: "balanced ?w" using assms(2) lexRun_trim by (simp add: balanced_def)
  have nA: "\<not> hits tailKeywords (CHR ''A'' # u)" "\<not> hits [''OR''] (CHR ''A'' # u)" for u
    by (simp_all add: hits_def tailKeywords_def keywordAt_other)
  have kOR: "kwList [''OR'']" by (simp add: kwList_def byte_simps)
  note cq = conjoined_quiet [OF b assms(3) kwList_tail nA(1)]
  have wt: "parseWhereTail (''WHERE '' @ ?W @ withTail (sh_tail sh)) = Inr (?raw, sh_tail sh)"
    using wf by (intro parseWhereTail_assembled cq) (simp add: wf_shape_def)
  let ?q = "''SELECT '' @ sh_projection sh @ '' FROM '' @ sh_table sh @ '' '' @
    ''WHERE '' @ ?W @ withTail (sh_tail sh)"
  have "parseSelect ?q = Inr (sh\<lparr>sh_where := ?raw\<rparr>)"
    using parseSelect_assembled [OF _ _ _ _ _ WHERE_head(1) wt] wf
    by (simp add: wf_shape_def)
  moreover have "spliceRowFilter q body = Inr ?q"
    using assms(1) by (simp add: spliceRowFilter_def conjoined_def)
  moreover have "TrimSpace ?raw = ?W" by (rule spliced_where_trim)
  moreover have "findKeyword ?W ''OR'' = None"
    unfolding findKeyword_def
    using conjoined_quiet(2) [OF b assms(3) kOR nA(2)] by (intro find_none kOR)
  ultimately show thesis using that [of ?q ?raw] by simp
qed

end
