(* ===== verification/Splice_Masks.thy ===== *)
theory Splice_Masks
  imports Splice_Reparse
begin

text \<open>
  Column masks and snapshot pins: what \<open>splitTopLevelCommas\<close>, \<open>applyMasks\<close> and
  \<open>RewriteFromForSnapshotPin\<close> of \<open>splice.go\<close> do to a query.
\<close>

section \<open>Splitting at top-level commas\<close>

lemma splitCommas_step:
  "splitCommas d s (c # cs) =
    (if \<not> s \<and> c = CHR '')'' \<and> d = 0 then Inl (ProxyError ErrInjectionFailed ''unbalanced parens'')
     else if \<not> s \<and> c = CHR '','' \<and> d = 0 then rbind (splitCommas 0 False cs) (\<lambda>ps. Inr ([] # ps))
     else case scanByte d s c of (d', s') \<Rightarrow>
       rbind (splitCommas d' s' cs) (\<lambda>ps. Inr ((c # hd ps) # tl ps)))"
proof (cases "s \<and> c = sql_quote \<and> quoteAhead cs")
  case True
  then obtain cs' where cs: "cs = sql_quote # cs'" using quoteAheadE by blast
  then show ?thesis
    using True by (cases "splitCommas d True cs'") (auto simp: scanByte_def)
next
  case False
  then show ?thesis by auto
qed

declare splitCommas.simps(2) [simp del]

lemma splitCommas_join: "splitCommas d s u = Inr ps \<Longrightarrow> ps \<noteq> [] \<and> join_with '','' ps = u"
proof (induction u arbitrary: d s ps)
  case Nil
  then show ?case by (auto split: if_split_asm)
next
  case (Cons c u)
  show ?case
  proof (cases "\<not> s \<and> c = CHR '','' \<and> d = 0")
    case True
    then obtain qs where "splitCommas 0 False u = Inr qs" "ps = [] # qs"
      using Cons.prems by (auto simp: splitCommas_step elim!: rbind_InrE)
    with Cons.IH [of 0 False qs] True show ?thesis by (simp add: join_with_Cons)
  next
    case False
    obtain d' s' where "scanByte d s c = (d', s')" by (cases "scanByte d s c")
    with False Cons.prems obtain qs where qs: "splitCommas d' s' u = Inr qs" "ps = (c # hd qs) # tl qs"
      by (auto simp: splitCommas_step elim!: rbind_InrE split: if_split_asm)
    from Cons.IH [OF qs(1)] qs(2) show ?thesis
      by (cases qs; cases "tl qs") auto
  qed
qed

text \<open>Every piece is balanced; only the first piece starts in the state the scan starts in.\<close>

lemma splitCommas_balanced:
  "splitCommas d s u = Inr ps \<Longrightarrow>
     lexRun d s (hd ps) = Some (0, False) \<and> list_all balanced (tl ps)"
proof (induction u arbitrary: d s ps)
  case Nil
  then show ?case by (auto split: if_split_asm)
next
  case (Cons c u)
  show ?case
  proof (cases "\<not> s \<and> c = CHR '','' \<and> d = 0")
    case True
    then obtain qs where qs: "splitCommas 0 False u = Inr qs" "ps = [] # qs"
      using Cons.prems by (auto simp: splitCommas_step elim!: rbind_InrE)
    with Cons.IH [OF qs(1)] splitCommas_join [OF qs(1)] True show ?thesis
      by (cases qs) (auto simp: balanced_def)
  next
    case False
    obtain d' s' where sb: "scanByte d s c = (d', s')" by (cases "scanByte d s c")
    have nc: "\<not> (\<not> s \<and> c = CHR '')'' \<and> d = 0)"
      using Cons.prems by (auto simp: splitCommas_step split: if_split_asm)
    with False sb Cons.prems obtain qs where qs: "splitCommas d' s' u = Inr qs" "ps = (c # hd qs) # tl qs"
      by (auto simp: splitCommas_step elim!: rbind_InrE split: if_split_asm)
    from Cons.IH [OF qs(1)] qs(2) sb nc show ?thesis by auto
  qed
qed

text \<open>
  Splitting a projection list or a mask body at its top-level commas loses nothing: the
  pieces joined by commas are the text, and no piece has an open string or parenthesis.
\<close>

theorem split_commas_roundtrip:
  assumes "splitTopLevelCommas u = Inr ps"
  shows "join_with '','' ps = u \<and> list_all balanced ps"
proof -
  have "splitCommas 0 False u = Inr ps" using assms by (simp add: splitTopLevelCommas_def)
  from splitCommas_join [OF this] splitCommas_balanced [OF this] show ?thesis
    by (cases ps) (auto simp: balanced_def)
qed

theorem split_commas_roundtrip_witness:
  "splitTopLevelCommas ''a, f(b, c)'' = Inr [''a'', '' f(b, c)''] \<and>
   join_with '','' [''a'', '' f(b, c)''] = ''a, f(b, c)'' \<and> list_all balanced [''a'', '' f(b, c)'']"
proof -
  have "splitTopLevelCommas ''a, f(b, c)'' = Inr [''a'', '' f(b, c)'']"
    by (simp add: splitTopLevelCommas_def splitCommas_step scanByte_def)
  with split_commas_roundtrip [OF this] show ?thesis by blast
qed

section \<open>Masking a projection\<close>

lemma idxByCol_sound:
  "idxByCol i m cols c = Some k \<Longrightarrow>
     m c = Some k \<or> i \<le> k \<and> k < i + length cols \<and> TrimSpace (cols ! (k - i)) = c \<and> isSimpleIdent c"
proof (induction cols arbitrary: i m)
  case (Cons x cols)
  from Cons.IH [OF Cons.prems [unfolded idxByCol.simps]] show ?case
    by (auto simp: nth_Cons' split: if_split_asm)
qed simp

lemma idxByCol_notin: "c \<notin> TrimSpace ` set cols \<Longrightarrow> idxByCol i m cols c = m c"
  by (induction cols arbitrary: i m) auto

lemma idxByCol_distinct:
  assumes "distinct (map TrimSpace cols)" "j < length cols" "isSimpleIdent (TrimSpace (cols ! j))"
  shows "idxByCol i m cols (TrimSpace (cols ! j)) = Some (i + j)"
  using assms
proof (induction cols arbitrary: i m j)
  case (Cons x cols)
  show ?case
  proof (cases j)
    case 0
    with Cons.prems show ?thesis by (simp add: idxByCol_notin)
  next
    case (Suc j')
    with Cons.prems Cons.IH [of j' "Suc i"] show ?thesis by simp
  qed
qed simp

lemma maskLoop_length: "maskLoop idx r ms = Inr out \<Longrightarrow> length out = length r"
  by (induction ms arbitrary: r) (auto split: option.split_asm)

lemma maskLoop_idx: "maskLoop idx r ms = Inr out \<Longrightarrow> m \<in> set ms \<Longrightarrow> idx (mk_col m) \<noteq> None"
  by (induction ms arbitrary: r) (auto split: option.split_asm)

lemma maskLoop_frame:
  "maskLoop idx r ms = Inr out \<Longrightarrow> (\<And>m. m \<in> set ms \<Longrightarrow> idx (mk_col m) \<noteq> Some k) \<Longrightarrow> out ! k = r ! k"
proof (induction ms arbitrary: r)
  case (Cons m ms)
  then obtain i where i: "idx (mk_col m) = Some i" "i \<noteq> k"
    "maskLoop idx (r[i := mk_expr m @ '' AS '' @ mk_col m]) ms = Inr out"
    by (auto split: option.split_asm)
  with Cons.IH [OF i(3)] Cons.prems(2) show ?case by simp
qed simp

lemma maskLoop_hit:
  "maskLoop idx r ms = Inr out \<Longrightarrow> k < length r \<Longrightarrow> (\<exists>m \<in> set ms. idx (mk_col m) = Some k) \<Longrightarrow>
     \<exists>m \<in> set ms. idx (mk_col m) = Some k \<and> out ! k = mk_expr m @ '' AS '' @ mk_col m"
proof (induction ms arbitrary: r)
  case (Cons m ms)
  obtain i where i: "idx (mk_col m) = Some i"
    "maskLoop idx (r[i := mk_expr m @ '' AS '' @ mk_col m]) ms = Inr out"
    using Cons.prems(1) by (auto split: option.split_asm)
  show ?case
  proof (cases "\<exists>m \<in> set ms. idx (mk_col m) = Some k")
    case True
    with Cons.IH [OF i(2)] Cons.prems(2) show ?thesis by auto
  next
    case False
    then have "i = k" using Cons.prems(3) i(1) by auto
    moreover have "out ! k = r[i := mk_expr m @ '' AS '' @ mk_col m] ! k"
      using maskLoop_frame [OF i(2)] False by blast
    ultimately show ?thesis using Cons.prems(2) i(1) by auto
  qed
qed simp

text \<open>
  Masking rewrites slots in place: the projection keeps its length; a slot whose text is
  not the bare name of a masked column keeps its text; and a slot that changes becomes
  \<open>expr AS col\<close> for a mask of that very column.
\<close>

theorem apply_masks_slots:
  assumes "applyMasks cols ms = Inr out"
  shows "length out = length cols \<and>
    (\<forall>k < length cols. out ! k = cols ! k \<or>
       (\<exists>m \<in> set ms. TrimSpace (cols ! k) = mk_col m \<and> out ! k = mk_expr m @ '' AS '' @ mk_col m))"
proof (intro conjI allI impI)
  let ?idx = "idxByCol 0 Map.empty cols"
  have l: "maskLoop ?idx cols ms = Inr out" using assms by (simp add: applyMasks_def)
  show "length out = length cols" by (rule maskLoop_length [OF l])
  fix k assume k: "k < length cols"
  show "out ! k = cols ! k \<or>
    (\<exists>m \<in> set ms. TrimSpace (cols ! k) = mk_col m \<and> out ! k = mk_expr m @ '' AS '' @ mk_col m)"
  proof (cases "\<exists>m \<in> set ms. ?idx (mk_col m) = Some k")
    case True
    then obtain m where "m \<in> set ms" "?idx (mk_col m) = Some k"
      "out ! k = mk_expr m @ '' AS '' @ mk_col m"
      using maskLoop_hit [OF l k True] by blast
    moreover from idxByCol_sound [OF this(2)] have "TrimSpace (cols ! k) = mk_col m" by simp
    ultimately show ?thesis by blast
  next
    case False
    then show ?thesis using maskLoop_frame [OF l] by blast
  qed
qed

theorem apply_masks_slots_witness:
  "applyMasks [''id'', ''ssn''] [\<lparr>mk_col = ''ssn'', mk_expr = ''NULL''\<rparr>] = Inr [''id'', ''NULL AS ssn''] \<and>
   length [''id'', ''NULL AS ssn''] = length [''id'', ''ssn'']"
proof -
  have t: "TrimSpace ''id'' = ''id''" "TrimSpace ''ssn'' = ''ssn''"
    by (rule TrimSpace_solid; simp add: solid_def)+
  have "applyMasks [''id'', ''ssn''] [\<lparr>mk_col = ''ssn'', mk_expr = ''NULL''\<rparr>] = Inr [''id'', ''NULL AS ssn'']"
    by (simp add: applyMasks_def t byte_simps)
  with apply_masks_slots [OF this] show ?thesis by blast
qed

text \<open>
  C3 When the projected columns are distinct, no masked column is left in the clear: after
  masking, no slot is the bare name of a masked column. (With a column projected twice only
  its last slot is masked, see \<open>duplicate_column_unmasked\<close>.)
\<close>

theorem apply_masks_complete:
  assumes "applyMasks cols ms = Inr out" "distinct (map TrimSpace cols)" "m \<in> set ms"
  shows "mk_col m \<notin> set out"
proof
  let ?idx = "idxByCol 0 Map.empty cols"
  have l: "maskLoop ?idx cols ms = Inr out" using assms(1) by (simp add: applyMasks_def)
  assume "mk_col m \<in> set out"
  then obtain k where k: "k < length cols" "out ! k = mk_col m"
    using maskLoop_length [OF l] by (auto simp: in_set_conv_nth)
  obtain j where j: "?idx (mk_col m) = Some j" using maskLoop_idx [OF l assms(3)] by blast
  from idxByCol_sound [OF j] have jc: "j < length cols" "TrimSpace (cols ! j) = mk_col m"
    "isSimpleIdent (mk_col m)" by auto
  have solid: "TrimSpace (mk_col m) = mk_col m"
    using jc(2) trimmed_TrimSpace TrimSpace_trimmed by metis
  have slot: "out ! k \<noteq> x @ '' AS '' @ y" for x y
  proof
    assume "out ! k = x @ '' AS '' @ y"
    then have "CHR '' '' \<in> set (mk_col m)" using k(2) by (metis UnI1 UnI2 list.set_intros(1) set_append)
    then show False
      using isSimpleIdent_word [OF jc(3)] by (auto simp: list_all_iff byte_simps)
  qed
  show False
  proof (cases "\<exists>m' \<in> set ms. ?idx (mk_col m') = Some k")
    case True
    then show False using maskLoop_hit [OF l k(1) True] slot by blast
  next
    case False
    then have "cols ! k = mk_col m" using maskLoop_frame [OF l] k(2) by metis
    then have "?idx (mk_col m) = Some k"
      using idxByCol_distinct [OF assms(2) k(1)] jc(3) solid by simp
    with False assms(3) show False by blast
  qed
qed

theorem apply_masks_complete_witness:
  "applyMasks [''id'', ''ssn''] [\<lparr>mk_col = ''ssn'', mk_expr = ''NULL''\<rparr>] = Inr [''id'', ''NULL AS ssn''] \<and>
   ''ssn'' \<notin> set [''id'', ''NULL AS ssn'']"
proof -
  have t: "TrimSpace ''id'' = ''id''" "TrimSpace ''ssn'' = ''ssn''"
    by (rule TrimSpace_solid; simp add: solid_def)+
  have a: "applyMasks [''id'', ''ssn''] [\<lparr>mk_col = ''ssn'', mk_expr = ''NULL''\<rparr>] =
      Inr [''id'', ''NULL AS ssn'']"
    by (simp add: applyMasks_def t byte_simps)
  moreover have "distinct (map TrimSpace [''id'', ''ssn''])" by (simp add: t)
  ultimately show ?thesis using apply_masks_complete [OF a] by fastforce
qed

lemma duplicate_column_unmasked:
  "applyMasks [''ssn'', ''ssn''] [\<lparr>mk_col = ''ssn'', mk_expr = ''NULL''\<rparr>] = Inr [''ssn'', ''NULL AS ssn'']"
proof -
  have "TrimSpace ''ssn'' = ''ssn''" by (rule TrimSpace_solid; simp add: solid_def)
  then show ?thesis by (simp add: applyMasks_def byte_simps)
qed

section \<open>Snapshot pins\<close>

lemma parseSelect_alias:
  assumes "p \<noteq> []" "trimmed p" "from_free p" "wf_table tb"
    "skipBlanks r = r" "checkAfterTable r = Some e"
  shows "parseSelect (''SELECT '' @ p @ '' FROM '' @ tb @ '' '' @ r) = Inl e"
proof -
  let ?rest = "tb @ '' '' @ r"
  have "TrimSpace (CHR '' '' # p @ '' '') = p"
    using assms(1,2) by (simp add: TrimSpace_space_end)
  moreover note scan_assembled [OF assms(3), of ?rest] parseTable_assembled [OF assms(4), of r]
  moreover have "skipBlanks (''SELECT '' @ x) = ''SELECT '' @ x" for x by simp
  ultimately show ?thesis
    using assms(1,5,6) SELECT_head [of "p @ '' FROM '' @ ?rest"]
    by (simp add: parseSelect_def Let_def)
qed

lemma pin_clause_is_alias:
  "checkAfterTable (''FOR VERSION AS OF '' @ u) = Some (errUnsupported ''table alias'')"
  "checkAfterTable (''AT SNAPSHOT '' @ u) = Some (errUnsupported ''table alias'')"
  by (simp_all add: checkAfterTable_def peekAnyKeyword_def peekKeyword_def setOperations_def
      tailKeywords_def keywordAt_def fold_eq_def solid_def isIdentStart_def)

text \<open>
  The pin rewrite embeds only a validated decimal snapshot id, and keeps the projection,
  the table, the trimmed \<open>WHERE\<close> body and the tail of the query.
\<close>

theorem pin_rewrite_shape:
  assumes "RewriteFromForSnapshotPin q sid dia = Inr q'"
  shows "\<exists>sh pin. parseSelect q = Inr sh \<and> pinClause dia sid = Some pin \<and>
    list_all (\<lambda>c. is_digit c \<or> c = CHR ''-'') sid \<and> sid \<noteq> [] \<and>
    q' = ''SELECT '' @ sh_projection sh @ '' FROM '' @ sh_table sh @ pin @
      (if TrimSpace (sh_where sh) = [] then [] else '' WHERE '' @ TrimSpace (sh_where sh)) @
      withTail (sh_tail sh)"
proof -
  have d: "isDecimalInt sid" using assms by (auto simp: RewriteFromForSnapshotPin_def split: if_split_asm)
  then have "list_all (\<lambda>c. is_digit c \<or> c = CHR ''-'') sid \<and> sid \<noteq> []"
    by (auto simp: isDecimalInt_def list_all_iff split: list.split_asm if_split_asm)
  with assms d show ?thesis
    by (auto simp: RewriteFromForSnapshotPin_def elim!: rbind_InrE split: option.split_asm)
qed

theorem pin_rewrite_shape_witness:
  "RewriteFromForSnapshotPin ''SELECT a FROM t'' ''42'' PinDialectTrino =
     Inr ''SELECT a FROM t FOR VERSION AS OF 42'' \<and>
   (\<exists>sh. parseSelect ''SELECT a FROM t'' = Inr sh)"
proof -
  have "RewriteFromForSnapshotPin ''SELECT a FROM t'' ''42'' PinDialectTrino =
      Inr ''SELECT a FROM t FOR VERSION AS OF 42''"
    by code_simp
  with pin_rewrite_shape [OF this] show ?thesis by blast
qed

text \<open>
  A pinned query never reaches the policy splice: whatever query and snapshot id the pin
  rewrite accepts, \<open>SpliceArtifact\<close> rejects its output as a table alias, so a request on a
  pinned table fails closed with \<open>ErrUnsupportedQueryShape\<close>.
\<close>

theorem pinned_query_not_spliced:
  assumes "RewriteFromForSnapshotPin q sid dia = Inr q'" "kind \<in> {[], KindRowFilter, KindColumnMask}"
  shows "SpliceArtifact q' body kind = Inl (errUnsupported ''table alias'')"
proof -
  obtain sh pin where sh: "parseSelect q = Inr sh" "pinClause dia sid = Some pin"
    and q': "q' = ''SELECT '' @ sh_projection sh @ '' FROM '' @ sh_table sh @ pin @
      (if TrimSpace (sh_where sh) = [] then [] else '' WHERE '' @ TrimSpace (sh_where sh)) @
      withTail (sh_tail sh)"
    using assms(1)
    by (auto simp: RewriteFromForSnapshotPin_def elim!: rbind_InrE split: if_split_asm option.split_asm)
  have wf: "wf_shape sh" by (rule parseSelect_wf [OF sh(1)])
  let ?r = "drop 1 pin @
      (if TrimSpace (sh_where sh) = [] then [] else '' WHERE '' @ TrimSpace (sh_where sh)) @
      withTail (sh_tail sh)"
  have p: "pin = '' '' @ drop 1 pin" "skipBlanks ?r = ?r"
    "checkAfterTable ?r = Some (errUnsupported ''table alias'')"
    using sh(2) pin_clause_is_alias
    by (auto simp: pinClause_def solid_def split: pinFromDialect.split_asm)
  have "q' = ''SELECT '' @ sh_projection sh @ '' FROM '' @ sh_table sh @ '' '' @ ?r"
    using q' p(1) by (metis append.assoc)
  then have "parseSelect q' = Inl (errUnsupported ''table alias'')"
    using parseSelect_alias [OF _ _ _ _ p(2,3)] wf by (simp add: wf_shape_def)
  then show ?thesis
    using assms(2) by (auto simp: SpliceArtifact_def spliceRowFilter_def spliceColumnMask_def
        KindRowFilter_def KindColumnMask_def)
qed

theorem pinned_query_not_spliced_witness:
  "RewriteFromForSnapshotPin ''SELECT a FROM t'' ''42'' PinDialectTrino =
     Inr ''SELECT a FROM t FOR VERSION AS OF 42'' \<and>
   SpliceArtifact ''SELECT a FROM t FOR VERSION AS OF 42'' ''b = 1'' KindRowFilter =
     Inl (errUnsupported ''table alias'')"
proof -
  have r: "RewriteFromForSnapshotPin ''SELECT a FROM t'' ''42'' PinDialectTrino =
      Inr ''SELECT a FROM t FOR VERSION AS OF 42''"
    by code_simp
  with pinned_query_not_spliced [OF r] show ?thesis by simp
qed

end
