(* ===== verification/Enforcement.thy ===== *)
theory Enforcement
  imports Dialect_Emit Splice_Masks
begin

text \<open>
  From a policy source to an enforced query: a row filter parsed by \<open>sql_grammar.go\<close>, emitted
  by a dialect and spliced by \<open>splice.go\<close>. The emitted text is balanced, so it sits inside the
  parentheses the splicer puts around it.
\<close>

section \<open>Emitted text is balanced\<close>

definition calm :: "char \<Rightarrow> bool" where
  "calm c \<longleftrightarrow> c \<noteq> sql_quote \<and> c \<noteq> CHR ''('' \<and> c \<noteq> CHR '')''"

lemma lexRun_calm: "list_all calm u \<Longrightarrow> lexRun d False u = Some (d, False)"
  by (induction u) (auto simp: calm_def scanByte_def)

lemma word_calm: "isWordChar c \<Longrightarrow> calm c"
  by (auto simp: calm_def byte_simps)

lemma ident_calm: "isSimpleIdent i \<Longrightarrow> list_all calm i"
  using isSimpleIdent_word by (auto simp: list_all_iff word_calm)

lemma number_calm:
  assumes "is_number v"
  shows "list_all calm v"
proof -
  obtain w n where w: "numberLexeme v = (w, n, [])" using assms by (auto simp: is_number_def split: prod.split_asm)
  obtain sg d u where v: "v = sg @ d @ u" and p: "number_parts sg d u"
    using number_parts_ex by blast
  have dig: "is_digit c \<Longrightarrow> calm c" for c by (auto simp: is_digit_def calm_def)
  have "list_all calm sg" "list_all calm d"
    using p dig by (auto simp: number_parts_def calm_def list_all_iff)
  moreover have "list_all calm u"
  proof (cases u)
    case (Cons e u')
    with w v numberLexeme_parts [OF p] have e: "e = CHR ''.''" and "dropWhile is_digit u' = []"
      by (auto simp del: dropWhile_eq_Nil_conv split: if_split_asm)
    then have "list_all is_digit u'" by (simp add: list_all_iff)
    then show ?thesis using Cons e dig by (simp add: calm_def list_all_iff)
  qed simp
  ultimately show ?thesis using v by simp
qed

lemma lexRun_doubled: "lexRun d True (doubleQuotes v @ u) = lexRun d True u"
proof (induction v)
  case (Cons c v)
  then show ?case by (simp add: doubleQuotes_def scanByte_def)
qed (simp add: doubleQuotes_def)

lemma balanced_append: "balanced u \<Longrightarrow> balanced v \<Longrightarrow> balanced (u @ v)"
  by (simp add: balanced_def lexRun_append)

lemma balanced_calm: "list_all calm u \<Longrightarrow> balanced u"
  by (simp add: balanced_def lexRun_calm)

lemma balanced_parens: "balanced u \<Longrightarrow> balanced (''('' @ u @ '')'')"
  using parens_quiet(1) [OF kwList_from] by (simp add: balanced_def)

lemma balanced_commaList: "list_all balanced ss \<Longrightarrow> balanced (commaList ss)"
proof (induction ss rule: induct_list012)
  case (3 x y ss)
  moreover have "balanced '', ''" by (rule balanced_calm) (simp add: calm_def)
  ultimately show ?case
    using balanced_append [of x "'', '' @ commaList (y # ss)"] balanced_append [of "'', ''"]
    by (simp add: commaList_def)
qed (simp_all add: commaList_def balanced_def)

lemma comparison_ops_calm: "oper \<in> set comparison_ops \<Longrightarrow> list_all calm oper"
proof -
  have "list_all (list_all calm) comparison_ops"
    by (simp add: comparison_ops_def comparisonSymbols_def calm_def)
  then show "oper \<in> set comparison_ops \<Longrightarrow> list_all calm oper" by (simp add: list_all_iff)
qed

context predicate_emitter
begin

lemma literal_balanced:
  assumes "wf_literal l" "emitLiteral (adaptLiteral l) = Inr s"
  shows "balanced s"
proof (cases l)
  case (Literal k v)
  consider "k = ''string''" | "k = ''number''" | "k = ''null''" "v = ''NULL''"
    using assms(1) unfolding Literal wf_literal.simps by argo
  then show ?thesis
  proof cases
    case 1
    with assms Literal show ?thesis
      using lexRun_doubled [of 0 v "[sql_quote]"]
      by (auto simp: emit_string balanced_def scanByte_def)
  next
    case 2
    with assms Literal show ?thesis by (auto simp: emit_number intro: balanced_calm number_calm)
  next
    case 3
    with assms Literal show ?thesis by (auto simp: emit_null calm_def intro!: balanced_calm)
  qed
qed

lemma values_balanced:
  "list_all wf_literal vs \<Longrightarrow> traverse emitLiteral (map adaptLiteral vs) = Inr ss \<Longrightarrow> list_all balanced ss"
  by (induction vs arbitrary: ss) (auto elim!: rbind_InrE intro: literal_balanced)

lemma column_balanced:
  "wf_column x \<Longrightarrow> emitPred (adaptNodeForDialect x) = Inr s \<Longrightarrow> balanced s"
  by (cases x) (auto simp: emit_column ident_calm calm_def intro!: balanced_calm split: if_split_asm)

lemma row_balanced:
  "wf_row x \<Longrightarrow> emitPred (adaptNodeForDialect x) = Inr s \<Longrightarrow> balanced s"
proof (induction x arbitrary: s)
  case (BinaryOp oper l r)
  have sp: "balanced '' ''" by (rule balanced_calm) (simp add: calm_def)
  have ao: "balanced ''AND''" "balanced ''OR''" by (rule balanced_calm; simp add: calm_def)+
  obtain a b where a: "emitPred (adaptNodeForDialect l) = Inr a" "balanced a"
    and b: "emitPred (adaptNodeForDialect r) = Inr b" "balanced b" and o: "balanced oper"
  proof (cases "oper = ''AND'' \<or> oper = ''OR''")
    case True
    with BinaryOp.prems(1) row_emitted obtain a b where
      "emitPred (adaptNodeForDialect l) = Inr a" "emitPred (adaptNodeForDialect r) = Inr b"
      by fastforce
    with BinaryOp True ao show thesis using that by auto
  next
    case False
    with BinaryOp.prems(1) obtain lit where "r = LitNode lit" "wf_literal lit" "wf_column l"
      "oper \<in> set comparison_ops" by (cases r) auto
    with column_emitted [of l] literal_emitted [of lit] show thesis
      using that column_balanced literal_balanced
      by (auto simp: emit_literal intro: balanced_calm comparison_ops_calm)
  qed
  have "s = ''('' @ (a @ '' '' @ oper @ '' '' @ b) @ '')''"
    using BinaryOp.prems(2) emit_binary [OF a(1) b(1)] by simp
  then show ?case using a(2) b(2) o sp by (metis balanced_append balanced_parens)
next
  case (UnaryOp oper x)
  then have o: "balanced (oper @ '' '')" by (auto simp: calm_def intro!: balanced_calm)
  obtain a where a: "emitPred (adaptNodeForDialect x) = Inr a" using UnaryOp.prems(1) row_emitted by fastforce
  then have "s = ''('' @ ((oper @ '' '') @ a) @ '')''" using UnaryOp.prems(2) emit_unary [OF a] by simp
  moreover have "balanced a" using UnaryOp a by simp
  ultimately show ?case using o by (metis balanced_append balanced_parens)
next
  case (InList l vs)
  obtain a ss where a: "emitPred (adaptNodeForDialect l) = Inr a"
    and ss: "traverse emitLiteral (map adaptLiteral vs) = Inr ss"
    using InList.prems(1) column_emitted [of l] values_emitted [of vs] by auto
  have "s = a @ '' IN '' @ ''('' @ commaList ss @ '')''"
    using InList.prems(2) emit_in [OF a ss] by simp
  moreover have "balanced a" "balanced (commaList ss)"
    using InList.prems(1) column_balanced [of l] a values_balanced [OF _ ss] balanced_commaList by auto
  moreover have "balanced '' IN ''" by (rule balanced_calm) (simp add: calm_def)
  ultimately show ?case by (metis balanced_append balanced_parens)
qed simp_all

lemma policy_enforced:
  assumes "ParseRowFilter src = Inr (RowFragment x)" "emitPred (adaptNodeForDialect x) = Inr body"
    "parseSelect q = Inr sh" "balanced (sh_where sh)"
  shows "\<exists>q' w. spliceRowFilter q body = Inr q' \<and> parseSelect q' = Inr (sh\<lparr>sh_where := w\<rparr>) \<and>
    TrimSpace w = conjoined (TrimSpace (sh_where sh)) body \<and>
    findKeyword (TrimSpace w) ''OR'' = None \<and> ParseRowFilter body = Inr (RowFragment x)"
proof -
  have wf: "wf_row x" using ParseRowFilter_wf [OF assms(1)] by auto
  then have "balanced body" using row_balanced assms(2) by blast
  then obtain q' w where "spliceRowFilter q body = Inr q'" "parseSelect q' = Inr (sh\<lparr>sh_where := w\<rparr>)"
    "TrimSpace w = conjoined (TrimSpace (sh_where sh)) body" "findKeyword (TrimSpace w) ''OR'' = None"
    by (rule splice_row_filter [OF assms(3,4)])
  moreover have "ParseRowFilter body = Inr (RowFragment x)"
    using emitted_row_parses_back [OF assms(1)] assms(2) by auto
  ultimately show ?thesis by blast
qed

end

section \<open>Compiled row filters in enforced queries\<close>

lemma adapt_nil [simp]: "adaptNodeForDialect x = AstNil \<longleftrightarrow> x = NilNode"
  by (cases x) auto

lemma trino_compiled:
  "wf_row x \<Longrightarrow> trino_CompileRowFilter tb (adaptNodeForDialect x) = trino_emitPred (adaptNodeForDialect x)"
  by (auto simp: trino_CompileRowFilter_def)

lemma spark_compiled:
  "wf_row x \<Longrightarrow> spark_CompileRowFilter tb (adaptNodeForDialect x) = spark_emitPred (adaptNodeForDialect x)"
  by (auto simp: spark_CompileRowFilter_def)

abbreviation sample_filter :: node where
  "sample_filter \<equiv> BinaryOp ''='' (ColumnRef [] ''r'') (LitNode (Literal ''number'' ''1''))"

lemma sample_filter_parsed: "ParseRowFilter ''r=1'' = Inr (RowFragment sample_filter)"
  by code_simp

text \<open>
  C2 Accepted row filters are typed, and typed filters compile: whatever source the fragment parser
  accepts, its result is a row filter whose comparisons have a column on the left and a well-formed
  literal on the right, whose \<open>IN\<close> lists are not empty and whose identifiers are identifiers; neither
  the Trino nor the Spark emitter refuses it, and the two outputs, read back by the parser, have
  this very type and value, so that the engines enforce the same predicate.
\<close>

theorem accepted_filter_typed:
  assumes "ParseRowFilter src = Inr f"
  shows "\<exists>x b1 b2. f = RowFragment x \<and> wf_row x \<and> trino_CompileRowFilter tb (adaptNodeForDialect x) = Inr b1 \<and>
    spark_CompileRowFilter tb (adaptNodeForDialect x) = Inr b2 \<and> ParseRowFilter b1 = Inr f \<and> ParseRowFilter b2 = Inr f"
proof -
  obtain x where x: "f = RowFragment x" "wf_row x" using ParseRowFilter_wf [OF assms] by blast
  note p = assms [unfolded x(1)]
  show ?thesis
    using trino.emitted_row_parses_back [OF p] trino_compiled spark.emitted_row_parses_back [OF p] spark_compiled x by auto
qed

theorem accepted_filter_typed_witness:
  "wf_row sample_filter \<and> (\<exists>b2. spark_CompileRowFilter ''t'' (adaptNodeForDialect sample_filter) = Inr b2)"
  using accepted_filter_typed [OF sample_filter_parsed] by auto

text \<open>
  C1 Enforcement, end to end. Take a row-filter policy the parser accepts, compile it for Trino
  and splice it as a row filter into any single-table query the splicer accepts whose \<open>WHERE\<close>
  body is balanced. The splice succeeds; its output is again a single-table query with the same
  projection, table and tail; its \<open>WHERE\<close> body is the user's predicate and the policy's, each in
  its own parentheses and joined by \<open>AND\<close>, with no \<open>OR\<close> outside parentheses; and the policy's
  part still parses to the policy.
\<close>

theorem trino_row_filter_enforced:
  assumes "ParseRowFilter src = Inr (RowFragment x)"
    "trino_CompileRowFilter tb (adaptNodeForDialect x) = Inr body"
    "parseSelect q = Inr sh" "balanced (sh_where sh)"
  shows "\<exists>q' w. SpliceArtifact q body KindRowFilter = Inr q' \<and>
    parseSelect q' = Inr (sh\<lparr>sh_where := w\<rparr>) \<and>
    TrimSpace w = conjoined (TrimSpace (sh_where sh)) body \<and>
    findKeyword (TrimSpace w) ''OR'' = None \<and> ParseRowFilter body = Inr (RowFragment x)"
proof -
  have "trino_emitPred (adaptNodeForDialect x) = Inr body"
    using assms(1,2) trino_compiled ParseRowFilter_wf [OF assms(1)] by auto
  from trino.policy_enforced [OF assms(1) this assms(3,4)] show ?thesis
    by (simp add: SpliceArtifact_def)
qed

theorem trino_row_filter_enforced_witness:
  "\<exists>q'. SpliceArtifact ''SELECT a FROM t WHERE b OR c LIMIT 5'' ''(r = 1)'' KindRowFilter = Inr q' \<and>
     (\<exists>sh. parseSelect q' = Inr sh)"
proof -
  have "trino_CompileRowFilter ''t'' (adaptNodeForDialect sample_filter) = Inr ''(r = 1)''"
    by (simp add: trino_CompileRowFilter_def)
  moreover have "parseSelect ''SELECT a FROM t WHERE b OR c LIMIT 5'' =
      Inr \<lparr>sh_projection = ''a'', sh_table = ''t'', sh_where = '' b OR c '', sh_tail = ''LIMIT 5''\<rparr>"
    by code_simp
  moreover have "balanced (sh_where \<lparr>sh_projection = ''a'', sh_table = ''t'',
      sh_where = '' b OR c '', sh_tail = ''LIMIT 5''\<rparr>)"
    by code_simp
  ultimately show ?thesis
    using trino_row_filter_enforced [OF sample_filter_parsed] by blast
qed

text \<open>
  Enforcement end to end for Spark: the same guarantee for a row filter compiled by the Spark
  emitter.
\<close>

theorem spark_row_filter_enforced:
  assumes "ParseRowFilter src = Inr (RowFragment x)"
    "spark_CompileRowFilter tb (adaptNodeForDialect x) = Inr body"
    "parseSelect q = Inr sh" "balanced (sh_where sh)"
  shows "\<exists>q' w. SpliceArtifact q body KindRowFilter = Inr q' \<and>
    parseSelect q' = Inr (sh\<lparr>sh_where := w\<rparr>) \<and>
    TrimSpace w = conjoined (TrimSpace (sh_where sh)) body \<and>
    findKeyword (TrimSpace w) ''OR'' = None \<and> ParseRowFilter body = Inr (RowFragment x)"
proof -
  have "spark_emitPred (adaptNodeForDialect x) = Inr body"
    using assms(1,2) spark_compiled ParseRowFilter_wf [OF assms(1)] by auto
  from spark.policy_enforced [OF assms(1) this assms(3,4)] show ?thesis
    by (simp add: SpliceArtifact_def)
qed

theorem spark_row_filter_enforced_witness:
  "\<exists>q'. SpliceArtifact ''SELECT a FROM t'' ''(r = 1)'' KindRowFilter = Inr q' \<and>
     (\<exists>sh. parseSelect q' = Inr sh)"
proof -
  have "spark_CompileRowFilter ''t'' (adaptNodeForDialect sample_filter) = Inr ''(r = 1)''"
    by (simp add: spark_CompileRowFilter_def)
  moreover have "parseSelect ''SELECT a FROM t'' =
      Inr \<lparr>sh_projection = ''a'', sh_table = ''t'', sh_where = [], sh_tail = []\<rparr>"
    by code_simp
  moreover have "balanced (sh_where \<lparr>sh_projection = ''a'', sh_table = ''t'', sh_where = [], sh_tail = []\<rparr>)"
    by code_simp
  ultimately show ?thesis
    using spark_row_filter_enforced [OF sample_filter_parsed] by blast
qed

text \<open>A predicate in parentheses of its own, and three predicates joined without any.\<close>

lemma row_text_again:
  assumes "row_text x s"
  shows "row_text x (''('' @ s @ '')'')"
proof -
  obtain n where n: "\<And>t. parseNot n (s @ t) = Inr (x, t)" using assms by (auto simp: row_text_def)
  have "parseOr (Suc (Suc (Suc n))) (s @ CHR '')'' # t) = Inr (x, CHR '')'' # t)" for t
    using parseNot_more [OF n, of "Suc n" "CHR '')'' # t"] by (simp add: expectKeyword_close del: parseNot.simps)
  from row_text_parens [OF this] show ?thesis .
qed

lemma ParseRowFilter_or_and:
  assumes "row_text u a" "row_text v b" "row_text x f"
  shows "ParseRowFilter (a @ '' OR '' @ b @ '' AND '' @ f) = Inr (RowFragment (BinaryOp ''OR'' u (BinaryOp ''AND'' v x)))"
proof -
  obtain n1 where n1: "\<And>m t. n1 \<le> m \<Longrightarrow> parseNot m (a @ t) = Inr (u, t)" "\<And>m t. n1 \<le> m \<Longrightarrow> parseNot m (b @ t) = Inr (v, t)"
    by (rule row_text_both [OF assms(1,2)]) blast
  obtain n2 where n2: "\<And>m t. n2 \<le> m \<Longrightarrow> parseNot m (b @ t) = Inr (v, t)" "\<And>m t. n2 \<le> m \<Longrightarrow> parseNot m (f @ t) = Inr (x, t)"
    by (rule row_text_both [OF assms(2,3)]) blast
  let ?n = "max n1 n2"
  have k: "expectKeyword ''OR'' (CHR ''O'' # CHR ''R'' # CHR '' '' # w) = (True, CHR '' '' # w)"
    "expectKeyword ''AND'' (CHR ''O'' # w) = (False, CHR ''O'' # w)"
    "expectKeyword ''AND'' (CHR ''A'' # CHR ''N'' # CHR ''D'' # CHR '' '' # w) = (True, CHR '' '' # w)" for w
    using expectKeyword_hit [of "''OR''" "CHR '' '' # w"] expectKeyword_head [of "CHR ''O''" "''AND''"]
      expectKeyword_hit [of "''AND''" "CHR '' '' # w"]
    by (simp_all add: solid_def byte_simps)
  have u: "parseNot (Suc (Suc (Suc (Suc ?n)))) (a @ t) = Inr (u, t)" for t by (rule n1(1)) simp
  have v: "parseNot (Suc (Suc (Suc ?n))) (b @ t) = Inr (v, t)" for t by (rule n1(2)) simp
  have x: "parseNot (Suc (Suc ?n)) f = Inr (x, [])" using n2(2) [of "Suc (Suc ?n)" "[]"] by simp
  have "parseOr (Suc (Suc (Suc (Suc (Suc (Suc ?n)))))) (a @ '' OR '' @ b @ '' AND '' @ f) =
      Inr (BinaryOp ''OR'' u (BinaryOp ''AND'' v x), [])"
    by (simp add: u v x k parseNot_space expectKeyword_Nil del: parseNot.simps)
  from parsePred_eqI [OF this] show ?thesis by (simp add: ParseRowFilter_def atEnd_def)
qed

text \<open>
  C33 The splicer does not check that the \<open>WHERE\<close> body is balanced, and enforcement depends on it. Take
  any policy compiled for Trino and any two predicates \<open>u\<close> and \<open>v\<close>. A query that the splicer accepts
  and whose \<open>WHERE\<close> body is the text of \<open>u\<close>, a closing parenthesis, \<open>OR\<close>, an opening one and the text
  of \<open>v\<close> is spliced, and what the engine gets to evaluate is \<open>u\<close>, or else \<open>v\<close> and the policy: every row
  that satisfies \<open>u\<close> is returned whatever the policy says.
\<close>

theorem unbalanced_where_bypass:
  assumes "ParseRowFilter src = Inr (RowFragment x)" "trino_CompileRowFilter tb (adaptNodeForDialect x) = Inr body"
    and "wf_row u" "trino_emitPred (adaptNodeForDialect u) = Inr a" "wf_row v" "trino_emitPred (adaptNodeForDialect v) = Inr b"
    and "parseSelect q = Inr sh" "TrimSpace (sh_where sh) = a @ '') OR ('' @ b"
  shows "\<exists>w. SpliceArtifact q body KindRowFilter =
      Inr (''SELECT '' @ sh_projection sh @ '' FROM '' @ sh_table sh @ '' WHERE '' @ w @ withTail (sh_tail sh)) \<and>
    ParseRowFilter w = Inr (RowFragment (BinaryOp ''OR'' u (BinaryOp ''AND'' v x)))"
proof -
  have x: "wf_row x" using ParseRowFilter_wf [OF assms(1)] by auto
  have f: "trino_emitPred (adaptNodeForDialect x) = Inr body" using assms(2) trino_compiled x by auto
  have emitted: "row_text y t" if "wf_row y" "trino_emitPred (adaptNodeForDialect y) = Inr t" for y t
    using trino.row_emitted [OF that(1)] that(2) by auto
  let ?w = "(''('' @ a @ '')'') @ '' OR '' @ (''('' @ b @ '')'') @ '' AND '' @ (''('' @ body @ '')'')"
  have "ParseRowFilter ?w = Inr (RowFragment (BinaryOp ''OR'' u (BinaryOp ''AND'' v x)))"
    by (intro ParseRowFilter_or_and row_text_again emitted [OF assms(3,4)] emitted [OF assms(5,6)] emitted [OF x f])
  moreover have "spliceRowFilter q body =
      Inr (''SELECT '' @ sh_projection sh @ '' FROM '' @ sh_table sh @ '' WHERE '' @ ?w @ withTail (sh_tail sh))"
    using assms(7,8) by (simp add: spliceRowFilter_def)
  ultimately show ?thesis by (intro exI [of _ ?w]) (simp add: SpliceArtifact_def)
qed

text \<open>The predicate \<open>r = 1\<close> as policy and as both halves of the attack.\<close>

theorem unbalanced_where_bypass_witness:
  "\<exists>w. SpliceArtifact ''SELECT a FROM t WHERE (r = 1)) OR ((r = 1)'' ''(r = 1)'' KindRowFilter =
      Inr (''SELECT a FROM t WHERE '' @ w) \<and>
    ParseRowFilter w = Inr (RowFragment (BinaryOp ''OR'' sample_filter (BinaryOp ''AND'' sample_filter sample_filter)))"
proof -
  have "trino_CompileRowFilter ''t'' (adaptNodeForDialect sample_filter) = Inr ''(r = 1)''"
    by (simp add: trino_CompileRowFilter_def)
  moreover have "trino_emitPred (adaptNodeForDialect sample_filter) = Inr ''(r = 1)''" by code_simp
  moreover have "parseSelect ''SELECT a FROM t WHERE (r = 1)) OR ((r = 1)'' =
      Inr \<lparr>sh_projection = ''a'', sh_table = ''t'', sh_where = '' (r = 1)) OR ((r = 1)'', sh_tail = []\<rparr>"
    by code_simp
  moreover have "TrimSpace '' (r = 1)) OR ((r = 1)'' = ''(r = 1)'' @ '') OR ('' @ ''(r = 1)''" by code_simp
  moreover have "wf_row sample_filter" using ParseRowFilter_wf [OF sample_filter_parsed] by auto
  ultimately show ?thesis
    using unbalanced_where_bypass [OF sample_filter_parsed, of "''t''" "''(r = 1)''" sample_filter "''(r = 1)''" sample_filter "''(r = 1)''"
        "''SELECT a FROM t WHERE (r = 1)) OR ((r = 1)''"]
    by (auto simp: withTail_def)
qed

text \<open>
  Column masks travel in opposite directions: the emitters write \<open>expr AS column\<close>, the
  splicer reads \<open>column AS expr\<close>. A \<open>NULL\<close> mask compiled for Trino is therefore refused with a
  splice mismatch, and a hash mask as malformed, on a query that projects the column.
\<close>

theorem column_mask_direction:
  "ParseColumnMask ''ssn AS NULL'' =
     Inr (MaskFragment [\<lparr>mp_column = ''ssn'', mp_expr = LitNode (Literal ''null'' ''NULL'')\<rparr>]) \<and>
   trino_CompileColumnMask ''t'' (adaptMaskForDialect
     [\<lparr>mp_column = ''ssn'', mp_expr = LitNode (Literal ''null'' ''NULL'')\<rparr>]) = Inr ''NULL AS ssn'' \<and>
   SpliceArtifact ''SELECT ssn FROM t'' ''NULL AS ssn'' KindColumnMask =
     Inl (ProxyError ErrSpliceMismatch ''masked column not in projection'') \<and>
   trino_CompileColumnMask ''t'' (adaptMaskForDialect
     [\<lparr>mp_column = ''ssn'', mp_expr = FuncCall ''lower'' (ColumnRef [] ''ssn'')\<rparr>]) = Inr ''lower(ssn) AS ssn'' \<and>
   SpliceArtifact ''SELECT ssn FROM t'' ''lower(ssn) AS ssn'' KindColumnMask =
     Inl (ProxyError ErrInjectionFailed ''mask column must be a bare identifier'')"
proof (intro conjI)
  show "ParseColumnMask ''ssn AS NULL'' =
     Inr (MaskFragment [\<lparr>mp_column = ''ssn'', mp_expr = LitNode (Literal ''null'' ''NULL'')\<rparr>])"
    by code_simp
qed (code_simp+)

end
