(* ===== verification/Graph_Client.thy ===== *)
theory Graph_Client
  imports Neksur_Prelude
begin

text \<open>
  The graph access layer (\<open>internal/graph\<close>): the allowlist every value spliced into a Cypher
  text must pass, the label whitelist, the traversal-depth gate with the bounded traversal
  helpers, and the tenant-scoped transaction.

  PostgreSQL with the AGE extension and the pgx pool are not part of the sources. They are the
  record \<open>pg\<close>, an argument of every definition that reaches the database: what each call
  answers on a database state. A connection has the committed state and, while a transaction is
  open, the transaction's own view; only the committed state is seen by others.
\<close>

section \<open>Safe Cypher literals\<close>

definition cypherPunctuation :: string where
  "cypherPunctuation = ''._-/:@+=~%?&,[]()* ''"

definition cypherLiteralAllow :: "char \<Rightarrow> bool" where
  "cypherLiteralAllow b \<longleftrightarrow>
     (97 \<le> byte_val b \<and> byte_val b \<le> 122) \<or> (65 \<le> byte_val b \<and> byte_val b \<le> 90) \<or>
     (48 \<le> byte_val b \<and> byte_val b \<le> 57) \<or> b \<in> set cypherPunctuation"

datatype graph_error =
    ErrCypherUnsafeLiteral char nat
  | ErrUnboundedTraversal
  | ErrTenantMissing
  | ErrUnsafeCypherLiteral graph_error
  | TransportError string
  | Rejected string
  | Panic string
  | LineageCycleError string string "string list"
  | ErrSnapshotNotFound
  | ErrLineageBatchEmpty

fun sanitizeFrom :: "nat \<Rightarrow> string \<Rightarrow> graph_error option" where
  "sanitizeFrom i [] = None"
| "sanitizeFrom i (b # s) =
     (if \<not> cypherLiteralAllow b then Some (ErrCypherUnsafeLiteral b i) else sanitizeFrom (Suc i) s)"

definition SanitizeCypherLiteral :: "string \<Rightarrow> graph_error + string" where
  "SanitizeCypherLiteral s = (case sanitizeFrom 0 s of Some e \<Rightarrow> Inl e | None \<Rightarrow> Inr s)"

definition MustSanitizeCypherLiteral :: "string \<Rightarrow> graph_error + string" where
  "MustSanitizeCypherLiteral s =
     (case SanitizeCypherLiteral s of
        Inl e \<Rightarrow> Inl (Panic ''graph: MustSanitizeCypherLiteral defence-in-depth violation'')
      | Inr x \<Rightarrow> Inr x)"

definition IsSafeCypherLiteral :: "string \<Rightarrow> bool" where
  "IsSafeCypherLiteral s \<longleftrightarrow> \<not> isl (SanitizeCypherLiteral s)"

lemma sanitizeFrom_None: "sanitizeFrom i s = None \<longleftrightarrow> list_all cypherLiteralAllow s"
  by (induction s arbitrary: i) auto

lemma Sanitize_iff: "SanitizeCypherLiteral s = Inr t \<longleftrightarrow> t = s \<and> list_all cypherLiteralAllow s"
  using sanitizeFrom_None [of 0 s]
  by (auto simp: SanitizeCypherLiteral_def split: option.splits)

lemma MustSanitize_iff: "MustSanitizeCypherLiteral s = Inr t \<longleftrightarrow> t = s \<and> list_all cypherLiteralAllow s"
  using sanitizeFrom_None [of 0 s]
  by (cases "sanitizeFrom 0 s") (auto simp: MustSanitizeCypherLiteral_def SanitizeCypherLiteral_def)

lemma IsSafe_iff: "IsSafeCypherLiteral s \<longleftrightarrow> list_all cypherLiteralAllow s"
  using sanitizeFrom_None [of 0 s]
  by (cases "sanitizeFrom 0 s") (auto simp: IsSafeCypherLiteral_def SanitizeCypherLiteral_def)

lemma traverse_sanitize:
  "traverse MustSanitizeCypherLiteral xs = Inr ys \<longleftrightarrow> ys = xs \<and> list_all (list_all cypherLiteralAllow) xs"
  by (induction xs arbitrary: ys) (auto simp: result_simps MustSanitize_iff)

lemma traverse_panic:
  assumes "\<not> list_all (list_all cypherLiteralAllow) xs"
  obtains m where "traverse MustSanitizeCypherLiteral xs = Inl (Panic m)"
proof -
  have "\<exists>m. e = Panic m" if "traverse MustSanitizeCypherLiteral xs = Inl e" for e
    using that
    by (induction xs) (auto simp: result_simps MustSanitizeCypherLiteral_def split: sum.split_asm)
  then show thesis using assms traverse_sanitize that by (cases "traverse MustSanitizeCypherLiteral xs") auto
qed

lemma traverse_Must_unsafe:
  assumes "x \<in> set xs" "\<not> list_all cypherLiteralAllow x"
  shows "\<exists>e. traverse MustSanitizeCypherLiteral xs = Inl e"
proof (rule ccontr)
  assume "\<not> ?thesis"
  then obtain ys where "traverse MustSanitizeCypherLiteral xs = Inr ys" by (metis sumE)
  with assms show False
    by (auto simp: traverse_Inr MustSanitize_iff list_all2_conv_all_nth in_set_conv_nth)
qed

text \<open>The bytes that end a Cypher string or the dollar-quoted SQL text are not allowed.\<close>

lemma allow_excludes:
  "cypherLiteralAllow b \<Longrightarrow> b \<notin> {CHR 0x27, CHR 0x22, CHR 0x5C, CHR ''$'', CHR ''{'', CHR ''}'', CHR 0x60, CHR '';''}"
  by (auto simp: cypherLiteralAllow_def cypherPunctuation_def)

lemma safe_no_quote: "list_all cypherLiteralAllow s \<Longrightarrow> CHR 0x27 \<notin> set s"
  using allow_excludes by (auto simp: list_all_iff)

section \<open>Labels\<close>

definition NodeLabels :: "string list" where
  "NodeLabels =
     [''Table'', ''Column'', ''Snapshot'', ''Metric'', ''Dimension'',
      ''View'', ''Dashboard'', ''Pipeline'', ''Query'', ''Person'',
      ''Team'', ''Policy'', ''GlossaryTerm'', ''Tag'', ''DataContract'',
      ''Engine'', ''Catalog'', ''WriteEvent'', ''DetectionRun'']"

definition MandatoryEdgeLabels :: "string list" where
  "MandatoryEdgeLabels =
     [''LINEAGE_OF'', ''OWNS'', ''MEMBER_OF'', ''DEPENDS_ON'', ''CLASSIFIED_AS'',
      ''APPLIES_TO'', ''DEFINED_BY'', ''WROTE'', ''READ'', ''PRODUCES'',
      ''CONSUMES'', ''GOVERNED_BY'', ''STORED_IN'', ''RUNS_ON'', ''SUPERSEDES'',
      ''INTENDED_WRITE'', ''ACTUAL_WRITE'', ''VIOLATION_DETECTED_BY'']"

definition SupplementEdgeLabels :: "string list" where
  "SupplementEdgeLabels =
     [''BELONGS_TO'', ''OF_TABLE'', ''USED_ENGINE'', ''USES_DIMENSION'', ''RAN_ON'', ''GOVERNS'']"

definition LabelWhitelist :: "string list" where
  "LabelWhitelist = remdups (NodeLabels @ MandatoryEdgeLabels @ SupplementEdgeLabels)"

definition IsAllowedLabel :: "string \<Rightarrow> bool" where
  "IsAllowedLabel name \<longleftrightarrow> name \<in> set LabelWhitelist"

section \<open>Traversal depth\<close>

text \<open>
  The regular expression \<open>unboundedVLPRegex\<close>, as the language it denotes: an asterisk followed
  by nothing, by digits and two dots, or by two dots, and then by a terminator.
\<close>

definition vlpTerminator :: "string \<Rightarrow> bool" where
  "vlpTerminator s \<longleftrightarrow>
     s = [] \<or> hd s \<in> {CHR 0x09, CHR 0x0A, CHR 0x0C, CHR 0x0D, CHR '' '', CHR '']'', CHR '')'', CHR '','', CHR ''|''}"

definition unboundedAfterStar :: "string \<Rightarrow> bool" where
  "unboundedAfterStar s \<longleftrightarrow>
     vlpTerminator s \<or>
     (takeWhile is_digit s \<noteq> [] \<and> has_prefix (dropWhile is_digit s) ''..'' \<and>
      vlpTerminator (drop 2 (dropWhile is_digit s))) \<or>
     (has_prefix s ''..'' \<and> vlpTerminator (drop 2 s))"

fun unboundedVLP :: "string \<Rightarrow> bool" where
  "unboundedVLP [] = False"
| "unboundedVLP (c # s) = (c = CHR ''*'' \<and> unboundedAfterStar s \<or> unboundedVLP s)"

definition ValidateTraversalDepth :: "string \<Rightarrow> graph_error option" where
  "ValidateTraversalDepth stmt = (if unboundedVLP stmt then Some ErrUnboundedTraversal else None)"

definition BoundedDepthMax :: nat where
  "BoundedDepthMax = 3"

definition BoundedAncestors :: "string \<Rightarrow> int \<Rightarrow> graph_error + string" where
  "BoundedAncestors label depth =
     (if depth < 1 then Inl (Panic ''graph.BoundedAncestors: depth < 1'')
      else if depth > int BoundedDepthMax then Inl (Panic ''graph.BoundedAncestors: depth exceeds BoundedDepthMax'')
      else Inr (''(n:'' @ label @ '')<-[:LINEAGE_OF*1..'' @ itoa (nat depth) @ '']-(ancestor)''))"

definition BoundedDescendants :: "string \<Rightarrow> int \<Rightarrow> graph_error + string" where
  "BoundedDescendants label depth =
     (if depth < 1 then Inl (Panic ''graph.BoundedDescendants: depth < 1'')
      else if depth > int BoundedDepthMax then Inl (Panic ''graph.BoundedDescendants: depth exceeds BoundedDepthMax'')
      else Inr (''(n:'' @ label @ '')-[:LINEAGE_OF*1..'' @ itoa (nat depth) @ '']->(descendant)''))"

section \<open>Wrapping a statement\<close>

definition quoteSQLString :: "string \<Rightarrow> string" where
  "quoteSQLString s =
     CHR 0x27 # concat (map (\<lambda>c. if c = CHR 0x27 then [CHR 0x27, CHR 0x27] else [c]) s) @ [CHR 0x27]"

definition cypherCall :: "string \<Rightarrow> string \<Rightarrow> string" where
  "cypherCall graph stmt =
     ''SELECT * FROM ag_catalog.cypher('' @ quoteSQLString graph @ '', $$ '' @ stmt @
     '' $$) AS (result ag_catalog.agtype)''"

section \<open>Tenant-scoped transactions\<close>

text \<open>
  What the calls answer. \<open>pg_commit\<close> is \<open>None\<close> for an acknowledged commit; a failed one carries its
  message and whether the server had committed before the acknowledgement was lost.
\<close>

record 'db pg =
  pg_acquire :: "'db \<Rightarrow> string option"
  pg_begin :: "'db \<Rightarrow> string option"
  pg_exec :: "string \<Rightarrow> string list \<Rightarrow> 'db \<Rightarrow> string + (string list list \<times> 'db)"
  pg_commit :: "'db \<Rightarrow> (string \<times> bool) option"
  pg_reset :: "'db \<Rightarrow> string option"

text \<open>One statement inside a transaction: a failure is a transport error.\<close>

definition txQuery ::
  "'db pg \<Rightarrow> string \<Rightarrow> string list \<Rightarrow> 'db \<Rightarrow> graph_error + (string list list \<times> 'db)" where
  "txQuery pg q args db =
     (case pg_exec pg q args db of Inl e \<Rightarrow> Inl (TransportError e) | Inr r \<Rightarrow> Inr r)"

definition Cypher ::
  "'db pg \<Rightarrow> string \<Rightarrow> string \<Rightarrow> string list \<Rightarrow> 'db \<Rightarrow> graph_error + (string list list \<times> 'db)" where
  "Cypher pg graph stmt args db =
     (case ValidateTraversalDepth stmt of
        Some e \<Rightarrow> Inl e
      | None \<Rightarrow> txQuery pg (cypherCall graph stmt) args db)"

definition setTenantSQL :: string where
  "setTenantSQL = ''SELECT set_config('' @ [CHR 0x27] @ ''app.current_tenant'' @ [CHR 0x27] @ '', $1, true)''"

definition SetTenantContext :: "'db pg \<Rightarrow> string \<Rightarrow> 'db \<Rightarrow> graph_error + 'db" where
  "SetTenantContext pg tenantID db =
     (case pg_exec pg setTenantSQL [tenantID] db of
        Inl e \<Rightarrow> Inl (TransportError e)
      | Inr (_, db') \<Rightarrow> Inr db')"

text \<open>
  The connection a transaction runs on: \<open>Begin\<close> gives the transaction its view of the committed
  state, \<open>Rollback\<close> drops it, \<open>Commit\<close> ends the transaction whatever it answers.
\<close>

record 'db conn =
  cn_db :: 'db
  cn_tx :: "'db option"

definition idleConn :: "'db \<Rightarrow> 'db conn" where
  "idleConn db = \<lparr>cn_db = db, cn_tx = None\<rparr>"

definition txRollback :: "'db conn \<Rightarrow> 'db conn" where
  "txRollback c = c\<lparr>cn_tx := None\<rparr>"

definition txCommit :: "'db pg \<Rightarrow> 'a \<Rightarrow> 'db \<Rightarrow> 'db conn \<Rightarrow> (graph_error + 'a) \<times> 'db conn" where
  "txCommit pg x view c =
     (case pg_commit pg view of
        None \<Rightarrow> (Inr x, idleConn view)
      | Some (e, stored) \<Rightarrow> (Inl (TransportError e), idleConn (if stored then view else cn_db c)))"

text \<open>
  The deferred function of the transaction: it rolls back when an error is returned. A panic
  unwinds with \<open>retErr\<close> still nil, so nothing is rolled back then.
\<close>

fun deferredRollback :: "graph_error + 'a \<Rightarrow> 'db conn \<Rightarrow> 'db conn" where
  "deferredRollback (Inr _) c = c"
| "deferredRollback (Inl (Panic _)) c = c"
| "deferredRollback (Inl _) c = txRollback c"

text \<open>From \<open>Begin\<close> to the deferred rollback.\<close>

definition inTransaction ::
  "'db pg \<Rightarrow> string \<Rightarrow> ('db \<Rightarrow> graph_error + ('a \<times> 'db)) \<Rightarrow> 'db conn \<Rightarrow> (graph_error + 'a) \<times> 'db conn" where
  "inTransaction pg tenantID fn c0 =
     (case pg_begin pg (cn_db c0) of
        Some e \<Rightarrow> (Inl (TransportError e), c0)
      | None \<Rightarrow>
         let c = c0\<lparr>cn_tx := Some (cn_db c0)\<rparr>;
             out = (case SetTenantContext pg tenantID (cn_db c0) of
                      Inl e \<Rightarrow> (Inl e, c)
                    | Inr db1 \<Rightarrow>
                       (case fn db1 of
                          Inl e \<Rightarrow> (Inl e, c\<lparr>cn_tx := Some db1\<rparr>)
                        | Inr (x, db2) \<Rightarrow> txCommit pg x db2 (c\<lparr>cn_tx := Some db2\<rparr>)))
         in (fst out, deferredRollback (fst out) (snd out)))"

text \<open>\<open>DISCARD ALL\<close>, which PostgreSQL refuses inside a transaction block.\<close>

definition ResetSession :: "'db pg \<Rightarrow> 'db conn \<Rightarrow> string option" where
  "ResetSession pg c =
     (if cn_tx c \<noteq> None then Some ''DISCARD ALL cannot run inside a transaction block''
      else pg_reset pg (cn_db c))"

text \<open>The result, and the connection as it is handed back to the pool.\<close>

definition executeOnConn ::
  "'db pg \<Rightarrow> string \<Rightarrow> ('db \<Rightarrow> graph_error + ('a \<times> 'db)) \<Rightarrow> 'db \<Rightarrow> (graph_error + 'a) \<times> 'db conn" where
  "executeOnConn pg tenantID fn db =
     (case pg_acquire pg db of
        Some e \<Rightarrow> (Inl (TransportError e), idleConn db)
      | None \<Rightarrow>
         (case inTransaction pg tenantID fn (idleConn db) of
            (r, c) \<Rightarrow>
              (case ResetSession pg c of
                 None \<Rightarrow> (r, c)
               | Some e \<Rightarrow> ((case r of Inl e0 \<Rightarrow> Inl e0 | Inr _ \<Rightarrow> Inl (TransportError e)), c))))"

definition ExecuteInTenant ::
  "'db pg \<Rightarrow> string \<Rightarrow> ('db \<Rightarrow> graph_error + ('a \<times> 'db)) \<Rightarrow> 'db \<Rightarrow> (graph_error + 'a) \<times> 'db" where
  "ExecuteInTenant pg tenantID fn db =
     (case executeOnConn pg tenantID fn db of (r, c) \<Rightarrow> (r, cn_db c))"

lemmas execute_defs = ExecuteInTenant_def executeOnConn_def inTransaction_def ResetSession_def txCommit_def
  txRollback_def idleConn_def SetTenantContext_def

section \<open>Properties\<close>

text \<open>
  C15 The literal sanitiser accepts a string exactly when every byte is on the allowlist, returns
  it unchanged, and what it accepts holds no quote, backslash, dollar sign, brace or semicolon.
\<close>

theorem sanitize_allowlist:
  "(SanitizeCypherLiteral s = Inr t \<longleftrightarrow> t = s \<and> list_all cypherLiteralAllow s) \<and>
   (IsSafeCypherLiteral s \<longleftrightarrow> list_all cypherLiteralAllow s) \<and>
   (list_all cypherLiteralAllow s \<longrightarrow>
      set s \<inter> {CHR 0x27, CHR 0x22, CHR 0x5C, CHR ''$'', CHR ''{'', CHR ''}'', CHR 0x60, CHR '';''} = {})"
proof (intro conjI impI)
  show "IsSafeCypherLiteral s \<longleftrightarrow> list_all cypherLiteralAllow s" by (rule IsSafe_iff)
  show "list_all cypherLiteralAllow s \<Longrightarrow>
      set s \<inter> {CHR 0x27, CHR 0x22, CHR 0x5C, CHR ''$'', CHR ''{'', CHR ''}'', CHR 0x60, CHR '';''} = {}"
    using allow_excludes by (fastforce simp: list_all_iff)
qed (rule Sanitize_iff)

theorem sanitize_allowlist_witness:
  "SanitizeCypherLiteral ''sales.orders'' = Inr ''sales.orders'' \<and>
   list_all cypherLiteralAllow ''sales.orders'' \<and>
   set ''sales.orders'' \<inter> {CHR 0x27, CHR 0x22, CHR 0x5C, CHR ''$'', CHR ''{'', CHR ''}'', CHR 0x60, CHR '';''} = {}"
proof -
  have "list_all cypherLiteralAllow ''sales.orders''"
    by (simp add: cypherLiteralAllow_def cypherPunctuation_def)
  then show ?thesis using sanitize_allowlist [of "''sales.orders''" "''sales.orders''"] by blast
qed

lemma unboundedVLP_plain: "CHR ''*'' \<notin> set u \<Longrightarrow> unboundedVLP (u @ s) = unboundedVLP s"
  by (induction u) auto

lemma bounded_star:
  assumes "list_all is_digit d" "d \<noteq> []"
  shows "\<not> unboundedAfterStar (''1..'' @ d @ t)"
proof -
  have "takeWhile is_digit (''1..'' @ d @ t) = ''1''" "dropWhile is_digit (''1..'' @ d @ t) = ''..'' @ d @ t"
    by (simp_all add: is_digit_def)
  moreover obtain c d' where "d = c # d'" "is_digit c" using assms by (cases d) auto
  ultimately show ?thesis
    by (auto simp: unboundedAfterStar_def vlpTerminator_def is_digit_def)
qed

lemma digits_no_star: "list_all is_digit d \<Longrightarrow> CHR ''*'' \<notin> set d"
  by (auto simp: list_all_iff is_digit_def)

text \<open>
  The bounded-traversal helpers and the depth gate agree: a fragment the helpers build for a
  label without an asterisk passes \<open>ValidateTraversalDepth\<close>, and depths outside 1..3 panic.
\<close>

theorem bounded_traversal_accepted:
  assumes "CHR ''*'' \<notin> set label"
  shows "(if 1 \<le> depth \<and> depth \<le> 3
          then (\<exists>f. BoundedAncestors label depth = Inr f \<and> ValidateTraversalDepth f = None) \<and>
               (\<exists>f. BoundedDescendants label depth = Inr f \<and> ValidateTraversalDepth f = None)
          else (\<exists>m. BoundedAncestors label depth = Inl (Panic m)) \<and>
               (\<exists>m. BoundedDescendants label depth = Inl (Panic m)))"
proof -
  let ?d = "itoa (nat depth)"
  have dig: "list_all is_digit ?d" "?d \<noteq> []" using itoa_digits by auto
  have gate: "\<not> unboundedVLP (''(n:'' @ label @ m @ CHR ''*'' # ''1..'' @ ?d @ e)"
    if "CHR ''*'' \<notin> set m" "CHR ''*'' \<notin> set e" for m e
  proof -
    have "CHR ''*'' \<notin> set (''1..'' @ ?d @ e)" using that digits_no_star [OF dig(1)] by simp
    then have "\<not> unboundedVLP (''1..'' @ ?d @ e)" using unboundedVLP_plain [of "''1..'' @ ?d @ e" "[]"] by simp
    with bounded_star [OF dig] have "\<not> unboundedVLP (CHR ''*'' # ''1..'' @ ?d @ e)" by simp
    then show ?thesis using assms that unboundedVLP_plain [of "''(n:'' @ label @ m"] by simp
  qed
  from gate [of "'')<-[:LINEAGE_OF''" "'']-(ancestor)''"] gate [of "'')-[:LINEAGE_OF''" "'']->(descendant)''"]
  show ?thesis
    by (auto simp: BoundedAncestors_def BoundedDescendants_def BoundedDepthMax_def ValidateTraversalDepth_def)
qed

theorem bounded_traversal_accepted_witness:
  "\<exists>f. BoundedAncestors ''Table'' 3 = Inr f \<and> ValidateTraversalDepth f = None"
proof -
  have "CHR ''*'' \<notin> set ''Table''" by simp
  from bounded_traversal_accepted [OF this, of 3] show ?thesis by simp
qed

text \<open>
  The label whitelist has exactly 43 entries, the count the start-up guard demands, and every
  one is safe to splice as a Cypher literal.
\<close>

theorem label_whitelist_43:
  "length LabelWhitelist = 43 \<and> list_all IsSafeCypherLiteral LabelWhitelist"
  by code_simp

text \<open>
  The three ways a transaction's connection ends up: untouched, committed (and then acknowledged,
  or not, or followed by a failed reset), or left open by a panic.
\<close>

lemma deferredRollback_db [simp]: "cn_db (deferredRollback r c) = cn_db c"
  by (cases "(r, c)" rule: deferredRollback.cases) (simp_all add: txRollback_def)

lemma deferredRollback_idle: "(\<And>m. r \<noteq> Inl (Panic m)) \<Longrightarrow> isl r \<or> cn_tx c = None \<Longrightarrow> cn_tx (deferredRollback r c) = None"
  by (cases "(r, c)" rule: deferredRollback.cases) (auto simp: txRollback_def)

lemma SetTenantContext_error: "SetTenantContext pg tid db = Inl e \<Longrightarrow> \<exists>m. e = TransportError m"
  by (auto simp: SetTenantContext_def split: sum.split_asm)

lemma txCommit_cases:
  assumes "txCommit pg x view c = (r, c')"
  obtains (stored) "c' = idleConn view"
      "r = Inr x \<and> pg_commit pg view = None \<or> (\<exists>m. r = Inl (TransportError m) \<and> pg_commit pg view = Some (m, True))"
    | (refused) m where "r = Inl (TransportError m)" "c' = idleConn (cn_db c)"
  using assms by (auto simp: txCommit_def split: option.split_asm if_split_asm)

lemma inTransaction_cases:
  assumes "inTransaction pg tid fn (idleConn db) = (r, c)"
  obtains (failed) e where "r = Inl e" "\<And>m. e \<noteq> Panic m" "c = idleConn db"
    | (panicked) m db1 where "r = Inl (Panic m)" "SetTenantContext pg tid db = Inr db1" "fn db1 = Inl (Panic m)"
        "cn_db c = db" "cn_tx c = Some db1"
    | (committed) db1 x where "SetTenantContext pg tid db = Inr db1" "fn db1 = Inr (x, cn_db c)" "cn_tx c = None"
        "r = Inr x \<and> pg_commit pg (cn_db c) = None \<or>
         (\<exists>m. r = Inl (TransportError m) \<and> pg_commit pg (cn_db c) = Some (m, True))"
proof (cases "pg_begin pg db")
  case (Some e)
  with assms failed show ?thesis by (auto simp: inTransaction_def idleConn_def)
next
  case None
  show ?thesis
  proof (cases "SetTenantContext pg tid db")
    case (Inl e)
    from SetTenantContext_error [OF Inl] obtain m where m: "e = TransportError m" by blast
    have "r = Inl e" "c = idleConn db" using None Inl m assms by (auto simp: inTransaction_def idleConn_def txRollback_def)
    then show ?thesis using m by (intro failed) auto
  next
    case set: (Inr db1)
    show ?thesis
    proof (cases "fn db1")
      case (Inl e)
      have out: "r = Inl e" "c = deferredRollback (Inl e :: graph_error + 'a) \<lparr>cn_db = db, cn_tx = Some db1\<rparr>"
        using None set Inl assms by (auto simp: inTransaction_def idleConn_def)
      show ?thesis
      proof (cases "\<exists>m. e = Panic m")
        case True
        then obtain m where "e = Panic m" ..
        with out Inl set show ?thesis by (intro panicked) auto
      next
        case False
        then have "c = idleConn db" using out(2) by (cases e) (auto simp: idleConn_def txRollback_def)
        with out(1) False show ?thesis by (intro failed) auto
      qed
    next
      case (Inr y)
      obtain x db2 where y: "y = (x, db2)" by (cases y)
      have out: "(r, c) = (\<lambda>(r, c). (r, deferredRollback r c)) (txCommit pg x db2 \<lparr>cn_db = db, cn_tx = Some db2\<rparr>)"
        using None set Inr y assms by (auto simp: inTransaction_def idleConn_def split_beta Let_def)
      obtain q c' where q: "txCommit pg x db2 \<lparr>cn_db = db, cn_tx = Some db2\<rparr> = (q, c')" by (metis surj_pair)
      from q show ?thesis
      proof (cases rule: txCommit_cases)
        case stored
        with out q set Inr y show ?thesis by (intro committed) (auto simp: idleConn_def txRollback_def)
      next
        case (refused m)
        with out q show ?thesis by (intro failed) (auto simp: idleConn_def txRollback_def)
      qed
    qed
  qed
qed

lemma executeOnConn_outcome:
  assumes "executeOnConn pg tid fn db = (r, c)"
  shows "(case r of
      Inl e \<Rightarrow> cn_db c = db \<or>
        (\<exists>db1 x m. SetTenantContext pg tid db = Inr db1 \<and> fn db1 = Inr (x, cn_db c) \<and> e = TransportError m \<and>
           (pg_commit pg (cn_db c) = Some (m, True) \<or> pg_commit pg (cn_db c) = None \<and> pg_reset pg (cn_db c) = Some m))
    | Inr x \<Rightarrow> \<exists>db1. SetTenantContext pg tid db = Inr db1 \<and> fn db1 = Inr (x, cn_db c) \<and>
        pg_commit pg (cn_db c) = None \<and> pg_reset pg (cn_db c) = None) \<and>
    (case r of
      Inl (Panic m) \<Rightarrow> cn_db c = db \<and> (\<exists>db1. fn db1 = Inl (Panic m) \<and> cn_tx c = Some db1) \<and> ResetSession pg c \<noteq> None
    | _ \<Rightarrow> cn_tx c = None)"
proof (cases "pg_acquire pg db")
  case (Some e)
  with assms show ?thesis by (auto simp: executeOnConn_def idleConn_def)
next
  case None
  obtain q c' where t: "inTransaction pg tid fn (idleConn db) = (q, c')" by (metis surj_pair)
  have c: "c' = c" "r = (case ResetSession pg c of None \<Rightarrow> q | Some e \<Rightarrow> (case q of Inl e0 \<Rightarrow> Inl e0 | Inr _ \<Rightarrow> Inl (TransportError e)))"
    using assms None t by (auto simp: executeOnConn_def split: option.split_asm)
  from t show ?thesis
  proof (cases rule: inTransaction_cases)
    case (failed e)
    with c show ?thesis by (auto simp: idleConn_def split: option.split graph_error.split)
  next
    case (panicked m db1)
    with c show ?thesis by (auto simp: ResetSession_def)
  next
    case (committed db1 x)
    with c show ?thesis by (auto simp: ResetSession_def split: option.split_asm)
  qed
qed

lemma ExecuteInTenant_outcome:
  assumes "ExecuteInTenant pg tid fn db = (r, db')"
  shows "case r of
    Inl e \<Rightarrow> db' = db \<or> (\<exists>db1 x. SetTenantContext pg tid db = Inr db1 \<and> fn db1 = Inr (x, db'))
  | Inr x \<Rightarrow> \<exists>db1. SetTenantContext pg tid db = Inr db1 \<and> fn db1 = Inr (x, db') \<and>
      pg_commit pg db' = None \<and> pg_reset pg db' = None"
  using assms executeOnConn_outcome [of pg tid fn db]
  by (fastforce simp: ExecuteInTenant_def split: prod.split_asm sum.split_asm sum.split)

lemma ExecuteInTenant_failing:
  assumes "\<And>db0. \<exists>e. fn db0 = Inl e"
  shows "\<exists>e. ExecuteInTenant pg tid fn db = (Inl e, db)"
proof -
  obtain r db' where r: "ExecuteInTenant pg tid fn db = (r, db')" by (metis surj_pair)
  have "fn d \<noteq> Inr y" for d y using assms by (metis Inl_Inr_False)
  with ExecuteInTenant_outcome [OF r] r show ?thesis by (cases r) auto
qed

text \<open>
  C14 What \<open>ExecuteInTenant\<close> leaves behind. Success means that the tenant was bound, the callback ran
  on that view and its state is the committed one. An error leaves the committed state as it was,
  unless the callback succeeded and either the commit took effect without being acknowledged or
  only the session reset failed. Whatever is returned, the connection goes back with no open
  transaction; only a panic of the callback leaves it open, uncommitted, and the reset is refused.
\<close>

theorem execute_in_tenant_contract:
  assumes "executeOnConn pg tid fn db = (r, c)"
  shows "(case r of
      Inl e \<Rightarrow> cn_db c = db \<or>
        (\<exists>db1 x m. SetTenantContext pg tid db = Inr db1 \<and> fn db1 = Inr (x, cn_db c) \<and> e = TransportError m \<and>
           (pg_commit pg (cn_db c) = Some (m, True) \<or> pg_commit pg (cn_db c) = None \<and> pg_reset pg (cn_db c) = Some m))
    | Inr x \<Rightarrow> \<exists>db1. SetTenantContext pg tid db = Inr db1 \<and> fn db1 = Inr (x, cn_db c) \<and>
        pg_commit pg (cn_db c) = None \<and> pg_reset pg (cn_db c) = None) \<and>
    (case r of
      Inl (Panic m) \<Rightarrow> cn_db c = db \<and> (\<exists>db1. fn db1 = Inl (Panic m) \<and> cn_tx c = Some db1) \<and> ResetSession pg c \<noteq> None
    | _ \<Rightarrow> cn_tx c = None)"
  using assms by (rule executeOnConn_outcome)

text \<open>A database that counts the statements it is sent.\<close>

definition echo_pg :: "nat pg" where
  "echo_pg = \<lparr>pg_acquire = \<lambda>_. None, pg_begin = \<lambda>_. None, pg_exec = \<lambda>q args db. Inr ([], db + 1),
     pg_commit = \<lambda>_. None, pg_reset = \<lambda>_. None\<rparr>"

theorem execute_in_tenant_contract_witness:
  "executeOnConn echo_pg ''t1'' (\<lambda>db. Inl (Rejected ''no'') :: graph_error + (unit \<times> nat)) 0 =
     (Inl (Rejected ''no''), \<lparr>cn_db = 0, cn_tx = None\<rparr>) \<and>
   executeOnConn echo_pg ''t1'' (\<lambda>db. Inr ((), db + 5)) 0 = (Inr (), \<lparr>cn_db = 6, cn_tx = None\<rparr>)"
proof
  let ?fn = "\<lambda>db. Inl (Rejected ''no'') :: graph_error + (unit \<times> nat)"
  obtain c where c: "executeOnConn echo_pg ''t1'' ?fn 0 = (Inl (Rejected ''no''), c)"
    by (simp add: execute_defs echo_pg_def)
  from execute_in_tenant_contract [OF c]
  show "executeOnConn echo_pg ''t1'' ?fn 0 = (Inl (Rejected ''no''), \<lparr>cn_db = 0, cn_tx = None\<rparr>)"
    unfolding c by (cases c) simp
  obtain d where d: "executeOnConn echo_pg ''t1'' (\<lambda>db. Inr ((), db + 5)) 0 = (Inr (), d)"
    by (simp add: execute_defs echo_pg_def)
  from execute_in_tenant_contract [OF d]
  show "executeOnConn echo_pg ''t1'' (\<lambda>db. Inr ((), db + 5)) 0 = (Inr (), \<lparr>cn_db = 6, cn_tx = None\<rparr>)"
    unfolding d by (cases d) (auto simp: SetTenantContext_def echo_pg_def)
qed

end
