(* ===== verification/Artifact_Codec.thy ===== *)
theory Artifact_Codec
  imports Graph_Client
begin

text \<open>
  How an artifact body travels through the graph store: \<open>encodeArtifactForCypher\<close> and
  \<open>decodeArtifactFromCypher\<close> of \<open>policy/store/compiled_doc.go\<close> over Go's
  \<open>base64.StdEncoding\<close>, and the agtype unquoting of \<open>policy/store/age.go\<close>.
\<close>

section \<open>Base 64\<close>

definition b64alphabet :: string where
  "b64alphabet = ''ABCDEFGHIJKLMNOPQRSTUVWXYZabcdefghijklmnopqrstuvwxyz0123456789+/''"

definition b64char :: "nat \<Rightarrow> char" where
  "b64char n = b64alphabet ! (n mod 64)"

fun indexOf :: "nat \<Rightarrow> char \<Rightarrow> string \<Rightarrow> nat option" where
  "indexOf i c [] = None"
| "indexOf i c (d # ds) = (if c = d then Some i else indexOf (Suc i) c ds)"

definition b64val :: "char \<Rightarrow> nat option" where
  "b64val c = indexOf 0 c b64alphabet"

text \<open>Three bytes make four characters; one or two left over are padded.\<close>

fun b64encode :: "nat list \<Rightarrow> string" where
  "b64encode [] = []"
| "b64encode [a] =
     [b64char (a div 4), b64char (a mod 4 * 16), CHR ''='', CHR ''='']"
| "b64encode [a, b] =
     [b64char (a div 4), b64char (a mod 4 * 16 + b div 16), b64char (b mod 16 * 4), CHR ''='']"
| "b64encode (a # b # c # r) =
     [b64char (a div 4), b64char (a mod 4 * 16 + b div 16), b64char (b mod 16 * 4 + c div 64),
      b64char (c mod 64)] @ b64encode r"

text \<open>
  The decoder: quanta of four characters, padding only in the last one. \<open>StdEncoding\<close> is not
  strict, so the unused bits of a padded quantum are not checked; carriage returns and line
  feeds are skipped.
\<close>

fun b64quanta :: "string \<Rightarrow> nat list option" where
  "b64quanta [] = Some []"
| "b64quanta (a # b # c # d # r) =
     (case (b64val a, b64val b) of
        (Some x, Some y) \<Rightarrow>
          if c = CHR ''='' then
            (if d = CHR ''='' \<and> r = [] then Some [x * 4 + y div 16] else None)
          else (case b64val c of
            None \<Rightarrow> None
          | Some z \<Rightarrow>
              if d = CHR ''='' then
                (if r = [] then Some [x * 4 + y div 16, y mod 16 * 16 + z div 4] else None)
              else (case (b64val d, b64quanta r) of
                (Some w, Some out) \<Rightarrow>
                  Some ([x * 4 + y div 16, y mod 16 * 16 + z div 4, z mod 4 * 64 + w] @ out)
              | _ \<Rightarrow> None))
      | _ \<Rightarrow> None)"
| "b64quanta _ = None"

definition b64decode :: "string \<Rightarrow> nat list option" where
  "b64decode s = b64quanta (filter (\<lambda>c. c \<noteq> CHR 0x0A \<and> c \<noteq> CHR 0x0D) s)"

section \<open>Artifacts\<close>

definition encodeArtifactForCypher :: "string \<Rightarrow> string" where
  "encodeArtifactForCypher s = (if s = [] then [] else b64encode (map of_char s))"

definition decodeArtifactFromCypher :: "string \<Rightarrow> string" where
  "decodeArtifactFromCypher s =
     (if s = [] then []
      else case b64decode s of None \<Rightarrow> [] | Some bs \<Rightarrow> map char_of bs)"

section \<open>Agtype scalars\<close>

definition joinNamespace :: "string list \<Rightarrow> string" where
  "joinNamespace parts = join_with ''.'' parts"

definition stripSuffix :: "string \<Rightarrow> string \<Rightarrow> string" where
  "stripSuffix suffix s = (if has_suffix s suffix then take (length s - length suffix) s else s)"

fun unescapeAgtype :: "string \<Rightarrow> string" where
  "unescapeAgtype [] = []"
| "unescapeAgtype [c] = [c]"
| "unescapeAgtype (c # d # s) =
     (if c = CHR 0x5C then
        (if d = CHR 0x22 then CHR 0x22 # unescapeAgtype s
         else if d = CHR 0x5C then CHR 0x5C # unescapeAgtype s
         else if d = CHR ''n'' then CHR 0x0A # unescapeAgtype s
         else if d = CHR ''t'' then CHR 0x09 # unescapeAgtype s
         else c # unescapeAgtype (d # s))
      else c # unescapeAgtype (d # s))"

definition stripAgtypeQuotes :: "string \<Rightarrow> string" where
  "stripAgtypeQuotes s0 =
     (let s = stripSuffix ''::numeric'' (stripSuffix ''::text'' s0) in
      if 2 \<le> length s \<and> hd s = CHR 0x22 \<and> last s = CHR 0x22
      then unescapeAgtype (butlast (tl s)) else s)"

section \<open>Properties\<close>

lemma b64_table: "list_all (\<lambda>n. b64val (b64char n) = Some n \<and> b64char n \<noteq> CHR ''='' \<and>
    b64char n \<noteq> CHR 0x0A \<and> b64char n \<noteq> CHR 0x0D \<and> cypherLiteralAllow (b64char n)) [0..<64]"
  by code_simp

lemma b64_char:
  assumes "n < 64"
  shows "b64val (b64char n) = Some n" "b64char n \<noteq> CHR ''=''"
    "b64char n \<noteq> CHR 0x0A" "b64char n \<noteq> CHR 0x0D" "cypherLiteralAllow (b64char n)"
  using b64_table assms by (auto simp: list_all_iff)

lemma b64char_mod: "b64char n = b64char (n mod 64)"
  by (simp add: b64char_def)

lemma b64_chars_clean:
  "list_all cypherLiteralAllow (b64encode bs) \<and> CHR 0x0A \<notin> set (b64encode bs) \<and> CHR 0x0D \<notin> set (b64encode bs)"
proof -
  have "cypherLiteralAllow (b64char n)" "b64char n \<noteq> CHR 0x0A" "b64char n \<noteq> CHR 0x0D" for n
    using b64_char [of "n mod 64"] b64char_mod [of n] by auto
  moreover have "cypherLiteralAllow (CHR ''='')"
    by (simp add: cypherLiteralAllow_def cypherPunctuation_def)
  ultimately show ?thesis
    by (induction bs rule: b64encode.induct) (auto simp: eq_commute [of "CHR 0x0A"] eq_commute [of "CHR 0x0D"])
qed

lemma b64_quanta_encode: "list_all (\<lambda>b. b < 256) bs \<Longrightarrow> b64quanta (b64encode bs) = Some bs"
proof (induction bs rule: b64encode.induct)
  case (2 a)
  then have "a div 4 < 64" "a mod 4 * 16 < 64" by auto
  then show ?case using b64_char by simp
next
  case (3 a b)
  then have "a div 4 < 64" "a mod 4 * 16 + b div 16 < 64" "b mod 16 * 4 < 64" by auto
  moreover have "(a mod 4 * 16 + b div 16) div 16 = a mod 4" "(a mod 4 * 16 + b div 16) mod 16 = b div 16"
    using 3 by auto
  ultimately show ?case using b64_char by simp
next
  case (4 a b c r)
  then have "a div 4 < 64" "a mod 4 * 16 + b div 16 < 64" "b mod 16 * 4 + c div 64 < 64" "c mod 64 < 64"
    by auto
  moreover have "(a mod 4 * 16 + b div 16) div 16 = a mod 4" "(a mod 4 * 16 + b div 16) mod 16 = b div 16"
    "(b mod 16 * 4 + c div 64) div 4 = b mod 16" "(b mod 16 * 4 + c div 64) mod 4 = c div 64"
    using 4 by auto
  moreover have "c div 64 * 64 + c mod 64 = c" by simp
  ultimately show ?case using b64_char 4 by simp
qed simp

lemma artifact_safe: "list_all cypherLiteralAllow (encodeArtifactForCypher s)"
  by (simp add: encodeArtifactForCypher_def b64_chars_clean)

lemma artifact_roundtrip: "decodeArtifactFromCypher (encodeArtifactForCypher s) = s"
proof (cases "s = []")
  case False
  let ?e = "b64encode (map of_char s)"
  have "filter (\<lambda>c. c \<noteq> CHR 0x0A \<and> c \<noteq> CHR 0x0D) ?e = ?e"
    using b64_chars_clean [of "map of_char s"] by (auto simp: filter_id_conv)
  moreover have "list_all (\<lambda>b. b < 256) (map of_char s :: nat list)" by (simp add: list_all_iff)
  ultimately have "b64decode ?e = Some (map of_char s)"
    using b64_quanta_encode by (simp add: b64decode_def)
  moreover have "?e \<noteq> []" using False by (cases "map (of_char :: char \<Rightarrow> nat) s" rule: b64encode.cases) auto
  ultimately show ?thesis by (simp add: encodeArtifactForCypher_def decodeArtifactFromCypher_def False comp_def)
qed (simp add: encodeArtifactForCypher_def decodeArtifactFromCypher_def)

text \<open>
  Artifact bodies survive the store: whatever the compiled body, its encoded form passes the
  Cypher literal sanitiser, and decoding it gives the body back.
\<close>

theorem artifact_storage_roundtrip:
  "MustSanitizeCypherLiteral (encodeArtifactForCypher s) = Inr (encodeArtifactForCypher s) \<and>
   decodeArtifactFromCypher (encodeArtifactForCypher s) = s"
  using artifact_safe artifact_roundtrip MustSanitize_iff by blast

text \<open>Quoting as AGE prints a string scalar, for the four escapes the reader knows.\<close>

fun agtypeEscape :: "string \<Rightarrow> string" where
  "agtypeEscape [] = []"
| "agtypeEscape (c # s) =
     (if c = CHR 0x22 \<or> c = CHR 0x5C then [CHR 0x5C, c]
      else if c = CHR 0x0A then [CHR 0x5C, CHR ''n'']
      else if c = CHR 0x09 then [CHR 0x5C, CHR ''t''] else [c]) @ agtypeEscape s"

lemma unescape_step:
  "c \<noteq> CHR 0x5C \<Longrightarrow> unescapeAgtype (c # s) = c # unescapeAgtype s"
  by (cases s) auto

lemma unescape_escape: "unescapeAgtype (agtypeEscape s) = s"
  by (induction s) (auto simp: unescape_step)

lemma quoted_no_suffix:
  "last p \<noteq> CHR 0x22 \<Longrightarrow> p \<noteq> [] \<Longrightarrow> stripSuffix p (u @ [CHR 0x22]) = u @ [CHR 0x22]"
proof -
  assume p: "last p \<noteq> CHR 0x22" "p \<noteq> []"
  have "\<not> has_suffix (u @ [CHR 0x22]) p"
  proof
    assume h: "has_suffix (u @ [CHR 0x22]) p"
    then have l: "length p \<le> length (u @ [CHR 0x22])"
      and d: "drop (length (u @ [CHR 0x22]) - length p) (u @ [CHR 0x22]) = p"
      by (auto simp: has_suffix_def)
    have "last (drop (length (u @ [CHR 0x22]) - length p) (u @ [CHR 0x22])) = last (u @ [CHR 0x22])"
      using l p(2) by (intro last_drop) (cases p, auto)
    with d p(1) show False by simp
  qed
  then show ?thesis by (simp add: stripSuffix_def)
qed

text \<open>
  Reading a scalar back: for every string, the agtype reader undoes the quoting and the
  escapes of double quote, backslash, newline and tab.
\<close>

theorem agtype_roundtrip:
  "stripAgtypeQuotes ([CHR 0x22] @ agtypeEscape s @ [CHR 0x22]) = s"
proof -
  let ?q = "[CHR 0x22] @ agtypeEscape s @ [CHR 0x22]"
  have "stripSuffix ''::text'' ?q = ?q" "stripSuffix ''::numeric'' ?q = ?q"
    using quoted_no_suffix [of "''::text''" "CHR 0x22 # agtypeEscape s"]
      quoted_no_suffix [of "''::numeric''" "CHR 0x22 # agtypeEscape s"] by simp_all
  then show ?thesis by (simp add: stripAgtypeQuotes_def unescape_escape butlast_append)
qed

end
