(* ===== verification/Policy_Store.thy ===== *)
theory Policy_Store
  imports Artifact_Codec
begin

text \<open>
  The policy store (\<open>internal/policy/store\<close>): compiled artifacts, policy sources, the engine
  registry and the three-layer attribute resolver, all over the tenant transactions of
  \<open>Graph_Client\<close>. A row the database answers is the list of its columns as text; a failed
  query, a failed scan and a failed row iteration are one transport error.
\<close>

section \<open>Compiled policies\<close>

definition StatusPending :: string where "StatusPending = ''pending''"
definition StatusActive :: string where "StatusActive = ''active''"
definition StatusProbeFailed :: string where "StatusProbeFailed = ''probe_failed''"
definition StatusCompileFailed :: string where "StatusCompileFailed = ''compile_failed''"
definition StatusDivergentSuspended :: string where "StatusDivergentSuspended = ''divergent_suspended''"

lemmas status_defs = StatusPending_def StatusActive_def StatusProbeFailed_def
  StatusCompileFailed_def StatusDivergentSuspended_def

definition status_valid :: "string \<Rightarrow> bool" where
  "status_valid s \<longleftrightarrow>
     s \<in> {StatusPending, StatusActive, StatusProbeFailed, StatusCompileFailed, StatusDivergentSuspended}"

record compiled_policy =
  cp_policy_id :: string
  cp_engine_kind :: string
  cp_engine_version :: string
  cp_table_name :: string
  cp_table_namespace :: string
  cp_status :: string
  cp_source_checksum :: string
  cp_artifact_body :: string
  cp_artifact_kind :: string

record table_ref =
  tr_namespace :: "string list"
  tr_name :: string

text \<open>A value in single quotes, as the \<open>Sprintf\<close> templates write it.\<close>

definition cyLit :: "string \<Rightarrow> string" where
  "cyLit v = [CHR 0x27] @ v @ [CHR 0x27]"

definition cypherStatement :: "string \<Rightarrow> string \<Rightarrow> string" where
  "cypherStatement cy cols =
     ''SELECT * FROM ag_catalog.cypher('' @ cyLit ''neksur'' @ '', $$ '' @ cy @ '' $$) AS ('' @ cols @ '')''"

definition execCypherNoRows :: "'db pg \<Rightarrow> string \<Rightarrow> 'db \<Rightarrow> graph_error + 'db" where
  "execCypherNoRows pg cy db =
     rbind (txQuery pg (cypherStatement cy ''out ag_catalog.agtype'') [] db) (\<lambda>(_, db'). Inr db')"

definition cpNode :: "string \<Rightarrow> string \<Rightarrow> string \<Rightarrow> string \<Rightarrow> string" where
  "cpNode tenant pid ek ev =
     ''(cp:CompiledPolicy {tenant_id: '' @ cyLit tenant @ '', policy_id: '' @ cyLit pid @
     '', engine_kind: '' @ cyLit ek @ '', engine_version: '' @ cyLit ev @ ''})''"

definition mergeNode ::
  "string \<Rightarrow> string \<Rightarrow> string \<Rightarrow> string \<Rightarrow> string \<Rightarrow> string \<Rightarrow> string \<Rightarrow> string" where
  "mergeNode tenant pid ek ev status checksum body =
     ''MERGE '' @ cpNode tenant pid ek ev @ '' SET cp.status = '' @ cyLit status @
     '', cp.source_checksum = '' @ cyLit checksum @ '', cp.artifact_body = '' @ cyLit body @
     '' RETURN cp.policy_id''"

definition mergeCompiledFrom :: "string \<Rightarrow> string \<Rightarrow> string \<Rightarrow> string \<Rightarrow> string" where
  "mergeCompiledFrom tenant pid ek ev =
     ''MATCH '' @ cpNode tenant pid ek ev @ '', (p:Policy {tenant_id: '' @ cyLit tenant @ '', id: '' @
     cyLit pid @ ''}) MERGE (cp)-[:COMPILED_FROM]->(p) RETURN cp.policy_id''"

definition mergeAppliesTo ::
  "string \<Rightarrow> string \<Rightarrow> string \<Rightarrow> string \<Rightarrow> string \<Rightarrow> string \<Rightarrow> string" where
  "mergeAppliesTo tenant pid ek ev tname tns =
     ''MATCH '' @ cpNode tenant pid ek ev @ '', (t:Table {tenant_id: '' @ cyLit tenant @ '', name: '' @
     cyLit tname @ '', namespace: '' @ cyLit tns @ ''}) MERGE (cp)-[:APPLIES_TO]->(t) RETURN cp.policy_id''"

definition mergeGovernedBy :: "string \<Rightarrow> string \<Rightarrow> string \<Rightarrow> string \<Rightarrow> string" where
  "mergeGovernedBy tenant pid ek ev =
     ''MATCH '' @ cpNode tenant pid ek ev @ '', (e:Engine {tenant_id: '' @ cyLit tenant @ '', kind: '' @
     cyLit ek @ '', version: '' @ cyLit ev @ ''}) MERGE (cp)-[:GOVERNED_BY]->(e) RETURN cp.policy_id''"

definition UpsertCompiledPolicy ::
  "'db pg \<Rightarrow> string option \<Rightarrow> compiled_policy \<Rightarrow> 'db \<Rightarrow> (graph_error + unit) \<times> 'db" where
  "UpsertCompiledPolicy pg tenant cp db =
     (case tenant of
        None \<Rightarrow> (Inl ErrTenantMissing, db)
      | Some tid \<Rightarrow>
         if \<not> status_valid (cp_status cp) then (Inl (Rejected ''invalid CompiledPolicy status''), db)
         else case
           rbind (MustSanitizeCypherLiteral (cp_policy_id cp)) (\<lambda>pid.
           rbind (MustSanitizeCypherLiteral (cp_engine_kind cp)) (\<lambda>ek.
           rbind (MustSanitizeCypherLiteral (cp_engine_version cp)) (\<lambda>ev.
           rbind (MustSanitizeCypherLiteral (cp_table_name cp)) (\<lambda>tname.
           rbind (MustSanitizeCypherLiteral (cp_table_namespace cp)) (\<lambda>tns.
           rbind (MustSanitizeCypherLiteral (cp_status cp)) (\<lambda>status.
           rbind (MustSanitizeCypherLiteral (cp_source_checksum cp)) (\<lambda>checksum.
           rbind (MustSanitizeCypherLiteral tid) (\<lambda>tenantLit.
           rbind (MustSanitizeCypherLiteral (encodeArtifactForCypher (cp_artifact_body cp))) (\<lambda>body.
             Inr (\<lambda>db0.
               rbind (execCypherNoRows pg (mergeNode tenantLit pid ek ev status checksum body) db0) (\<lambda>db1.
               rbind (execCypherNoRows pg (mergeCompiledFrom tenantLit pid ek ev) db1) (\<lambda>db2.
               rbind (execCypherNoRows pg (mergeAppliesTo tenantLit pid ek ev tname tns) db2) (\<lambda>db3.
               rbind (execCypherNoRows pg (mergeGovernedBy tenantLit pid ek ev) db3) (\<lambda>db4.
                 Inr ((), db4)))))))))))))))
         of
           Inl e \<Rightarrow> (Inl e, db)
         | Inr fn \<Rightarrow> ExecuteInTenant pg tid fn db)"

definition compiledRow :: "table_ref \<Rightarrow> string list \<Rightarrow> graph_error + compiled_policy" where
  "compiledRow ref row =
     (case row of
        [pid, ek, ev, st, ck, ab] \<Rightarrow>
          let st' = stripAgtypeQuotes st in
          Inr \<lparr>cp_policy_id = stripAgtypeQuotes pid, cp_engine_kind = stripAgtypeQuotes ek,
               cp_engine_version = stripAgtypeQuotes ev, cp_table_name = tr_name ref,
               cp_table_namespace = joinNamespace (tr_namespace ref),
               cp_status = (if status_valid st' then st' else StatusCompileFailed),
               cp_source_checksum = stripAgtypeQuotes ck,
               cp_artifact_body = decodeArtifactFromCypher (stripAgtypeQuotes ab),
               cp_artifact_kind = []\<rparr>
      | _ \<Rightarrow> Inl (TransportError ''LoadCompiledForTable scan''))"

definition matchCompiled :: "string \<Rightarrow> string \<Rightarrow> string \<Rightarrow> string" where
  "matchCompiled tenant tname tns =
     ''MATCH (cp:CompiledPolicy {tenant_id: '' @ cyLit tenant @
     ''})-[:APPLIES_TO]->(t:Table {tenant_id: '' @ cyLit tenant @ '', name: '' @ cyLit tname @
     '', namespace: '' @ cyLit tns @
     ''}) RETURN cp.policy_id, cp.engine_kind, cp.engine_version, cp.status, cp.source_checksum, cp.artifact_body''"

definition LoadCompiledForTable ::
  "'db pg \<Rightarrow> string option \<Rightarrow> table_ref \<Rightarrow> 'db \<Rightarrow> (graph_error + compiled_policy list) \<times> 'db" where
  "LoadCompiledForTable pg tenant ref db =
     (case tenant of
        None \<Rightarrow> (Inl ErrTenantMissing, db)
      | Some tid \<Rightarrow>
         (case
           rbind (MustSanitizeCypherLiteral (tr_name ref)) (\<lambda>tname.
           rbind (MustSanitizeCypherLiteral (joinNamespace (tr_namespace ref))) (\<lambda>tns.
           rbind (MustSanitizeCypherLiteral tid) (\<lambda>tenantLit.
             Inr (\<lambda>db0.
               rbind (txQuery pg (cypherStatement (matchCompiled tenantLit tname tns)
                 ''policy_id ag_catalog.agtype, engine_kind ag_catalog.agtype, engine_version ag_catalog.agtype, status ag_catalog.agtype, source_checksum ag_catalog.agtype, artifact_body ag_catalog.agtype'')
                 [] db0) (\<lambda>(rows, db1).
               rbind (traverse (compiledRow ref) rows) (\<lambda>out. Inr (out, db1)))))))
         of
           Inl e \<Rightarrow> (Inl e, db)
         | Inr fn \<Rightarrow> ExecuteInTenant pg tid fn db))"

section \<open>Policy sources\<close>

record cel_policy =
  pol_id :: string
  pol_kind :: string
  pol_text :: string

definition assertSafeCypherLiteral :: "string \<Rightarrow> graph_error + string" where
  "assertSafeCypherLiteral s =
     (case SanitizeCypherLiteral s of Inl e \<Rightarrow> Inl (ErrUnsafeCypherLiteral e) | Inr x \<Rightarrow> Inr x)"

definition policyEdgeLabels :: "string list" where
  "policyEdgeLabels =
     [''SCHEMA_GOVERNS'', ''WRITE_GOVERNS'', ''RETENTION_GOVERNS'', ''RESIDENCY_GOVERNS'',
      ''CLASSIFICATION_GOVERNS'', ''PARTITION_GOVERNS'', ''ABAC_GOVERNS'']"

definition matchPolicies :: "string \<Rightarrow> string \<Rightarrow> string \<Rightarrow> string" where
  "matchPolicies edge name ns =
     ''MATCH (p:Policy)-[:'' @ edge @ '']->(t:Table {name: '' @ cyLit name @ '', namespace: '' @
     cyLit ns @ ''}) RETURN p.id, p.kind, p.definition_cel''"

definition matchRetention :: "string \<Rightarrow> string \<Rightarrow> string" where
  "matchRetention name ns =
     ''MATCH (rp:RetentionPolicy)-[:RETAINS]->(t:Table {name: '' @ cyLit name @ '', namespace: '' @
     cyLit ns @ ''}) RETURN rp.id, rp.definition_cel''"

definition policyRow :: "string list \<Rightarrow> graph_error + cel_policy" where
  "policyRow row =
     (case row of
        [pid, kind, txt] \<Rightarrow>
          Inr \<lparr>pol_id = stripAgtypeQuotes pid, pol_kind = stripAgtypeQuotes kind,
               pol_text = stripAgtypeQuotes txt\<rparr>
      | _ \<Rightarrow> Inl (TransportError ''P1/P2 scan''))"

definition retentionRow :: "string list \<Rightarrow> graph_error + cel_policy" where
  "retentionRow row =
     (case row of
        [pid, txt] \<Rightarrow>
          Inr \<lparr>pol_id = stripAgtypeQuotes pid, pol_kind = ''retention'', pol_text = stripAgtypeQuotes txt\<rparr>
      | _ \<Rightarrow> Inl (TransportError ''P3 scan''))"

fun loadEdges ::
  "'db pg \<Rightarrow> string \<Rightarrow> string \<Rightarrow> string list \<Rightarrow> 'db \<Rightarrow> graph_error + (cel_policy list \<times> 'db)" where
  "loadEdges pg name ns [] db = Inr ([], db)"
| "loadEdges pg name ns (edge # edges) db =
     rbind (txQuery pg (cypherStatement (matchPolicies edge name ns)
       ''id ag_catalog.agtype, kind ag_catalog.agtype, text ag_catalog.agtype'') [] db) (\<lambda>(rows, db1).
     rbind (traverse policyRow rows) (\<lambda>ps.
     rbind (loadEdges pg name ns edges db1) (\<lambda>(qs, db2). Inr (ps @ qs, db2))))"

definition LoadPoliciesForTable ::
  "'db pg \<Rightarrow> string option \<Rightarrow> table_ref \<Rightarrow> 'db \<Rightarrow> (graph_error + cel_policy list) \<times> 'db" where
  "LoadPoliciesForTable pg tenant ref db =
     (case tenant of
        None \<Rightarrow> (Inl ErrTenantMissing, db)
      | Some tid \<Rightarrow>
         ExecuteInTenant pg tid (\<lambda>db0.
           rbind (assertSafeCypherLiteral (tr_name ref)) (\<lambda>safeName.
           rbind (assertSafeCypherLiteral (joinNamespace (tr_namespace ref))) (\<lambda>safeNs.
           rbind (loadEdges pg safeName safeNs policyEdgeLabels db0) (\<lambda>(ps, db1).
           rbind (txQuery pg (cypherStatement (matchRetention safeName safeNs)
             ''id ag_catalog.agtype, text ag_catalog.agtype'') [] db1) (\<lambda>(rows, db2).
           rbind (traverse retentionRow rows) (\<lambda>rs. Inr (ps @ rs, db2))))))) db)"

section \<open>Engines\<close>

text \<open>The two queries of \<open>engine.go\<close>, with the white space of the source's raw strings normalised.\<close>

record engine =
  eng_id :: string
  eng_kind :: string
  eng_version :: string
  eng_endpoint :: string

definition engineRow :: "string list \<Rightarrow> graph_error + engine" where
  "engineRow row =
     (case row of
        [i, k, v, u] \<Rightarrow> Inr \<lparr>eng_id = i, eng_kind = k, eng_version = v, eng_endpoint = u\<rparr>
      | _ \<Rightarrow> Inl (TransportError ''engines scan''))"

definition listEnginesSQL :: string where
  "listEnginesSQL =
     ''SELECT id::text, kind, version, endpoint_url FROM public.engines ORDER BY created_at ASC''"

definition listEnginesByKindSQL :: string where
  "listEnginesByKindSQL =
     ''SELECT id::text, kind, version, endpoint_url FROM public.engines WHERE kind = $1 ORDER BY created_at ASC''"

definition ListEngines ::
  "'db pg \<Rightarrow> string option \<Rightarrow> 'db \<Rightarrow> (graph_error + engine list) \<times> 'db" where
  "ListEngines pg tenant db =
     (case tenant of
        None \<Rightarrow> (Inl ErrTenantMissing, db)
      | Some tid \<Rightarrow>
         ExecuteInTenant pg tid (\<lambda>db0.
           rbind (txQuery pg listEnginesSQL [] db0) (\<lambda>(rows, db1).
           rbind (traverse engineRow rows) (\<lambda>es. Inr (es, db1)))) db)"

definition ListByKind ::
  "'db pg \<Rightarrow> string option \<Rightarrow> string \<Rightarrow> 'db \<Rightarrow> (graph_error + engine list) \<times> 'db" where
  "ListByKind pg tenant kind db =
     (case tenant of
        None \<Rightarrow> (Inl ErrTenantMissing, db)
      | Some tid \<Rightarrow>
         (case MustSanitizeCypherLiteral kind of
            Inl e \<Rightarrow> (Inl e, db)
          | Inr _ \<Rightarrow>
             ExecuteInTenant pg tid (\<lambda>db0.
               rbind (txQuery pg listEnginesByKindSQL [kind] db0) (\<lambda>(rows, db1).
               rbind (traverse engineRow rows) (\<lambda>es. Inr (es, db1)))) db))"

section \<open>Attributes\<close>

text \<open>
  The admin catalogue is a parameter: \<open>defaults t\<close> is the decoded JSON object of the tenant's
  row, \<open>None\<close> when the row is missing or does not decode to an object of strings.
\<close>

definition matchAttribute :: "string \<Rightarrow> string \<Rightarrow> string" where
  "matchAttribute sub name =
     ''MATCH (p:Principal {sub: '' @ cyLit sub @ ''})-[:HAS_ATTRIBUTE]->(a:Attribute {name: '' @ cyLit name @
     ''}) RETURN a.value LIMIT 1''"

definition layer2Graph :: "'db pg \<Rightarrow> string \<Rightarrow> string \<Rightarrow> string \<Rightarrow> 'db \<Rightarrow> string \<times> 'db" where
  "layer2Graph pg tid sub name db =
     (case rbind (assertSafeCypherLiteral sub) (\<lambda>s. rbind (assertSafeCypherLiteral name) (\<lambda>n. Inr (s, n))) of
        Inl e \<Rightarrow> ([], db)
      | Inr (s, n) \<Rightarrow>
         (case ExecuteInTenant pg tid (\<lambda>db0.
            rbind (txQuery pg (cypherStatement (matchAttribute s n) ''value ag_catalog.agtype'') [] db0) (\<lambda>(rows, db1).
              case rows of
                [] \<Rightarrow> Inr ([], db1)
              | [raw] # _ \<Rightarrow> Inr (stripAgtypeQuotes raw, db1)
              | _ # _ \<Rightarrow> Inl (TransportError ''scan''))) db of
            (Inl e, db') \<Rightarrow> ([], db')
          | (Inr v, db') \<Rightarrow> (v, db')))"

definition layer3TenantDefault :: "(string \<Rightarrow> (string \<rightharpoonup> string) option) \<Rightarrow> string \<Rightarrow> string \<Rightarrow> string" where
  "layer3TenantDefault defaults tid name =
     (case defaults tid of
        None \<Rightarrow> []
      | Some attrs \<Rightarrow> (case attrs name of Some v \<Rightarrow> v | None \<Rightarrow> []))"

definition ResolveAttribute ::
  "'db pg option \<Rightarrow> (string \<Rightarrow> (string \<rightharpoonup> string) option) option \<Rightarrow> string option \<Rightarrow>
   string \<Rightarrow> string \<Rightarrow> (string \<rightharpoonup> string) \<Rightarrow> 'db \<Rightarrow> string \<times> 'db" where
  "ResolveAttribute gc admin tenant sub name claims db =
     (case claims name of
        Some (c # v) \<Rightarrow> (c # v, db)
      | _ \<Rightarrow>
         (case (case (gc, tenant) of
                  (Some pg, Some tid) \<Rightarrow> layer2Graph pg tid sub name db
                | _ \<Rightarrow> ([], db)) of
            (v2, db') \<Rightarrow>
              if v2 \<noteq> [] then (v2, db')
              else (case (admin, tenant) of
                      (Some defaults, Some tid) \<Rightarrow> (layer3TenantDefault defaults tid name, db')
                    | _ \<Rightarrow> ([], db'))))"

section \<open>What the store promises\<close>

text \<open>The interface the SQL proxy loads artifacts through.\<close>

locale compiled_loader =
  fixes load :: "'ctx \<Rightarrow> table_ref \<Rightarrow> graph_error + compiled_policy list"
  assumes load_status: "load ctx ref = Inr cps \<Longrightarrow> cp \<in> set cps \<Longrightarrow> status_valid (cp_status cp)"
    and load_table: "load ctx ref = Inr cps \<Longrightarrow> cp \<in> set cps \<Longrightarrow>
      cp_table_name cp = tr_name ref \<and> cp_table_namespace cp = joinNamespace (tr_namespace ref)"
    and load_kind: "load ctx ref = Inr cps \<Longrightarrow> cp \<in> set cps \<Longrightarrow> cp_artifact_kind cp = []"

definition store_load ::
  "('db pg \<times> string option \<times> 'db) \<Rightarrow> table_ref \<Rightarrow> graph_error + compiled_policy list" where
  "store_load ctx ref = (case ctx of (pg, tenant, db) \<Rightarrow> fst (LoadCompiledForTable pg tenant ref db))"

lemma compiledRow_sound:
  assumes "compiledRow ref row = Inr cp"
  shows "status_valid (cp_status cp) \<and> cp_table_name cp = tr_name ref \<and>
    cp_table_namespace cp = joinNamespace (tr_namespace ref) \<and> cp_artifact_kind cp = []"
proof -
  have "status_valid StatusCompileFailed" by (simp add: status_valid_def)
  with assms show ?thesis by (auto simp: compiledRow_def Let_def split: list.split_asm)
qed

lemma traverse_mem: "traverse f xs = Inr ys \<Longrightarrow> y \<in> set ys \<Longrightarrow> \<exists>x \<in> set xs. f x = Inr y"
  by (induction xs arbitrary: ys) (fastforce elim!: rbind_InrE)+

lemma LoadCompiled_rows:
  assumes "LoadCompiledForTable pg tenant ref db = (Inr cps, db')" "cp \<in> set cps"
  shows "\<exists>row. compiledRow ref row = Inr cp"
proof -
  obtain tid where t: "tenant = Some tid" using assms(1) by (auto simp: LoadCompiledForTable_def split: option.split_asm)
  obtain fn where fn: "ExecuteInTenant pg tid fn db = (Inr cps, db')"
    "\<And>db0 out db1. fn db0 = Inr (out, db1) \<Longrightarrow> \<exists>rows. traverse (compiledRow ref) rows = Inr out"
    using assms(1) t
    by (fastforce simp: LoadCompiledForTable_def split: sum.split_asm elim!: rbind_InrE)
  obtain db1 where "fn db1 = Inr (cps, db')" using ExecuteInTenant_outcome [OF fn(1)] by auto
  with fn(2) assms(2) show ?thesis using traverse_mem by fastforce
qed

interpretation store_loader: compiled_loader store_load
proof
  fix ctx :: "'db pg \<times> string option \<times> 'db" and ref cps cp
  assume "store_load ctx ref = Inr cps" "cp \<in> set cps"
  then obtain row where "compiledRow ref row = Inr cp"
    using LoadCompiled_rows by (cases ctx) (fastforce simp: store_load_def prod_eq_iff)
  from compiledRow_sound [OF this]
  show "status_valid (cp_status cp)"
    "cp_table_name cp = tr_name ref \<and> cp_table_namespace cp = joinNamespace (tr_namespace ref)"
    "cp_artifact_kind cp = []" by auto
qed

text \<open>
  Every compiled policy the store hands out has one of the five documented statuses (an
  unknown one reads as \<open>compile_failed\<close>), belongs to the table asked for, and carries no
  artifact kind: the kind is neither written nor read back, so every loaded artifact is taken
  for a row filter.
\<close>

theorem load_compiled_sound:
  assumes "LoadCompiledForTable pg tenant ref db = (Inr cps, db')" "cp \<in> set cps"
  shows "status_valid (cp_status cp) \<and> cp_table_name cp = tr_name ref \<and>
    cp_table_namespace cp = joinNamespace (tr_namespace ref) \<and> cp_artifact_kind cp = []"
  using LoadCompiled_rows [OF assms] compiledRow_sound by blast

definition rows_pg :: "string list list \<Rightarrow> unit pg" where
  "rows_pg rows = \<lparr>pg_acquire = \<lambda>_. None, pg_begin = \<lambda>_. None, pg_exec = \<lambda>q args db. Inr (rows, db),
     pg_commit = \<lambda>_. None, pg_reset = \<lambda>_. None\<rparr>"

abbreviation sample_ref :: table_ref where
  "sample_ref \<equiv> \<lparr>tr_namespace = [''sales''], tr_name = ''orders''\<rparr>"

abbreviation sample_row :: "string list" where
  "sample_row \<equiv> [''p1'', ''trino'', ''v1'', ''bogus'', ''c0'', []]"

abbreviation sample_cp :: compiled_policy where
  "sample_cp \<equiv> \<lparr>cp_policy_id = ''p1'', cp_engine_kind = ''trino'', cp_engine_version = ''v1'',
     cp_table_name = ''orders'', cp_table_namespace = ''sales'', cp_status = StatusCompileFailed,
     cp_source_checksum = ''c0'', cp_artifact_body = [], cp_artifact_kind = []\<rparr>"

theorem load_compiled_sound_witness:
  "LoadCompiledForTable (rows_pg [sample_row]) (Some ''t1'') sample_ref () = (Inr [sample_cp], ()) \<and>
   status_valid (cp_status sample_cp)"
proof -
  have "LoadCompiledForTable (rows_pg [sample_row]) (Some ''t1'') sample_ref () = (Inr [sample_cp], ())"
    by code_simp
  from load_compiled_sound [OF this, of sample_cp] this show ?thesis by simp
qed

text \<open>A database that answers nothing and keeps the statements it was sent.\<close>

definition log_pg :: "(string \<times> string list) list pg" where
  "log_pg = \<lparr>pg_acquire = \<lambda>_. None, pg_begin = \<lambda>_. None, pg_exec = \<lambda>q args db. Inr ([], db @ [(q, args)]),
     pg_commit = \<lambda>_. None, pg_reset = \<lambda>_. None\<rparr>"

lemma quotedParts_char: "c \<noteq> CHR 0x27 \<Longrightarrow> quotedParts (c # s) = quotedParts s"
  by (simp add: quotedParts.simps(2))

lemma exec_log: "execCypherNoRows log_pg cy db = Inr (db @ [(cypherStatement cy ''out ag_catalog.agtype'', [])])"
  by (simp add: execCypherNoRows_def txQuery_def log_pg_def)

lemma execute_log:
  "fn [(setTenantSQL, [tid])] = Inr (x, db') \<Longrightarrow> ExecuteInTenant log_pg tid fn [] = (Inr x, db')"
  by (simp add: execute_defs log_pg_def)

lemmas cypher_templates = cypherStatement_def mergeNode_def mergeCompiledFrom_def mergeAppliesTo_def
  mergeGovernedBy_def cpNode_def cyLit_def

lemma upsert_log:
  assumes "status_valid (cp_status cp)"
    "list_all (list_all cypherLiteralAllow) [cp_policy_id cp, cp_engine_kind cp, cp_engine_version cp,
       cp_table_name cp, cp_table_namespace cp, cp_status cp, cp_source_checksum cp, tid]"
  shows "UpsertCompiledPolicy log_pg (Some tid) cp [] =
    (Inr (), (setTenantSQL, [tid]) #
      map (\<lambda>cy. (cypherStatement cy ''out ag_catalog.agtype'', []))
        [mergeNode tid (cp_policy_id cp) (cp_engine_kind cp) (cp_engine_version cp) (cp_status cp)
           (cp_source_checksum cp) (encodeArtifactForCypher (cp_artifact_body cp)),
         mergeCompiledFrom tid (cp_policy_id cp) (cp_engine_kind cp) (cp_engine_version cp),
         mergeAppliesTo tid (cp_policy_id cp) (cp_engine_kind cp) (cp_engine_version cp)
           (cp_table_name cp) (cp_table_namespace cp),
         mergeGovernedBy tid (cp_policy_id cp) (cp_engine_kind cp) (cp_engine_version cp)])"
proof -
  have m: "MustSanitizeCypherLiteral v = Inr v" if "list_all cypherLiteralAllow v" for v
    using that MustSanitize_iff by blast
  show ?thesis
    using assms artifact_safe [of "cp_artifact_body cp"]
    by (simp add: UpsertCompiledPolicy_def m execute_log exec_log)
qed

lemma upsert_panics:
  assumes "status_valid (cp_status cp)"
    "\<not> list_all (list_all cypherLiteralAllow) [cp_policy_id cp, cp_engine_kind cp, cp_engine_version cp,
       cp_table_name cp, cp_table_namespace cp, cp_status cp, cp_source_checksum cp, tid]"
  shows "\<exists>m. UpsertCompiledPolicy pg (Some tid) cp db = (Inl (Panic m), db)"
proof -
  have m: "MustSanitizeCypherLiteral v =
      (if list_all cypherLiteralAllow v then Inr v
       else Inl (Panic ''graph: MustSanitizeCypherLiteral defence-in-depth violation''))" for v
    using sanitizeFrom_None [of 0 v]
    by (cases "sanitizeFrom 0 v") (auto simp: MustSanitizeCypherLiteral_def SanitizeCypherLiteral_def)
  show ?thesis using assms by (simp add: UpsertCompiledPolicy_def m)
qed

text \<open>
  Storing an artifact sends the node first and then its three edges, inside one transaction
  bound to the tenant; and the string literals of each statement are exactly the values of the
  artifact, so no value can end its literal. A value outside the allowlist stops the upsert
  before anything is sent.
\<close>

theorem upsert_statements:
  assumes "status_valid (cp_status cp)"
  shows "if list_all (list_all cypherLiteralAllow) [cp_policy_id cp, cp_engine_kind cp, cp_engine_version cp,
       cp_table_name cp, cp_table_namespace cp, cp_status cp, cp_source_checksum cp, tid]
    then \<exists>log. UpsertCompiledPolicy log_pg (Some tid) cp [] = (Inr (), log) \<and>
      map (quotedParts \<circ> fst) log =
        (let key = [tid, cp_policy_id cp, cp_engine_kind cp, cp_engine_version cp] in
         [[''app.current_tenant''],
          ''neksur'' # key @ [cp_status cp, cp_source_checksum cp, encodeArtifactForCypher (cp_artifact_body cp)],
          ''neksur'' # key @ [tid, cp_policy_id cp],
          ''neksur'' # key @ [tid, cp_table_name cp, cp_table_namespace cp],
          ''neksur'' # key @ [tid, cp_engine_kind cp, cp_engine_version cp]])
    else \<exists>m. UpsertCompiledPolicy pg (Some tid) cp db = (Inl (Panic m), db)"
proof (cases "list_all (list_all cypherLiteralAllow) [cp_policy_id cp, cp_engine_kind cp, cp_engine_version cp,
       cp_table_name cp, cp_table_namespace cp, cp_status cp, cp_source_checksum cp, tid]")
  case True
  then have q: "CHR 0x27 \<notin> set (cp_policy_id cp)" "CHR 0x27 \<notin> set (cp_engine_kind cp)"
    "CHR 0x27 \<notin> set (cp_engine_version cp)" "CHR 0x27 \<notin> set (cp_table_name cp)"
    "CHR 0x27 \<notin> set (cp_table_namespace cp)" "CHR 0x27 \<notin> set (cp_status cp)"
    "CHR 0x27 \<notin> set (cp_source_checksum cp)" "CHR 0x27 \<notin> set tid"
    "CHR 0x27 \<notin> set (encodeArtifactForCypher (cp_artifact_body cp))"
    using safe_no_quote artifact_safe by auto
  have "quotedParts setTenantSQL = [''app.current_tenant'']"
    by (simp add: setTenantSQL_def quotedParts_char quotedParts.simps(2))
  with True upsert_log [OF assms True] q show ?thesis
    by (simp add: cypher_templates Let_def quotedParts_char quotedParts_literal
        quotedParts_literal [of "''neksur''", simplified])
next
  case False
  with upsert_panics [OF assms False] show ?thesis by (simp only: if_False)
qed

theorem upsert_statements_witness:
  "\<exists>log. UpsertCompiledPolicy log_pg (Some ''t1'') sample_cp [] = (Inr (), log) \<and> length log = 5"
proof -
  have "status_valid (cp_status sample_cp)" by (simp add: status_valid_def)
  from upsert_statements [OF this, of "''t1''" log_pg "[]"]
  obtain log where "UpsertCompiledPolicy log_pg (Some ''t1'') sample_cp [] = (Inr (), log)"
    "length (map (quotedParts \<circ> fst) log) = 5"
    by (auto simp: cypherLiteralAllow_def cypherPunctuation_def StatusCompileFailed_def Let_def)
  then show ?thesis by auto
qed

text \<open>
  Attribute resolution takes the first non-empty answer of the three layers, the token's
  claim, the principal's graph attribute and the tenant default, and is empty only when all
  three are. A failing graph layer is a miss.
\<close>

theorem resolve_first_nonempty:
  "ResolveAttribute (Some pg) (Some defaults) (Some tid) sub name claims db =
     (let l1 = (case claims name of Some v \<Rightarrow> v | None \<Rightarrow> []);
          (l2, db') = (if l1 = [] then layer2Graph pg tid sub name db else ([], db));
          l3 = layer3TenantDefault defaults tid name
      in (case filter (\<lambda>v. v \<noteq> []) [l1, l2, l3] of [] \<Rightarrow> [] | v # _ \<Rightarrow> v, db'))"
  by (cases "claims name"; cases "the (claims name)")
     (auto simp: ResolveAttribute_def Let_def split: option.splits list.splits prod.splits)

end
