(* ===== verification/SQL_Proxy.thy ===== *)
theory SQL_Proxy
  imports SQL_Splice Policy_Store
begin

text \<open>
  The SQL proxy (\<open>internal/sqlproxy\<close>): the three injectors that fetch the compiled artifact of a
  table and splice it into the query, the injector factory, the artifact cache and the HTTP
  handler.

  The artifact cache is an LRU map whose insertion is a parameter, with the promise \<open>lru_add\<close> of
  the prelude.
\<close>

section \<open>Cache\<close>

record cache_key =
  ck_tenant :: string
  ck_namespace :: string
  ck_table :: string
  ck_engine :: string

record artifact_entry =
  ae_body :: string
  ae_kind :: string

type_synonym artifact_cache = "cache_key \<rightharpoonup> artifact_entry"

text \<open>\<open>Invalidate\<close>: the keys of a tenant's table are removed, one by one, from a snapshot of the keys.\<close>

definition invalidateKey :: "string \<Rightarrow> string \<Rightarrow> cache_key \<Rightarrow> artifact_cache \<Rightarrow> artifact_cache" where
  "invalidateKey tenantID tableID k c =
     (if ck_tenant k = tenantID \<and> ck_table k = tableID then c(k := None) else c)"

definition Invalidate :: "string \<Rightarrow> string \<Rightarrow> cache_key list \<Rightarrow> artifact_cache \<Rightarrow> artifact_cache" where
  "Invalidate tenantID tableID keys c = fold (invalidateKey tenantID tableID) keys c"

section \<open>Injectors\<close>

record proxy_table =
  pt_namespace :: string
  pt_name :: string

definition CacheStatusHit :: string where "CacheStatusHit = ''hit''"
definition CacheStatusMiss :: string where "CacheStatusMiss = ''miss''"
definition CacheStatusError :: string where "CacheStatusError = ''error''"

type_synonym inject_result = "(proxy_error + string) \<times> string \<times> artifact_cache"

definition wrapErr :: "string \<Rightarrow> proxy_error \<Rightarrow> proxy_error" where
  "wrapErr msg e = ProxyError (err_is e) (msg @ err_msg e)"

definition unavailable :: "string \<Rightarrow> proxy_error" where
  "unavailable msg = ProxyError ErrPolicyEngineUnavailable msg"

text \<open>
  \<open>pins\<close> is the snapshot-pin reader's answer, \<open>None\<close> for a nil reader; \<open>load\<close> is the compiled
  loader's answer for the table.
\<close>

definition pinQuery ::
  "pinFromDialect \<Rightarrow> string \<Rightarrow> (string + string) option \<Rightarrow> string \<Rightarrow> proxy_error + string" where
  "pinQuery dia pre pins query =
     (case pins of
        None \<Rightarrow> Inr query
      | Some (Inl e) \<Rightarrow> Inl (unavailable (pre @ ''pin lookup''))
      | Some (Inr snapID) \<Rightarrow>
          if snapID = [] then Inr query
          else (case RewriteFromForSnapshotPin query snapID dia of
                  Inl e \<Rightarrow> Inl (wrapErr (pre @ ''pin rewrite: '') e)
                | Inr pinned \<Rightarrow> Inr pinned))"

definition spliceEntry ::
  "string \<Rightarrow> string \<Rightarrow> artifact_entry \<Rightarrow> string \<Rightarrow> artifact_cache \<Rightarrow> inject_result" where
  "spliceEntry pre status entry query c =
     (case SpliceArtifact query (ae_body entry) (ae_kind entry) of
        Inl e \<Rightarrow> (Inl (wrapErr pre e), CacheStatusError, c)
      | Inr rewritten \<Rightarrow> (Inr rewritten, status, c))"

definition artifactOf :: "compiled_policy \<Rightarrow> artifact_entry" where
  "artifactOf cp = \<lparr>ae_body = cp_artifact_body cp, ae_kind = cp_artifact_kind cp\<rparr>"

definition cacheKey :: "string \<Rightarrow> proxy_table \<Rightarrow> string \<Rightarrow> cache_key" where
  "cacheKey tid table eng =
     \<lparr>ck_tenant = tid, ck_namespace = pt_namespace table, ck_table = pt_name table, ck_engine = eng\<rparr>"

definition spliceable :: "string \<Rightarrow> compiled_policy \<Rightarrow> bool" where
  "spliceable eng cp \<longleftrightarrow>
     cp_engine_kind cp = eng \<and> cp_status cp = StatusActive \<and> cp_artifact_kind cp \<noteq> KindPredicate"

definition suspended :: "string \<Rightarrow> compiled_policy \<Rightarrow> bool" where
  "suspended eng cp \<longleftrightarrow> cp_engine_kind cp = eng \<and> cp_status cp = StatusDivergentSuspended"

definition trino_InjectPolicy ::
  "(cache_key \<Rightarrow> artifact_entry \<Rightarrow> artifact_cache \<Rightarrow> artifact_cache) \<Rightarrow> (string + string) option \<Rightarrow>
   (graph_error + compiled_policy list) \<Rightarrow> string option \<Rightarrow> string \<Rightarrow> proxy_table \<Rightarrow> artifact_cache \<Rightarrow>
   inject_result" where
  "trino_InjectPolicy add pins load tenant query0 table c =
     (case tenant of
        None \<Rightarrow> (Inl (unavailable ''dialect/trino: tenant missing''), CacheStatusError, c)
      | Some tid \<Rightarrow>
         (case pinQuery PinDialectTrino ''dialect/trino: '' pins query0 of
            Inl e \<Rightarrow> (Inl e, CacheStatusError, c)
          | Inr query \<Rightarrow>
             let key = cacheKey tid table ''trino'' in
             (case c key of
                Some entry \<Rightarrow> spliceEntry ''dialect/trino: '' CacheStatusHit entry query c
              | None \<Rightarrow>
                 (case load of
                    Inl e \<Rightarrow> (Inl (unavailable ''dialect/trino: load''), CacheStatusError, c)
                  | Inr compiled \<Rightarrow>
                      if list_ex (suspended ''trino'') compiled
                      then (Inl (unavailable ''dialect/trino: policy_engine_divergent''), CacheStatusError, c)
                      else (case List.find (spliceable ''trino'') compiled of
                        Some cp \<Rightarrow>
                          spliceEntry ''dialect/trino: '' CacheStatusMiss (artifactOf cp) query
                            (add key (artifactOf cp) c)
                      | None \<Rightarrow>
                          (Inl (unavailable ''dialect/trino: no active policy''), CacheStatusMiss, c))))))"

definition spark_InjectPolicy ::
  "(cache_key \<Rightarrow> artifact_entry \<Rightarrow> artifact_cache \<Rightarrow> artifact_cache) \<Rightarrow>
   (graph_error + compiled_policy list) \<Rightarrow> string option \<Rightarrow> string \<Rightarrow> proxy_table \<Rightarrow> artifact_cache \<Rightarrow>
   inject_result" where
  "spark_InjectPolicy add load tenant query table c =
     (case tenant of
        None \<Rightarrow> (Inl (unavailable ''dialect/spark: tenant missing''), CacheStatusError, c)
      | Some tid \<Rightarrow>
         let key = cacheKey tid table ''spark'' in
         (case c key of
            Some entry \<Rightarrow> spliceEntry ''dialect/spark: '' CacheStatusHit entry query c
          | None \<Rightarrow>
             (case load of
                Inl e \<Rightarrow> (Inl (unavailable ''dialect/spark: load''), CacheStatusError, c)
              | Inr compiled \<Rightarrow>
                  if list_ex (suspended ''spark'') compiled
                  then (Inl (unavailable ''dialect/spark: policy_engine_divergent''), CacheStatusError, c)
                  else (case List.find (spliceable ''spark'') compiled of
                    Some cp \<Rightarrow>
                      spliceEntry ''dialect/spark: '' CacheStatusMiss (artifactOf cp) query
                        (add key (artifactOf cp) c)
                  | None \<Rightarrow>
                      (Inl (unavailable ''dialect/spark: no active policy''), CacheStatusMiss, c)))))"

text \<open>The Dremio loop: one pass, the first suspended or spliceable row decides.\<close>

definition dremio_InjectPolicy ::
  "(cache_key \<Rightarrow> artifact_entry \<Rightarrow> artifact_cache \<Rightarrow> artifact_cache) \<Rightarrow> (string + string) option \<Rightarrow>
   (graph_error + compiled_policy list) \<Rightarrow> string option \<Rightarrow> string \<Rightarrow> proxy_table \<Rightarrow> artifact_cache \<Rightarrow>
   inject_result" where
  "dremio_InjectPolicy add pins load tenant query0 table c =
     (case tenant of
        None \<Rightarrow> (Inl (unavailable ''dialect/dremio: tenant missing''), CacheStatusError, c)
      | Some tid \<Rightarrow>
         (case pinQuery PinDialectDremio ''dialect/dremio: '' pins query0 of
            Inl e \<Rightarrow> (Inl e, CacheStatusError, c)
          | Inr query \<Rightarrow>
             let key = cacheKey tid table ''dremio'' in
             (case c key of
                Some entry \<Rightarrow> spliceEntry ''dialect/dremio: '' CacheStatusHit entry query c
              | None \<Rightarrow>
                 (case load of
                    Inl e \<Rightarrow> (Inl (unavailable ''dialect/dremio: load''), CacheStatusError, c)
                  | Inr compiled \<Rightarrow>
                      (case List.find (\<lambda>cp. suspended ''dremio'' cp \<or> spliceable ''dremio'' cp) compiled of
                         Some cp \<Rightarrow>
                           if suspended ''dremio'' cp
                           then (Inl (unavailable ''dialect/dremio: policy_engine_divergent''), CacheStatusError, c)
                           else spliceEntry ''dialect/dremio: '' CacheStatusMiss (artifactOf cp) query
                                  (add key (artifactOf cp) c)
                       | None \<Rightarrow>
                           (Inl (unavailable ''dialect/dremio: no active policy''), CacheStatusMiss, c))))))"

datatype injector_kind = TrinoInjector | SparkInjector | DremioInjector

definition BuildInjector :: "string \<Rightarrow> proxy_error + injector_kind" where
  "BuildInjector engineKind =
     (if engineKind = ''trino'' then Inr TrinoInjector
      else if engineKind = ''spark'' then Inr SparkInjector
      else if engineKind = ''dremio'' then Inr DremioInjector
      else Inl (ProxyError ErrEngineNotSupported ''sqlproxy: BuildInjector''))"

section \<open>The HTTP handler\<close>

text \<open>
  The JSON decoding of the body is a parameter: \<open>decode body\<close> is the request, or \<open>None\<close> when
  the body does not unmarshal. A body read ends in the bytes, in the size limit or in an error.
\<close>

datatype body_read = BodyBytes string | BodyTooLarge | BodyReadError

record sql_request =
  sq_query :: string
  sq_namespace :: string
  sq_table :: string

definition isPathIdent :: "string \<Rightarrow> bool" where
  "isPathIdent s \<longleftrightarrow> s \<noteq> [] \<and> list_all (\<lambda>c. isWordChar c \<or> c = CHR ''-'') s"

record response =
  rs_status :: nat
  rs_rewritten :: "string option"
  rs_failure :: "string option"
  rs_lookup :: "string option"

definition plainResponse :: "nat \<Rightarrow> response" where
  "plainResponse st = \<lparr>rs_status = st, rs_rewritten = None, rs_failure = None, rs_lookup = None\<rparr>"

definition failureResponse :: "nat \<Rightarrow> string \<Rightarrow> response" where
  "failureResponse st reason =
     \<lparr>rs_status = st, rs_rewritten = None, rs_failure = Some reason, rs_lookup = None\<rparr>"

text \<open>
  The answer to an injector error. \<open>is s\<close> is \<open>errors.Is (ierr, s)\<close>: an error may wrap several sentinels,
  and then the first case that matches decides, or none, and then it is unexpected.
\<close>

definition errorResponse :: "(sentinel \<Rightarrow> bool) \<Rightarrow> response" where
  "errorResponse is =
     (if is ErrPolicyEngineUnavailable then failureResponse 503 ''policy_engine_unavailable''
      else if is ErrEngineNotSupported \<or> is ErrAdapterStub then failureResponse 501 ''engine_not_supported''
      else if is ErrUnsupportedQueryShape then failureResponse 422 ''unsupported_query_shape''
      else if is ErrSpliceMismatch then failureResponse 422 ''splice_mismatch''
      else if is ErrInjectionFailed then failureResponse 422 ''injection_failed''
      else failureResponse 500 ''injection_failed'')"

text \<open>\<open>errors.Is\<close> on the errors of the package's own injectors.\<close>

definition errorIs :: "proxy_error \<Rightarrow> sentinel \<Rightarrow> bool" where
  "errorIs e s \<longleftrightarrow> err_is e = s"

definition normalizeCacheStatus :: "string \<Rightarrow> string" where
  "normalizeCacheStatus s =
     (let t = toLowerAscii (TrimSpace s) in
      if t = CacheStatusHit then CacheStatusHit
      else if t = CacheStatusMiss then CacheStatusMiss else CacheStatusError)"

text \<open>
  The injectors are an interface: any implementation may be registered, so their error type and
  \<open>errors.Is\<close> on it are parameters.
\<close>

type_synonym 'e injector = "string \<Rightarrow> proxy_table \<Rightarrow> artifact_cache \<Rightarrow> ('e + string) \<times> string \<times> artifact_cache"

definition handleInject ::
  "('e \<Rightarrow> sentinel \<Rightarrow> bool) \<Rightarrow> (string \<Rightarrow> sql_request option) \<Rightarrow> (string \<rightharpoonup> 'e injector) \<Rightarrow>
   string option \<Rightarrow> string \<Rightarrow> string \<Rightarrow> body_read \<Rightarrow> artifact_cache \<Rightarrow> response \<times> artifact_cache" where
  "handleInject errIs decode injectors tenant eng pre body c =
     (if tenant = None then (plainResponse 500, c)
      else if \<not> isPathIdent eng \<or> \<not> isPathIdent pre then (plainResponse 400, c)
      else case body of
        BodyTooLarge \<Rightarrow> (plainResponse 413, c)
      | BodyReadError \<Rightarrow> (plainResponse 400, c)
      | BodyBytes bs \<Rightarrow>
         (case decode bs of
            None \<Rightarrow> (plainResponse 400, c)
          | Some req \<Rightarrow>
              if sq_query req = [] \<or> sq_table req = [] then (plainResponse 400, c)
              else (case injectors eng of
                None \<Rightarrow> (failureResponse 501 ''engine_not_supported'', c)
              | Some inject \<Rightarrow>
                 (case inject (sq_query req)
                         \<lparr>pt_namespace = sq_namespace req, pt_name = sq_table req\<rparr> c of
                    (Inl e, cs, c') \<Rightarrow> (errorResponse (errIs e), c')
                  | (Inr rewritten, cs, c') \<Rightarrow>
                      (\<lparr>rs_status = 200, rs_rewritten = Some rewritten, rs_failure = None,
                        rs_lookup = Some (normalizeCacheStatus cs)\<rparr>, c')))))"

section \<open>Fail-closed injection\<close>

lemma spliceEntry_ok:
  "spliceEntry pre st e q c = (Inr r, st', c') \<Longrightarrow>
     SpliceArtifact q (ae_body e) (ae_kind e) = Inr r \<and> st' = st \<and> c' = c"
  by (auto simp: spliceEntry_def split: sum.split_asm)

lemma spliceEntry_cache: "spliceEntry pre st e q c = (r, st', c') \<Longrightarrow> c' = c"
  by (auto simp: spliceEntry_def split: sum.split_asm)

lemma find_Some_mem: "List.find P xs = Some x \<Longrightarrow> x \<in> set xs \<and> P x"
  by (auto simp: find_Some_iff)

text \<open>
  C4 The Trino injector fails closed. It answers a query only with the splice of an artifact:
  one cached under the request's own tenant, table and engine, or, on a miss, one the store
  holds active for this engine while no row of the table is suspended; that artifact is then
  cached. In every other case the result is an error.
\<close>

theorem trino_fail_closed:
  assumes "trino_InjectPolicy add pins load tenant q0 table c = (Inr r, st, c')"
  shows "\<exists>tid q e. tenant = Some tid \<and> pinQuery PinDialectTrino ''dialect/trino: '' pins q0 = Inr q \<and>
    SpliceArtifact q (ae_body e) (ae_kind e) = Inr r \<and>
    (st = CacheStatusHit \<and> c (cacheKey tid table ''trino'') = Some e \<and> c' = c \<or>
     st = CacheStatusMiss \<and> c (cacheKey tid table ''trino'') = None \<and>
     c' = add (cacheKey tid table ''trino'') e c \<and>
     (\<exists>compiled cp. load = Inr compiled \<and> cp \<in> set compiled \<and> spliceable ''trino'' cp \<and> e = artifactOf cp \<and>
        (\<forall>cp' \<in> set compiled. \<not> suspended ''trino'' cp')))"
proof -
  obtain tid where t: "tenant = Some tid"
    using assms by (auto simp: trino_InjectPolicy_def split: option.split_asm)
  obtain q where q: "pinQuery PinDialectTrino ''dialect/trino: '' pins q0 = Inr q"
    using assms t by (auto simp: trino_InjectPolicy_def split: sum.split_asm)
  let ?k = "cacheKey tid table ''trino''"
  show ?thesis
  proof (cases "c ?k")
    case (Some e)
    with assms t q have "spliceEntry ''dialect/trino: '' CacheStatusHit e q c = (Inr r, st, c')"
      by (simp add: trino_InjectPolicy_def)
    from spliceEntry_ok [OF this] Some t q show ?thesis by auto
  next
    case None
    with assms t q obtain compiled cp where l: "load = Inr compiled"
      "\<not> list_ex (suspended ''trino'') compiled" "List.find (spliceable ''trino'') compiled = Some cp"
      "spliceEntry ''dialect/trino: '' CacheStatusMiss (artifactOf cp) q (add ?k (artifactOf cp) c) = (Inr r, st, c')"
      by (auto simp: trino_InjectPolicy_def Let_def split: sum.split_asm if_split_asm option.split_asm)
    from spliceEntry_ok [OF l(4)] find_Some_mem [OF l(3)] l(1,2) None t q show ?thesis
      by (auto simp: list_ex_iff)
  qed
qed

abbreviation sample_active :: compiled_policy where
  "sample_active \<equiv> \<lparr>cp_policy_id = ''p1'', cp_engine_kind = ''trino'', cp_engine_version = ''v1'',
     cp_table_name = ''orders'', cp_table_namespace = ''sales'', cp_status = StatusActive,
     cp_source_checksum = ''c0'', cp_artifact_body = ''r = 1'', cp_artifact_kind = []\<rparr>"

abbreviation sample_table :: proxy_table where
  "sample_table \<equiv> \<lparr>pt_namespace = ''sales'', pt_name = ''orders''\<rparr>"

definition map_add_entry :: "cache_key \<Rightarrow> artifact_entry \<Rightarrow> artifact_cache \<Rightarrow> artifact_cache" where
  "map_add_entry k e m = m(k \<mapsto> e)"

lemma sample_splice: "SpliceArtifact ''SELECT a FROM t'' ''r = 1'' [] = Inr ''SELECT a FROM t WHERE (r = 1)''"
  by code_simp

theorem trino_fail_closed_witness:
  "\<exists>st c'. trino_InjectPolicy map_add_entry None (Inr [sample_active]) (Some ''t1'')
     ''SELECT a FROM t'' sample_table Map.empty = (Inr ''SELECT a FROM t WHERE (r = 1)'', st, c') \<and>
     c' \<noteq> Map.empty"
proof -
  have "\<exists>st c'. trino_InjectPolicy map_add_entry None (Inr [sample_active]) (Some ''t1'')
     ''SELECT a FROM t'' sample_table Map.empty = (Inr ''SELECT a FROM t WHERE (r = 1)'', st, c')"
    by (simp add: trino_InjectPolicy_def pinQuery_def spliceable_def suspended_def status_defs
        KindPredicate_def spliceEntry_def artifactOf_def sample_splice)
  then obtain st c' where e: "trino_InjectPolicy map_add_entry None (Inr [sample_active]) (Some ''t1'')
     ''SELECT a FROM t'' sample_table Map.empty = (Inr ''SELECT a FROM t WHERE (r = 1)'', st, c')" by blast
  from trino_fail_closed [OF e] have "c' \<noteq> Map.empty" by (auto simp: map_add_entry_def)
  with e show ?thesis by blast
qed

text \<open>
  The same for the Spark injector.
\<close>

theorem spark_fail_closed:
  assumes "spark_InjectPolicy add load tenant q table c = (Inr r, st, c')"
  shows "\<exists>tid e. tenant = Some tid \<and> SpliceArtifact q (ae_body e) (ae_kind e) = Inr r \<and>
    (st = CacheStatusHit \<and> c (cacheKey tid table ''spark'') = Some e \<and> c' = c \<or>
     st = CacheStatusMiss \<and> c (cacheKey tid table ''spark'') = None \<and>
     c' = add (cacheKey tid table ''spark'') e c \<and>
     (\<exists>compiled cp. load = Inr compiled \<and> cp \<in> set compiled \<and> spliceable ''spark'' cp \<and> e = artifactOf cp \<and>
        (\<forall>cp' \<in> set compiled. \<not> suspended ''spark'' cp')))"
proof -
  obtain tid where t: "tenant = Some tid"
    using assms by (auto simp: spark_InjectPolicy_def split: option.split_asm)
  let ?k = "cacheKey tid table ''spark''"
  show ?thesis
  proof (cases "c ?k")
    case (Some e)
    with assms t have "spliceEntry ''dialect/spark: '' CacheStatusHit e q c = (Inr r, st, c')"
      by (simp add: spark_InjectPolicy_def)
    from spliceEntry_ok [OF this] Some t show ?thesis by auto
  next
    case None
    with assms t obtain compiled cp where l: "load = Inr compiled"
      "\<not> list_ex (suspended ''spark'') compiled" "List.find (spliceable ''spark'') compiled = Some cp"
      "spliceEntry ''dialect/spark: '' CacheStatusMiss (artifactOf cp) q (add ?k (artifactOf cp) c) = (Inr r, st, c')"
      by (auto simp: spark_InjectPolicy_def Let_def split: sum.split_asm if_split_asm option.split_asm)
    from spliceEntry_ok [OF l(4)] find_Some_mem [OF l(3)] l(1,2) None t show ?thesis
      by (auto simp: list_ex_iff)
  qed
qed

theorem spark_fail_closed_witness:
  "\<exists>st c'. spark_InjectPolicy map_add_entry (Inr [sample_active\<lparr>cp_engine_kind := ''spark''\<rparr>]) (Some ''t1'')
     ''SELECT a FROM t'' sample_table Map.empty = (Inr ''SELECT a FROM t WHERE (r = 1)'', st, c') \<and>
     c' \<noteq> Map.empty"
proof -
  have "\<exists>st c'. spark_InjectPolicy map_add_entry (Inr [sample_active\<lparr>cp_engine_kind := ''spark''\<rparr>]) (Some ''t1'')
     ''SELECT a FROM t'' sample_table Map.empty = (Inr ''SELECT a FROM t WHERE (r = 1)'', st, c')"
    by (simp add: spark_InjectPolicy_def spliceable_def suspended_def status_defs
        KindPredicate_def spliceEntry_def artifactOf_def sample_splice)
  then obtain st c' where e: "spark_InjectPolicy map_add_entry (Inr [sample_active\<lparr>cp_engine_kind := ''spark''\<rparr>]) (Some ''t1'')
     ''SELECT a FROM t'' sample_table Map.empty = (Inr ''SELECT a FROM t WHERE (r = 1)'', st, c')" by blast
  from spark_fail_closed [OF e] have "c' \<noteq> Map.empty" by (auto simp: map_add_entry_def)
  with e show ?thesis by blast
qed

text \<open>
  Suspension in the Dremio injector depends on the order of the rows: with the active row
  first, a suspended row of the same engine does not stop the query, while the Trino and Spark
  injectors refuse it in either order.
\<close>

theorem dremio_suspension_order:
  fixes add :: "cache_key \<Rightarrow> artifact_entry \<Rightarrow> artifact_cache \<Rightarrow> artifact_cache"
  defines "act \<equiv> sample_active\<lparr>cp_engine_kind := ''dremio''\<rparr>"
  defines "sus \<equiv> sample_active\<lparr>cp_engine_kind := ''dremio'', cp_status := StatusDivergentSuspended\<rparr>"
  shows "fst (dremio_InjectPolicy add None (Inr [act, sus]) (Some ''t1'') ''SELECT a FROM t'' sample_table Map.empty) =
      Inr ''SELECT a FROM t WHERE (r = 1)'' \<and>
    fst (dremio_InjectPolicy add None (Inr [sus, act]) (Some ''t1'') ''SELECT a FROM t'' sample_table Map.empty) =
      Inl (unavailable ''dialect/dremio: policy_engine_divergent'')"
  by (simp add: act_def sus_def dremio_InjectPolicy_def pinQuery_def spliceable_def suspended_def status_defs
      KindPredicate_def spliceEntry_def artifactOf_def sample_splice)

section \<open>Tenant isolation\<close>

text \<open>The common shape of a request: only the entry under the request's key is written.\<close>

definition cache_effect ::
  "(cache_key \<Rightarrow> artifact_entry \<Rightarrow> artifact_cache \<Rightarrow> artifact_cache) \<Rightarrow> cache_key \<Rightarrow> string \<Rightarrow>
   (graph_error + compiled_policy list) \<Rightarrow> artifact_cache \<Rightarrow> artifact_cache \<Rightarrow> bool" where
  "cache_effect add key eng load c c' \<longleftrightarrow>
     c' = c \<or> (\<exists>compiled cp. load = Inr compiled \<and> cp \<in> set compiled \<and> spliceable eng cp \<and>
       c' = add key (artifactOf cp) c)"

lemma trino_effect:
  "trino_InjectPolicy add pins load (Some tid) q table c = (r, st, c') \<Longrightarrow>
     cache_effect add (cacheKey tid table ''trino'') ''trino'' load c c'"
  by (auto simp: cache_effect_def trino_InjectPolicy_def Let_def
      split: sum.split_asm option.split_asm if_split_asm dest!: spliceEntry_cache find_Some_mem)

lemma spark_effect:
  "spark_InjectPolicy add load (Some tid) q table c = (r, st, c') \<Longrightarrow>
     cache_effect add (cacheKey tid table ''spark'') ''spark'' load c c'"
  by (auto simp: cache_effect_def spark_InjectPolicy_def Let_def
      split: sum.split_asm option.split_asm if_split_asm dest!: spliceEntry_cache find_Some_mem)

lemma dremio_effect:
  "dremio_InjectPolicy add pins load (Some tid) q table c = (r, st, c') \<Longrightarrow>
     cache_effect add (cacheKey tid table ''dremio'') ''dremio'' load c c'"
  by (auto simp: cache_effect_def dremio_InjectPolicy_def Let_def
      split: sum.split_asm option.split_asm if_split_asm dest!: spliceEntry_cache find_Some_mem)

lemma effect_frame:
  "cache_effect add key eng load c c' \<Longrightarrow> lru_add add \<Longrightarrow> k \<noteq> key \<Longrightarrow> c' k = None \<or> c' k = c k"
  unfolding cache_effect_def lru_add_def by metis

text \<open>
  Tenants do not see each other through the cache: a Trino request's answer depends on the
  cache only through the entry of its own tenant, table and engine, and it leaves every entry
  of another tenant as it was (or evicted).
\<close>

theorem trino_tenant_isolation:
  assumes "lru_add add" "c1 (cacheKey tid table ''trino'') = c2 (cacheKey tid table ''trino'')"
    "ck_tenant k \<noteq> tid"
  shows "fst (trino_InjectPolicy add pins load (Some tid) q table c1) =
      fst (trino_InjectPolicy add pins load (Some tid) q table c2) \<and>
    (snd (snd (trino_InjectPolicy add pins load (Some tid) q table c1)) k = None \<or>
     snd (snd (trino_InjectPolicy add pins load (Some tid) q table c1)) k = c1 k)"
proof
  show "fst (trino_InjectPolicy add pins load (Some tid) q table c1) =
      fst (trino_InjectPolicy add pins load (Some tid) q table c2)"
    using assms(2)
    by (auto simp: trino_InjectPolicy_def Let_def spliceEntry_def split: sum.split option.split)
  have "k \<noteq> cacheKey tid table ''trino''" using assms(3) by (auto simp: cacheKey_def)
  then show "snd (snd (trino_InjectPolicy add pins load (Some tid) q table c1)) k = None \<or>
     snd (snd (trino_InjectPolicy add pins load (Some tid) q table c1)) k = c1 k"
    using effect_frame [OF trino_effect assms(1)] by (metis prod.collapse)
qed

lemma map_add_entry_lru: "lru_add map_add_entry"
  by (simp add: lru_add_def map_add_entry_def)

theorem trino_tenant_isolation_witness:
  "lru_add map_add_entry \<and>
   snd (snd (trino_InjectPolicy map_add_entry None (Inr [sample_active]) (Some ''t1'')
     ''SELECT a FROM t'' sample_table Map.empty)) (cacheKey ''t2'' sample_table ''trino'') = None"
proof -
  have "ck_tenant (cacheKey ''t2'' sample_table ''trino'') \<noteq> ''t1''" by (simp add: cacheKey_def)
  then have "fst (trino_InjectPolicy map_add_entry None (Inr [sample_active]) (Some ''t1'')
     ''SELECT a FROM t'' sample_table Map.empty) = fst (trino_InjectPolicy map_add_entry None (Inr [sample_active]) (Some ''t1'')
     ''SELECT a FROM t'' sample_table Map.empty) \<and>
    (snd (snd (trino_InjectPolicy map_add_entry None (Inr [sample_active]) (Some ''t1'')
     ''SELECT a FROM t'' sample_table Map.empty)) (cacheKey ''t2'' sample_table ''trino'') = None \<or>
     snd (snd (trino_InjectPolicy map_add_entry None (Inr [sample_active]) (Some ''t1'')
     ''SELECT a FROM t'' sample_table Map.empty)) (cacheKey ''t2'' sample_table ''trino'') =
       Map.empty (cacheKey ''t2'' sample_table ''trino''))"
    by (rule trino_tenant_isolation [OF map_add_entry_lru refl])
  then show ?thesis using map_add_entry_lru by simp
qed

section \<open>The cache over a history of requests\<close>

text \<open>
  A history of the shared cache: requests of the three injectors and invalidations, in any
  order. Each request event records its key's engine and tenant and the loader's answer.
\<close>

datatype proxy_event =
    Requested string proxy_table string "graph_error + compiled_policy list"
  | Invalidated string string

inductive proxy_history ::
  "(cache_key \<Rightarrow> artifact_entry \<Rightarrow> artifact_cache \<Rightarrow> artifact_cache) \<Rightarrow> proxy_event list \<Rightarrow> artifact_cache \<Rightarrow> bool"
  for add where
  start: "proxy_history add [] Map.empty"
| trino: "proxy_history add es c \<Longrightarrow>
    trino_InjectPolicy add pins load (Some tid) q table c = (r, st, c') \<Longrightarrow>
    proxy_history add (es @ [Requested tid table ''trino'' load]) c'"
| spark: "proxy_history add es c \<Longrightarrow>
    spark_InjectPolicy add load (Some tid) q table c = (r, st, c') \<Longrightarrow>
    proxy_history add (es @ [Requested tid table ''spark'' load]) c'"
| dremio: "proxy_history add es c \<Longrightarrow>
    dremio_InjectPolicy add pins load (Some tid) q table c = (r, st, c') \<Longrightarrow>
    proxy_history add (es @ [Requested tid table ''dremio'' load]) c'"
| invalidate: "proxy_history add es c \<Longrightarrow>
    proxy_history add (es @ [Invalidated tid tb]) (Invalidate tid tb keys c)"

text \<open>An entry is explained by a request of its key whose load had it active.\<close>

definition explained :: "proxy_event list \<Rightarrow> cache_key \<Rightarrow> artifact_entry \<Rightarrow> bool" where
  "explained es k e \<longleftrightarrow>
     (\<exists>tid table eng compiled cp. Requested tid table eng (Inr compiled) \<in> set es \<and>
        k = cacheKey tid table eng \<and> cp \<in> set compiled \<and> spliceable eng cp \<and> e = artifactOf cp)"

lemma explained_mono: "cache_sound (explained es) c \<Longrightarrow> cache_sound (explained (es @ fs)) c"
  by (fastforce simp: cache_sound_def explained_def)

lemma explained_new:
  "cp \<in> set compiled \<Longrightarrow> spliceable eng cp \<Longrightarrow>
     explained (es @ [Requested tid table eng (Inr compiled)]) (cacheKey tid table eng) (artifactOf cp)"
  unfolding explained_def by (intro exI conjI) auto

lemma effect_sound:
  assumes "cache_effect add (cacheKey tid table eng) eng load c c'" "lru_add add"
    "cache_sound (explained es) c"
  shows "cache_sound (explained (es @ [Requested tid table eng load])) c'"
proof -
  have old: "cache_sound (explained (es @ [Requested tid table eng load])) c"
    by (rule explained_mono [OF assms(3)])
  from assms(1) consider "c' = c" | compiled cp where "load = Inr compiled" "cp \<in> set compiled"
      "spliceable eng cp" "c' = add (cacheKey tid table eng) (artifactOf cp) c"
    unfolding cache_effect_def by blast
  then show ?thesis
  proof cases
    case 2
    then show ?thesis using explained_new lru_add_sound [OF assms(2) old] by blast
  qed (use old in simp)
qed

lemma invalidate_value: "Invalidate tid tb keys c k = Some e \<Longrightarrow> c k = Some e"
proof -
  have "fold (invalidateKey tid tb) keys c k = Some e \<Longrightarrow> c k = Some e"
  proof (induction keys arbitrary: c)
    case (Cons a keys)
    from Cons.IH [of "invalidateKey tid tb a c"] Cons.prems have "invalidateKey tid tb a c k = Some e" by simp
    then show ?case by (auto simp: invalidateKey_def split: if_split_asm)
  qed simp
  then show "Invalidate tid tb keys c k = Some e \<Longrightarrow> c k = Some e" by (simp add: Invalidate_def)
qed

text \<open>
  C5 Over any history of requests and invalidations, whatever the cache evicts: every cached
  artifact was loaded by an earlier request of the same tenant, table and engine, and was active
  and spliceable for that engine in that load.
\<close>

theorem cache_history_sound:
  assumes "proxy_history add es c" "lru_add add"
  shows "cache_sound (explained es) c"
  using assms
proof (induction rule: proxy_history.induct)
  case start
  then show ?case by (simp add: cache_sound_def)
next
  case (invalidate es c tid tb keys)
  then show ?case
    using explained_mono invalidate_value unfolding cache_sound_def by metis
qed (blast intro: effect_sound trino_effect spark_effect dremio_effect)+

theorem cache_history_sound_witness:
  "\<exists>c. proxy_history map_add_entry [Requested ''t1'' sample_table ''trino'' (Inr [sample_active])] c \<and>
     c (cacheKey ''t1'' sample_table ''trino'') = Some (artifactOf sample_active) \<and>
     cache_sound (explained [Requested ''t1'' sample_table ''trino'' (Inr [sample_active])]) c"
proof -
  have "trino_InjectPolicy map_add_entry None (Inr [sample_active]) (Some ''t1'') ''SELECT a FROM t'' sample_table Map.empty =
      (Inr ''SELECT a FROM t WHERE (r = 1)'', CacheStatusMiss,
       Map.empty(cacheKey ''t1'' sample_table ''trino'' \<mapsto> artifactOf sample_active))"
    by (simp add: trino_InjectPolicy_def pinQuery_def spliceable_def suspended_def status_defs
        KindPredicate_def spliceEntry_def artifactOf_def sample_splice map_add_entry_def)
  from proxy_history.trino [OF proxy_history.start this]
  have h: "proxy_history map_add_entry [Requested ''t1'' sample_table ''trino'' (Inr [sample_active])]
      (Map.empty(cacheKey ''t1'' sample_table ''trino'' \<mapsto> artifactOf sample_active))" by simp
  from cache_history_sound [OF h map_add_entry_lru] h show ?thesis by auto
qed

text \<open>
  Invalidating a tenant's table with the cache's current keys removes exactly the entries of
  that tenant and table, for every namespace and engine.
\<close>

theorem invalidate_exact:
  assumes "dom c \<subseteq> set keys"
  shows "Invalidate tid tb keys c k = (if ck_tenant k = tid \<and> ck_table k = tb then None else c k)"
proof -
  have "fold (invalidateKey tid tb) ks c k =
      (if ck_tenant k = tid \<and> ck_table k = tb \<and> k \<in> set ks then None else c k)" for ks
    by (induction ks arbitrary: c) (auto simp: invalidateKey_def)
  then show ?thesis using assms by (auto simp: Invalidate_def)
qed

theorem invalidate_exact_witness:
  "Invalidate ''t1'' ''orders'' [cacheKey ''t1'' sample_table ''trino'']
     (Map.empty(cacheKey ''t1'' sample_table ''trino'' \<mapsto> artifactOf sample_active))
     (cacheKey ''t1'' sample_table ''trino'') = None"
  using invalidate_exact [of "Map.empty(cacheKey ''t1'' sample_table ''trino'' \<mapsto> artifactOf sample_active)"
      "[cacheKey ''t1'' sample_table ''trino'']" "''t1''" "''orders''" "cacheKey ''t1'' sample_table ''trino''"]
  by (simp add: cacheKey_def)

section \<open>Responses\<close>

lemma errorResponse_shape: "rs_rewritten (errorResponse is) = None \<and> rs_failure (errorResponse is) \<noteq> None \<and>
    rs_lookup (errorResponse is) = None"
  by (simp add: errorResponse_def failureResponse_def)

lemma errorResponse_status:
  "rs_status (errorResponse is) \<in> {500, 501, 503, 422} \<and>
   (rs_status (errorResponse is) = 500 \<longleftrightarrow> (\<forall>s. \<not> is s)) \<and>
   (rs_status (errorResponse is) = 503 \<longleftrightarrow> is ErrPolicyEngineUnavailable) \<and>
   (rs_status (errorResponse is) = 501 \<longrightarrow> is ErrEngineNotSupported \<or> is ErrAdapterStub) \<and>
   (rs_status (errorResponse is) = 422 \<longrightarrow> is ErrUnsupportedQueryShape \<or> is ErrSpliceMismatch \<or> is ErrInjectionFailed)"
proof -
  have "(\<forall>s. \<not> is s) \<longleftrightarrow> \<not> is ErrPolicyEngineUnavailable \<and> \<not> is ErrEngineNotSupported \<and> \<not> is ErrAdapterStub \<and>
      \<not> is ErrUnsupportedQueryShape \<and> \<not> is ErrSpliceMismatch \<and> \<not> is ErrInjectionFailed"
    by (metis sentinel.exhaust)
  then show ?thesis by (simp add: errorResponse_def failureResponse_def)
qed

text \<open>The paths through the handler: it stops before the injector, or the injector decides.\<close>

lemma handleInject_cases:
  assumes "handleInject errIs decode injectors tenant eng pre body c = (resp, c')"
  obtains (early) "c' = c" "rs_rewritten resp = None" "rs_lookup resp = None" "rs_status resp \<in> {400, 413, 500, 501}"
      "rs_status resp = 500 \<longleftrightarrow> tenant = None"
      "rs_status resp = 501 \<longrightarrow> injectors eng = None \<and> rs_failure resp = Some ''engine_not_supported''"
    | (injector) bs req inject r cs where "tenant \<noteq> None" "isPathIdent eng" "isPathIdent pre" "body = BodyBytes bs"
        "decode bs = Some req" "sq_query req \<noteq> []" "sq_table req \<noteq> []" "injectors eng = Some inject"
        "inject (sq_query req) \<lparr>pt_namespace = sq_namespace req, pt_name = sq_table req\<rparr> c = (r, cs, c')"
        "resp = (case r of Inl e \<Rightarrow> errorResponse (errIs e)
           | Inr q \<Rightarrow> \<lparr>rs_status = 200, rs_rewritten = Some q, rs_failure = None, rs_lookup = Some (normalizeCacheStatus cs)\<rparr>)"
  using assms unfolding handleInject_def
  by (auto simp: plainResponse_def failureResponse_def
      split: if_split_asm body_read.split_asm option.split_asm prod.split_asm sum.split_asm)

text \<open>
  C6 The handler fails closed and its statuses mean what the package documents. It answers 200 exactly
  when it returns a rewritten query, and then only for a request with a tenant, well-formed path
  segments, a decoded body with a query and a table, and a registered injector that produced that
  query. Any injector may be registered and its error may wrap any sentinels: 503 is answered only
  for an unavailable policy engine, 422 only for a query or artifact that cannot be spliced, 501
  only for an engine that is not registered or not supported, and 500 exactly when the tenant is
  missing or the injector's error wraps none of the sentinels.
\<close>

theorem handler_fail_closed:
  assumes "handleInject errIs decode injectors tenant eng pre body c = (resp, c')"
  shows "(rs_status resp = 200 \<longleftrightarrow> rs_rewritten resp \<noteq> None) \<and>
    (rs_rewritten resp = Some q \<longrightarrow>
      (\<exists>bs req inject cs. tenant \<noteq> None \<and> isPathIdent eng \<and> isPathIdent pre \<and> body = BodyBytes bs \<and>
        decode bs = Some req \<and> sq_query req \<noteq> [] \<and> sq_table req \<noteq> [] \<and> injectors eng = Some inject \<and>
        inject (sq_query req) \<lparr>pt_namespace = sq_namespace req, pt_name = sq_table req\<rparr> c = (Inr q, cs, c') \<and>
        rs_lookup resp = Some (normalizeCacheStatus cs))) \<and>
    rs_status resp \<in> {200, 400, 413, 422, 500, 501, 503} \<and>
    (rs_status resp \<in> {422, 503} \<or> rs_status resp = 501 \<and> injectors eng \<noteq> None \<or> rs_status resp = 500 \<and> tenant \<noteq> None \<longrightarrow>
      (\<exists>bs req inject e cs. tenant \<noteq> None \<and> body = BodyBytes bs \<and> decode bs = Some req \<and> injectors eng = Some inject \<and>
        inject (sq_query req) \<lparr>pt_namespace = sq_namespace req, pt_name = sq_table req\<rparr> c = (Inl e, cs, c') \<and>
        rs_failure resp \<noteq> None \<and>
        (rs_status resp = 503 \<longleftrightarrow> errIs e ErrPolicyEngineUnavailable) \<and>
        (rs_status resp = 501 \<longrightarrow> errIs e ErrEngineNotSupported \<or> errIs e ErrAdapterStub) \<and>
        (rs_status resp = 422 \<longrightarrow> errIs e ErrUnsupportedQueryShape \<or> errIs e ErrSpliceMismatch \<or> errIs e ErrInjectionFailed) \<and>
        (rs_status resp = 500 \<longleftrightarrow> (\<forall>s. \<not> errIs e s))))"
  using assms
proof (cases rule: handleInject_cases)
  case early
  then show ?thesis by auto
next
  case (injector bs req inject r cs)
  show ?thesis
  proof (cases r)
    case (Inl e)
    from injector Inl errorResponse_shape [of "errIs e"] errorResponse_status [of "errIs e"] show ?thesis by auto
  next
    case (Inr q')
    with injector show ?thesis by auto
  qed
qed

text \<open>The package's own injectors wrap a sentinel in every error, so with them 500 means a missing tenant.\<close>

lemma own_injectors_expected:
  assumes "handleInject errorIs decode injectors tenant eng pre body c = (resp, c')"
  shows "rs_status resp = 500 \<longleftrightarrow> tenant = None"
  using assms
proof (cases rule: handleInject_cases)
  case (injector bs req inject r cs)
  then show ?thesis using errorResponse_status [of "errorIs _"] by (cases r) (auto simp: errorIs_def)
qed

abbreviation sample_request :: "string \<Rightarrow> sql_request option" where
  "sample_request \<equiv> \<lambda>b. Some \<lparr>sq_query = ''SELECT a FROM t'', sq_namespace = ''sales'', sq_table = ''orders''\<rparr>"

text \<open>One request that no active policy covers, one that meets an injector with an error of its own.\<close>

theorem handler_fail_closed_witness:
  "(\<exists>resp c'. handleInject errorIs sample_request
      [''trino'' \<mapsto> trino_InjectPolicy map_add_entry None (Inr []) (Some ''t1'')] (Some ''t1'') ''trino'' ''cat''
      (BodyBytes ''{}'') Map.empty = (resp, c') \<and> rs_status resp = 503 \<and> rs_rewritten resp = None) \<and>
   (\<exists>resp c'. handleInject (\<lambda>_ _. False) sample_request
      [''trino'' \<mapsto> (\<lambda>q t c. (Inl ''context canceled'', [], c))] (Some ''t1'') ''trino'' ''cat''
      (BodyBytes ''{}'') Map.empty = (resp, c') \<and> rs_status resp = 500 \<and> rs_failure resp \<noteq> None)"
proof
  obtain resp c' where e: "handleInject errorIs sample_request
      [''trino'' \<mapsto> trino_InjectPolicy map_add_entry None (Inr []) (Some ''t1'')] (Some ''t1'') ''trino'' ''cat''
      (BodyBytes ''{}'') Map.empty = (resp, c')" by (metis prod.collapse)
  moreover from e have "rs_status resp = 503"
    by (auto simp: handleInject_def isPathIdent_def byte_simps trino_InjectPolicy_def pinQuery_def
        unavailable_def failureResponse_def errorResponse_def errorIs_def)
  moreover from handler_fail_closed [OF e] this have "rs_rewritten resp = None" by simp
  ultimately show "\<exists>resp c'. handleInject errorIs sample_request
      [''trino'' \<mapsto> trino_InjectPolicy map_add_entry None (Inr []) (Some ''t1'')] (Some ''t1'') ''trino'' ''cat''
      (BodyBytes ''{}'') Map.empty = (resp, c') \<and> rs_status resp = 503 \<and> rs_rewritten resp = None" by blast
  let ?inj = "[''trino'' \<mapsto> (\<lambda>q t c. (Inl ''context canceled'', [], c))] :: string \<rightharpoonup> string injector"
  obtain resp2 c2 where f: "handleInject (\<lambda>_ _. False) sample_request ?inj (Some ''t1'') ''trino'' ''cat''
      (BodyBytes ''{}'') Map.empty = (resp2, c2)" by (metis prod.collapse)
  moreover from f have "rs_status resp2 = 500"
    by (auto simp: handleInject_def isPathIdent_def byte_simps failureResponse_def errorResponse_def)
  moreover from handler_fail_closed [OF f] this have "rs_failure resp2 \<noteq> None" by auto
  ultimately show "\<exists>resp c'. handleInject (\<lambda>_ _. False) sample_request ?inj (Some ''t1'') ''trino'' ''cat''
      (BodyBytes ''{}'') Map.empty = (resp, c') \<and> rs_status resp = 500 \<and> rs_failure resp \<noteq> None" by blast
qed

section \<open>Artifacts loaded through the store\<close>

context compiled_loader
begin

lemma fresh_answer_is_row_filter:
  assumes "trino_InjectPolicy add None (load ctx ref) (Some tid) q table c = (Inr r, CacheStatusMiss, c')"
  shows "\<exists>cps cp. load ctx ref = Inr cps \<and> cp \<in> set cps \<and> spliceable ''trino'' cp \<and>
    spliceRowFilter q (cp_artifact_body cp) = Inr r"
proof (cases "c (cacheKey tid table ''trino'')")
  case (Some e)
  with assms have "spliceEntry ''dialect/trino: '' CacheStatusHit e q c = (Inr r, CacheStatusMiss, c')"
    by (simp add: trino_InjectPolicy_def pinQuery_def)
  from spliceEntry_ok [OF this] show ?thesis by (simp add: CacheStatusHit_def CacheStatusMiss_def)
next
  case None
  with assms obtain cps cp where l: "load ctx ref = Inr cps" "List.find (spliceable ''trino'') cps = Some cp"
    "spliceEntry ''dialect/trino: '' CacheStatusMiss (artifactOf cp) q
       (add (cacheKey tid table ''trino'') (artifactOf cp) c) = (Inr r, CacheStatusMiss, c')"
    by (auto simp: trino_InjectPolicy_def pinQuery_def Let_def
        split: sum.split_asm if_split_asm option.split_asm)
  have "cp \<in> set cps" "spliceable ''trino'' cp" using find_Some_mem [OF l(2)] by auto
  moreover from load_kind [OF l(1)] this have "cp_artifact_kind cp = []" by blast
  ultimately show ?thesis
    using spliceEntry_ok [OF l(3)] l(1) by (auto simp: SpliceArtifact_def artifactOf_def)
qed

end

text \<open>
  Artifacts served from the store are always enforced as row filters: a fresh Trino answer is
  the row-filter splice of the loaded body, whatever kind of policy the body was compiled from,
  because the store does not carry the kind.
\<close>

theorem fresh_trino_answer_row_filter:
  assumes "trino_InjectPolicy add None (store_load (pg, tenant, db) ref) (Some tid) q table c =
    (Inr r, CacheStatusMiss, c')"
  shows "\<exists>cps cp. fst (LoadCompiledForTable pg tenant ref db) = Inr cps \<and> cp \<in> set cps \<and>
    spliceable ''trino'' cp \<and> spliceRowFilter q (cp_artifact_body cp) = Inr r"
  using store_loader.fresh_answer_is_row_filter [OF assms] by (simp add: store_load_def)

abbreviation mask_row :: "string list" where
  "mask_row \<equiv> [''p1'', ''trino'', ''v1'', ''active'', ''c0'', ''eA=='']"

lemma mask_row_loaded:
  "fst (LoadCompiledForTable (rows_pg [mask_row]) (Some ''t1'') sample_ref ()) =
     Inr [\<lparr>cp_policy_id = ''p1'', cp_engine_kind = ''trino'', cp_engine_version = ''v1'',
       cp_table_name = ''orders'', cp_table_namespace = ''sales'', cp_status = StatusActive,
       cp_source_checksum = ''c0'', cp_artifact_body = ''x'', cp_artifact_kind = []\<rparr>]"
  by code_simp

theorem fresh_trino_answer_row_filter_witness:
  "\<exists>c'. trino_InjectPolicy map_add_entry None (store_load (rows_pg [mask_row], Some ''t1'', ()) sample_ref)
      (Some ''t1'') ''SELECT a FROM t'' sample_table Map.empty =
      (Inr ''SELECT a FROM t WHERE (x)'', CacheStatusMiss, c') \<and>
    spliceRowFilter ''SELECT a FROM t'' ''x'' = Inr ''SELECT a FROM t WHERE (x)''"
proof -
  have x: "SpliceArtifact ''SELECT a FROM t'' ''x'' [] = Inr ''SELECT a FROM t WHERE (x)''" by code_simp
  have "\<exists>c'. trino_InjectPolicy map_add_entry None (store_load (rows_pg [mask_row], Some ''t1'', ()) sample_ref)
      (Some ''t1'') ''SELECT a FROM t'' sample_table Map.empty = (Inr ''SELECT a FROM t WHERE (x)'', CacheStatusMiss, c')"
    by (simp add: store_load_def mask_row_loaded trino_InjectPolicy_def pinQuery_def spliceable_def suspended_def
        status_defs KindPredicate_def spliceEntry_def artifactOf_def x)
  then obtain c' where e: "trino_InjectPolicy map_add_entry None (store_load (rows_pg [mask_row], Some ''t1'', ()) sample_ref)
      (Some ''t1'') ''SELECT a FROM t'' sample_table Map.empty = (Inr ''SELECT a FROM t WHERE (x)'', CacheStatusMiss, c')"
    by blast
  from fresh_trino_answer_row_filter [OF e] have "spliceRowFilter ''SELECT a FROM t'' ''x'' = Inr ''SELECT a FROM t WHERE (x)''"
    by (simp add: mask_row_loaded)
  with e show ?thesis by blast
qed

end
