(* ===== verification/Sha256.thy ===== *)
theory Sha256
  imports Neksur_Prelude "HOL-Library.Word"
begin

unbundle bit_operations_syntax

text \<open>
  \<open>crypto/sha256.Sum256\<close> and \<open>encoding/hex.EncodeToString\<close>, the two functions of the standard
  library that the compile caches, the source checksums and the audit log are keyed on.
  The digest is computed on 32-bit words, as FIPS 180-4 defines it.
\<close>

section \<open>The compression function\<close>

definition bigSigma0 :: "32 word \<Rightarrow> 32 word" where
  "bigSigma0 x = word_rotr 2 x XOR word_rotr 13 x XOR word_rotr 22 x"

definition bigSigma1 :: "32 word \<Rightarrow> 32 word" where
  "bigSigma1 x = word_rotr 6 x XOR word_rotr 11 x XOR word_rotr 25 x"

definition smallSigma0 :: "32 word \<Rightarrow> 32 word" where
  "smallSigma0 x = word_rotr 7 x XOR word_rotr 18 x XOR drop_bit 3 x"

definition smallSigma1 :: "32 word \<Rightarrow> 32 word" where
  "smallSigma1 x = word_rotr 17 x XOR word_rotr 19 x XOR drop_bit 10 x"

definition roundConstants :: "32 word list" where
  "roundConstants = [
     1116352408, 1899447441, 3049323471, 3921009573, 961987163, 1508970993, 2453635748, 2870763221,
     3624381080, 310598401, 607225278, 1426881987, 1925078388, 2162078206, 2614888103, 3248222580,
     3835390401, 4022224774, 264347078, 604807628, 770255983, 1249150122, 1555081692, 1996064986,
     2554220882, 2821834349, 2952996808, 3210313671, 3336571891, 3584528711, 113926993, 338241895,
     666307205, 773529912, 1294757372, 1396182291, 1695183700, 1986661051, 2177026350, 2456956037,
     2730485921, 2820302411, 3259730800, 3345764771, 3516065817, 3600352804, 4094571909, 275423344,
     430227734, 506948616, 659060556, 883997877, 958139571, 1322822218, 1537002063, 1747873779,
     1955562222, 2024104815, 2227730452, 2361852424, 2428436474, 2756734187, 3204031479, 3329325298]"

text \<open>
  The message schedule, most recent word first: \<open>extend n w\<close> adds \<open>n\<close> words, each from the
  words 2, 7, 15 and 16 places back.
\<close>

fun extendSchedule :: "nat \<Rightarrow> 32 word list \<Rightarrow> 32 word list" where
  "extendSchedule 0 w = w"
| "extendSchedule (Suc n) w =
     extendSchedule n ((smallSigma1 (w ! 1) + w ! 6 + smallSigma0 (w ! 14) + w ! 15) # w)"

fun shaRound :: "32 word \<times> 32 word \<Rightarrow> 32 word list \<Rightarrow> 32 word list" where
  "shaRound (k, w) [a, b, c, d, e, f, g, h] =
     (let t1 = h + bigSigma1 e + ((e AND f) XOR (NOT e AND g)) + k + w;
          t2 = bigSigma0 a + ((a AND b) XOR (a AND c) XOR (b AND c))
      in [t1 + t2, a, b, c, d + t1, e, f, g])"
| "shaRound kw st = st"

definition shaBlock :: "32 word list \<Rightarrow> 32 word list \<Rightarrow> 32 word list" where
  "shaBlock block st =
     map2 (+) st (fold shaRound (zip roundConstants (rev (extendSchedule 48 (rev block)))) st)"

section \<open>Padding and digest\<close>

definition be32 :: "nat list \<Rightarrow> 32 word" where
  "be32 bs = word_of_nat (foldl (\<lambda>acc b. acc * 256 + b) 0 bs)"

definition beBytes :: "nat \<Rightarrow> nat \<Rightarrow> nat list" where
  "beBytes k n = map (\<lambda>i. n div 256 ^ i mod 256) (rev [0..<k])"

text \<open>The bit 1, zeros up to 56 bytes modulo 64, and the bit length on eight bytes.\<close>

definition shaPad :: "nat list \<Rightarrow> nat list" where
  "shaPad bs =
     bs @ [128] @ replicate ((119 - length bs mod 64) mod 64) 0 @ beBytes 8 (8 * length bs)"

fun chunks :: "nat \<Rightarrow> nat \<Rightarrow> 'a list \<Rightarrow> 'a list list" where
  "chunks 0 k xs = []"
| "chunks (Suc n) k xs = take k xs # chunks n k (drop k xs)"

definition initialState :: "32 word list" where
  "initialState = [0x6a09e667, 0xbb67ae85, 0x3c6ef372, 0xa54ff53a,
                   0x510e527f, 0x9b05688c, 0x1f83d9ab, 0x5be0cd19]"

definition Sum256 :: "string \<Rightarrow> nat list" where
  "Sum256 s =
     (let p = shaPad (map of_char s);
          st = fold (\<lambda>block. shaBlock (map be32 (chunks 16 4 block)))
                 (chunks (length p div 64) 64 p) initialState
      in concat (map (\<lambda>w. beBytes 4 (unat w)) st))"

section \<open>Hexadecimal\<close>

definition hexDigit :: "nat \<Rightarrow> char" where
  "hexDigit n = (if n < 10 then char_of (48 + n) else char_of (87 + n))"

definition hexEncode :: "nat list \<Rightarrow> string" where
  "hexEncode bs = concat (map (\<lambda>b. [hexDigit (b div 16), hexDigit (b mod 16)]) bs)"

definition sha256Hex :: "string \<Rightarrow> string" where
  "sha256Hex s = hexEncode (Sum256 s)"

section \<open>Lemmas\<close>

lemma length_beBytes [simp]: "length (beBytes k n) = k"
  by (simp add: beBytes_def)

lemma beBytes_bounded: "b \<in> set (beBytes k n) \<Longrightarrow> b < 256"
  by (auto simp: beBytes_def)

lemma shaRound_length: "length (shaRound kw st) = length st"
  by (induction kw st rule: shaRound.induct) (auto simp: Let_def)

lemma fold_shaRound_length: "length (fold shaRound kws st) = length st"
  by (induction kws arbitrary: st) (auto simp: shaRound_length)

lemma shaBlock_length: "length (shaBlock b st) = length st"
  by (simp add: shaBlock_def fold_shaRound_length)

lemma fold_shaBlock_length: "length (fold (\<lambda>b. shaBlock (f b)) bs st) = length st"
  by (induction bs arbitrary: st) (auto simp: shaBlock_length)

text \<open>The padded message is a whole number of 64-byte blocks.\<close>

lemma shaPad_blocks: "length (shaPad bs) mod 64 = 0"
proof -
  define q m where "q = length bs div 64" and "m = length bs mod 64"
  have len: "length bs = 64 * q + m" and m: "m < 64" by (simp_all add: q_def m_def)
  have eq: "length (shaPad bs) = 64 * q + m + 9 + (119 - m) mod 64"
    by (simp add: shaPad_def len m)
  show ?thesis
  proof (cases "m \<le> 55")
    case True
    then obtain k where k: "m + k = 55" by (metis le_Suc_ex)
    then have "119 - m = k + 64" "k < 64" by simp_all
    then have "(119 - m) mod 64 = k" by (simp only: mod_add_self2 mod_less)
    with k eq have "length (shaPad bs) = 64 * (q + 1)" by simp
    then show ?thesis by (simp only: mod_mult_self1_is_0)
  next
    case False
    then have "length (shaPad bs) = 64 * (q + 2)" using eq m by simp
    then show ?thesis by (simp only: mod_mult_self1_is_0)
  qed
qed

lemma Sum256_length [simp]: "length (Sum256 s) = 32"
  by (simp add: Sum256_def Let_def length_concat o_def fold_shaBlock_length sum_list_triv initialState_def)

lemma Sum256_bytes: "b \<in> set (Sum256 s) \<Longrightarrow> b < 256"
  by (auto simp: Sum256_def Let_def beBytes_bounded)

lemma hexDigit_table:
  "list_all (\<lambda>n. list_all (\<lambda>m. hexDigit n = hexDigit m \<longrightarrow> n = m) [0..<16]) [0..<16]"
  by code_simp

lemma hexDigit_inj: "n < 16 \<Longrightarrow> m < 16 \<Longrightarrow> hexDigit n = hexDigit m \<Longrightarrow> n = m"
  using hexDigit_table by (simp add: list_all_iff)

lemma hexDigit_class:
  assumes "n < 16"
  shows "is_digit (hexDigit n) \<or> hexDigit n \<in> set ''abcdef''"
proof (cases "n < 10")
  case True
  then show ?thesis by (simp add: hexDigit_def is_digit_def)
next
  case False
  with assms have "n \<in> {10, 11, 12, 13, 14, 15}" by auto
  then consider "n = 10" | "n = 11" | "n = 12" | "n = 13" | "n = 14" | "n = 15" by blast
  then show ?thesis by cases (simp_all add: hexDigit_def char_of_def bit_0)
qed

lemma hexEncode_inj:
  assumes "hexEncode xs = hexEncode ys" "\<forall>b \<in> set xs. b < 256" "\<forall>b \<in> set ys. b < 256"
  shows "xs = ys"
  using assms
proof (induction xs arbitrary: ys)
  case (Cons x xs)
  then obtain y ys' where ys: "ys = y # ys'" by (cases ys) (auto simp: hexEncode_def)
  with Cons.prems have d: "hexDigit (x div 16) = hexDigit (y div 16)" "hexDigit (x mod 16) = hexDigit (y mod 16)"
    and r: "hexEncode xs = hexEncode ys'" by (auto simp: hexEncode_def)
  have "x div 16 < 16" "y div 16 < 16" using Cons.prems ys by auto
  then have "x div 16 = y div 16" "x mod 16 = y mod 16" using d hexDigit_inj by auto
  then have "x = y" by (metis div_mult_mod_eq)
  with Cons.IH [OF r] Cons.prems ys show ?case by simp
next
  case Nil
  then show ?case by (cases ys) (auto simp: hexEncode_def)
qed

lemma hexEncode_length: "length (hexEncode bs) = 2 * length bs"
  by (induction bs) (auto simp: hexEncode_def)

lemma hexEncode_class:
  assumes "\<forall>b \<in> set bs. b < 256" "c \<in> set (hexEncode bs)"
  shows "is_digit c \<or> c \<in> set ''abcdef''"
proof -
  from assms(2) obtain b where "b \<in> set bs" "c = hexDigit (b div 16) \<or> c = hexDigit (b mod 16)"
    by (auto simp: hexEncode_def)
  moreover from this assms(1) have "b div 16 < 16" "b mod 16 < 16" by auto
  ultimately show ?thesis using hexDigit_class by blast
qed

lemma sha256Hex_eq: "sha256Hex s = sha256Hex t \<longleftrightarrow> Sum256 s = Sum256 t"
  using hexEncode_inj Sum256_bytes by (auto simp: sha256Hex_def)

lemma sha256Hex_shape: "length (sha256Hex s) = 64 \<and> (\<forall>c \<in> set (sha256Hex s). is_digit c \<or> c \<in> set ''abcdef'')"
  using hexEncode_class Sum256_bytes by (auto simp: sha256Hex_def hexEncode_length)

end
