(* ===== verification/CEL_Policy.thy ===== *)
theory CEL_Policy
  imports Policy_Store Sha256
begin

text \<open>
  The policy expression engine (\<open>internal/policy/cel\<close>): the values policies see, the function
  bindings of \<open>functions.go\<close>, the compile cache of \<open>compile.go\<close> and the fail-closed evaluator
  of \<open>eval.go\<close>.

  The expression language itself is \<open>google/cel-go\<close>. It is a parameter, the record
  \<open>cel_engine\<close>: checking a text, building a program, and running a program against the
  bindings and the activation. Go's \<open>regexp\<close> enters through the parameter \<open>re\<close>: \<open>re p\<close> is the
  matcher of the pattern \<open>p\<close>, \<open>None\<close> if \<open>p\<close> does not compile.
\<close>

section \<open>Values\<close>

text \<open>
  The dynamic values of an activation: what \<open>any\<close> holds after the gateway's projections. A
  \<open>map[string]any\<close> is the list of its entries in key order.
\<close>

datatype go_any =
    ANil
  | ABool bool
  | ANum int
  | AStr string
  | AList "go_any list"
  | AMap "(string \<times> go_any) list"

fun asStr :: "go_any \<Rightarrow> string option" where
  "asStr (AStr s) = Some s"
| "asStr _ = None"

fun asList :: "go_any \<Rightarrow> go_any list option" where
  "asList (AList xs) = Some xs"
| "asList _ = None"

fun asMap :: "go_any \<Rightarrow> (string \<times> go_any) list option" where
  "asMap (AMap m) = Some m"
| "asMap _ = None"

text \<open>\<open>m[k].(T)\<close>: a missing key is the nil interface, and its assertion fails.\<close>

definition field :: "(go_any \<Rightarrow> 'a option) \<Rightarrow> string \<Rightarrow> (string \<times> go_any) list \<Rightarrow> 'a option" where
  "field as k m = Option.bind (map_of m k) as"

definition strOr :: "string \<Rightarrow> go_any option \<Rightarrow> string" where
  "strOr d v = (case Option.bind v asStr of Some s \<Rightarrow> s | None \<Rightarrow> d)"

section \<open>Function bindings\<close>

text \<open>The walk shared by \<open>hasColumnImpl\<close> and \<open>hasPartitionImpl\<close>: some field is named \<open>name\<close>.\<close>

definition namedField :: "string \<Rightarrow> go_any \<Rightarrow> bool" where
  "namedField name f =
     (case asMap f of None \<Rightarrow> False | Some m \<Rightarrow> strOr [] (map_of m ''name'') = name)"

definition walkFields :: "string \<Rightarrow> go_any \<Rightarrow> go_any \<Rightarrow> bool" where
  "walkFields key tableVal nameVal =
     (case (asMap tableVal, asStr nameVal) of
        (Some tbl, Some name) \<Rightarrow>
          (case field asMap key tbl of
             None \<Rightarrow> False
           | Some s \<Rightarrow>
              (case field asList ''fields'' s of
                 None \<Rightarrow> False
               | Some fs \<Rightarrow> list_ex (namedField name) fs))
      | _ \<Rightarrow> False)"

definition hasColumnImpl :: "go_any \<Rightarrow> go_any \<Rightarrow> bool" where
  "hasColumnImpl = walkFields ''schema''"

definition hasPartitionImpl :: "go_any \<Rightarrow> go_any \<Rightarrow> bool" where
  "hasPartitionImpl = walkFields ''partition_spec''"

definition principalRoleImpl :: "go_any \<Rightarrow> go_any \<Rightarrow> bool" where
  "principalRoleImpl principalVal roleVal =
     (case (asMap principalVal, asStr roleVal) of
        (Some pm, Some role) \<Rightarrow>
          (case field asList ''roles'' pm of
             None \<Rightarrow> False
           | Some roles \<Rightarrow> list_ex (\<lambda>r. strOr [] (Some r) = role) roles)
      | _ \<Rightarrow> False)"

definition locationRegionImpl :: "go_any \<Rightarrow> string" where
  "locationRegionImpl commitVal =
     (case asMap commitVal of None \<Rightarrow> [] | Some m \<Rightarrow> strOr [] (map_of m ''location_region''))"

text \<open>The pairs (column, tag) of the well-formed entries of \<open>classifications\<close>.\<close>

definition tagsByCol :: "go_any list \<Rightarrow> (string \<times> string) list" where
  "tagsByCol cls =
     List.map_filter (\<lambda>entry. Option.bind (asMap entry) (\<lambda>m.
       Option.bind (field asStr ''column_name'' m) (\<lambda>col.
       Option.bind (field asStr ''tag'' m) (\<lambda>tag. Some (col, tag))))) cls"

definition columnTagged :: "(string \<Rightarrow> bool) \<Rightarrow> (string \<times> string) list \<Rightarrow> string \<Rightarrow> go_any \<Rightarrow> bool" where
  "columnTagged matches tags requiredTag entry =
     (case Option.bind (asMap entry) (field asStr ''name'') of
        None \<Rightarrow> True
      | Some name \<Rightarrow> matches name \<longrightarrow> (name, requiredTag) \<in> set tags)"

definition classificationSatisfiedImpl ::
  "(string \<Rightarrow> (string \<Rightarrow> bool) option) \<Rightarrow> go_any list \<Rightarrow> bool" where
  "classificationSatisfiedImpl re args =
     (case args of
        [tableVal, patternVal, tagVal] \<Rightarrow>
          (case (asMap tableVal, asStr patternVal, asStr tagVal) of
             (Some table, Some pattern, Some requiredTag) \<Rightarrow>
               (case re pattern of
                  None \<Rightarrow> False
                | Some matches \<Rightarrow>
                   (case field asList ''classifications'' table of
                      None \<Rightarrow> False
                    | Some cls \<Rightarrow>
                       (case field asList ''columns'' table of
                          None \<Rightarrow> False
                        | Some cols \<Rightarrow> list_all (columnTagged matches (tagsByCol cls) requiredTag) cols)))
           | _ \<Rightarrow> False)
      | _ \<Rightarrow> False)"

definition stringEntries :: "(string \<times> go_any) list \<Rightarrow> (string \<times> string) list" where
  "stringEntries m = List.map_filter (\<lambda>(k, v). map_option (Pair k) (asStr v)) m"

definition partitionSpecImpl :: "go_any \<Rightarrow> (string \<times> string) list" where
  "partitionSpecImpl tableVal =
     (case Option.bind (asMap tableVal) (field asMap ''partition_spec'') of
        None \<Rightarrow> []
      | Some spec \<Rightarrow> stringEntries spec)"

definition principalAttributeLayer1 :: "(string \<times> go_any) list \<Rightarrow> string \<Rightarrow> string" where
  "principalAttributeLayer1 pMap name =
     (case field asMap ''claims'' pMap of
        None \<Rightarrow> []
      | Some claims \<Rightarrow> strOr [] (map_of claims name))"

definition principalAttributeFuncImpl :: "go_any list \<Rightarrow> string" where
  "principalAttributeFuncImpl args =
     (case args of
        [principalVal, nameVal] \<Rightarrow>
          (case (asMap principalVal, asStr nameVal) of
             (Some pMap, Some name) \<Rightarrow> principalAttributeLayer1 pMap name
           | _ \<Rightarrow> [])
      | _ \<Rightarrow> [])"

definition principalSubFromMap :: "(string \<times> go_any) list \<Rightarrow> string" where
  "principalSubFromMap pMap = strOr [] (map_of pMap ''sub'')"

definition oidcClaimsFromPrincipal :: "(string \<times> go_any) list \<Rightarrow> (string \<times> string) list" where
  "oidcClaimsFromPrincipal pMap =
     (case field asMap ''claims'' pMap of
        None \<Rightarrow> []
      | Some claims \<Rightarrow> filter (\<lambda>(k, s). s \<noteq> []) (stringEntries claims))"

text \<open>
  The wrapped call of \<open>principal.attribute\<close>: with a resolver in the activation it resolves over
  all three layers, without one it falls back to the claims.
\<close>

type_synonym attribute_resolver = "string \<Rightarrow> string \<Rightarrow> (string \<rightharpoonup> string) \<Rightarrow> string"

definition principalAttributeEval :: "attribute_resolver option \<Rightarrow> go_any list \<Rightarrow> string" where
  "principalAttributeEval resolver args =
     (case args of
        [principalVal, nameVal] \<Rightarrow>
          (case (asMap principalVal, asStr nameVal) of
             (Some pMap, Some name) \<Rightarrow>
               (case resolver of
                  None \<Rightarrow> principalAttributeLayer1 pMap name
                | Some resolve \<Rightarrow>
                    resolve (principalSubFromMap pMap) name (map_of (oidcClaimsFromPrincipal pMap)))
           | _ \<Rightarrow> [])
      | _ \<Rightarrow> [])"

text \<open>The functions the environment registers, by name; \<open>None\<close> for a name or arity it has not.\<close>

definition celBinding ::
  "(string \<Rightarrow> (string \<Rightarrow> bool) option) \<Rightarrow> attribute_resolver option \<Rightarrow> string \<Rightarrow> go_any list \<Rightarrow> go_any option" where
  "celBinding re resolver fn args =
     (if fn = ''manifest.has_column''
      then (case args of [t, n] \<Rightarrow> Some (ABool (hasColumnImpl t n)) | _ \<Rightarrow> None)
      else if fn = ''manifest.has_partition''
      then (case args of [t, n] \<Rightarrow> Some (ABool (hasPartitionImpl t n)) | _ \<Rightarrow> None)
      else if fn = ''principal.role''
      then (case args of [p, r] \<Rightarrow> Some (ABool (principalRoleImpl p r)) | _ \<Rightarrow> None)
      else if fn = ''location.region''
      then (case args of [c] \<Rightarrow> Some (AStr (locationRegionImpl c)) | _ \<Rightarrow> None)
      else if fn = ''manifest.classification_satisfied''
      then Some (ABool (classificationSatisfiedImpl re args))
      else if fn = ''manifest.partition_spec''
      then (case args of
              [t] \<Rightarrow> Some (AMap (map (\<lambda>(k, s). (k, AStr s)) (partitionSpecImpl t)))
            | _ \<Rightarrow> None)
      else if fn = ''principal.attribute''
      then Some (AStr (principalAttributeEval resolver args))
      else None)"

section \<open>Compile cache\<close>

record cel_key =
  celk_policy :: string
  celk_hash :: "nat list"

record activation =
  act_table :: go_any
  act_commit :: go_any
  act_principal :: go_any

datatype eval_result = EvalFailed string | EvalPanicked string | EvalValue go_any

record ('ast, 'prog) cel_engine =
  ce_compile :: "string \<Rightarrow> string + 'ast"
  ce_program :: "'ast \<Rightarrow> string + 'prog"
  ce_eval :: "'prog \<Rightarrow> (string \<Rightarrow> go_any list \<Rightarrow> go_any option) \<Rightarrow> activation \<Rightarrow> eval_result"
  ce_idents :: "'ast \<Rightarrow> string list"

datatype eval_cause =
    ErrCompileFailed string
  | ErrPolicyEvalFailed string
  | ErrPolicyReturnedNonBool
  | ErrEvalPanic string

datatype eval_error = EvalError string eval_cause

type_synonym 'prog prog_cache = "cel_key \<rightharpoonup> 'prog"

definition celKey :: "string \<Rightarrow> string \<Rightarrow> cel_key" where
  "celKey policyID txt = \<lparr>celk_policy = policyID, celk_hash = Sum256 txt\<rparr>"

text \<open>The cold path: check, then build the program.\<close>

definition buildProgram :: "('ast, 'prog) cel_engine \<Rightarrow> string \<Rightarrow> string + 'prog" where
  "buildProgram eng txt = rbind (ce_compile eng txt) (ce_program eng)"

definition CompileOrGet ::
  "('ast, 'prog) cel_engine \<Rightarrow> (cel_key \<Rightarrow> 'prog \<Rightarrow> 'prog prog_cache \<Rightarrow> 'prog prog_cache) \<Rightarrow>
   string \<Rightarrow> string \<Rightarrow> 'prog prog_cache \<Rightarrow> (eval_cause + 'prog) \<times> 'prog prog_cache" where
  "CompileOrGet eng add policyID txt c =
     (case c (celKey policyID txt) of
        Some p \<Rightarrow> (Inr p, c)
      | None \<Rightarrow>
         (case buildProgram eng txt of
            Inl e \<Rightarrow> (Inl (ErrCompileFailed e), c)
          | Inr prog \<Rightarrow> (Inr prog, add (celKey policyID txt) prog c)))"

section \<open>Evaluation\<close>

datatype action = ActionAllow | ActionDeny

record decision =
  dec_action :: action
  dec_reason :: string

record inputs =
  in_table :: go_any
  in_commit :: go_any
  in_principal :: go_any
  in_resolver :: "attribute_resolver option"

definition Evaluate ::
  "('ast, 'prog) cel_engine \<Rightarrow> (string \<Rightarrow> (string \<Rightarrow> bool) option) \<Rightarrow>
   (cel_key \<Rightarrow> 'prog \<Rightarrow> 'prog prog_cache \<Rightarrow> 'prog prog_cache) \<Rightarrow>
   cel_policy \<Rightarrow> inputs \<Rightarrow> 'prog prog_cache \<Rightarrow> (eval_error + decision) \<times> 'prog prog_cache" where
  "Evaluate eng re add p inp c =
     (case CompileOrGet eng add (pol_id p) (pol_text p) c of
        (Inl cerr, c') \<Rightarrow> (Inl (EvalError (pol_id p) cerr), c')
      | (Inr prog, c') \<Rightarrow>
         ((case ce_eval eng prog (celBinding re (in_resolver inp))
                  \<lparr>act_table = in_table inp, act_commit = in_commit inp, act_principal = in_principal inp\<rparr> of
             EvalPanicked m \<Rightarrow> Inl (EvalError (pol_id p) (ErrEvalPanic m))
           | EvalFailed m \<Rightarrow> Inl (EvalError (pol_id p) (ErrPolicyEvalFailed m))
           | EvalValue (ABool True) \<Rightarrow> Inr \<lparr>dec_action = ActionAllow, dec_reason = []\<rparr>
           | EvalValue (ABool False) \<Rightarrow>
               Inr \<lparr>dec_action = ActionDeny, dec_reason = ''policy '' @ pol_id p @ '' denied''\<rparr>
           | EvalValue _ \<Rightarrow> Inl (EvalError (pol_id p) ErrPolicyReturnedNonBool)), c'))"

section \<open>Fail-closed evaluation\<close>

text \<open>Every cached program was built from a text with the hash of its key.\<close>

definition built_from :: "('ast, 'prog) cel_engine \<Rightarrow> cel_key \<Rightarrow> 'prog \<Rightarrow> bool" where
  "built_from eng k prog \<longleftrightarrow> (\<exists>txt. celk_hash k = Sum256 txt \<and> buildProgram eng txt = Inr prog)"

lemma CompileOrGet_sound:
  assumes "lru_add add" "cache_sound (built_from eng) c" "CompileOrGet eng add pid txt c = (r, c')"
  shows "cache_sound (built_from eng) c'"
    and "r = Inr prog \<Longrightarrow> built_from eng (celKey pid txt) prog"
    and "r = Inl e \<Longrightarrow> c' = c \<and> (\<exists>m. e = ErrCompileFailed m \<and> buildProgram eng txt = Inl m)"
proof -
  have new: "built_from eng (celKey pid txt) p" if "buildProgram eng txt = Inr p" for p
    using that by (auto simp: built_from_def celKey_def)
  show "cache_sound (built_from eng) c'"
    using assms new by (auto simp: CompileOrGet_def intro: lru_add_sound split: option.split_asm sum.split_asm)
  show "r = Inr prog \<Longrightarrow> built_from eng (celKey pid txt) prog"
    using assms new by (auto simp: CompileOrGet_def cache_sound_def split: option.split_asm sum.split_asm)
  show "r = Inl e \<Longrightarrow> c' = c \<and> (\<exists>m. e = ErrCompileFailed m \<and> buildProgram eng txt = Inl m)"
    using assms by (auto simp: CompileOrGet_def split: option.split_asm sum.split_asm)
qed

definition activationOf :: "inputs \<Rightarrow> activation" where
  "activationOf inp =
     \<lparr>act_table = in_table inp, act_commit = in_commit inp, act_principal = in_principal inp\<rparr>"

definition verdict :: "cel_policy \<Rightarrow> bool \<Rightarrow> decision" where
  "verdict p b =
     (if b then \<lparr>dec_action = ActionAllow, dec_reason = []\<rparr>
      else \<lparr>dec_action = ActionDeny, dec_reason = ''policy '' @ pol_id p @ '' denied''\<rparr>)"

lemma Evaluate_decision:
  assumes "Evaluate eng re add p inp c = (Inr d, c')"
  shows "\<exists>prog b. CompileOrGet eng add (pol_id p) (pol_text p) c = (Inr prog, c') \<and>
    ce_eval eng prog (celBinding re (in_resolver inp)) (activationOf inp) = EvalValue (ABool b) \<and> d = verdict p b"
  using assms
  by (auto simp: Evaluate_def verdict_def activationOf_def
      split: prod.split_asm sum.split_asm eval_result.split_asm go_any.split_asm bool.split_asm)

lemma Evaluate_cache: "snd (Evaluate eng re add p inp c) = snd (CompileOrGet eng add (pol_id p) (pol_text p) c)"
  by (simp add: Evaluate_def split: prod.split sum.split)

lemma Evaluate_sound:
  assumes "lru_add add" "cache_sound (built_from eng) c" "Evaluate eng re add p inp c = (r, c')"
  shows "cache_sound (built_from eng) c' \<and>
    (case r of
       Inr d \<Rightarrow> \<exists>txt prog b. Sum256 txt = Sum256 (pol_text p) \<and> buildProgram eng txt = Inr prog \<and>
         ce_eval eng prog (celBinding re (in_resolver inp)) (activationOf inp) = EvalValue (ABool b) \<and>
         d = verdict p b
     | Inl (EvalError pid cause) \<Rightarrow> pid = pol_id p)"
proof -
  obtain q where q: "CompileOrGet eng add (pol_id p) (pol_text p) c = (q, c')"
    using assms(3) Evaluate_cache [of eng re add p inp c] by (cases "CompileOrGet eng add (pol_id p) (pol_text p) c") simp
  note sound = CompileOrGet_sound [OF assms(1,2) q]
  show ?thesis
  proof (cases r)
    case (Inr d)
    with Evaluate_decision assms(3) q obtain prog b where
      "q = Inr prog" "ce_eval eng prog (celBinding re (in_resolver inp)) (activationOf inp) = EvalValue (ABool b)"
      "d = verdict p b" by fastforce
    with sound Inr show ?thesis by (auto simp: built_from_def celKey_def)
  next
    case (Inl e)
    moreover obtain pid cause where e: "e = EvalError pid cause" by (cases e)
    ultimately have "pid = pol_id p"
      using assms(3)
      by (auto simp: Evaluate_def split: prod.split_asm sum.split_asm eval_result.split_asm go_any.split_asm bool.split_asm)
    with Inl e sound show ?thesis by simp
  qed
qed

text \<open>
  C10 Policy evaluation fails closed. A decision is reached only by a program that was built from
  a text with the hash of the policy's own text and that evaluated to a boolean, and the
  decision is that boolean; a failed check, a failed or panicking evaluation and a value that
  is not a boolean are errors of this policy. The cache keeps holding only such programs.
\<close>

theorem evaluate_fail_closed:
  assumes "lru_add add" "cache_sound (built_from eng) c" "Evaluate eng re add p inp c = (r, c')"
  shows "cache_sound (built_from eng) c' \<and>
    (case r of
       Inr d \<Rightarrow> \<exists>txt prog b. Sum256 txt = Sum256 (pol_text p) \<and> buildProgram eng txt = Inr prog \<and>
         ce_eval eng prog (celBinding re (in_resolver inp)) (activationOf inp) = EvalValue (ABool b) \<and>
         d = verdict p b
     | Inl (EvalError pid cause) \<Rightarrow> pid = pol_id p)"
  using assms by (rule Evaluate_sound)

text \<open>A small engine for concrete inputs: a text names a binding applied to the principal and itself.\<close>

definition role_engine :: "(string, string) cel_engine" where
  "role_engine =
     \<lparr>ce_compile = \<lambda>txt. if txt = [] then Inl ''empty'' else Inr txt, ce_program = Inr,
      ce_eval = \<lambda>prog fn act. (case fn ''principal.role'' [act_principal act, AStr prog] of
        Some v \<Rightarrow> EvalValue v | None \<Rightarrow> EvalFailed ''no such overload''),
      ce_idents = \<lambda>_. [''principal'']\<rparr>"

abbreviation writer_policy :: cel_policy where
  "writer_policy \<equiv> \<lparr>pol_id = ''p1'', pol_kind = ''write_acl'', pol_text = ''writer''\<rparr>"

abbreviation writer_inputs :: inputs where
  "writer_inputs \<equiv> \<lparr>in_table = AMap [], in_commit = AMap [],
     in_principal = AMap [(''roles'', AList [AStr ''writer''])], in_resolver = None\<rparr>"

lemma lru_add_upd: "lru_add (\<lambda>k v m. m(k \<mapsto> v))"
  by (simp add: lru_add_def)

lemma writer_evaluates:
  "Evaluate role_engine (\<lambda>_. None) (\<lambda>k v m. m(k \<mapsto> v)) writer_policy writer_inputs Map.empty =
     (Inr \<lparr>dec_action = ActionAllow, dec_reason = []\<rparr>, [celKey ''p1'' ''writer'' \<mapsto> ''writer''])"
  by (simp add: Evaluate_def CompileOrGet_def buildProgram_def role_engine_def celBinding_def principalRoleImpl_def
      field_def strOr_def)

theorem evaluate_fail_closed_witness:
  "\<exists>txt prog. Sum256 txt = Sum256 ''writer'' \<and> buildProgram role_engine txt = Inr prog \<and>
     ce_eval role_engine prog (celBinding (\<lambda>_. None) None) (activationOf writer_inputs) = EvalValue (ABool True)"
proof -
  have "cache_sound (built_from role_engine) Map.empty" by (simp add: cache_sound_def)
  from evaluate_fail_closed [OF lru_add_upd this writer_evaluates]
  obtain src prog b where w: "Sum256 src = Sum256 (pol_text writer_policy)" "buildProgram role_engine src = Inr prog"
    "ce_eval role_engine prog (celBinding (\<lambda>_. None) (in_resolver writer_inputs)) (activationOf writer_inputs) =
       EvalValue (ABool b)"
    "\<lparr>dec_action = ActionAllow, dec_reason = []\<rparr> = verdict writer_policy b"
    by (simp only: sum.case) blast
  from w(4) have "b = True" by (cases b) (simp_all add: verdict_def)
  with w(1-3) show ?thesis by (intro exI [of _ src] exI [of _ prog]) simp
qed

end
