(* ===== verification/Tenant_Session.thy ===== *)
theory Tenant_Session
  imports Graph_Client
begin

text \<open>
  Tenant identity and sessions (\<open>internal/tenant\<close>): the schema and role names derived from a
  tenant id, the input validators of \<open>id.go\<close>, the three-layer transaction \<open>WithTenantTx\<close> of
  \<open>dbsession.go\<close>, and the catalog credentials read through it (\<open>internal/catalog/creds.go\<close>).
  A tenant id is the canonical text of its UUID.
\<close>

section \<open>Names\<close>

definition SchemaName :: "string \<Rightarrow> string" where
  "SchemaName tid = ''tenant_'' @ map (\<lambda>c. if c = CHR ''-'' then CHR ''_'' else c) tid"

definition RoleName :: "string \<Rightarrow> string" where
  "RoleName tid = SchemaName tid @ ''_role''"

text \<open>\<open>pgx.Identifier.Sanitize\<close>: each part in double quotes, inner double quotes doubled, NUL removed.\<close>

definition sanitizeIdent :: "string list \<Rightarrow> string" where
  "sanitizeIdent parts =
     join_with ''.'' (map (\<lambda>p. [CHR 0x22] @
       concat (map (\<lambda>c. if c = CHR 0x22 then [c, c] else [c]) (filter (\<lambda>c. c \<noteq> CHR 0x00) p)) @ [CHR 0x22]) parts)"

section \<open>Validators\<close>

definition isLowerHex :: "char \<Rightarrow> bool" where
  "isLowerHex c \<longleftrightarrow> is_digit c \<or> 97 \<le> byte_val c \<and> byte_val c \<le> 102"

definition isLower :: "char \<Rightarrow> bool" where
  "isLower c \<longleftrightarrow> 97 \<le> byte_val c \<and> byte_val c \<le> 122"

definition isUpper :: "char \<Rightarrow> bool" where
  "isUpper c \<longleftrightarrow> 65 \<le> byte_val c \<and> byte_val c \<le> 90"

text \<open>The regular expression of a version 4 UUID, position by position.\<close>

definition uuidV4Shape :: "(char \<Rightarrow> bool) list" where
  "uuidV4Shape =
     replicate 8 isLowerHex @ [\<lambda>c. c = CHR ''-''] @ replicate 4 isLowerHex @ [\<lambda>c. c = CHR ''-''] @
     [\<lambda>c. c = CHR ''4''] @ replicate 3 isLowerHex @ [\<lambda>c. c = CHR ''-''] @
     [\<lambda>c. c \<in> {CHR ''8'', CHR ''9'', CHR ''a'', CHR ''b''}] @ replicate 3 isLowerHex @ [\<lambda>c. c = CHR ''-''] @
     replicate 12 isLowerHex"

definition ValidateUUIDv4 :: "string \<Rightarrow> bool" where
  "ValidateUUIDv4 s \<longleftrightarrow> list_all2 (\<lambda>p c. p c) uuidV4Shape s"

definition ValidateWorkOSOrgID :: "string \<Rightarrow> bool" where
  "ValidateWorkOSOrgID s \<longleftrightarrow>
     has_prefix s ''org_'' \<and> drop 4 s \<noteq> [] \<and> list_all (\<lambda>c. isUpper c \<or> is_digit c) (drop 4 s)"

definition ValidateCustomerVPCID :: "string \<Rightarrow> bool" where
  "ValidateCustomerVPCID s \<longleftrightarrow>
     has_prefix s ''vpc-'' \<and> length (drop 4 s) = 17 \<and> list_all isLowerHex (drop 4 s)"

definition ValidateAWSRegion :: "string \<Rightarrow> bool" where
  "ValidateAWSRegion s \<longleftrightarrow>
     (case s of
        a # b # d # r \<Rightarrow>
          isLower a \<and> isLower b \<and> d = CHR ''-'' \<and>
          (case dropWhile isLower r of
             [e, n] \<Rightarrow> takeWhile isLower r \<noteq> [] \<and> e = CHR ''-'' \<and> is_digit n
           | _ \<Rightarrow> False)
      | _ \<Rightarrow> False)"

section \<open>Transactions\<close>

definition layer1SQL :: "string \<Rightarrow> string" where
  "layer1SQL tid = ''SET LOCAL search_path TO '' @ sanitizeIdent [SchemaName tid] @ '', public''"

definition layer2SQL :: "string \<Rightarrow> string" where
  "layer2SQL tid = ''SET LOCAL ROLE '' @ sanitizeIdent [RoleName tid]"

definition WithTenantTx ::
  "'db pg \<Rightarrow> string option \<Rightarrow> ('db \<Rightarrow> graph_error + ('a \<times> 'db)) \<Rightarrow> 'db \<Rightarrow> (graph_error + 'a) \<times> 'db" where
  "WithTenantTx pg tenant fn db =
     (case tenant of
        None \<Rightarrow> (Inl ErrTenantMissing, db)
      | Some tid \<Rightarrow>
         (case pg_acquire pg db of
            Some e \<Rightarrow> (Inl (TransportError e), db)
          | None \<Rightarrow>
             (case pg_begin pg db of
                Some e \<Rightarrow> (Inl (TransportError e), db)
              | None \<Rightarrow>
                 let c = \<lparr>cn_db = db, cn_tx = Some db\<rparr>;
                     out = (case
                        rbind (txQuery pg (layer1SQL tid) [] db) (\<lambda>(_, db1).
                        rbind (txQuery pg (layer2SQL tid) [] db1) (\<lambda>(_, db2).
                        rbind (txQuery pg setTenantSQL [tid] db2) (\<lambda>(_, db3). fn db3)))
                       of
                         Inl e \<Rightarrow> (Inl e, c)
                       | Inr (x, db4) \<Rightarrow> txCommit pg x db4 (c\<lparr>cn_tx := Some db4\<rparr>))
                 in (fst out, cn_db (deferredRollback (fst out) (snd out))))))"

section \<open>Catalog credentials\<close>

record credentials =
  cr_kind :: string
  cr_nickname :: string
  cr_endpoint :: string
  cr_config :: string

datatype cred_error = ErrCredentialsNotFound | CredTransport graph_error

definition credentialsSQL :: string where
  "credentialsSQL =
     ''SELECT catalog_kind, nickname, endpoint, config_json FROM catalog_credentials WHERE nickname = $1''"

text \<open>\<open>QueryRow\<close> reads the first row; no row is \<open>pgx.ErrNoRows\<close>, which rolls the transaction back.\<close>

definition GetCatalogCredentials ::
  "'db pg \<Rightarrow> string option \<Rightarrow> string \<Rightarrow> 'db \<Rightarrow> (cred_error + credentials) \<times> 'db" where
  "GetCatalogCredentials pg tenant nickname db =
     (case WithTenantTx pg tenant (\<lambda>db0.
        rbind (txQuery pg credentialsSQL [nickname] db0) (\<lambda>(rows, db1).
          case rows of
            [] \<Rightarrow> Inl (Rejected ''no rows in result set'')
          | [kind, nick, ep, cfg] # _ \<Rightarrow>
              Inr (\<lparr>cr_kind = kind, cr_nickname = nick, cr_endpoint = ep, cr_config = cfg\<rparr>, db1)
          | _ # _ \<Rightarrow> Inl (TransportError ''scan''))) db of
        (Inl (Rejected m), db') \<Rightarrow> (Inl ErrCredentialsNotFound, db')
      | (Inl e, db') \<Rightarrow> (Inl (CredTransport e), db')
      | (Inr cr, db') \<Rightarrow> (Inr cr, db'))"

section \<open>Properties\<close>

lemma WithTenantTx_outcome:
  assumes "WithTenantTx pg tenant fn db = (r, db')"
  shows "case r of
    Inl e \<Rightarrow> db' = db \<or> (\<exists>tid r1 db1 r2 db2 r3 db3 x m. tenant = Some tid \<and>
      pg_exec pg (layer1SQL tid) [] db = Inr (r1, db1) \<and>
      pg_exec pg (layer2SQL tid) [] db1 = Inr (r2, db2) \<and>
      pg_exec pg setTenantSQL [tid] db2 = Inr (r3, db3) \<and>
      fn db3 = Inr (x, db') \<and> e = TransportError m \<and> pg_commit pg db' = Some (m, True))
  | Inr x \<Rightarrow> \<exists>tid r1 db1 r2 db2 r3 db3. tenant = Some tid \<and>
      pg_exec pg (layer1SQL tid) [] db = Inr (r1, db1) \<and>
      pg_exec pg (layer2SQL tid) [] db1 = Inr (r2, db2) \<and>
      pg_exec pg setTenantSQL [tid] db2 = Inr (r3, db3) \<and>
      fn db3 = Inr (x, db') \<and> pg_commit pg db' = None"
  using assms
  by (auto simp: WithTenantTx_def txQuery_def txCommit_def idleConn_def Let_def elim!: rbind_InrE
      split: option.split_asm sum.split_asm prod.split_asm sum.split if_split_asm)

lemma GetCatalogCredentials_frame:
  "GetCatalogCredentials pg tenant nick db = (Inl ErrCredentialsNotFound, db') \<Longrightarrow> db' = db"
  using WithTenantTx_outcome [of pg tenant]
  by (fastforce simp: GetCatalogCredentials_def split: prod.split_asm sum.split_asm graph_error.split_asm)

lemma uuid_chars: "ValidateUUIDv4 s \<Longrightarrow> CHR ''_'' \<notin> set s"
proof -
  have shape: "\<forall>p \<in> set uuidV4Shape. \<not> p CHR ''_''"
    by (auto simp: uuidV4Shape_def isLowerHex_def is_digit_def)
  assume "ValidateUUIDv4 s"
  then show "CHR ''_'' \<notin> set s"
    unfolding ValidateUUIDv4_def
    using shape by (metis (full_types) in_set_conv_nth list_all2_conv_all_nth)
qed

lemma dash_map_inj:
  "map (\<lambda>c. if c = CHR ''-'' then CHR ''_'' else c) s = map (\<lambda>c. if c = CHR ''-'' then CHR ''_'' else c) t \<Longrightarrow>
   CHR ''_'' \<notin> set s \<Longrightarrow> CHR ''_'' \<notin> set t \<Longrightarrow> s = t"
  by (induction s t rule: list_induct2') (auto split: if_split_asm)

lemma uuid_safe: "ValidateUUIDv4 s \<Longrightarrow> list_all (\<lambda>c. isLowerHex c \<or> c = CHR ''-'') s"
proof -
  have shape: "\<forall>p \<in> set uuidV4Shape. \<forall>c. p c \<longrightarrow> isLowerHex c \<or> c = CHR ''-''"
    by (auto simp: uuidV4Shape_def isLowerHex_def is_digit_def)
  assume "ValidateUUIDv4 s"
  then show ?thesis
    unfolding ValidateUUIDv4_def list_all_length list_all2_conv_all_nth
    using shape nth_mem by fastforce
qed

lemma uuid_length: "ValidateUUIDv4 s \<Longrightarrow> length s = 36"
  by (auto simp: ValidateUUIDv4_def uuidV4Shape_def dest!: list_all2_lengthD)

lemma hex_unquoted: "isLowerHex c \<Longrightarrow> c \<noteq> CHR 0x22 \<and> c \<noteq> CHR 0x00"
  by (auto simp: isLowerHex_def is_digit_def)

lemma sanitize_plain:
  assumes "\<forall>c \<in> set p. c \<noteq> CHR 0x22 \<and> c \<noteq> CHR 0x00"
  shows "sanitizeIdent [p] = [CHR 0x22] @ p @ [CHR 0x22]"
proof -
  have "filter (\<lambda>c. c \<noteq> CHR 0x00) p = p" using assms by (simp add: filter_id_conv)
  moreover have "concat (map (\<lambda>c. if c = CHR 0x22 then [c, c] else [c]) p) = p"
    using assms by (induction p) auto
  ultimately show ?thesis by (simp add: sanitizeIdent_def)
qed

text \<open>
  Tenants are separated by name: two validated tenant ids with the same schema or the same
  role are the same tenant, a schema name has 43 characters, and quoting it as an identifier
  adds nothing but the quotes.
\<close>

theorem tenant_names_injective:
  assumes "ValidateUUIDv4 a" "ValidateUUIDv4 b"
  shows "(SchemaName a = SchemaName b \<longleftrightarrow> a = b) \<and> (RoleName a = RoleName b \<longleftrightarrow> a = b) \<and>
    length (SchemaName a) = 43 \<and> sanitizeIdent [SchemaName a] = [CHR 0x22] @ SchemaName a @ [CHR 0x22]"
proof -
  have "SchemaName a = SchemaName b \<Longrightarrow> a = b"
    using dash_map_inj uuid_chars assms by (simp add: SchemaName_def)
  moreover have "\<forall>c \<in> set (SchemaName a). c \<noteq> CHR 0x22 \<and> c \<noteq> CHR 0x00"
    using uuid_safe [OF assms(1)] hex_unquoted by (auto simp: SchemaName_def list_all_iff)
  ultimately show ?thesis
    using sanitize_plain uuid_length [OF assms(1)] by (auto simp: RoleName_def SchemaName_def)
qed

abbreviation uuid_a :: string where "uuid_a \<equiv> ''a1b2c3d4-e5f6-4789-8abc-def012345678''"
abbreviation uuid_b :: string where "uuid_b \<equiv> ''a1b2c3d4-e5f6-4789-8abc-def012345679''"

lemma uuid_samples: "ValidateUUIDv4 uuid_a" "ValidateUUIDv4 uuid_b"
  by (simp_all add: ValidateUUIDv4_def uuidV4Shape_def isLowerHex_def is_digit_def numeral_eq_Suc)

theorem tenant_names_injective_witness:
  "SchemaName uuid_a \<noteq> SchemaName uuid_b \<and> length (SchemaName uuid_a) = 43"
  using tenant_names_injective [OF uuid_samples] by simp

end
