(* ===== verification/Gateway_Inputs.thy ===== *)
theory Gateway_Inputs
  imports CEL_Policy Tenant_Session
begin

text \<open>
  What the commit gateway (\<open>internal/gateway/iceberg\<close>) hands to policies: the shared Iceberg
  types of \<open>internal/iceberg/client.go\<close>, the principal chain of \<open>principal.go\<close>, and the
  projections of \<open>handler.go\<close> from table metadata, commit and principal to policy inputs. The
  table projection goes through \<open>encoding/json\<close>, which replaces invalid UTF-8 and turns every
  number into a \<open>float64\<close>.
\<close>

section \<open>Iceberg types\<close>

record schema_field =
  sf_id :: int
  sf_name :: string
  sf_type :: string
  sf_required :: bool
  sf_doc :: string

record partition_field =
  pf_source :: int
  pf_transform :: string
  pf_name :: string

record partition_spec =
  ps_id :: int
  ps_fields :: "partition_field list"

record manifest_ref =
  mf_path :: string
  mf_length :: int
  mf_spec :: int
  mf_added :: int

record snapshot =
  sn_id :: int
  sn_parent :: int
  sn_timestamp :: int
  sn_operation :: string
  sn_manifests :: "manifest_ref list"
  sn_summary :: "(string \<times> string) list"
  sn_location :: string

record table_metadata =
  tm_uuid :: string
  tm_schema :: "schema_field list"
  tm_spec :: partition_spec
  tm_current :: int
  tm_location :: string
  tm_snapshots :: "snapshot list"
  tm_properties :: "(string \<times> string) list"

record commit_request =
  cm_requirements :: "(string \<times> go_any) list list"
  cm_updates :: "(string \<times> go_any) list list"

section \<open>JSON round trip\<close>

definition inRange :: "nat \<Rightarrow> nat \<Rightarrow> char \<Rightarrow> bool" where
  "inRange lo hi c \<longleftrightarrow> lo \<le> byte_val c \<and> byte_val c \<le> hi"

abbreviation cont :: "char \<Rightarrow> bool" where "cont \<equiv> inRange 128 191"

text \<open>The width of the rune at the front, 0 if the front is no valid encoding (\<open>utf8.DecodeRune\<close>).\<close>

fun runeWidth :: "string \<Rightarrow> nat" where
  "runeWidth (a # b # c # d # s) =
     (if inRange 0 127 a then 1
      else if inRange 194 223 a \<and> cont b then 2
      else if cont c \<and> (byte_val a = 224 \<and> inRange 160 191 b \<or> inRange 225 236 a \<and> cont b \<or>
                byte_val a = 237 \<and> inRange 128 159 b \<or> inRange 238 239 a \<and> cont b) then 3
      else if cont c \<and> cont d \<and> (byte_val a = 240 \<and> inRange 144 191 b \<or> inRange 241 243 a \<and> cont b \<or>
                byte_val a = 244 \<and> inRange 128 143 b) then 4
      else 0)"
| "runeWidth [a, b, c] =
     (if inRange 0 127 a then 1
      else if inRange 194 223 a \<and> cont b then 2
      else if cont c \<and> (byte_val a = 224 \<and> inRange 160 191 b \<or> inRange 225 236 a \<and> cont b \<or>
                byte_val a = 237 \<and> inRange 128 159 b \<or> inRange 238 239 a \<and> cont b) then 3
      else 0)"
| "runeWidth [a, b] =
     (if inRange 0 127 a then 1 else if inRange 194 223 a \<and> cont b then 2 else 0)"
| "runeWidth [a] = (if inRange 0 127 a then 1 else 0)"
| "runeWidth [] = 0"

text \<open>A string through JSON: each invalid byte becomes U+FFFD.\<close>

function jsonText :: "string \<Rightarrow> string" where
  "jsonText [] = []"
| "jsonText (c # s) =
     (case runeWidth (c # s) of
        0 \<Rightarrow> [CHR 0xEF, CHR 0xBF, CHR 0xBD] @ jsonText s
      | Suc n \<Rightarrow> c # take n s @ jsonText (drop n s))"
  by pat_completeness auto
termination by (relation "measure length") auto

text \<open>An integer through JSON: rounded to a 53-bit significand, ties to even.\<close>

fun bitLength :: "nat \<Rightarrow> nat" where
  "bitLength n = (if n = 0 then 0 else Suc (bitLength (n div 2)))"

declare bitLength.simps [simp del]

definition roundSig :: "nat \<Rightarrow> nat" where
  "roundSig m =
     (let e = bitLength m - 53; q = m div 2 ^ e; r = m mod 2 ^ e in
      if e > 0 \<and> (2 * r > 2 ^ e \<or> 2 * r = 2 ^ e \<and> odd q) then (q + 1) * 2 ^ e else q * 2 ^ e)"

definition float64_of_int :: "int \<Rightarrow> int" where
  "float64_of_int n = sgn n * int (roundSig (nat \<bar>n\<bar>))"

text \<open>Decoding an object keeps the last of equal keys.\<close>

fun lastWins :: "(string \<times> 'v) list \<Rightarrow> (string \<times> 'v) list" where
  "lastWins [] = []"
| "lastWins ((k, v) # m) = (if k \<in> fst ` set m then lastWins m else (k, v) # lastWins m)"

fun jsonVal :: "go_any \<Rightarrow> go_any" where
  "jsonVal ANil = ANil"
| "jsonVal (ABool b) = ABool b"
| "jsonVal (ANum n) = ANum (float64_of_int n)"
| "jsonVal (AStr s) = AStr (jsonText s)"
| "jsonVal (AList xs) = AList (map jsonVal xs)"
| "jsonVal (AMap m) = AMap (lastWins (map (\<lambda>(k, v). (jsonText k, jsonVal v)) m))"

definition projectViaJSON :: "(string \<times> go_any) list \<Rightarrow> go_any" where
  "projectViaJSON m = jsonVal (AMap m)"

section \<open>Projections\<close>

definition fieldToMap :: "schema_field \<Rightarrow> go_any" where
  "fieldToMap f =
     AMap [(''doc'', AStr (sf_doc f)), (''id'', ANum (sf_id f)), (''name'', AStr (sf_name f)),
           (''required'', ABool (sf_required f)), (''type'', AStr (sf_type f))]"

definition schemaToMap :: "schema_field list \<Rightarrow> go_any" where
  "schemaToMap s = AMap [(''fields'', AList (map fieldToMap s))]"

definition partitionFieldToMap :: "partition_field \<Rightarrow> go_any" where
  "partitionFieldToMap f =
     AMap [(''name'', AStr (pf_name f)), (''source_column_id'', ANum (pf_source f)),
           (''transform'', AStr (pf_transform f))]"

definition partitionSpecToMap :: "partition_spec \<Rightarrow> go_any" where
  "partitionSpecToMap ps =
     AMap [(''fields'', AList (map partitionFieldToMap (ps_fields ps))), (''spec_id'', ANum (ps_id ps))]"

definition snapshotsToList :: "snapshot list \<Rightarrow> go_any" where
  "snapshotsToList ss =
     AList (map (\<lambda>s. AMap [(''metadata_location'', AStr (sn_location s)), (''operation'', AStr (sn_operation s)),
       (''parent_snapshot_id'', ANum (sn_parent s)), (''snapshot_id'', ANum (sn_id s)),
       (''timestamp_ms'', ANum (sn_timestamp s))]) ss)"

definition stringMapToAny :: "(string \<times> string) list \<Rightarrow> go_any" where
  "stringMapToAny m = AMap (map (\<lambda>(k, v). (k, AStr v)) m)"

definition tableMetadataToMap :: "table_metadata option \<Rightarrow> go_any" where
  "tableMetadataToMap meta =
     (case meta of
        None \<Rightarrow> AMap []
      | Some m \<Rightarrow>
         projectViaJSON
           [(''current_snapshot_id'', ANum (tm_current m)), (''metadata_location'', AStr (tm_location m)),
            (''partition_spec'', partitionSpecToMap (tm_spec m)), (''properties'', stringMapToAny (tm_properties m)),
            (''schema'', schemaToMap (tm_schema m)), (''snapshots'', snapshotsToList (tm_snapshots m)),
            (''uuid'', AStr (tm_uuid m))])"

definition commitRequestToMap :: "commit_request \<Rightarrow> go_any" where
  "commitRequestToMap c =
     AMap [(''requirements'', AList (map AMap (cm_requirements c))), (''updates'', AList (map AMap (cm_updates c)))]"

section \<open>Principals\<close>

record gw_principal =
  gp_sub :: string
  gp_email :: string
  gp_roles :: "string list"

datatype gw_source = SourceMTLS | SourceAuthHeader | SourceSession

fun sourceText :: "gw_source \<Rightarrow> string" where
  "sourceText SourceMTLS = ''mtls_san''"
| "sourceText SourceAuthHeader = ''auth_header''"
| "sourceText SourceSession = ''session''"

definition principalToMap :: "gw_principal option \<Rightarrow> go_any" where
  "principalToMap po =
     (case po of
        None \<Rightarrow> AMap [(''email'', AStr []), (''roles'', AList []), (''sub'', AStr [])]
      | Some p \<Rightarrow>
         AMap [(''email'', AStr (gp_email p)), (''roles'', AList (map AStr (gp_roles p))), (''sub'', AStr (gp_sub p))])"

text \<open>
  The client certificate is the pair of its URI and DNS alternative names. \<open>jwt\<close> stands for
  \<open>golang-jwt\<close>'s unverified parser: the claims of a token, \<open>None\<close> if it does not parse.
\<close>

definition extractSAN :: "string list \<times> string list \<Rightarrow> string" where
  "extractSAN cert =
     (case List.find (\<lambda>u. u \<noteq> []) (fst cert @ snd cert) of Some u \<Rightarrow> u | None \<Rightarrow> [])"

definition nonEmptyStrings :: "go_any list \<Rightarrow> string list" where
  "nonEmptyStrings rs = filter (\<lambda>s. s \<noteq> []) (List.map_filter asStr rs)"

definition extractRoles :: "(string \<times> go_any) list \<Rightarrow> string list" where
  "extractRoles claims =
     (case field asList ''roles'' claims of
        Some rs \<Rightarrow> nonEmptyStrings rs
      | None \<Rightarrow>
         (case field asStr ''roles'' claims of
            Some (c # s) \<Rightarrow> Fields (c # s)
          | _ \<Rightarrow>
             (case field asList ''groups'' claims of
                Some rs \<Rightarrow> nonEmptyStrings rs
              | None \<Rightarrow> [])))"

definition parseJWTUnverified ::
  "(string \<Rightarrow> (string \<times> go_any) list option) \<Rightarrow> string \<Rightarrow> gw_principal option" where
  "parseJWTUnverified jwt token =
     (case jwt token of
        None \<Rightarrow> None
      | Some claims \<Rightarrow>
         let sub = strOr [] (map_of claims ''sub'') in
         if sub = [] then None
         else Some \<lparr>gp_sub = sub, gp_email = strOr [] (map_of claims ''email''), gp_roles = extractRoles claims\<rparr>)"

definition sessionPrincipal :: "string option \<Rightarrow> (gw_principal \<times> gw_source) option" where
  "sessionPrincipal tenant =
     map_option (\<lambda>tid. (\<lparr>gp_sub = tid, gp_email = [], gp_roles = []\<rparr>, SourceSession)) tenant"

definition ExtractPrincipal ::
  "(string \<Rightarrow> (string \<times> go_any) list option) \<Rightarrow> (string list \<times> string list) option \<Rightarrow> string \<Rightarrow>
   string option \<Rightarrow> (gw_principal \<times> gw_source) option" where
  "ExtractPrincipal jwt cert authz tenant =
     (let san = (case cert of None \<Rightarrow> [] | Some c \<Rightarrow> extractSAN c) in
      if san \<noteq> [] then Some (\<lparr>gp_sub = san, gp_email = [], gp_roles = []\<rparr>, SourceMTLS)
      else if has_prefix authz ''Bearer ''
      then (case parseJWTUnverified jwt (drop 7 authz) of
              Some p \<Rightarrow> Some (p, SourceAuthHeader)
            | None \<Rightarrow> sessionPrincipal tenant)
      else sessionPrincipal tenant)"

definition validatePrincipalNotEmpty :: "gw_principal \<Rightarrow> bool" where
  "validatePrincipalNotEmpty p \<longleftrightarrow> gp_sub p \<noteq> []"

section \<open>What policies see\<close>

lemma jsonText_ascii: "list_all (inRange 0 127) s \<Longrightarrow> jsonText s = s"
proof (induction s)
  case (Cons c s)
  then have "runeWidth (c # s) = Suc 0"
    by (cases "c # s" rule: runeWidth.cases) auto
  with Cons show ?case by simp
qed simp

lemma lastWins_distinct: "distinct (map fst m) \<Longrightarrow> lastWins m = m"
  by (induction m rule: lastWins.induct) (auto simp: image_iff)

text \<open>A map whose keys are distinct ASCII literals is projected entry by entry.\<close>

lemma jsonVal_literal:
  assumes "list_all (\<lambda>(k, v). list_all (inRange 0 127) k) m" "distinct (map fst m)"
  shows "jsonVal (AMap m) = AMap (map (\<lambda>(k, v). (k, jsonVal v)) m)"
proof -
  have keys: "map (\<lambda>(k, v). (jsonText k, jsonVal v)) m = map (\<lambda>(k, v). (k, jsonVal v)) m"
    using assms(1) by (auto simp: list_all_iff intro!: jsonText_ascii)
  have "map fst (map (\<lambda>(k, v). (k, jsonVal v)) m) = map fst m" by (induction m) auto
  with assms(2) have "distinct (map fst (map (\<lambda>(k, v). (k, jsonVal v)) m))" by metis
  from lastWins_distinct [OF this] show ?thesis by (simp only: jsonVal.simps keys)
qed

lemmas key_range = inRange_def

lemma jsonVal_field:
  "jsonVal (fieldToMap f) =
     AMap [(''doc'', AStr (jsonText (sf_doc f))), (''id'', ANum (float64_of_int (sf_id f))),
           (''name'', AStr (jsonText (sf_name f))), (''required'', ABool (sf_required f)),
           (''type'', AStr (jsonText (sf_type f)))]"
  unfolding fieldToMap_def by (subst jsonVal_literal) (simp_all add: key_range)

lemma jsonVal_partition_field:
  "jsonVal (partitionFieldToMap f) =
     AMap [(''name'', AStr (jsonText (pf_name f))), (''source_column_id'', ANum (float64_of_int (pf_source f))),
           (''transform'', AStr (jsonText (pf_transform f)))]"
  unfolding partitionFieldToMap_def by (subst jsonVal_literal) (simp_all add: key_range)

lemma jsonVal_schema: "jsonVal (schemaToMap fs) = AMap [(''fields'', AList (map (jsonVal \<circ> fieldToMap) fs))]"
  unfolding schemaToMap_def by (subst jsonVal_literal) (simp_all add: key_range)

lemma jsonVal_spec:
  "jsonVal (partitionSpecToMap ps) =
     AMap [(''fields'', AList (map (jsonVal \<circ> partitionFieldToMap) (ps_fields ps))),
           (''spec_id'', ANum (float64_of_int (ps_id ps)))]"
  unfolding partitionSpecToMap_def by (subst jsonVal_literal) (simp_all add: key_range)

lemma table_projection:
  "tableMetadataToMap (Some m) =
     AMap [(''current_snapshot_id'', ANum (float64_of_int (tm_current m))),
           (''metadata_location'', AStr (jsonText (tm_location m))),
           (''partition_spec'', jsonVal (partitionSpecToMap (tm_spec m))),
           (''properties'', jsonVal (stringMapToAny (tm_properties m))),
           (''schema'', jsonVal (schemaToMap (tm_schema m))),
           (''snapshots'', jsonVal (snapshotsToList (tm_snapshots m))), (''uuid'', AStr (jsonText (tm_uuid m)))]"
  unfolding tableMetadataToMap_def projectViaJSON_def option.case
  by (subst jsonVal_literal) (simp_all add: key_range)

lemmas binding_defs = walkFields_def hasColumnImpl_def hasPartitionImpl_def principalRoleImpl_def
  namedField_def field_def strOr_def

text \<open>
  On what the gateway projects, the three structural bindings are exact: \<open>has_column\<close> holds for
  the column names of the table, \<open>has_partition\<close> for the partition field names (both as they
  leave JSON), and \<open>principal.role\<close> for the roles of the principal.
\<close>

theorem projected_bindings_exact:
  "(hasColumnImpl (tableMetadataToMap (Some m)) (AStr n) \<longleftrightarrow>
      n \<in> jsonText ` sf_name ` set (tm_schema m)) \<and>
   (hasPartitionImpl (tableMetadataToMap (Some m)) (AStr n) \<longleftrightarrow>
      n \<in> jsonText ` pf_name ` set (ps_fields (tm_spec m))) \<and>
   (principalRoleImpl (principalToMap (Some p)) (AStr r) \<longleftrightarrow> r \<in> set (gp_roles p))"
proof (intro conjI)
  show "hasColumnImpl (tableMetadataToMap (Some m)) (AStr n) \<longleftrightarrow> n \<in> jsonText ` sf_name ` set (tm_schema m)"
    by (auto simp: binding_defs table_projection jsonVal_schema jsonVal_field list_ex_iff)
  show "hasPartitionImpl (tableMetadataToMap (Some m)) (AStr n) \<longleftrightarrow>
      n \<in> jsonText ` pf_name ` set (ps_fields (tm_spec m))"
    by (auto simp: binding_defs table_projection jsonVal_spec jsonVal_partition_field list_ex_iff)
  show "principalRoleImpl (principalToMap (Some p)) (AStr r) \<longleftrightarrow> r \<in> set (gp_roles p)"
    by (auto simp: binding_defs principalToMap_def list_ex_iff)
qed

text \<open>
  The other four bindings find nothing in the gateway's projections: the table has no
  \<open>columns\<close> or \<open>classifications\<close>, so \<open>classification_satisfied\<close> is false for every table and
  pattern; its \<open>partition_spec\<close> has no string entry; the commit has no \<open>location_region\<close>; and the
  principal has no \<open>claims\<close>, so without a resolver every attribute is empty and a resolver is
  called with no claims at all.
\<close>

theorem projection_starves_bindings:
  "\<not> classificationSatisfiedImpl re [tableMetadataToMap mo, pat, tag] \<and>
   partitionSpecImpl (tableMetadataToMap mo) = [] \<and>
   locationRegionImpl (commitRequestToMap c) = [] \<and>
   principalAttributeEval None [principalToMap po, AStr n] = [] \<and>
   principalAttributeEval (Some resolve) [principalToMap (Some p), AStr n] = resolve (gp_sub p) n Map.empty"
proof (intro conjI)
  have empty: "tableMetadataToMap None = AMap []" by (simp add: tableMetadataToMap_def)
  have "field asList ''classifications'' t = None" if "asMap (tableMetadataToMap mo) = Some t" for t
    using that by (cases mo) (auto simp: table_projection empty field_def)
  then show "\<not> classificationSatisfiedImpl re [tableMetadataToMap mo, pat, tag]"
    by (auto simp: classificationSatisfiedImpl_def split: option.split)
  show "partitionSpecImpl (tableMetadataToMap mo) = []"
    by (cases mo) (auto simp: partitionSpecImpl_def table_projection empty jsonVal_spec field_def
        stringEntries_def List.map_filter_def)
  show "locationRegionImpl (commitRequestToMap c) = []"
    by (simp add: locationRegionImpl_def commitRequestToMap_def strOr_def)
  show "principalAttributeEval None [principalToMap po, AStr n] = []"
    by (cases po) (simp_all add: principalAttributeEval_def principalToMap_def principalAttributeLayer1_def field_def)
  show "principalAttributeEval (Some resolve) [principalToMap (Some p), AStr n] = resolve (gp_sub p) n Map.empty"
    by (simp add: principalAttributeEval_def principalToMap_def principalSubFromMap_def
        oidcClaimsFromPrincipal_def field_def strOr_def)
qed

lemma bitLength_bound: "m < 2 ^ k \<Longrightarrow> bitLength m \<le> k"
proof (induction k arbitrary: m)
  case (Suc k)
  show ?case
  proof (cases "m = 0")
    case False
    have "m div 2 < 2 ^ k" using Suc.prems by auto
    then show ?thesis using Suc.IH [of "m div 2"] bitLength.simps [of m] by simp
  qed (simp add: bitLength.simps)
qed (simp add: bitLength.simps)

lemma float64_exact: "\<bar>n\<bar> < 2 ^ 53 \<Longrightarrow> float64_of_int n = n"
proof -
  assume "\<bar>n\<bar> < 2 ^ 53"
  then have "nat \<bar>n\<bar> < 2 ^ 53" by simp
  from bitLength_bound [OF this] have "roundSig (nat \<bar>n\<bar>) = nat \<bar>n\<bar>" by (simp add: roundSig_def)
  then show ?thesis by (simp add: float64_of_int_def sgn_mult_abs)
qed

end
