(* ===== verification/Gateway.thy ===== *)
theory Gateway
  imports Gateway_Inputs
begin

text \<open>
  The commit gateway (\<open>internal/gateway/iceberg\<close>): audit emission (\<open>audit.go\<close>), the
  write-coordinator hook (\<open>writecoordinator.go\<close>), the single-table and multi-table commit handlers
  (\<open>handler.go\<close>, \<open>multi_table.go\<close>) and the snapshot ingest they call (\<open>internal/ingest/snapshot.go\<close>).

  The upstream catalog is a parameter: an adapter reads tables from, and commits to, an upstream
  state. So are the decoded request bodies, the unverified JWT parser, the JSON text of the
  audit payload, the fresh commit ids and the clock (functions of the database they are drawn
  at), and the two stores that other editions of the program provide.
\<close>

section \<open>Outcomes\<close>

text \<open>An answer with its status, or a panic that leaves the handler.\<close>

datatype reply = Reply nat | Crash string

record commit_result =
  res_accepted :: string
  res_location :: string
  res_snapshot :: int

datatype load_error = ErrTableNotFound | ErrLoadCredentialsExpired | LoadFailed string
datatype commit_error = ErrCommitConflict | CommitFailed string

text \<open>The adapter of a catalog; a conflict policy in the request context reaches the commit.\<close>

record 'up adapter =
  ad_load :: "table_ref \<Rightarrow> 'up \<Rightarrow> load_error + table_metadata option"
  ad_commit :: "string option \<Rightarrow> table_ref \<Rightarrow> commit_request \<Rightarrow> 'up \<Rightarrow> (commit_error + commit_result option) \<times> 'up"

record ('db, 'up, 'ast, 'prog) gw_deps =
  gd_pg :: "'db pg"
  gd_engine :: "('ast, 'prog) cel_engine"
  gd_regex :: "string \<Rightarrow> (string \<Rightarrow> bool) option"
  gd_add :: "cel_key \<Rightarrow> 'prog \<Rightarrow> 'prog prog_cache \<Rightarrow> 'prog prog_cache"
  gd_adapter :: "credentials \<Rightarrow> string + 'up adapter"
  gd_resolver :: "attribute_resolver option"
  gd_conflicts :: "(table_ref \<Rightarrow> string + string) option"
  gd_specs :: "(table_ref \<Rightarrow> string + partition_spec option) option"
  gd_jwt :: "string \<Rightarrow> (string \<times> go_any) list option"
  gd_decode :: "string \<Rightarrow> commit_request option"
  gd_decode_multi :: "string \<Rightarrow> (table_ref \<times> commit_request) list option"
  gd_payload :: "gw_principal \<Rightarrow> table_ref \<Rightarrow> string \<Rightarrow> string"
  gd_uuid :: "'db \<Rightarrow> string"
  gd_now :: "'db \<Rightarrow> string"
  gd_millis :: "'db \<Rightarrow> int"
  gd_rfc3339 :: "int \<Rightarrow> string"

record ('db, 'up, 'prog) world =
  w_db :: 'db
  w_up :: 'up
  w_progs :: "'prog prog_cache"
  w_rejected :: "string list"

record gw_request =
  rq_method :: string
  rq_prefix :: string
  rq_namespace :: string
  rq_table :: string
  rq_cert :: "(string list \<times> string list) option"
  rq_authz :: string
  rq_agent :: string
  rq_body :: "string option"

definition identifierMatch :: "string \<Rightarrow> bool" where
  "identifierMatch s \<longleftrightarrow> s \<noteq> [] \<and> list_all (\<lambda>c. isWordChar c \<or> c = CHR ''-'') s"

definition maxCommitBodyBytes :: nat where
  "maxCommitBodyBytes = 16 * 2 ^ 20"

section \<open>Audit\<close>

definition mergeWriteEvent :: "string list \<Rightarrow> string \<Rightarrow> string" where
  "mergeWriteEvent lits now =
     (case lits of
        [commitID, tenantID, sub, snap, decision, reason, source] \<Rightarrow>
          ''MERGE (we:WriteEvent {commit_id: '' @ cyLit commitID @ '', tenant_id: '' @ cyLit tenantID @
          ''}) WITH we SET we.committer = COALESCE(we.committer, '' @ cyLit sub @
          ''), we.snapshot_id = COALESCE(we.snapshot_id, '' @ cyLit snap @
          ''), we.decision = COALESCE(we.decision, '' @ cyLit decision @
          ''), we.policy_version = COALESCE(we.policy_version, '' @ cyLit ''v1'' @
          ''), we.reason = COALESCE(we.reason, '' @ cyLit reason @
          ''), we.created_at = COALESCE(we.created_at, '' @ cyLit now @
          ''), we.principal_source = COALESCE(we.principal_source, '' @ cyLit source @ '') RETURN id(we)''
      | _ \<Rightarrow> [])"

definition mergePerson :: "string \<Rightarrow> string \<Rightarrow> string" where
  "mergePerson sub tid = ''MERGE (p:Person {sub: '' @ cyLit sub @ '', tenant_id: '' @ cyLit tid @ ''}) RETURN id(p)''"

definition mergeTableNode :: "string \<Rightarrow> string \<Rightarrow> string \<Rightarrow> string" where
  "mergeTableNode name ns tid =
     ''MERGE (t:Table {name: '' @ cyLit name @ '', namespace: '' @ cyLit ns @ '', tenant_id: '' @ cyLit tid @
     ''}) RETURN id(t)''"

definition mergeIntendedEdge :: "string \<Rightarrow> string \<Rightarrow> string \<Rightarrow> string \<Rightarrow> string \<Rightarrow> string" where
  "mergeIntendedEdge sub name ns tid now =
     ''MATCH (p:Person {sub: '' @ cyLit sub @ ''}), (t:Table {name: '' @ cyLit name @ '', namespace: '' @ cyLit ns @
     ''}) MERGE (p)-[r:INTENDED_WRITE {tenant_id: '' @ cyLit tid @
     ''}]->(t) WITH r SET r.first_at = COALESCE(r.first_at, '' @ cyLit now @ ''), r.last_at = '' @ cyLit now @
     '' RETURN id(r)''"

definition mergeSnapshotNode :: "string \<Rightarrow> string \<Rightarrow> string" where
  "mergeSnapshotNode loc tid =
     ''MERGE (s:Snapshot {metadata_location: '' @ cyLit loc @ '', tenant_id: '' @ cyLit tid @ ''}) RETURN id(s)''"

definition mergeActualEdge :: "string \<Rightarrow> string \<Rightarrow> string \<Rightarrow> string \<Rightarrow> string \<Rightarrow> string" where
  "mergeActualEdge loc name ns tid now =
     ''MATCH (s:Snapshot {metadata_location: '' @ cyLit loc @ ''}), (t:Table {name: '' @ cyLit name @
     '', namespace: '' @ cyLit ns @ ''}) MERGE (s)-[r:ACTUAL_WRITE {tenant_id: '' @ cyLit tid @
     ''}]->(t) WITH r SET r.at = COALESCE(r.at, '' @ cyLit now @ '') RETURN id(r)''"

definition auditInsertSQL :: "string \<Rightarrow> string" where
  "auditInsertSQL tid =
     ''INSERT INTO '' @ sanitizeIdent [SchemaName tid, ''audit_log''] @
     '' (occurred_at, actor_user_id, event_type, payload, decision, principal_source, commit_request_hash) VALUES (now(), $1, '' @
     cyLit ''iceberg_commit'' @ '', $2::jsonb, $3, $4, $5)''"

definition execAGE :: "'db pg \<Rightarrow> string \<Rightarrow> 'db \<Rightarrow> graph_error + 'db" where
  "execAGE pg cy db =
     rbind (txQuery pg (cypherStatement cy ''result ag_catalog.agtype'') [] db) (\<lambda>(_, db'). Inr db')"

definition hashCommitBody :: "string \<Rightarrow> nat list" where
  "hashCommitBody body = Sum256 body"

text \<open>Step 5 of the emission: the edge of the accepted snapshot, only for an approved commit.\<close>

definition emitActualWrite ::
  "'db pg \<Rightarrow> string \<Rightarrow> table_ref \<Rightarrow> string \<Rightarrow> commit_result option \<Rightarrow> string \<Rightarrow> 'db \<Rightarrow> graph_error + 'db" where
  "emitActualWrite pg tid ref decision result now db =
     (case result of
        Some res \<Rightarrow>
          if decision = ''APPROVED'' \<and> res_location res \<noteq> []
          then rbind (traverse MustSanitizeCypherLiteral [res_location res, tid]) (\<lambda>_.
               rbind (execAGE pg (mergeSnapshotNode (res_location res) tid) db) (\<lambda>db1.
               rbind (traverse MustSanitizeCypherLiteral
                 [res_location res, tr_name ref, joinNamespace (tr_namespace ref), tid]) (\<lambda>_.
               execAGE pg (mergeActualEdge (res_location res) (tr_name ref) (joinNamespace (tr_namespace ref)) tid now) db1)))
          else Inr db
      | None \<Rightarrow> Inr db)"

definition EmitWriteEvent ::
  "('db, 'up, 'ast, 'prog) gw_deps \<Rightarrow> string option \<Rightarrow> table_ref \<Rightarrow> string \<Rightarrow> gw_principal \<Rightarrow> gw_source \<Rightarrow>
   nat list \<Rightarrow> commit_result option \<Rightarrow> string \<Rightarrow> 'db \<Rightarrow> (graph_error + unit) \<times> 'db" where
  "EmitWriteEvent deps tenant ref decision prin psrc bodyHash result reason db =
     (case tenant of
        None \<Rightarrow> (Inl ErrTenantMissing, db)
      | Some tid \<Rightarrow>
         let pg = gd_pg deps; sub = gp_sub prin; ns = joinNamespace (tr_namespace ref);
             snap = (case result of None \<Rightarrow> [] | Some res \<Rightarrow> itoaInt (res_snapshot res));
             now = gd_now deps db in
         ExecuteInTenant pg tid (\<lambda>db0.
           rbind (traverse MustSanitizeCypherLiteral
             [gd_uuid deps db, tid, sub, snap, decision, reason, sourceText psrc]) (\<lambda>lits.
           rbind (execAGE pg (mergeWriteEvent lits now) db0) (\<lambda>db1.
           rbind (traverse MustSanitizeCypherLiteral [sub, tid]) (\<lambda>_.
           rbind (execAGE pg (mergePerson sub tid) db1) (\<lambda>db2.
           rbind (traverse MustSanitizeCypherLiteral [tr_name ref, ns, tid]) (\<lambda>_.
           rbind (execAGE pg (mergeTableNode (tr_name ref) ns tid) db2) (\<lambda>db3.
           rbind (traverse MustSanitizeCypherLiteral [sub, tr_name ref, ns, tid]) (\<lambda>_.
           rbind (execAGE pg (mergeIntendedEdge sub (tr_name ref) ns tid now) db3) (\<lambda>db4.
           rbind (emitActualWrite pg tid ref decision result now db4) (\<lambda>db5.
           rbind (txQuery pg (auditInsertSQL tid)
             [sub, gd_payload deps prin ref reason, decision, sourceText psrc, map char_of bodyHash] db5) (\<lambda>(_, db6).
             Inr ((), db6)))))))))))) db)"

section \<open>Snapshot ingest\<close>

definition mergeSnapshotCypher :: "string \<Rightarrow> string \<Rightarrow> int \<Rightarrow> int \<Rightarrow> string \<Rightarrow> string \<Rightarrow> string" where
  "mergeSnapshotCypher loc tid sid psid committedAt oper =
     ''MERGE (s:Snapshot {metadata_location: '' @ cyLit loc @ '', tenant_id: '' @ cyLit tid @
     ''}) WITH s SET s.snapshot_id = COALESCE(s.snapshot_id, '' @ itoaInt sid @
     ''), s.parent_snap_id = COALESCE(s.parent_snap_id, '' @ itoaInt psid @
     ''), s.committed_at = COALESCE(s.committed_at, '' @ cyLit committedAt @
     ''), s.operation = COALESCE(s.operation, '' @ cyLit oper @ ''), s.last_seen_at = '' @ cyLit committedAt @
     '' RETURN id(s)''"

definition MergeSnapshot ::
  "('db, 'up, 'ast, 'prog) gw_deps \<Rightarrow> string \<Rightarrow> snapshot \<Rightarrow> 'db \<Rightarrow> (graph_error + unit) \<times> 'db" where
  "MergeSnapshot deps tid snap db =
     (if sn_location snap = [] then (Inl (Rejected ''empty metadata_location''), db)
      else case traverse SanitizeCypherLiteral [sn_location snap, tid, sn_operation snap] of
        Inl e \<Rightarrow> (Inl e, db)
      | Inr _ \<Rightarrow>
          ExecuteInTenant (gd_pg deps) tid (\<lambda>db0.
            rbind (execAGE (gd_pg deps) (mergeSnapshotCypher (sn_location snap) tid (sn_id snap) (sn_parent snap)
              (gd_rfc3339 deps (sn_timestamp snap)) (sn_operation snap)) db0) (\<lambda>db1. Inr ((), db1))) db)"

definition ingestResult ::
  "('db, 'up, 'ast, 'prog) gw_deps \<Rightarrow> string \<Rightarrow> commit_result option \<Rightarrow> 'db \<Rightarrow> 'db" where
  "ingestResult deps tid result db =
     (case result of
        None \<Rightarrow> db
      | Some res \<Rightarrow>
          if res_location res = [] then db
          else snd (MergeSnapshot deps tid
            \<lparr>sn_id = res_snapshot res, sn_parent = 0, sn_timestamp = gd_millis deps db, sn_operation = ''commit'',
             sn_manifests = [], sn_summary = [], sn_location = res_location res\<rparr> db))"

section \<open>Write coordinator\<close>

definition detectEngineKind :: "string \<Rightarrow> string" where
  "detectEngineKind agent =
     (let ua = toLowerAscii agent in
      if str_contains ua ''trino'' then ''trino''
      else if str_contains ua ''dremio'' then ''dremio''
      else if str_contains ua ''iceberg-spark'' \<or> str_contains ua ''spark'' then ''spark''
      else [])"

definition specMatches :: "partition_spec \<Rightarrow> partition_spec option \<Rightarrow> bool" where
  "specMatches commit active =
     (case active of None \<Rightarrow> True | Some a \<Rightarrow> ps_id a = 0 \<or> ps_id commit = ps_id a)"

datatype coordinator_error = ErrPartitionSpecMismatch | StoreFailed string

text \<open>The result is the conflict policy the request context then carries.\<close>

definition WriteCoordinatorPreCommit ::
  "('db, 'up, 'ast, 'prog) gw_deps \<Rightarrow> string \<Rightarrow> table_ref \<Rightarrow> table_metadata option \<Rightarrow>
   coordinator_error + string option" where
  "WriteCoordinatorPreCommit deps engineKind ref current =
     (if engineKind \<noteq> ''trino'' \<and> engineKind \<noteq> ''dremio'' then Inr None
      else
        rbind (case gd_specs deps of
                 None \<Rightarrow> Inr ()
               | Some loadActive \<Rightarrow>
                  (case loadActive ref of
                     Inl e \<Rightarrow> Inl (StoreFailed e)
                   | Inr active \<Rightarrow>
                      if specMatches (case current of None \<Rightarrow> \<lparr>ps_id = 0, ps_fields = []\<rparr> | Some m \<Rightarrow> tm_spec m) active
                      then Inr () else Inl ErrPartitionSpecMismatch)) (\<lambda>_.
        case gd_conflicts deps of
          None \<Rightarrow> Inr None
        | Some loadFor \<Rightarrow>
           (case loadFor ref of Inl e \<Rightarrow> Inl (StoreFailed e) | Inr pol \<Rightarrow> Inr (Some pol))))"

section \<open>Handlers\<close>

definition ReasonPolicyEngineUnavailable :: string where
  "ReasonPolicyEngineUnavailable = ''policy_engine_unavailable''"
definition ReasonPolicyDenied :: string where
  "ReasonPolicyDenied = ''policy_denied''"
definition ReasonPolicyPartitionSpecMismatch :: string where
  "ReasonPolicyPartitionSpecMismatch = ''policy_partition_spec_mismatch''"

definition countRejected :: "string \<Rightarrow> ('db, 'up, 'prog) world \<Rightarrow> ('db, 'up, 'prog) world" where
  "countRejected reason w = w\<lparr>w_rejected := w_rejected w @ [reason]\<rparr>"

datatype gate_verdict = GateAllow | GateUnavailable | GateDeny string

text \<open>The evaluation loop: the first error or denial ends it.\<close>

fun evalPolicies ::
  "('db, 'up, 'ast, 'prog) gw_deps \<Rightarrow> inputs \<Rightarrow> cel_policy list \<Rightarrow> 'prog prog_cache \<Rightarrow> gate_verdict \<times> 'prog prog_cache" where
  "evalPolicies deps inp [] c = (GateAllow, c)"
| "evalPolicies deps inp (p # ps) c =
     (case Evaluate (gd_engine deps) (gd_regex deps) (gd_add deps) p inp c of
        (Inl e, c') \<Rightarrow> (GateUnavailable, c')
      | (Inr d, c') \<Rightarrow>
          if dec_action d = ActionDeny then (GateDeny (dec_reason d), c') else evalPolicies deps inp ps c')"

definition inputsFor ::
  "('db, 'up, 'ast, 'prog) gw_deps \<Rightarrow> table_metadata option \<Rightarrow> commit_request \<Rightarrow> gw_principal \<Rightarrow> inputs" where
  "inputsFor deps meta commit prin =
     \<lparr>in_table = tableMetadataToMap meta, in_commit = commitRequestToMap commit,
      in_principal = principalToMap (Some prin), in_resolver = gd_resolver deps\<rparr>"

text \<open>Policy fetch and evaluation of one table: \<open>None\<close> when the commit may go on.\<close>

definition policyGate ::
  "('db, 'up, 'ast, 'prog) gw_deps \<Rightarrow> string option \<Rightarrow> table_ref \<Rightarrow> commit_request \<Rightarrow> table_metadata option \<Rightarrow>
   gw_principal \<Rightarrow> gw_source \<Rightarrow> nat list \<Rightarrow> ('db, 'up, 'prog) world \<Rightarrow> reply option \<times> ('db, 'up, 'prog) world" where
  "policyGate deps tenant ref commit meta prin psrc bodyHash w =
     (case LoadPoliciesForTable (gd_pg deps) tenant ref (w_db w) of
        (Inl e, db1) \<Rightarrow> (Some (Reply 503), countRejected ReasonPolicyEngineUnavailable (w\<lparr>w_db := db1\<rparr>))
      | (Inr policies, db1) \<Rightarrow>
         (case evalPolicies deps (inputsFor deps meta commit prin) policies (w_progs w) of
            (GateAllow, c1) \<Rightarrow> (None, w\<lparr>w_db := db1, w_progs := c1\<rparr>)
          | (GateUnavailable, c1) \<Rightarrow>
              (Some (Reply 503), countRejected ReasonPolicyEngineUnavailable (w\<lparr>w_db := db1, w_progs := c1\<rparr>))
          | (GateDeny reason, c1) \<Rightarrow>
             (case EmitWriteEvent deps tenant ref ''REJECTED'' prin psrc bodyHash None reason db1 of
                (Inl (Panic m), db2) \<Rightarrow>
                  (Some (Crash m), countRejected ReasonPolicyDenied (w\<lparr>w_db := db2, w_progs := c1\<rparr>))
              | (Inl e, db2) \<Rightarrow>
                  (Some (Reply 503), countRejected ReasonPolicyEngineUnavailable
                    (countRejected ReasonPolicyDenied (w\<lparr>w_db := db2, w_progs := c1\<rparr>)))
              | (Inr _, db2) \<Rightarrow>
                  (Some (Reply 403), countRejected ReasonPolicyDenied (w\<lparr>w_db := db2, w_progs := c1\<rparr>)))))"

text \<open>
  Forwarding one commit: the upstream commit, the audit of the approval and the best-effort
  ingest. Only the single-table handler reads the result for its log line when the audit
  fails (\<open>logsResult\<close>), which panics on a nil result.
\<close>

definition forwardCommit ::
  "bool \<Rightarrow> ('db, 'up, 'ast, 'prog) gw_deps \<Rightarrow> 'up adapter \<Rightarrow> string option \<Rightarrow> string \<Rightarrow> table_ref \<Rightarrow> commit_request \<Rightarrow>
   gw_principal \<Rightarrow> gw_source \<Rightarrow> nat list \<Rightarrow> ('db, 'up, 'prog) world \<Rightarrow> reply option \<times> ('db, 'up, 'prog) world" where
  "forwardCommit logsResult deps ad conflict tid ref commit prin psrc bodyHash w =
     (case ad_commit ad conflict ref commit (w_up w) of
        (Inl ErrCommitConflict, up1) \<Rightarrow> (Some (Reply 409), w\<lparr>w_up := up1\<rparr>)
      | (Inl (CommitFailed e), up1) \<Rightarrow> (Some (Reply 502), w\<lparr>w_up := up1\<rparr>)
      | (Inr result, up1) \<Rightarrow>
         (case EmitWriteEvent deps (Some tid) ref ''APPROVED'' prin psrc bodyHash result [] (w_db w) of
            (Inl (Panic m), db1) \<Rightarrow> (Some (Crash m), w\<lparr>w_up := up1, w_db := db1\<rparr>)
          | (audit, db1) \<Rightarrow>
              if logsResult \<and> isl audit \<and> result = None
              then (Some (Crash ''nil pointer dereference''), w\<lparr>w_up := up1, w_db := db1\<rparr>)
              else (None, w\<lparr>w_up := up1, w_db := ingestResult deps tid result db1\<rparr>)))"

definition loadStatus :: "load_error \<Rightarrow> nat" where
  "loadStatus e = (case e of ErrTableNotFound \<Rightarrow> 404 | ErrLoadCredentialsExpired \<Rightarrow> 401 | LoadFailed _ \<Rightarrow> 502)"

text \<open>Steps 0 to 4, shared by both handlers: tenant, principal, source and body.\<close>

definition openRequest ::
  "('db, 'up, 'ast, 'prog) gw_deps \<Rightarrow> string option \<Rightarrow> gw_request \<Rightarrow> string list \<Rightarrow>
   nat + (string \<times> gw_principal \<times> gw_source \<times> string)" where
  "openRequest deps tenant rq idents =
     (if rq_method rq \<noteq> ''POST'' then Inl 405
      else case tenant of
        None \<Rightarrow> Inl 500
      | Some tid \<Rightarrow>
          if \<not> list_all identifierMatch idents then Inl 400
          else (case ExtractPrincipal (gd_jwt deps) (rq_cert rq) (rq_authz rq) tenant of
            None \<Rightarrow> Inl 401
          | Some (prin, psrc) \<Rightarrow>
              if \<not> validatePrincipalNotEmpty prin then Inl 401
              else (case rq_body rq of
                None \<Rightarrow> Inl 400
              | Some body \<Rightarrow>
                  if length body > maxCommitBodyBytes then Inl 400 else Inr (tid, prin, psrc, body))))"

text \<open>Steps 6 and 7: credentials and adapter.\<close>

definition openAdapter ::
  "('db, 'up, 'ast, 'prog) gw_deps \<Rightarrow> string option \<Rightarrow> string \<Rightarrow> 'db \<Rightarrow> (nat + 'up adapter) \<times> 'db" where
  "openAdapter deps tenant nick db =
     (case GetCatalogCredentials (gd_pg deps) tenant nick db of
        (Inl ErrCredentialsNotFound, db1) \<Rightarrow> (Inl 404, db1)
      | (Inl (CredTransport e), db1) \<Rightarrow> (Inl 500, db1)
      | (Inr cr, db1) \<Rightarrow>
         (case gd_adapter deps cr of Inl e \<Rightarrow> (Inl 500, db1) | Inr ad \<Rightarrow> (Inr ad, db1)))"

definition coordinate ::
  "('db, 'up, 'ast, 'prog) gw_deps \<Rightarrow> string \<Rightarrow> table_ref \<Rightarrow> table_metadata option \<Rightarrow> ('db, 'up, 'prog) world \<Rightarrow>
   (reply + string option) \<times> ('db, 'up, 'prog) world" where
  "coordinate deps agent ref meta w =
     (if gd_conflicts deps = None \<and> gd_specs deps = None then (Inr None, w)
      else case WriteCoordinatorPreCommit deps (detectEngineKind agent) ref meta of
        Inl ErrPartitionSpecMismatch \<Rightarrow> (Inl (Reply 403), countRejected ReasonPolicyPartitionSpecMismatch w)
      | Inl (StoreFailed e) \<Rightarrow> (Inl (Reply 503), countRejected ReasonPolicyEngineUnavailable w)
      | Inr conflict \<Rightarrow> (Inr conflict, w))"

definition CommitHandler ::
  "('db, 'up, 'ast, 'prog) gw_deps \<Rightarrow> string option \<Rightarrow> gw_request \<Rightarrow> ('db, 'up, 'prog) world \<Rightarrow>
   reply \<times> ('db, 'up, 'prog) world" where
  "CommitHandler deps tenant rq w =
     (case openRequest deps tenant rq [rq_prefix rq, rq_namespace rq, rq_table rq] of
        Inl st \<Rightarrow> (Reply st, w)
      | Inr (tid, prin, psrc, body) \<Rightarrow>
         let ref = \<lparr>tr_namespace = [rq_namespace rq], tr_name = rq_table rq\<rparr>; bodyHash = hashCommitBody body in
         (case gd_decode deps body of
            None \<Rightarrow> (Reply 400, w)
          | Some commit \<Rightarrow>
             (case openAdapter deps tenant (rq_prefix rq) (w_db w) of
                (Inl st, db1) \<Rightarrow> (Reply st, w\<lparr>w_db := db1\<rparr>)
              | (Inr ad, db1) \<Rightarrow>
                 (case ad_load ad ref (w_up w) of
                    Inl e \<Rightarrow> (Reply (loadStatus e), w\<lparr>w_db := db1\<rparr>)
                  | Inr meta \<Rightarrow>
                     (case coordinate deps (rq_agent rq) ref meta (w\<lparr>w_db := db1\<rparr>) of
                        (Inl r, w1) \<Rightarrow> (r, w1)
                      | (Inr conflict, w1) \<Rightarrow>
                         (case policyGate deps tenant ref commit meta prin psrc bodyHash w1 of
                            (Some r, w2) \<Rightarrow> (r, w2)
                          | (None, w2) \<Rightarrow>
                             (case forwardCommit True deps ad conflict tid ref commit prin psrc bodyHash w2 of
                                (Some r, w3) \<Rightarrow> (r, w3)
                              | (None, w3) \<Rightarrow> (Reply 200, w3))))))))"

text \<open>The policy gate of every table of a transaction, before any forward.\<close>

fun gateAll ::
  "('db, 'up, 'ast, 'prog) gw_deps \<Rightarrow> 'up adapter \<Rightarrow> string option \<Rightarrow> gw_principal \<Rightarrow> gw_source \<Rightarrow> nat list \<Rightarrow>
   (table_ref \<times> commit_request) list \<Rightarrow> ('db, 'up, 'prog) world \<Rightarrow> reply option \<times> ('db, 'up, 'prog) world" where
  "gateAll deps ad tenant prin psrc bodyHash [] w = (None, w)"
| "gateAll deps ad tenant prin psrc bodyHash ((ref, commit) # tcs) w =
     (if \<not> identifierMatch (tr_name ref) \<or> \<not> list_all identifierMatch (tr_namespace ref) then (Some (Reply 400), w)
      else case ad_load ad ref (w_up w) of
        Inl e \<Rightarrow> (Some (Reply (loadStatus e)), w)
      | Inr meta \<Rightarrow>
         (case policyGate deps tenant ref commit meta prin psrc bodyHash w of
            (Some r, w1) \<Rightarrow> (Some r, w1)
          | (None, w1) \<Rightarrow> gateAll deps ad tenant prin psrc bodyHash tcs w1))"

fun forwardAll ::
  "('db, 'up, 'ast, 'prog) gw_deps \<Rightarrow> 'up adapter \<Rightarrow> string \<Rightarrow> gw_principal \<Rightarrow> gw_source \<Rightarrow> nat list \<Rightarrow>
   (table_ref \<times> commit_request) list \<Rightarrow> ('db, 'up, 'prog) world \<Rightarrow> reply \<times> ('db, 'up, 'prog) world" where
  "forwardAll deps ad tid prin psrc bodyHash [] w = (Reply 200, w)"
| "forwardAll deps ad tid prin psrc bodyHash ((ref, commit) # tcs) w =
     (case forwardCommit False deps ad None tid ref commit prin psrc bodyHash w of
        (Some r, w1) \<Rightarrow> (r, w1)
      | (None, w1) \<Rightarrow> forwardAll deps ad tid prin psrc bodyHash tcs w1)"

definition MultiTableCommitHandler ::
  "('db, 'up, 'ast, 'prog) gw_deps \<Rightarrow> string option \<Rightarrow> gw_request \<Rightarrow> ('db, 'up, 'prog) world \<Rightarrow>
   reply \<times> ('db, 'up, 'prog) world" where
  "MultiTableCommitHandler deps tenant rq w =
     (case openRequest deps tenant rq [rq_prefix rq] of
        Inl st \<Rightarrow> (Reply st, w)
      | Inr (tid, prin, psrc, body) \<Rightarrow>
         let bodyHash = hashCommitBody body in
         (case gd_decode_multi deps body of
            None \<Rightarrow> (Reply 400, w)
          | Some [] \<Rightarrow> (Reply 400, w)
          | Some changes \<Rightarrow>
             (case openAdapter deps tenant (rq_prefix rq) (w_db w) of
                (Inl st, db1) \<Rightarrow> (Reply st, w\<lparr>w_db := db1\<rparr>)
              | (Inr ad, db1) \<Rightarrow>
                 (case gateAll deps ad tenant prin psrc bodyHash changes (w\<lparr>w_db := db1\<rparr>) of
                    (Some r, w1) \<Rightarrow> (r, w1)
                  | (None, w1) \<Rightarrow> forwardAll deps ad tid prin psrc bodyHash changes w1))))"

section \<open>Only authorised commits are forwarded\<close>

definition allows :: "('db, 'up, 'ast, 'prog) gw_deps \<Rightarrow> inputs \<Rightarrow> cel_policy \<Rightarrow> bool" where
  "allows deps inp p \<longleftrightarrow> (\<exists>src prog. Sum256 src = Sum256 (pol_text p) \<and> buildProgram (gd_engine deps) src = Inr prog \<and>
     ce_eval (gd_engine deps) prog (celBinding (gd_regex deps) (in_resolver inp)) (activationOf inp) = EvalValue (ABool True))"

abbreviation progs_ok :: "('db, 'up, 'ast, 'prog) gw_deps \<Rightarrow> 'prog prog_cache \<Rightarrow> bool" where
  "progs_ok deps c \<equiv> cache_sound (built_from (gd_engine deps)) c"

lemma evalPolicies_sound:
  assumes "lru_add (gd_add deps)" "progs_ok deps c" "evalPolicies deps inp ps c = (v, c')"
  shows "progs_ok deps c' \<and> (v = GateAllow \<longrightarrow> (\<forall>p \<in> set ps. allows deps inp p))"
  using assms(2,3)
proof (induction ps arbitrary: c)
  case (Cons p ps)
  obtain r c1 where e: "Evaluate (gd_engine deps) (gd_regex deps) (gd_add deps) p inp c = (r, c1)"
    by (cases "Evaluate (gd_engine deps) (gd_regex deps) (gd_add deps) p inp c")
  note sound = Evaluate_sound [OF assms(1) Cons.prems(1) e]
  show ?case
  proof (cases r)
    case (Inl err)
    with sound Cons.prems e show ?thesis by auto
  next
    case (Inr d)
    show ?thesis
    proof (cases "dec_action d = ActionDeny")
      case True
      with Inr sound Cons.prems e show ?thesis by auto
    next
      case False
      with sound Inr have "allows deps inp p" "progs_ok deps c1"
        by (auto simp: allows_def verdict_def split: if_split_asm)
      moreover from False Inr e Cons.prems have "evalPolicies deps inp ps c1 = (v, c')" by simp
      ultimately show ?thesis using Cons.IH by auto
    qed
  qed
qed simp

lemma countRejected_simps [simp]:
  "w_up (countRejected r w) = w_up w" "w_db (countRejected r w) = w_db w"
  "w_progs (countRejected r w) = w_progs w" "w_rejected (countRejected r w) = w_rejected w @ [r]"
  by (simp_all add: countRejected_def)

text \<open>The outcomes of the gate: it never touches the catalog.\<close>

lemma policyGate_sound:
  assumes "lru_add (gd_add deps)" "progs_ok deps (w_progs w)"
    "policyGate deps tenant ref commit meta prin psrc h w = (r, w')"
  shows "w_up w' = w_up w \<and> progs_ok deps (w_progs w')"
    and "r = None \<Longrightarrow> \<exists>policies. LoadPoliciesForTable (gd_pg deps) tenant ref (w_db w) = (Inr policies, w_db w') \<and>
      (\<forall>p \<in> set policies. allows deps (inputsFor deps meta commit prin) p)"
    and "r \<noteq> Some (Reply 200)"
proof -
  obtain l db1 where l: "LoadPoliciesForTable (gd_pg deps) tenant ref (w_db w) = (l, db1)" by fastforce
  show "w_up w' = w_up w \<and> progs_ok deps (w_progs w')"
  proof (cases l)
    case (Inr policies)
    obtain v c1 where v: "evalPolicies deps (inputsFor deps meta commit prin) policies (w_progs w) = (v, c1)" by fastforce
    from evalPolicies_sound [OF assms(1,2) v] Inr v l assms(3) show ?thesis
      by (auto simp: policyGate_def split: gate_verdict.split_asm prod.split_asm sum.split_asm graph_error.split_asm)
  qed (use assms l in \<open>auto simp: policyGate_def\<close>)
  show "\<exists>policies. LoadPoliciesForTable (gd_pg deps) tenant ref (w_db w) = (Inr policies, w_db w') \<and>
      (\<forall>p \<in> set policies. allows deps (inputsFor deps meta commit prin) p)" if "r = None"
  proof -
    from that assms(3) l obtain policies where p: "l = Inr policies"
      by (cases l) (auto simp: policyGate_def)
    obtain v c1 where v: "evalPolicies deps (inputsFor deps meta commit prin) policies (w_progs w) = (v, c1)" by fastforce
    from that p l v assms(3) have "v = GateAllow" "w_db w' = db1"
      by (auto simp: policyGate_def split: gate_verdict.split_asm prod.split_asm sum.split_asm graph_error.split_asm)
    with evalPolicies_sound [OF assms(1,2) v] l p show ?thesis by auto
  qed
  show "r \<noteq> Some (Reply 200)"
    using assms(3)
    by (auto simp: policyGate_def split: gate_verdict.split_asm prod.split_asm sum.split_asm graph_error.split_asm)
qed

lemma coordinate_frame:
  "coordinate deps agent ref meta w = (r, w') \<Longrightarrow>
     w_up w' = w_up w \<and> w_db w' = w_db w \<and> w_progs w' = w_progs w \<and> r \<noteq> Inl (Reply 200)"
  by (auto simp: coordinate_def split: if_split_asm sum.split_asm coordinator_error.split_asm)

lemma forwardCommit_up:
  "forwardCommit b deps ad conflict tid ref commit prin psrc h w = (r, w') \<Longrightarrow>
     w_up w' = snd (ad_commit ad conflict ref commit (w_up w))"
  by (auto simp: forwardCommit_def split: prod.split_asm sum.split_asm commit_error.split_asm graph_error.split_asm if_split_asm)

lemma openRequest_ok:
  "openRequest deps tenant rq idents = Inr (tid, prin, psrc, body) \<Longrightarrow>
     rq_method rq = ''POST'' \<and> tenant = Some tid \<and> list_all identifierMatch idents \<and>
     ExtractPrincipal (gd_jwt deps) (rq_cert rq) (rq_authz rq) tenant = Some (prin, psrc) \<and>
     gp_sub prin \<noteq> [] \<and> rq_body rq = Some body \<and> length body \<le> maxCommitBodyBytes"
  by (auto simp: openRequest_def validatePrincipalNotEmpty_def
      split: if_split_asm option.split_asm prod.split_asm)

lemma openRequest_status [simp]:
  "openRequest deps tenant rq idents \<noteq> Inl 200" "openRequest deps tenant rq idents \<noteq> Inl 403"
  by (auto simp: openRequest_def split: if_split option.split prod.split)

lemma openAdapter_status [simp]:
  "openAdapter deps tenant nick db \<noteq> (Inl 200, db')" "openAdapter deps tenant nick db \<noteq> (Inl 403, db')"
  by (auto simp: openAdapter_def split: prod.split sum.split cred_error.split)

lemma loadStatus_values [simp]: "loadStatus e \<noteq> 200" "loadStatus e \<noteq> 403"
  by (simp_all add: loadStatus_def split: load_error.split)

definition commitRef :: "gw_request \<Rightarrow> table_ref" where
  "commitRef rq = \<lparr>tr_namespace = [rq_namespace rq], tr_name = rq_table rq\<rparr>"

text \<open>A run that changes the catalog or answers 200 or 403 got as far as the write coordinator.\<close>

lemma CommitHandler_reaches:
  assumes run: "CommitHandler deps tenant rq w = (r, w')"
    and eff: "w_up w' \<noteq> w_up w \<or> r = Reply 200 \<or> r = Reply 403"
  obtains tid prin psrc body commit ad db1 meta where
    "openRequest deps tenant rq [rq_prefix rq, rq_namespace rq, rq_table rq] = Inr (tid, prin, psrc, body)"
    "gd_decode deps body = Some commit"
    "openAdapter deps tenant (rq_prefix rq) (w_db w) = (Inr ad, db1)"
    "ad_load ad (commitRef rq) (w_up w) = Inr meta"
    "(case coordinate deps (rq_agent rq) (commitRef rq) meta (w\<lparr>w_db := db1\<rparr>) of
        (Inl r1, w1) \<Rightarrow> (r1, w1)
      | (Inr conflict, w1) \<Rightarrow>
         (case policyGate deps tenant (commitRef rq) commit meta prin psrc (hashCommitBody body) w1 of
            (Some r2, w2) \<Rightarrow> (r2, w2)
          | (None, w2) \<Rightarrow>
             (case forwardCommit True deps ad conflict tid (commitRef rq) commit prin psrc (hashCommitBody body) w2 of
                (Some r3, w3) \<Rightarrow> (r3, w3)
              | (None, w3) \<Rightarrow> (Reply 200, w3)))) = (r, w')"
proof (cases "openRequest deps tenant rq [rq_prefix rq, rq_namespace rq, rq_table rq]")
  case (Inl st)
  with run eff show ?thesis by (auto simp: CommitHandler_def)
next
  case (Inr t)
  obtain tid prin psrc body where t: "t = (tid, prin, psrc, body)" by (cases t) auto
  note run' = run [unfolded CommitHandler_def Inr t sum.case prod.case Let_def, folded commitRef_def]
  show ?thesis
  proof (cases "gd_decode deps body")
    case None
    with run' eff show ?thesis by auto
  next
    case (Some commit)
    obtain x db1 where x: "openAdapter deps tenant (rq_prefix rq) (w_db w) = (x, db1)" by fastforce
    show ?thesis
    proof (cases x)
      case (Inl st)
      with run' eff Some x show ?thesis by auto
    next
      case x': (Inr ad)
      show ?thesis
      proof (cases "ad_load ad (commitRef rq) (w_up w)")
        case (Inl e)
        with run' eff Some x x' show ?thesis by auto
      next
        case m: (Inr meta)
        from run' Some x x' m show ?thesis using that [OF Inr [unfolded t] Some x [unfolded x'] m] by simp
      qed
    qed
  qed
qed

text \<open>
  C7 A single-table commit reaches the catalog, or is answered 200, only when it was authorised:
  a tenant is bound, the path identifiers are well formed, a non-empty principal was extracted,
  and every policy that the store holds for the table was evaluated, on the projections of this
  very request, to true. The catalog then changes by exactly this one commit.
\<close>

theorem commit_forward_authorised:
  assumes "lru_add (gd_add deps)" "progs_ok deps (w_progs w)"
    and run: "CommitHandler deps tenant rq w = (r, w')" and eff: "w_up w' \<noteq> w_up w \<or> r = Reply 200"
  shows "\<exists>tid prin psrc body commit ad db1 meta policies db2 conflict.
    tenant = Some tid \<and> list_all identifierMatch [rq_prefix rq, rq_namespace rq, rq_table rq] \<and>
    ExtractPrincipal (gd_jwt deps) (rq_cert rq) (rq_authz rq) tenant = Some (prin, psrc) \<and> gp_sub prin \<noteq> [] \<and>
    rq_body rq = Some body \<and> gd_decode deps body = Some commit \<and>
    openAdapter deps tenant (rq_prefix rq) (w_db w) = (Inr ad, db1) \<and>
    ad_load ad (commitRef rq) (w_up w) = Inr meta \<and>
    LoadPoliciesForTable (gd_pg deps) tenant (commitRef rq) db1 = (Inr policies, db2) \<and>
    (\<forall>p \<in> set policies. allows deps (inputsFor deps meta commit prin) p) \<and>
    w_up w' = snd (ad_commit ad conflict (commitRef rq) commit (w_up w))"
proof -
  have eff': "w_up w' \<noteq> w_up w \<or> r = Reply 200 \<or> r = Reply 403" using eff by blast
  obtain tid prin psrc body commit ad db1 meta where
    o: "openRequest deps tenant rq [rq_prefix rq, rq_namespace rq, rq_table rq] = Inr (tid, prin, psrc, body)"
    and d: "gd_decode deps body = Some commit"
    and a: "openAdapter deps tenant (rq_prefix rq) (w_db w) = (Inr ad, db1)"
    and m: "ad_load ad (commitRef rq) (w_up w) = Inr meta"
    and rest: "(case coordinate deps (rq_agent rq) (commitRef rq) meta (w\<lparr>w_db := db1\<rparr>) of
        (Inl r1, w1) \<Rightarrow> (r1, w1)
      | (Inr conflict, w1) \<Rightarrow>
         (case policyGate deps tenant (commitRef rq) commit meta prin psrc (hashCommitBody body) w1 of
            (Some r2, w2) \<Rightarrow> (r2, w2)
          | (None, w2) \<Rightarrow>
             (case forwardCommit True deps ad conflict tid (commitRef rq) commit prin psrc (hashCommitBody body) w2 of
                (Some r3, w3) \<Rightarrow> (r3, w3)
              | (None, w3) \<Rightarrow> (Reply 200, w3)))) = (r, w')"
    by (rule CommitHandler_reaches [OF run eff'])
  obtain k w1 where c: "coordinate deps (rq_agent rq) (commitRef rq) meta (w\<lparr>w_db := db1\<rparr>) = (k, w1)" by fastforce
  note cf = coordinate_frame [OF c]
  obtain conflict where k: "k = Inr conflict"
    using rest eff c cf by (cases k) auto
  obtain g w2 where g: "policyGate deps tenant (commitRef rq) commit meta prin psrc (hashCommitBody body) w1 = (g, w2)" by fastforce
  have "progs_ok deps (w_progs w1)" using assms(2) cf by simp
  note pg = policyGate_sound [OF assms(1) this g]
  have gn: "g = None"
    using rest eff c k g cf pg(1,3) by (cases g) auto
  obtain f w3 where f: "forwardCommit True deps ad conflict tid (commitRef rq) commit prin psrc (hashCommitBody body) w2 = (f, w3)"
    by fastforce
  have "w_up w' = w_up w3"
    using rest c k g gn f by (cases f) auto
  then have up: "w_up w' = snd (ad_commit ad conflict (commitRef rq) commit (w_up w))"
    using forwardCommit_up [OF f] pg(1) cf by simp
  obtain policies where p: "LoadPoliciesForTable (gd_pg deps) tenant (commitRef rq) db1 = (Inr policies, w_db w2)"
    "\<forall>p \<in> set policies. allows deps (inputsFor deps meta commit prin) p"
    using pg(2) [OF gn] cf by auto
  show ?thesis
    using openRequest_ok [OF o] d a m p up by blast
qed

text \<open>A catalog, a database and a request for concrete runs.\<close>

definition demo_pg :: "(string \<times> string list) list pg" where
  "demo_pg = \<lparr>pg_acquire = \<lambda>_. None, pg_begin = \<lambda>_. None,
     pg_exec = \<lambda>q args db. if q = credentialsSQL then Inr ([[''polaris'', ''prod'', ''http://c'', ''{}'']], db)
       else Inr ([], db @ [(q, args)]),
     pg_commit = \<lambda>_. None, pg_reset = \<lambda>_. None\<rparr>"

definition demo_adapter :: "nat adapter" where
  "demo_adapter = \<lparr>ad_load = \<lambda>ref up. Inr None,
     ad_commit = \<lambda>conflict ref commit up.
       (Inr (Some \<lparr>res_accepted = [], res_location = ''s3://b/m1'', res_snapshot = 7\<rparr>), Suc up)\<rparr>"

definition demo_deps :: "((string \<times> string list) list, nat, string, string) gw_deps" where
  "demo_deps = \<lparr>gd_pg = demo_pg, gd_engine = role_engine, gd_regex = \<lambda>_. None, gd_add = \<lambda>k v m. m(k \<mapsto> v),
     gd_adapter = \<lambda>_. Inr demo_adapter, gd_resolver = None, gd_conflicts = None, gd_specs = None,
     gd_jwt = \<lambda>tok. Some [(''sub'', AStr tok)], gd_decode = \<lambda>_. Some \<lparr>cm_requirements = [], cm_updates = []\<rparr>,
     gd_decode_multi = \<lambda>_. Some [(\<lparr>tr_namespace = [''sales''], tr_name = ''orders''\<rparr>, \<lparr>cm_requirements = [], cm_updates = []\<rparr>)],
     gd_payload = \<lambda>_ _ _. ''{}'', gd_uuid = \<lambda>_. uuid_b, gd_now = \<lambda>_. ''now'', gd_millis = \<lambda>_. 0, gd_rfc3339 = \<lambda>_. ''then''\<rparr>"

abbreviation demo_request :: "string \<Rightarrow> gw_request" where
  "demo_request authz \<equiv> \<lparr>rq_method = ''POST'', rq_prefix = ''prod'', rq_namespace = ''sales'', rq_table = ''orders'',
     rq_cert = None, rq_authz = authz, rq_agent = ''trino'', rq_body = Some ''{}''\<rparr>"

abbreviation demo_world :: "((string \<times> string list) list, nat, string) world" where
  "demo_world \<equiv> \<lparr>w_db = [], w_up = 0, w_progs = Map.empty, w_rejected = []\<rparr>"

lemma demo_open:
  "openRequest demo_deps (Some uuid_a) (demo_request ''Bearer alice'') [''prod'', ''sales'', ''orders''] =
     Inr (uuid_a, \<lparr>gp_sub = ''alice'', gp_email = [], gp_roles = []\<rparr>, SourceAuthHeader, ''{}'')"
proof -
  have "list_all identifierMatch [''prod'', ''sales'', ''orders'']" by code_simp
  moreover have "ExtractPrincipal (gd_jwt demo_deps) None ''Bearer alice'' (Some uuid_a) =
      Some (\<lparr>gp_sub = ''alice'', gp_email = [], gp_roles = []\<rparr>, SourceAuthHeader)" by code_simp
  ultimately show ?thesis
    by (simp add: openRequest_def validatePrincipalNotEmpty_def maxCommitBodyBytes_def)
qed

lemma demo_openAdapter: "\<exists>db. openAdapter demo_deps (Some uuid_a) ''prod'' [] = (Inr demo_adapter, db)"
  by (simp add: openAdapter_def GetCatalogCredentials_def WithTenantTx_def txQuery_def txCommit_def idleConn_def demo_deps_def demo_pg_def
      layer1SQL_def layer2SQL_def setTenantSQL_def credentialsSQL_def)

lemma demo_tx: "txQuery demo_pg (CHR ''S'' # CHR ''E'' # CHR ''L'' # CHR ''E'' # CHR ''C'' # CHR ''T'' # CHR '' '' # CHR ''*'' # q) args db =
    Inr ([], db @ [(CHR ''S'' # CHR ''E'' # CHR ''L'' # CHR ''E'' # CHR ''C'' # CHR ''T'' # CHR '' '' # CHR ''*'' # q, args)])"
  by (simp add: txQuery_def demo_pg_def credentialsSQL_def)

lemma demo_cypher: "txQuery demo_pg (cypherStatement cy cols) args db = Inr ([], db @ [(cypherStatement cy cols, args)])"
  using demo_tx by (simp add: cypherStatement_def)

lemma demo_execute:
  "fn (db @ [(setTenantSQL, [tid])]) = Inr (x, db') \<Longrightarrow> ExecuteInTenant demo_pg tid fn db = (Inr x, db')"
  by (simp add: execute_defs demo_pg_def setTenantSQL_def credentialsSQL_def)

lemma demo_policies: "\<exists>db'. LoadPoliciesForTable demo_pg (Some uuid_a) \<lparr>tr_namespace = [''sales''], tr_name = ''orders''\<rparr> db = (Inr [], db')"
proof -
  have safe: "assertSafeCypherLiteral ''orders'' = Inr ''orders''" "assertSafeCypherLiteral ''sales'' = Inr ''sales''"
    by code_simp+
  have edges: "\<exists>db'. loadEdges demo_pg n ns es db = Inr ([], db')" for n ns es db
  proof (induction es arbitrary: db)
    case (Cons e es)
    obtain db' where "loadEdges demo_pg n ns es (db @ [(cypherStatement (matchPolicies e n ns)
        ''id ag_catalog.agtype, kind ag_catalog.agtype, text ag_catalog.agtype'', [])]) = Inr ([], db')"
      using Cons.IH by blast
    then show ?case by (simp add: demo_cypher)
  qed simp
  obtain db1 where "loadEdges demo_pg ''orders'' ''sales'' policyEdgeLabels (db @ [(setTenantSQL, [uuid_a])]) = Inr ([], db1)"
    using edges by blast
  then show ?thesis
    by (simp add: LoadPoliciesForTable_def safe demo_cypher joinNamespace_def demo_execute)
qed

lemma demo_gate:
  "\<exists>db'. policyGate demo_deps (Some uuid_a) \<lparr>tr_namespace = [''sales''], tr_name = ''orders''\<rparr> commit meta prin psrc h w =
     (None, w\<lparr>w_db := db'\<rparr>)"
proof -
  obtain db' where "LoadPoliciesForTable demo_pg (Some uuid_a) \<lparr>tr_namespace = [''sales''], tr_name = ''orders''\<rparr> (w_db w) = (Inr [], db')"
    using demo_policies by blast
  then show ?thesis by (intro exI [of _ db']) (simp add: policyGate_def demo_deps_def)
qed

lemma demo_commit: "ad_commit demo_adapter k ref cm up =
    (Inr (Some \<lparr>res_accepted = [], res_location = ''s3://b/m1'', res_snapshot = 7\<rparr>), Suc up)"
  by (simp add: demo_adapter_def)

lemma demo_must:
  "MustSanitizeCypherLiteral uuid_a = Inr uuid_a" "MustSanitizeCypherLiteral uuid_b = Inr uuid_b"
  "MustSanitizeCypherLiteral ''alice'' = Inr ''alice''" "MustSanitizeCypherLiteral (itoaInt 7) = Inr ''7''"
  "MustSanitizeCypherLiteral ''APPROVED'' = Inr ''APPROVED''" "MustSanitizeCypherLiteral ''auth_header'' = Inr ''auth_header''"
  "MustSanitizeCypherLiteral ''orders'' = Inr ''orders''" "MustSanitizeCypherLiteral ''sales'' = Inr ''sales''"
  "MustSanitizeCypherLiteral ''s3://b/m1'' = Inr ''s3://b/m1''" "MustSanitizeCypherLiteral [] = Inr []"
  by code_simp+

lemma demo_exec: "execAGE demo_pg cy db = Inr (db @ [(cypherStatement cy ''result ag_catalog.agtype'', [])])"
  by (simp add: execAGE_def demo_cypher)

lemma demo_insert: "txQuery demo_pg (auditInsertSQL tid) args db = Inr ([], db @ [(auditInsertSQL tid, args)])"
  by (simp add: txQuery_def demo_pg_def auditInsertSQL_def credentialsSQL_def)

abbreviation alice :: gw_principal where
  "alice \<equiv> \<lparr>gp_sub = ''alice'', gp_email = [], gp_roles = []\<rparr>"

lemma demo_emit:
  "\<exists>db'. EmitWriteEvent demo_deps (Some uuid_a) \<lparr>tr_namespace = [''sales''], tr_name = ''orders''\<rparr> ''APPROVED'' alice
     SourceAuthHeader h (Some \<lparr>res_accepted = [], res_location = ''s3://b/m1'', res_snapshot = 7\<rparr>) [] db = (Inr (), db')"
proof -
  have sel: "gd_pg demo_deps = demo_pg" "gd_uuid demo_deps db = uuid_b" for db by (simp_all add: demo_deps_def)
  show ?thesis
    unfolding EmitWriteEvent_def option.case Let_def sel
    by (intro exI, rule demo_execute)
       (simp add: demo_must demo_exec demo_insert emitActualWrite_def joinNamespace_def)
qed

lemma demo_forward:
  "\<exists>db'. forwardCommit b demo_deps demo_adapter k uuid_a \<lparr>tr_namespace = [''sales''], tr_name = ''orders''\<rparr> cm alice
     SourceAuthHeader h w = (None, w\<lparr>w_up := Suc (w_up w), w_db := db'\<rparr>)"
proof -
  obtain db' where "EmitWriteEvent demo_deps (Some uuid_a) \<lparr>tr_namespace = [''sales''], tr_name = ''orders''\<rparr> ''APPROVED'' alice
     SourceAuthHeader h (Some \<lparr>res_accepted = [], res_location = ''s3://b/m1'', res_snapshot = 7\<rparr>) [] (w_db w) = (Inr (), db')"
    using demo_emit by blast
  then have "forwardCommit b demo_deps demo_adapter k uuid_a \<lparr>tr_namespace = [''sales''], tr_name = ''orders''\<rparr> cm alice
     SourceAuthHeader h w = (None, w\<lparr>w_up := Suc (w_up w), w_db := ingestResult demo_deps uuid_a
       (Some \<lparr>res_accepted = [], res_location = ''s3://b/m1'', res_snapshot = 7\<rparr>) db'\<rparr>)"
    by (simp add: forwardCommit_def demo_commit)
  then show ?thesis by blast
qed

lemma demo_run:
  "\<exists>db'. CommitHandler demo_deps (Some uuid_a) (demo_request ''Bearer alice'') demo_world =
     (Reply 200, demo_world\<lparr>w_up := 1, w_db := db'\<rparr>)"
proof -
  let ?ref = "\<lparr>tr_namespace = [''sales''], tr_name = ''orders''\<rparr>" and ?cm = "\<lparr>cm_requirements = [], cm_updates = []\<rparr>"
  let ?h = "hashCommitBody ''{}''"
  obtain db1 where a: "openAdapter demo_deps (Some uuid_a) ''prod'' [] = (Inr demo_adapter, db1)"
    using demo_openAdapter by blast
  obtain db2 where g: "policyGate demo_deps (Some uuid_a) ?ref ?cm None alice SourceAuthHeader ?h (demo_world\<lparr>w_db := db1\<rparr>) =
      (None, demo_world\<lparr>w_db := db2\<rparr>)"
    using demo_gate [of ?cm None alice SourceAuthHeader ?h "demo_world\<lparr>w_db := db1\<rparr>"] by auto
  obtain db3 where f: "forwardCommit True demo_deps demo_adapter None uuid_a ?ref ?cm alice SourceAuthHeader ?h (demo_world\<lparr>w_db := db2\<rparr>) =
      (None, demo_world\<lparr>w_up := 1, w_db := db3\<rparr>)"
    using demo_forward [of True None ?cm ?h "demo_world\<lparr>w_db := db2\<rparr>"] by auto
  have c: "coordinate demo_deps ag ?ref None w = (Inr None, w)" "gd_decode demo_deps body = Some ?cm" for ag w body
    by (simp_all add: coordinate_def demo_deps_def)
  have l: "ad_load demo_adapter r u = Inr None" for r u by (simp add: demo_adapter_def)
  show ?thesis
    using a g f by (auto simp: CommitHandler_def demo_open Let_def c l)
qed

theorem commit_forward_authorised_witness:
  "\<exists>w' (ad :: nat adapter) conflict commit.
     CommitHandler demo_deps (Some uuid_a) (demo_request ''Bearer alice'') demo_world = (Reply 200, w') \<and> w_up w' = 1 \<and>
     w_up w' = snd (ad_commit ad conflict (commitRef (demo_request ''Bearer alice'')) commit (w_up demo_world))"
proof -
  obtain db' where run: "CommitHandler demo_deps (Some uuid_a) (demo_request ''Bearer alice'') demo_world =
      (Reply 200, demo_world\<lparr>w_up := 1, w_db := db'\<rparr>)"
    using demo_run by blast
  have l: "lru_add (gd_add demo_deps)" by (simp add: demo_deps_def lru_add_upd)
  have p: "progs_ok demo_deps (w_progs demo_world)" by (simp add: cache_sound_def)
  from commit_forward_authorised [OF l p run disjI2 [OF refl]]
  obtain ad :: "nat adapter" and conflict commit where "w_up (demo_world\<lparr>w_up := 1, w_db := db'\<rparr>) =
      snd (ad_commit ad conflict (commitRef (demo_request ''Bearer alice'')) commit (w_up demo_world))" by (elim exE conjE) (rule that, assumption)
  with run show ?thesis by (intro exI conjI) (assumption | simp)+
qed

section \<open>Denials\<close>

lemma evalPolicies_deny:
  "evalPolicies deps inp ps c = (GateDeny reason, c') \<Longrightarrow> \<exists>p \<in> set ps. reason = ''policy '' @ pol_id p @ '' denied''"
proof (induction ps arbitrary: c)
  case (Cons p ps)
  obtain r c1 where e: "Evaluate (gd_engine deps) (gd_regex deps) (gd_add deps) p inp c = (r, c1)" by fastforce
  show ?case
  proof (cases r)
    case (Inl x)
    with Cons.prems e show ?thesis by simp
  next
    case (Inr d)
    with Evaluate_decision e obtain b where d: "d = verdict p b" by fastforce
    with Cons e Inr show ?thesis by (cases b) (auto simp: verdict_def)
  qed
qed simp

lemma policyGate_403:
  assumes "policyGate deps tenant ref commit meta prin psrc h w = (Some (Reply 403), w')"
  shows "w_up w' = w_up w \<and> w_rejected w' = w_rejected w @ [ReasonPolicyDenied] \<and>
    (\<exists>policies db1 p. LoadPoliciesForTable (gd_pg deps) tenant ref (w_db w) = (Inr policies, db1) \<and> p \<in> set policies \<and>
      EmitWriteEvent deps tenant ref ''REJECTED'' prin psrc h None (''policy '' @ pol_id p @ '' denied'') db1 = (Inr (), w_db w'))"
proof -
  obtain policies db1 where l: "LoadPoliciesForTable (gd_pg deps) tenant ref (w_db w) = (Inr policies, db1)"
    using assms by (auto simp: policyGate_def split: prod.split_asm sum.split_asm)
  obtain v c1 where v: "evalPolicies deps (inputsFor deps meta commit prin) policies (w_progs w) = (v, c1)" by fastforce
  obtain reason where r: "v = GateDeny reason"
    using assms l v by (cases v) (auto simp: policyGate_def)
  have "EmitWriteEvent deps tenant ref ''REJECTED'' prin psrc h None reason db1 = (Inr (), w_db w')"
    "w_up w' = w_up w" "w_rejected w' = w_rejected w @ [ReasonPolicyDenied]"
    using assms l v r by (auto simp: policyGate_def split: prod.split_asm sum.split_asm graph_error.split_asm)
  with l evalPolicies_deny [OF v [unfolded r]] show ?thesis by auto
qed

lemma forwardCommit_not_403: "forwardCommit b deps ad k tid ref cm prin psrc h w \<noteq> (Some (Reply 403), w')"
  by (auto simp: forwardCommit_def split: prod.split sum.split commit_error.split graph_error.split)

text \<open>
  C9 A commit is answered 403 only with a trace. Nothing was committed upstream, exactly one
  rejection was counted, and unless the write coordinator refused the partition spec, a policy
  of the table denied it and its REJECTED event, with that policy as the reason, is in the
  database; when the event cannot be written, the answer is not 403.
\<close>

theorem denied_commit_audited:
  assumes "CommitHandler deps tenant rq w = (Reply 403, w')"
  shows "w_up w' = w_up w \<and>
    (w_rejected w' = w_rejected w @ [ReasonPolicyPartitionSpecMismatch] \<or>
     w_rejected w' = w_rejected w @ [ReasonPolicyDenied] \<and>
     (\<exists>prin psrc body db0 policies db1 p.
        ExtractPrincipal (gd_jwt deps) (rq_cert rq) (rq_authz rq) tenant = Some (prin, psrc) \<and> rq_body rq = Some body \<and>
        LoadPoliciesForTable (gd_pg deps) tenant (commitRef rq) db0 = (Inr policies, db1) \<and> p \<in> set policies \<and>
        EmitWriteEvent deps tenant (commitRef rq) ''REJECTED'' prin psrc (hashCommitBody body) None
          (''policy '' @ pol_id p @ '' denied'') db1 = (Inr (), w_db w')))"
proof -
  obtain tid prin psrc body commit ad db1 meta where
    o: "openRequest deps tenant rq [rq_prefix rq, rq_namespace rq, rq_table rq] = Inr (tid, prin, psrc, body)"
    and rest: "(case coordinate deps (rq_agent rq) (commitRef rq) meta (w\<lparr>w_db := db1\<rparr>) of
        (Inl r1, w1) \<Rightarrow> (r1, w1)
      | (Inr conflict, w1) \<Rightarrow>
         (case policyGate deps tenant (commitRef rq) commit meta prin psrc (hashCommitBody body) w1 of
            (Some r2, w2) \<Rightarrow> (r2, w2)
          | (None, w2) \<Rightarrow>
             (case forwardCommit True deps ad conflict tid (commitRef rq) commit prin psrc (hashCommitBody body) w2 of
                (Some r3, w3) \<Rightarrow> (r3, w3)
              | (None, w3) \<Rightarrow> (Reply 200, w3)))) = (Reply 403, w')"
    by (rule CommitHandler_reaches [OF assms]) auto
  obtain k w1 where c: "coordinate deps (rq_agent rq) (commitRef rq) meta (w\<lparr>w_db := db1\<rparr>) = (k, w1)" by fastforce
  show ?thesis
  proof (cases k)
    case (Inl r1)
    with rest c show ?thesis
      by (auto simp: coordinate_def split: if_split_asm sum.split_asm coordinator_error.split_asm)
  next
    case (Inr conflict)
    have w1: "w1 = w\<lparr>w_db := db1\<rparr>"
      using c Inr by (auto simp: coordinate_def split: if_split_asm sum.split_asm coordinator_error.split_asm)
    obtain g w2 where g: "policyGate deps tenant (commitRef rq) commit meta prin psrc (hashCommitBody body) w1 = (g, w2)" by fastforce
    have "g = Some (Reply 403) \<and> w2 = w'"
      using rest c Inr g by (cases g) (auto simp: forwardCommit_not_403 split: prod.split_asm option.split_asm)
    with policyGate_403 g w1 openRequest_ok [OF o] show ?thesis by fastforce
  qed
qed

definition spec5_deps :: "((string \<times> string list) list, nat, string, string) gw_deps" where
  "spec5_deps = demo_deps\<lparr>gd_specs := Some (\<lambda>_. Inr (Some \<lparr>ps_id = 5, ps_fields = []\<rparr>)), gd_conflicts := None\<rparr>"

text \<open>Only the coordinator reads the two stores of the other editions.\<close>

abbreviation with_stores where
  "with_stores sp cf deps \<equiv> deps\<lparr>gd_specs := sp, gd_conflicts := cf\<rparr>"

lemma with_stores_sel:
  "gd_pg (with_stores sp cf deps) = gd_pg deps" "gd_engine (with_stores sp cf deps) = gd_engine deps"
  "gd_regex (with_stores sp cf deps) = gd_regex deps" "gd_add (with_stores sp cf deps) = gd_add deps"
  "gd_adapter (with_stores sp cf deps) = gd_adapter deps" "gd_resolver (with_stores sp cf deps) = gd_resolver deps"
  "gd_jwt (with_stores sp cf deps) = gd_jwt deps" "gd_decode (with_stores sp cf deps) = gd_decode deps"
  "gd_decode_multi (with_stores sp cf deps) = gd_decode_multi deps" "gd_payload (with_stores sp cf deps) = gd_payload deps"
  "gd_uuid (with_stores sp cf deps) = gd_uuid deps" "gd_now (with_stores sp cf deps) = gd_now deps"
  "gd_millis (with_stores sp cf deps) = gd_millis deps" "gd_rfc3339 (with_stores sp cf deps) = gd_rfc3339 deps"
  by simp_all

lemma with_stores_open:
  "openRequest (with_stores sp cf deps) = openRequest deps" "openAdapter (with_stores sp cf deps) = openAdapter deps"
  "EmitWriteEvent (with_stores sp cf deps) = EmitWriteEvent deps" "MergeSnapshot (with_stores sp cf deps) = MergeSnapshot deps"
  "inputsFor (with_stores sp cf deps) = inputsFor deps"
  unfolding fun_eq_iff openRequest_def openAdapter_def EmitWriteEvent_def MergeSnapshot_def inputsFor_def with_stores_sel
  by simp_all

lemma with_stores_eval: "evalPolicies (with_stores sp cf deps) inp ps c = evalPolicies deps inp ps c"
  by (induction ps arbitrary: c) (auto simp only: evalPolicies.simps with_stores_sel split: prod.split sum.split)

lemma with_stores_gate:
  "policyGate (with_stores sp cf deps) = policyGate deps" "ingestResult (with_stores sp cf deps) = ingestResult deps"
  unfolding fun_eq_iff policyGate_def ingestResult_def with_stores_sel with_stores_open with_stores_eval by simp_all

lemma with_stores_forward: "forwardCommit b (with_stores sp cf deps) = forwardCommit b deps"
  unfolding fun_eq_iff forwardCommit_def with_stores_open with_stores_gate by simp

lemma spec5_run:
  "\<exists>db'. CommitHandler spec5_deps (Some uuid_a) (demo_request ''Bearer alice'') demo_world =
     (Reply 403, demo_world\<lparr>w_db := db', w_rejected := [ReasonPolicyPartitionSpecMismatch]\<rparr>)"
proof -
  obtain db1 where a: "openAdapter demo_deps (Some uuid_a) ''prod'' [] = (Inr demo_adapter, db1)"
    using demo_openAdapter by blast
  have "detectEngineKind ''trino'' = ''trino''" by code_simp
  then have c: "coordinate spec5_deps ''trino'' ref None w = (Inl (Reply 403), countRejected ReasonPolicyPartitionSpecMismatch w)" for ref w
    by (simp add: coordinate_def WriteCoordinatorPreCommit_def spec5_deps_def specMatches_def)
  have l: "ad_load demo_adapter r u = Inr None" for r u by (simp add: demo_adapter_def)
  have d: "gd_decode demo_deps body = Some \<lparr>cm_requirements = [], cm_updates = []\<rparr>" for body
    by (simp add: demo_deps_def)
  have o: "openRequest spec5_deps = openRequest demo_deps" "openAdapter spec5_deps = openAdapter demo_deps"
    "gd_decode spec5_deps = gd_decode demo_deps"
    unfolding spec5_deps_def by (rule with_stores_open with_stores_sel)+
  show ?thesis
    using a by (auto simp: CommitHandler_def o demo_open Let_def c l d countRejected_def)
qed

theorem denied_commit_audited_witness:
  "\<exists>w'. CommitHandler spec5_deps (Some uuid_a) (demo_request ''Bearer alice'') demo_world = (Reply 403, w') \<and> w_up w' = w_up demo_world"
proof -
  obtain w' where run: "CommitHandler spec5_deps (Some uuid_a) (demo_request ''Bearer alice'') demo_world = (Reply 403, w')"
    using spec5_run by blast
  from denied_commit_audited [OF run] run show ?thesis by blast
qed

section \<open>Transactions over several tables\<close>

lemma gateAll_sound:
  assumes "lru_add (gd_add deps)" "progs_ok deps (w_progs w)" "gateAll deps ad tenant prin psrc h tcs w = (r, w')"
  shows "w_up w' = w_up w \<and> r \<noteq> Some (Reply 200) \<and> (r = None \<longrightarrow> (\<forall>(ref, commit) \<in> set tcs.
    identifierMatch (tr_name ref) \<and> list_all identifierMatch (tr_namespace ref) \<and>
    (\<exists>meta db1 policies db2. ad_load ad ref (w_up w) = Inr meta \<and>
       LoadPoliciesForTable (gd_pg deps) tenant ref db1 = (Inr policies, db2) \<and>
       (\<forall>p \<in> set policies. allows deps (inputsFor deps meta commit prin) p))))"
  using assms(2,3)
proof (induction tcs arbitrary: w)
  case (Cons tc tcs)
  obtain ref commit where tc: "tc = (ref, commit)" by fastforce
  show ?case
  proof (cases "identifierMatch (tr_name ref) \<and> list_all identifierMatch (tr_namespace ref)")
    case False
    with Cons.prems tc show ?thesis by auto
  next
    case True
    show ?thesis
    proof (cases "ad_load ad ref (w_up w)")
      case (Inl e)
      with Cons.prems tc True show ?thesis by auto
    next
      case (Inr meta)
      obtain g w1 where g: "policyGate deps tenant ref commit meta prin psrc h w = (g, w1)" by fastforce
      note ps = policyGate_sound [OF assms(1) Cons.prems(1) g]
      show ?thesis
      proof (cases g)
        case (Some x)
        with Cons.prems tc True Inr g ps show ?thesis by auto
      next
        case None
        then have r: "gateAll deps ad tenant prin psrc h tcs w1 = (r, w')"
          using Cons.prems(2) tc True Inr g by simp
        from ps(1) have "progs_ok deps (w_progs w1)" "w_up w1 = w_up w" by simp_all
        note ih = Cons.IH [OF this(1) r, unfolded this(2)]
        from ps(2) [OF None] obtain policies where
          "LoadPoliciesForTable (gd_pg deps) tenant ref (w_db w) = (Inr policies, w_db w1)"
          "\<forall>p \<in> set policies. allows deps (inputsFor deps meta commit prin) p" by blast
        with ih True Inr tc show ?thesis by auto
      qed
    qed
  qed
qed simp

text \<open>
  C8 A multi-table transaction is all or nothing at the gate: if the catalog changed at all, or
  the answer is 200, then every table of the transaction has well-formed identifiers and every
  policy loaded for it evaluated to true on that table's own metadata and changes.
\<close>

theorem multi_table_reject_all:
  assumes "lru_add (gd_add deps)" "progs_ok deps (w_progs w)"
    and run: "MultiTableCommitHandler deps tenant rq w = (r, w')" and eff: "w_up w' \<noteq> w_up w \<or> r = Reply 200"
  shows "\<exists>tid prin psrc body changes ad db0. tenant = Some tid \<and> identifierMatch (rq_prefix rq) \<and>
    ExtractPrincipal (gd_jwt deps) (rq_cert rq) (rq_authz rq) tenant = Some (prin, psrc) \<and> gp_sub prin \<noteq> [] \<and>
    rq_body rq = Some body \<and> gd_decode_multi deps body = Some changes \<and> changes \<noteq> [] \<and>
    openAdapter deps tenant (rq_prefix rq) (w_db w) = (Inr ad, db0) \<and>
    (\<forall>(ref, commit) \<in> set changes. identifierMatch (tr_name ref) \<and> list_all identifierMatch (tr_namespace ref) \<and>
      (\<exists>meta db1 policies db2. ad_load ad ref (w_up w) = Inr meta \<and>
         LoadPoliciesForTable (gd_pg deps) tenant ref db1 = (Inr policies, db2) \<and>
         (\<forall>p \<in> set policies. allows deps (inputsFor deps meta commit prin) p)))"
proof (cases "openRequest deps tenant rq [rq_prefix rq]")
  case (Inl st)
  with run eff show ?thesis by (auto simp: MultiTableCommitHandler_def)
next
  case (Inr t)
  obtain tid prin psrc body where t: "t = (tid, prin, psrc, body)" by (cases t) auto
  note run' = run [unfolded MultiTableCommitHandler_def Inr t sum.case prod.case Let_def]
  obtain changes where ch: "gd_decode_multi deps body = Some changes" "changes \<noteq> []"
    using run' eff by (auto split: option.split_asm list.split_asm)
  obtain x db0 where x: "openAdapter deps tenant (rq_prefix rq) (w_db w) = (x, db0)" by fastforce
  obtain ad where ad: "x = Inr ad"
    using run' eff ch x by (cases x) (auto split: list.split_asm)
  obtain g w1 where g: "gateAll deps ad tenant prin psrc (hashCommitBody body) changes (w\<lparr>w_db := db0\<rparr>) = (g, w1)" by fastforce
  have "progs_ok deps (w_progs (w\<lparr>w_db := db0\<rparr>))" using assms(2) by simp
  note gs = gateAll_sound [OF assms(1) this g]
  have "g = None"
    using run' eff ch x ad g gs by (cases g) (auto split: list.split_asm)
  with gs ch x ad openRequest_ok [OF Inr [unfolded t]] show ?thesis by auto
qed

lemma demo_multi_run:
  "\<exists>w'. MultiTableCommitHandler demo_deps (Some uuid_a) (demo_request ''Bearer alice'') demo_world = (Reply 200, w')"
proof -
  let ?ref = "\<lparr>tr_namespace = [''sales''], tr_name = ''orders''\<rparr>" and ?cm = "\<lparr>cm_requirements = [], cm_updates = []\<rparr>"
  let ?h = "hashCommitBody ''{}''"
  obtain db1 where a: "openAdapter demo_deps (Some uuid_a) ''prod'' [] = (Inr demo_adapter, db1)"
    using demo_openAdapter by blast
  have o: "openRequest demo_deps (Some uuid_a) (demo_request ''Bearer alice'') [''prod''] =
      Inr (uuid_a, alice, SourceAuthHeader, ''{}'')"
    using openRequest_ok [OF demo_open] by (simp add: openRequest_def validatePrincipalNotEmpty_def)
  obtain db2 where g: "policyGate demo_deps (Some uuid_a) ?ref ?cm None alice SourceAuthHeader ?h (demo_world\<lparr>w_db := db1\<rparr>) =
      (None, demo_world\<lparr>w_db := db2\<rparr>)"
    using demo_gate [of ?cm None alice SourceAuthHeader ?h "demo_world\<lparr>w_db := db1\<rparr>"] by auto
  obtain db3 where f: "forwardCommit False demo_deps demo_adapter None uuid_a ?ref ?cm alice SourceAuthHeader ?h (demo_world\<lparr>w_db := db2\<rparr>) =
      (None, demo_world\<lparr>w_up := 1, w_db := db3\<rparr>)"
    using demo_forward [of False None ?cm ?h "demo_world\<lparr>w_db := db2\<rparr>"] by auto
  have d: "gd_decode_multi demo_deps body = Some [(?ref, ?cm)]" for body by (simp add: demo_deps_def)
  have l: "ad_load demo_adapter r u = Inr None" for r u by (simp add: demo_adapter_def)
  have i: "identifierMatch ''orders''" "identifierMatch ''sales''" by code_simp+
  show ?thesis
    using a g f by (auto simp: MultiTableCommitHandler_def o Let_def d l i)
qed

theorem multi_table_reject_all_witness:
  "\<exists>w'. MultiTableCommitHandler demo_deps (Some uuid_a) (demo_request ''Bearer alice'') demo_world = (Reply 200, w') \<and>
     (\<exists>prin psrc. ExtractPrincipal (gd_jwt demo_deps) None ''Bearer alice'' (Some uuid_a) = Some (prin, psrc) \<and> gp_sub prin \<noteq> [])"
proof -
  obtain w' where run: "MultiTableCommitHandler demo_deps (Some uuid_a) (demo_request ''Bearer alice'') demo_world = (Reply 200, w')"
    using demo_multi_run by blast
  have l: "lru_add (gd_add demo_deps)" by (simp add: demo_deps_def lru_add_upd)
  have p: "progs_ok demo_deps (w_progs demo_world)" by (simp add: cache_sound_def)
  obtain prin psrc where
    "ExtractPrincipal (gd_jwt demo_deps) (rq_cert (demo_request ''Bearer alice'')) (rq_authz (demo_request ''Bearer alice'')) (Some uuid_a) =
       Some (prin, psrc)" "gp_sub prin \<noteq> []"
    using multi_table_reject_all [OF l p run disjI2 [OF refl]] by (elim exE conjE) (rule that)
  with run show ?thesis by auto
qed

text \<open>
  The multi-table handler runs no write coordinator: its answer and its effect are the same
  whatever the partition-spec store and the conflict-policy store say. The single-table handler
  refuses a commit whose table is not on the active partition spec; the same change sent as a
  transaction of one table is committed.
\<close>

theorem multi_table_skips_coordinator:
  "MultiTableCommitHandler (deps\<lparr>gd_specs := sp, gd_conflicts := cf\<rparr>) tenant rq w = MultiTableCommitHandler deps tenant rq w"
proof -
  have g: "gateAll (with_stores sp cf deps) ad t prin psrc h tcs w' = gateAll deps ad t prin psrc h tcs w'" for ad t prin psrc h tcs w'
    by (induction tcs arbitrary: w') (auto simp: with_stores_gate split: sum.split prod.split option.split)
  have f: "forwardAll (with_stores sp cf deps) ad t prin psrc h tcs w' = forwardAll deps ad t prin psrc h tcs w'" for ad t prin psrc h tcs w'
    by (induction tcs arbitrary: w') (auto simp: with_stores_forward split: prod.split option.split)
  show ?thesis
    unfolding MultiTableCommitHandler_def with_stores_open with_stores_sel g f ..
qed

section \<open>Principals the audit cannot write\<close>

text \<open>
  A principal whose subject has a byte outside the literal allowlist, such as the vertical bar
  of \<open>auth0|alice\<close>, cannot be audited. The subject is not checked before the catalog accepts the
  commit, so the commit stands while writing its event always fails and leaves the database as
  it was; when the failure is the sanitiser's panic, it ends the request.
\<close>

theorem unsafe_principal_unaudited:
  assumes "\<not> IsSafeCypherLiteral (gp_sub prin)"
    and "ad_commit ad conflict ref commit (w_up w) = (Inr result, up')"
    and "forwardCommit b deps ad conflict tid ref commit prin psrc h w = (r, w')"
  shows "w_up w' = up' \<and>
    (\<exists>e. EmitWriteEvent deps (Some tid) ref ''APPROVED'' prin psrc h result [] (w_db w) = (Inl e, w_db w) \<and>
       (\<forall>m. e = Panic m \<longrightarrow> r = Some (Crash m) \<and> w_db w' = w_db w))"
proof -
  have "\<not> list_all cypherLiteralAllow (gp_sub prin)"
    using assms(1) Sanitize_iff [of "gp_sub prin" "gp_sub prin"] by (auto simp: IsSafeCypherLiteral_def)
  then have "\<exists>e. rbind (traverse MustSanitizeCypherLiteral [u, tid, gp_sub prin, sn, dc, rs, st]) k = Inl e" for u sn dc rs st k
    using traverse_Must_unsafe [of "gp_sub prin" "[u, tid, gp_sub prin, sn, dc, rs, st]"] by auto
  then obtain e where e: "EmitWriteEvent deps (Some tid) ref ''APPROVED'' prin psrc h result [] (w_db w) = (Inl e, w_db w)"
    unfolding EmitWriteEvent_def option.case Let_def by (metis (no_types, lifting) ExecuteInTenant_failing)
  have "w_up w' = up'" using assms(2) forwardCommit_up [OF assms(3)] by simp
  moreover have "r = Some (Crash m) \<and> w_db w' = w_db w" if "e = Panic m" for m
    using assms(2,3) e that by (auto simp: forwardCommit_def)
  ultimately show ?thesis using e by blast
qed

abbreviation bar_alice :: gw_principal where
  "bar_alice \<equiv> \<lparr>gp_sub = ''auth0|alice'', gp_email = [], gp_roles = []\<rparr>"

lemma demo_panic:
  "MustSanitizeCypherLiteral ''auth0|alice'' =
     Inl (Panic ''graph: MustSanitizeCypherLiteral defence-in-depth violation'')"
  by code_simp

lemma demo_execute_fail: "ExecuteInTenant demo_pg tid (\<lambda>db0. Inl e) db = (Inl e, db)"
  by (simp add: execute_defs demo_pg_def setTenantSQL_def credentialsSQL_def)

lemma demo_emit_panic:
  "\<exists>m. EmitWriteEvent demo_deps (Some uuid_a) ref ''APPROVED'' bar_alice SourceAuthHeader h
     (Some \<lparr>res_accepted = [], res_location = ''s3://b/m1'', res_snapshot = 7\<rparr>) [] db = (Inl (Panic m), db)"
proof -
  have sel: "gd_pg demo_deps = demo_pg" "gd_uuid demo_deps db = uuid_b" for db by (simp_all add: demo_deps_def)
  show ?thesis
    unfolding EmitWriteEvent_def option.case Let_def sel by (simp add: demo_must demo_panic demo_execute_fail)
qed

theorem unsafe_principal_unaudited_witness:
  "\<exists>m w'. forwardCommit True demo_deps demo_adapter None uuid_a \<lparr>tr_namespace = [''sales''], tr_name = ''orders''\<rparr>
       \<lparr>cm_requirements = [], cm_updates = []\<rparr> bar_alice SourceAuthHeader [] demo_world = (Some (Crash m), w') \<and>
     w_up w' = 1 \<and> w_db w' = w_db demo_world"
proof -
  let ?ref = "\<lparr>tr_namespace = [''sales''], tr_name = ''orders''\<rparr>" and ?cm = "\<lparr>cm_requirements = [], cm_updates = []\<rparr>"
  obtain r w' where run: "forwardCommit True demo_deps demo_adapter None uuid_a ?ref ?cm bar_alice SourceAuthHeader [] demo_world = (r, w')"
    by fastforce
  have "\<not> IsSafeCypherLiteral (gp_sub bar_alice)" by code_simp
  from unsafe_principal_unaudited [OF this demo_commit run] obtain e where
    e: "w_up w' = Suc (w_up demo_world)"
      "EmitWriteEvent demo_deps (Some uuid_a) ?ref ''APPROVED'' bar_alice SourceAuthHeader []
         (Some \<lparr>res_accepted = [], res_location = ''s3://b/m1'', res_snapshot = 7\<rparr>) [] (w_db demo_world) = (Inl e, w_db demo_world)"
      "\<And>m. e = Panic m \<Longrightarrow> r = Some (Crash m) \<and> w_db w' = w_db demo_world" by blast
  moreover obtain m where "e = Panic m"
    using e(2) demo_emit_panic [of ?ref "[]" "w_db demo_world"] by auto
  ultimately show ?thesis using run by auto
qed

end
