(* ===== verification/Policy_Compiler.thy ===== *)
theory Policy_Compiler
  imports Dialect_Emit CEL_Policy "HOL-Library.List_Lexorder" "HOL-Library.Char_ord"
begin

text \<open>
  The cross-engine policy compiler (\<open>internal/policy/compiler\<close>): the compile-artifact cache
  (\<open>lru.go\<close>), the probe (\<open>probe.go\<close>), the CEL artifact (\<open>cel_artifact.go\<close>), the compile of one
  policy for every engine of a tenant (\<open>compiler.go\<close>), and the notification consumer with its
  reconnect loop (\<open>trigger.go\<close>).

  Parameters: the CEL engine, the probe executors of the engines, the JSON text of a CEL
  artifact and its reader, the UUID parser, the tenant registry and the policy loader of the
  notification consumer.
\<close>

section \<open>Sources and artifacts\<close>

record policy_source =
  src_policy_id :: string
  src_kind :: string
  src_cel :: string
  src_sql :: string

record cel_artifact =
  ca_type :: string
  ca_policy_id :: string
  ca_version :: int
  ca_source :: string
  ca_bindings :: "string list"
  ca_checksum :: string

record compiled_artifact =
  art_kind :: string
  art_body :: string
  art_cel :: "cel_artifact option"

datatype compiler_error =
    CErrCompileFailed string
  | CErrDialectStub
  | CErrProbeFailed string
  | CErrPersist graph_error

section \<open>Artifact cache\<close>

record artifact_key =
  ak_policy :: string
  ak_kind :: string
  ak_version :: string
  ak_hash :: "nat list"

type_synonym art_cache = "artifact_key \<rightharpoonup> compiled_artifact"

definition makeKey :: "string \<Rightarrow> string \<Rightarrow> string \<Rightarrow> string \<Rightarrow> artifact_key" where
  "makeKey policyID engineKind engineVersion sourceText =
     \<lparr>ak_policy = policyID, ak_kind = engineKind, ak_version = engineVersion, ak_hash = Sum256 sourceText\<rparr>"

section \<open>Probe\<close>

datatype probe_answer = ProbeTimeout | ProbeError string | ProbeRows int

definition buildProbeQuery :: "string \<Rightarrow> string \<Rightarrow> string" where
  "buildProbeQuery tableFQN rowFilter =
     (if rowFilter = [] then ''SELECT 1 FROM '' @ tableFQN @ '' WHERE 1=0''
      else ''SELECT 1 FROM '' @ tableFQN @ '' WHERE ('' @ rowFilter @ '') AND 1=0'')"

text \<open>\<open>None\<close> is success, which includes the skipped probe of an engine without executor.\<close>

definition probeRun ::
  "(string \<rightharpoonup> (string \<Rightarrow> probe_answer)) \<Rightarrow> string \<Rightarrow> string \<Rightarrow> string \<Rightarrow> compiler_error option" where
  "probeRun executors engineKind tableFQN rowFilter =
     (case executors engineKind of
        None \<Rightarrow> None
      | Some submit \<Rightarrow>
         (case submit (buildProbeQuery tableFQN rowFilter) of
            ProbeTimeout \<Rightarrow> Some (CErrProbeFailed ''timeout'')
          | ProbeError e \<Rightarrow> Some (CErrProbeFailed e)
          | ProbeRows n \<Rightarrow> if n = 0 then None else Some (CErrProbeFailed ''rows'')))"

definition engineTableFQN :: "string \<Rightarrow> string \<Rightarrow> string \<Rightarrow> string" where
  "engineTableFQN engineKind ns name =
     (if engineKind = ''trino'' \<or> engineKind = ''dremio'' then ''iceberg.'' @ ns @ ''.'' @ name
      else ns @ ''.'' @ name)"

section \<open>The compiler\<close>

record dialect_compiler =
  dc_row :: "string \<Rightarrow> ast \<Rightarrow> dialect_error + string"
  dc_mask :: "string \<Rightarrow> ast_mask_project list \<Rightarrow> dialect_error + string"

definition serverDialects :: "string \<rightharpoonup> dialect_compiler" where
  "serverDialects =
     [''trino'' \<mapsto> \<lparr>dc_row = trino_CompileRowFilter, dc_mask = trino_CompileColumnMask\<rparr>,
      ''spark'' \<mapsto> \<lparr>dc_row = spark_CompileRowFilter, dc_mask = spark_CompileColumnMask\<rparr>,
      ''dremio'' \<mapsto> \<lparr>dc_row = dremio_CompileRowFilter, dc_mask = dremio_CompileColumnMask\<rparr>]"

text \<open>The executors that the server wires: \<open>NewProbeRunner (nil)\<close>, so every probe of the server is skipped.\<close>

definition serverProbes :: "string \<rightharpoonup> (string \<Rightarrow> probe_answer)" where
  "serverProbes = Map.empty"

text \<open>\<open>c_cel\<close> is the CEL engine with the insertion of its program cache, \<open>None\<close> when not wired.\<close>

record ('db, 'ast, 'prog) compiler =
  c_dialects :: "string \<rightharpoonup> dialect_compiler"
  c_probes :: "string \<rightharpoonup> (string \<Rightarrow> probe_answer)"
  c_add :: "artifact_key \<Rightarrow> compiled_artifact \<Rightarrow> art_cache \<Rightarrow> art_cache"
  c_pg :: "'db pg"
  c_cel :: "(('ast, 'prog) cel_engine \<times> (cel_key \<Rightarrow> 'prog \<Rightarrow> 'prog prog_cache \<Rightarrow> 'prog prog_cache)) option"
  c_encode :: "cel_artifact \<Rightarrow> string"

record ('db, 'prog) compiler_state =
  cs_db :: 'db
  cs_cache :: art_cache
  cs_progs :: "'prog prog_cache"

definition extractBindings :: "('ast, 'prog) cel_engine \<Rightarrow> 'ast \<Rightarrow> string list" where
  "extractBindings eng a = sort (remdups (ce_idents eng a))"

definition CompileCELArtifact ::
  "('ast, 'prog) cel_engine \<Rightarrow> (cel_key \<Rightarrow> 'prog \<Rightarrow> 'prog prog_cache \<Rightarrow> 'prog prog_cache) \<Rightarrow> string \<Rightarrow> string \<Rightarrow>
   'prog prog_cache \<Rightarrow> (compiler_error + cel_artifact) \<times> 'prog prog_cache" where
  "CompileCELArtifact eng add policyID source progs =
     (case CompileOrGet eng add policyID source progs of
        (Inl e, progs') \<Rightarrow> (Inl (CErrCompileFailed ''cel''), progs')
      | (Inr prog, progs') \<Rightarrow>
         (case ce_compile eng source of
            Inl m \<Rightarrow> (Inl (CErrCompileFailed m), progs')
          | Inr a \<Rightarrow>
             (Inr \<lparr>ca_type = ''cel'', ca_policy_id = policyID, ca_version = 1, ca_source = source,
                   ca_bindings = extractBindings eng a, ca_checksum = sha256Hex source\<rparr>, progs')))"

definition DecodeCELArtifact :: "(string \<Rightarrow> cel_artifact option) \<Rightarrow> string \<Rightarrow> compiler_error + cel_artifact" where
  "DecodeCELArtifact unmarshal s =
     (case unmarshal s of
        None \<Rightarrow> Inl (CErrCompileFailed ''decode cel artifact'')
      | Some a \<Rightarrow>
          if ca_type a \<noteq> ''cel'' then Inl (CErrCompileFailed ''cel artifact type'')
          else if ca_version a \<noteq> 1 then Inl (CErrCompileFailed ''cel artifact version'')
          else Inr a)"

definition emitError :: "dialect_error \<Rightarrow> compiler_error" where
  "emitError e = (case e of DialectStub \<Rightarrow> CErrDialectStub | EmitError m \<Rightarrow> CErrCompileFailed m)"

definition compileSQL :: "dialect_compiler \<Rightarrow> policy_source \<Rightarrow> compiler_error + compiled_artifact" where
  "compileSQL d p =
     (if src_kind p = ''row_filter''
      then (case ParseRowFilter (src_sql p) of
              Inr (RowFragment root) \<Rightarrow>
                (case dc_row d (src_policy_id p) (adaptNodeForDialect root) of
                   Inl e \<Rightarrow> Inl (emitError e)
                 | Inr sql \<Rightarrow> Inr \<lparr>art_kind = ''sql_row_filter'', art_body = sql, art_cel = None\<rparr>)
            | _ \<Rightarrow> Inl (CErrCompileFailed ''parse row-filter''))
      else if src_kind p = ''column_mask''
      then (case ParseColumnMask (src_sql p) of
              Inr (MaskFragment ms) \<Rightarrow>
                (case dc_mask d (src_policy_id p) (adaptMaskForDialect ms) of
                   Inl e \<Rightarrow> Inl (emitError e)
                 | Inr sql \<Rightarrow> Inr \<lparr>art_kind = ''sql_column_mask'', art_body = sql, art_cel = None\<rparr>)
            | _ \<Rightarrow> Inl (CErrCompileFailed ''parse column-mask''))
      else Inl (CErrCompileFailed ''unsupported SQL policy kind''))"

definition compileArtifact ::
  "('db, 'ast, 'prog) compiler \<Rightarrow> policy_source \<Rightarrow> engine \<Rightarrow> 'prog prog_cache \<Rightarrow>
   (compiler_error + compiled_artifact) \<times> 'prog prog_cache" where
  "compileArtifact c p e progs =
     (if src_cel p \<noteq> []
      then (case c_cel c of
              None \<Rightarrow> (Inl (CErrCompileFailed ''cel env / compiler not wired''), progs)
            | Some (eng, add) \<Rightarrow>
               (case CompileCELArtifact eng add (src_policy_id p) (src_cel p) progs of
                  (Inl err, progs') \<Rightarrow> (Inl err, progs')
                | (Inr a, progs') \<Rightarrow>
                    (Inr \<lparr>art_kind = ''cel'', art_body = c_encode c a, art_cel = Some a\<rparr>, progs')))
      else (case c_dialects c (eng_kind e) of
              None \<Rightarrow> (Inl (CErrCompileFailed ''no dialect emitter for engine kind''), progs)
            | Some d \<Rightarrow> (compileSQL d p, progs)))"

definition persistRecord ::
  "policy_source \<Rightarrow> table_ref \<Rightarrow> string \<Rightarrow> engine \<Rightarrow> string \<Rightarrow> string \<Rightarrow> string \<Rightarrow> compiled_policy" where
  "persistRecord p ref ns e body st checksum =
     \<lparr>cp_policy_id = src_policy_id p, cp_engine_kind = eng_kind e, cp_engine_version = eng_version e,
      cp_table_name = tr_name ref, cp_table_namespace = ns, cp_status = st, cp_source_checksum = checksum,
      cp_artifact_body = body, cp_artifact_kind = []\<rparr>"

definition persist ::
  "('db, 'ast, 'prog) compiler \<Rightarrow> string option \<Rightarrow> policy_source \<Rightarrow> table_ref \<Rightarrow> string \<Rightarrow> engine \<Rightarrow> string \<Rightarrow>
   string \<Rightarrow> string \<Rightarrow> 'db \<Rightarrow> (graph_error + unit) \<times> 'db" where
  "persist c tenant p ref ns e body st checksum db =
     UpsertCompiledPolicy (c_pg c) tenant (persistRecord p ref ns e body st checksum) db"

record compile_result =
  cr_engine_kind :: string
  cr_engine_version :: string
  cr_status :: string
  cr_err :: "compiler_error option"

text \<open>
  One engine. A panic of the store (an unsafe literal) leaves the function: \<open>Inl\<close> is that panic.
  \<open>settled\<close> is the answer after the write of the active row, \<open>failed\<close> after the write of a failure
  marker, whose error is ignored.
\<close>

definition settled ::
  "engine \<Rightarrow> (graph_error + unit) \<times> 'db \<Rightarrow> (string + compile_result) \<times> 'db" where
  "settled e r =
     (case r of
        (Inl (Panic m), db) \<Rightarrow> (Inl m, db)
      | (Inl err, db) \<Rightarrow>
          (Inr \<lparr>cr_engine_kind = eng_kind e, cr_engine_version = eng_version e, cr_status = StatusCompileFailed,
                cr_err = Some (CErrPersist err)\<rparr>, db)
      | (Inr _, db) \<Rightarrow>
          (Inr \<lparr>cr_engine_kind = eng_kind e, cr_engine_version = eng_version e, cr_status = StatusActive,
                cr_err = None\<rparr>, db))"

definition failed ::
  "engine \<Rightarrow> string \<Rightarrow> compiler_error \<Rightarrow> (graph_error + unit) \<times> 'db \<Rightarrow> (string + compile_result) \<times> 'db" where
  "failed e st err r =
     (case r of
        (Inl (Panic m), db) \<Rightarrow> (Inl m, db)
      | (_, db) \<Rightarrow>
          (Inr \<lparr>cr_engine_kind = eng_kind e, cr_engine_version = eng_version e, cr_status = st,
                cr_err = Some err\<rparr>, db))"

definition policySourceText :: "policy_source \<Rightarrow> string" where
  "policySourceText p = (if src_sql p = [] then src_cel p else src_sql p)"

definition compileOne ::
  "('db, 'ast, 'prog) compiler \<Rightarrow> string option \<Rightarrow> policy_source \<Rightarrow> table_ref \<Rightarrow> string \<Rightarrow> engine \<Rightarrow>
   ('db, 'prog) compiler_state \<Rightarrow> (string + compile_result) \<times> ('db, 'prog) compiler_state" where
  "compileOne c tenant p ref ns e st =
     (let source = policySourceText p; checksum = sha256Hex source;
          key = makeKey (src_policy_id p) (eng_kind e) (eng_version e) source in
      case cs_cache st key of
        Some cached \<Rightarrow>
          (case settled e (persist c tenant p ref ns e (art_body cached) StatusActive checksum (cs_db st)) of
             (r, db) \<Rightarrow> (r, st\<lparr>cs_db := db\<rparr>))
      | None \<Rightarrow>
         (case compileArtifact c p e (cs_progs st) of
            (Inl err, progs) \<Rightarrow>
              (case failed e StatusCompileFailed err (persist c tenant p ref ns e [] StatusCompileFailed checksum (cs_db st)) of
                 (r, db) \<Rightarrow> (r, st\<lparr>cs_db := db, cs_progs := progs\<rparr>))
          | (Inr art, progs) \<Rightarrow>
             (case (if art_kind art = ''sql_row_filter''
                    then probeRun (c_probes c) (eng_kind e) (engineTableFQN (eng_kind e) ns (tr_name ref)) (art_body art)
                    else None) of
                Some err \<Rightarrow>
                  (case failed e StatusProbeFailed err
                          (persist c tenant p ref ns e (art_body art) StatusProbeFailed checksum (cs_db st)) of
                     (r, db) \<Rightarrow> (r, st\<lparr>cs_db := db, cs_progs := progs\<rparr>))
              | None \<Rightarrow>
                 (case settled e (persist c tenant p ref ns e (art_body art) StatusActive checksum (cs_db st)) of
                    (Inr r, db) \<Rightarrow>
                      (Inr r, st\<lparr>cs_db := db, cs_progs := progs,
                        cs_cache := (if cr_err r = None then c_add c key art (cs_cache st) else cs_cache st)\<rparr>)
                  | (Inl m, db) \<Rightarrow> (Inl m, st\<lparr>cs_db := db, cs_progs := progs\<rparr>)))))"

fun compileEngines ::
  "('db, 'ast, 'prog) compiler \<Rightarrow> string option \<Rightarrow> policy_source \<Rightarrow> table_ref \<Rightarrow> string \<Rightarrow> engine list \<Rightarrow>
   ('db, 'prog) compiler_state \<Rightarrow> (string + compile_result list) \<times> ('db, 'prog) compiler_state" where
  "compileEngines c tenant p ref ns [] st = (Inr [], st)"
| "compileEngines c tenant p ref ns (e # es) st =
     (case compileOne c tenant p ref ns e st of
        (Inl m, st1) \<Rightarrow> (Inl m, st1)
      | (Inr r, st1) \<Rightarrow>
         (case compileEngines c tenant p ref ns es st1 of
            (Inl m, st2) \<Rightarrow> (Inl m, st2)
          | (Inr rs, st2) \<Rightarrow> (Inr (r # rs), st2)))"

datatype compile_all = AllFailed graph_error | AllPanic string | AllDone "compile_result list"

definition CompileAll ::
  "('db, 'ast, 'prog) compiler \<Rightarrow> string option \<Rightarrow> policy_source \<Rightarrow> table_ref \<Rightarrow>
   ('db, 'prog) compiler_state \<Rightarrow> compile_all \<times> ('db, 'prog) compiler_state" where
  "CompileAll c tenant p ref st =
     (case ListEngines (c_pg c) tenant (cs_db st) of
        (Inl e, db) \<Rightarrow> (AllFailed e, st\<lparr>cs_db := db\<rparr>)
      | (Inr engines, db) \<Rightarrow>
         (case compileEngines c tenant p ref (joinNamespace (tr_namespace ref)) engines (st\<lparr>cs_db := db\<rparr>) of
            (Inl m, st') \<Rightarrow> (AllPanic m, st')
          | (Inr rs, st') \<Rightarrow> (AllDone rs, st')))"

section \<open>Notifications\<close>

record ('db, 'ast, 'prog) trigger =
  tg_compiler :: "('db, 'ast, 'prog) compiler"
  tg_decode :: "string \<Rightarrow> (string \<times> string) option"
  tg_uuid :: "string \<Rightarrow> string option"
  tg_tenant_exists :: "string \<Rightarrow> string + bool"
  tg_load :: "string \<Rightarrow> string \<Rightarrow> string + (policy_source \<times> table_ref)"

text \<open>A panic of the compile is \<open>Some\<close>; every other outcome, good or bad, is swallowed.\<close>

definition handleNotification ::
  "('db, 'ast, 'prog) trigger \<Rightarrow> string \<Rightarrow> ('db, 'prog) compiler_state \<Rightarrow> string option \<times> ('db, 'prog) compiler_state" where
  "handleNotification t payload st =
     (case tg_decode t payload of
        None \<Rightarrow> (None, st)
      | Some (tenantText, policyID) \<Rightarrow>
         (case tg_uuid t tenantText of
            None \<Rightarrow> (None, st)
          | Some tenantID \<Rightarrow>
              if policyID = [] \<or> tg_uuid t policyID = None then (None, st)
              else (case tg_tenant_exists t tenantID of
                Inr True \<Rightarrow>
                  (case tg_load t tenantID policyID of
                     Inl e \<Rightarrow> (None, st)
                   | Inr (src, ref) \<Rightarrow>
                      (case CompileAll (tg_compiler t) (Some tenantID) src ref st of
                         (AllPanic m, st') \<Rightarrow> (Some m, st')
                       | (_, st') \<Rightarrow> (None, st')))
              | _ \<Rightarrow> (None, st))))"

section \<open>The reconnect loop\<close>

text \<open>
  \<open>Listen\<close>, one turn per failed connection, in nanoseconds: \<open>took\<close> is how long the connection
  lived, \<open>now\<close> the time of the failure. The turn says how long it sleeps and whether the
  fallback poll is on.
\<close>

definition second :: nat where "second = 10 ^ 9"
definition backoffMax :: nat where "backoffMax = 60 * second"
definition reconnectHealthy :: nat where "reconnectHealthy = 30 * second"
definition pollerFallbackThreshold :: nat where "pollerFallbackThreshold = 5 * 60 * second"

record listen_state =
  ls_backoff :: nat
  ls_last :: nat

definition listenTurn :: "nat \<Rightarrow> nat \<Rightarrow> listen_state \<Rightarrow> nat \<times> bool \<times> listen_state" where
  "listenTurn took now s =
     (let s1 = (if took \<ge> reconnectHealthy then s\<lparr>ls_backoff := second, ls_last := now\<rparr> else s) in
      (ls_backoff s1, now - ls_last s1 > pollerFallbackThreshold,
       s1\<lparr>ls_backoff := (if ls_backoff s1 * 2 > backoffMax then backoffMax else ls_backoff s1 * 2)\<rparr>))"

inductive listening :: "nat \<Rightarrow> listen_state \<Rightarrow> nat list \<Rightarrow> bool" for start where
  listen_start: "listening start \<lparr>ls_backoff = second, ls_last = start\<rparr> []"
| listen_turn: "listening start s sleeps \<Longrightarrow> listenTurn took now s = (d, poll, s') \<Longrightarrow>
    listening start s' (sleeps @ [d])"

section \<open>Properties\<close>

lemma settled_active:
  "settled e q = (Inr r, db) \<Longrightarrow> cr_status r = StatusActive \<Longrightarrow> q = (Inr (), db) \<and> cr_err r = None"
  by (auto simp: settled_def status_defs split: prod.split_asm sum.split_asm graph_error.split_asm)

lemma failed_status: "failed e st err q = (Inr r, db) \<Longrightarrow> cr_status r = st"
  by (auto simp: failed_def split: prod.split_asm sum.split_asm graph_error.split_asm)

text \<open>What a fresh success is: an emitted artifact that passed its probe and was stored.\<close>

lemma compileOne_fresh:
  assumes run: "compileOne c tenant p ref ns e st = (Inr r, st')" and active: "cr_status r = StatusActive"
    and miss: "cs_cache st (makeKey (src_policy_id p) (eng_kind e) (eng_version e) (policySourceText p)) = None"
  shows "\<exists>art progs. compileArtifact c p e (cs_progs st) = (Inr art, progs) \<and>
    (art_kind art = ''sql_row_filter'' \<longrightarrow>
       probeRun (c_probes c) (eng_kind e) (engineTableFQN (eng_kind e) ns (tr_name ref)) (art_body art) = None) \<and>
    persist c tenant p ref ns e (art_body art) StatusActive (sha256Hex (policySourceText p)) (cs_db st) = (Inr (), cs_db st') \<and>
    cs_cache st' = c_add c (makeKey (src_policy_id p) (eng_kind e) (eng_version e) (policySourceText p)) art (cs_cache st)"
proof -
  note run' = run [unfolded compileOne_def Let_def miss option.case]
  obtain x progs where x: "compileArtifact c p e (cs_progs st) = (x, progs)" by fastforce
  obtain art where art: "x = Inr art"
    using run' x active by (cases x) (auto simp: status_defs split: prod.split_asm dest!: failed_status)
  let ?probe = "if art_kind art = ''sql_row_filter''
    then probeRun (c_probes c) (eng_kind e) (engineTableFQN (eng_kind e) ns (tr_name ref)) (art_body art) else None"
  have probe: "?probe = None"
    using run' x art active by (cases ?probe) (auto simp: status_defs split: prod.split_asm dest!: failed_status)
  obtain y db where y: "settled e (persist c tenant p ref ns e (art_body art) StatusActive
      (sha256Hex (policySourceText p)) (cs_db st)) = (y, db)" by fastforce
  have "y = Inr r" using run' x art probe y by (cases y) auto
  with settled_active y active have "persist c tenant p ref ns e (art_body art) StatusActive
      (sha256Hex (policySourceText p)) (cs_db st) = (Inr (), db)" "cr_err r = None" by fastforce+
  moreover have "cs_db st' = db"
    "cs_cache st' = c_add c (makeKey (src_policy_id p) (eng_kind e) (eng_version e) (policySourceText p)) art (cs_cache st)"
    using run' x art probe y \<open>y = Inr r\<close> \<open>cr_err r = None\<close> by auto
  ultimately show ?thesis using x art probe by (auto split: if_split_asm)
qed

lemma probeRun_passed:
  "probeRun executors k fqn body = None \<longleftrightarrow>
     (\<forall>submit. executors k = Some submit \<longrightarrow> submit (buildProbeQuery fqn body) = ProbeRows 0)"
  by (auto simp: probeRun_def split: option.split probe_answer.split)

text \<open>
  C16 A row filter that the compiler reports active is stored as what its author wrote. On a cache
  miss, status active means: the engine is Trino or Spark, the source parsed, the store accepted the
  row with the emitted SQL as its body and the checksum of the source, and that body parses back to
  the very predicate of the source. Where an executor is wired for the engine, the probe query built
  from that body was sent to it and returned no row; without an executor nothing was probed.
\<close>

theorem active_row_filter_faithful:
  assumes "compileOne c tenant p ref ns e st = (Inr r, st')" "cr_status r = StatusActive"
    and "cs_cache st (makeKey (src_policy_id p) (eng_kind e) (eng_version e) (policySourceText p)) = None"
    and "c_dialects c = serverDialects" "src_cel p = []" "src_kind p = ''row_filter''"
  shows "\<exists>root body. ParseRowFilter (src_sql p) = Inr (RowFragment root) \<and> ParseRowFilter body = Inr (RowFragment root) \<and>
    eng_kind e \<in> {''trino'', ''spark''} \<and>
    (\<forall>submit. c_probes c (eng_kind e) = Some submit \<longrightarrow>
       submit (buildProbeQuery (engineTableFQN (eng_kind e) ns (tr_name ref)) body) = ProbeRows 0) \<and>
    UpsertCompiledPolicy (c_pg c) tenant
      (persistRecord p ref ns e body StatusActive (sha256Hex (src_sql p))) (cs_db st) = (Inr (), cs_db st')"
proof -
  obtain art progs where a: "compileArtifact c p e (cs_progs st) = (Inr art, progs)"
    and pr: "art_kind art = ''sql_row_filter'' \<longrightarrow>
       probeRun (c_probes c) (eng_kind e) (engineTableFQN (eng_kind e) ns (tr_name ref)) (art_body art) = None"
    and up: "persist c tenant p ref ns e (art_body art) StatusActive (sha256Hex (policySourceText p)) (cs_db st) = (Inr (), cs_db st')"
    using compileOne_fresh [OF assms(1-3)] by blast
  obtain d where d: "serverDialects (eng_kind e) = Some d" and sql: "compileSQL d p = Inr art"
    using a assms(4,5) by (auto simp: compileArtifact_def split: option.split_asm)
  obtain root body where root: "ParseRowFilter (src_sql p) = Inr (RowFragment root)"
    and body: "dc_row d (src_policy_id p) (adaptNodeForDialect root) = Inr body"
    and art: "art = \<lparr>art_kind = ''sql_row_filter'', art_body = body, art_cel = None\<rparr>"
    using sql assms(6) by (auto simp: compileSQL_def split: sum.split_asm fragment.split_asm)
  have "ParseRowFilter body = Inr (RowFragment root) \<and> eng_kind e \<in> {''trino'', ''spark''}"
    using d body trino.emitted_row_parses_back [OF root] spark.emitted_row_parses_back [OF root]
    by (auto simp: serverDialects_def trino_CompileRowFilter_def spark_CompileRowFilter_def dremio_CompileRowFilter_def
        split: if_split_asm)
  moreover have "policySourceText p = src_sql p" using assms(5) by (simp add: policySourceText_def)
  ultimately show ?thesis using root pr up art by (auto simp: persist_def probeRun_passed)
qed

text \<open>With the wiring of the server no compile is ever refused by a probe.\<close>

lemma server_never_probes:
  assumes "c_probes c = serverProbes" "compileOne c tenant p ref ns e st = (Inr r, st')"
  shows "cr_status r \<noteq> StatusProbeFailed"
proof -
  have "probeRun (c_probes c) k t b = None" for k t b by (simp add: probeRun_passed assms(1) serverProbes_def)
  then have "cr_status r \<in> {StatusActive, StatusCompileFailed}"
    using assms(2) unfolding compileOne_def Let_def
    by (auto simp: settled_def failed_def split: option.split_asm prod.split_asm sum.split_asm graph_error.split_asm if_split_asm)
  then show ?thesis by (auto simp: status_defs)
qed

lemma checksum_safe: "list_all cypherLiteralAllow (sha256Hex src)"
proof -
  have letters: "\<forall>c \<in> set ''abcdef''. cypherLiteralAllow c" by code_simp
  have digits: "is_digit c \<Longrightarrow> cypherLiteralAllow c" for c by (simp add: cypherLiteralAllow_def is_digit_def)
  have "cypherLiteralAllow c" if "c \<in> set (sha256Hex src)" for c
    using sha256Hex_shape [THEN conjunct2, rule_format, OF that] letters digits by blast
  then show ?thesis unfolding list_all_iff by (rule ballI)
qed

abbreviation sample_source :: policy_source where
  "sample_source \<equiv> \<lparr>src_policy_id = ''p1'', src_kind = ''row_filter'', src_cel = [], src_sql = ''region = 1''\<rparr>"

abbreviation sample_engine :: engine where
  "sample_engine \<equiv> \<lparr>eng_id = ''e1'', eng_kind = ''trino'', eng_version = ''v1'', eng_endpoint = ''http://t''\<rparr>"

definition sample_compiler :: "((string \<times> string list) list, string, string) compiler" where
  "sample_compiler = \<lparr>c_dialects = serverDialects, c_probes = Map.empty, c_add = \<lambda>k v m. m(k \<mapsto> v), c_pg = log_pg,
     c_cel = None, c_encode = \<lambda>_. []\<rparr>"

abbreviation sample_state :: "((string \<times> string list) list, string) compiler_state" where
  "sample_state \<equiv> \<lparr>cs_db = [], cs_cache = Map.empty, cs_progs = Map.empty\<rparr>"

lemma sample_artifact:
  "compileArtifact sample_compiler sample_source sample_engine progs =
     (Inr \<lparr>art_kind = ''sql_row_filter'', art_body = ''(region = 1)'', art_cel = None\<rparr>, progs)"
proof -
  have "compileSQL \<lparr>dc_row = trino_CompileRowFilter, dc_mask = trino_CompileColumnMask\<rparr> sample_source =
      Inr \<lparr>art_kind = ''sql_row_filter'', art_body = ''(region = 1)'', art_cel = None\<rparr>" by code_simp
  then show ?thesis by (simp add: compileArtifact_def sample_compiler_def serverDialects_def)
qed

lemma sample_persist:
  "\<exists>db'. persist sample_compiler (Some ''t1'') sample_source sample_ref ''sales'' sample_engine ''(region = 1)'' StatusActive
     (sha256Hex ''region = 1'') [] = (Inr (), db')"
proof -
  let ?cp = "persistRecord sample_source sample_ref ''sales'' sample_engine ''(region = 1)'' StatusActive (sha256Hex ''region = 1'')"
  have "list_all (list_all cypherLiteralAllow) [''p1'', ''trino'', ''v1'', ''orders'', ''sales'', StatusActive, ''t1'']" by code_simp
  then have "list_all (list_all cypherLiteralAllow) [cp_policy_id ?cp, cp_engine_kind ?cp, cp_engine_version ?cp,
       cp_table_name ?cp, cp_table_namespace ?cp, cp_status ?cp, cp_source_checksum ?cp, ''t1'']"
    using checksum_safe by (simp add: persistRecord_def)
  from upsert_log [OF _ this] show ?thesis
    by (simp add: persist_def sample_compiler_def persistRecord_def status_valid_def)
qed

text \<open>The same compiler with a Trino executor that runs the probe.\<close>

definition probed_compiler :: "((string \<times> string list) list, string, string) compiler" where
  "probed_compiler = sample_compiler\<lparr>c_probes := [''trino'' \<mapsto>
     (\<lambda>q. if q = ''SELECT 1 FROM iceberg.sales.orders WHERE ((region = 1)) AND 1=0'' then ProbeRows 0 else ProbeTimeout)]\<rparr>"

lemma sample_compile:
  "\<exists>r st'. compileOne probed_compiler (Some ''t1'') sample_source sample_ref ''sales'' sample_engine sample_state = (Inr r, st') \<and>
     cr_status r = StatusActive"
proof -
  obtain db' where "persist sample_compiler (Some ''t1'') sample_source sample_ref ''sales'' sample_engine ''(region = 1)'' StatusActive
     (sha256Hex ''region = 1'') [] = (Inr (), db')" using sample_persist by blast
  moreover have "persist probed_compiler = persist sample_compiler"
    by (simp add: fun_eq_iff persist_def probed_compiler_def)
  moreover have "compileArtifact probed_compiler = compileArtifact sample_compiler"
    by (simp add: fun_eq_iff compileArtifact_def probed_compiler_def sample_compiler_def)
  moreover have "probeRun (c_probes probed_compiler) ''trino'' (engineTableFQN ''trino'' ''sales'' ''orders'') ''(region = 1)'' = None"
    by (simp add: probeRun_def probed_compiler_def buildProbeQuery_def engineTableFQN_def)
  ultimately show ?thesis
    by (auto simp: compileOne_def Let_def sample_artifact policySourceText_def settled_def)
qed

theorem active_row_filter_faithful_witness:
  "\<exists>r st' body root. compileOne probed_compiler (Some ''t1'') sample_source sample_ref ''sales'' sample_engine sample_state = (Inr r, st') \<and>
     cr_status r = StatusActive \<and>
     UpsertCompiledPolicy log_pg (Some ''t1'')
       (persistRecord sample_source sample_ref ''sales'' sample_engine body StatusActive (sha256Hex ''region = 1'')) [] = (Inr (), cs_db st') \<and>
     body \<noteq> ''region = 1'' \<and> ParseRowFilter ''region = 1'' = Inr (RowFragment root) \<and> ParseRowFilter body = Inr (RowFragment root)"
proof -
  obtain r st' where run: "compileOne probed_compiler (Some ''t1'') sample_source sample_ref ''sales'' sample_engine sample_state = (Inr r, st')"
    and active: "cr_status r = StatusActive" using sample_compile by blast
  have c: "c_dialects probed_compiler = serverDialects" "c_pg probed_compiler = log_pg"
    by (simp_all add: probed_compiler_def sample_compiler_def)
  have probe: "buildProbeQuery (engineTableFQN ''trino'' ''sales'' ''orders'') ''region = 1'' \<noteq>
      ''SELECT 1 FROM iceberg.sales.orders WHERE ((region = 1)) AND 1=0''"
    by (simp add: buildProbeQuery_def engineTableFQN_def)
  from active_row_filter_faithful [OF run active _ c(1)] obtain root body where
    b: "ParseRowFilter ''region = 1'' = Inr (RowFragment root)" "ParseRowFilter body = Inr (RowFragment root)"
    and sent: "\<And>submit. c_probes probed_compiler ''trino'' = Some submit \<Longrightarrow>
      submit (buildProbeQuery (engineTableFQN ''trino'' ''sales'' ''orders'') body) = ProbeRows 0"
    and up: "UpsertCompiledPolicy log_pg (Some ''t1'')
       (persistRecord sample_source sample_ref ''sales'' sample_engine body StatusActive (sha256Hex ''region = 1'')) [] = (Inr (), cs_db st')"
    by (auto simp: c(2))
  have "body \<noteq> ''region = 1''" using sent probe by (auto simp: probed_compiler_def split: if_split_asm)
  with run active b up show ?thesis by blast
qed

text \<open>
  A cached artifact is written back as active without looking at the stored row: a row that the
  divergence verifier suspended is active again after the next notification for its policy.
\<close>

lemma cached_recompile_active:
  assumes "cs_cache st (makeKey (src_policy_id p) (eng_kind e) (eng_version e) (policySourceText p)) = Some art"
    and "UpsertCompiledPolicy (c_pg c) tenant
      (persistRecord p ref ns e (art_body art) StatusActive (sha256Hex (policySourceText p))) (cs_db st) = (Inr (), db')"
  shows "compileOne c tenant p ref ns e st =
    (Inr \<lparr>cr_engine_kind = eng_kind e, cr_engine_version = eng_version e, cr_status = StatusActive, cr_err = None\<rparr>,
     st\<lparr>cs_db := db'\<rparr>)"
  using assms by (simp add: compileOne_def Let_def persist_def settled_def)

text \<open>
  A notification acts only when it is genuine. If handling it changes anything or panics, then
  its payload decoded to two UUIDs, the registry knows the tenant, the loader answered a policy,
  and what happened is the compile of that policy under that tenant.
\<close>

theorem notification_guarded:
  assumes "handleNotification t payload st = (r, st')" "r \<noteq> None \<or> st' \<noteq> st"
  shows "\<exists>tenantText policyID tenantID pid src ref out.
    tg_decode t payload = Some (tenantText, policyID) \<and> tg_uuid t tenantText = Some tenantID \<and> tg_uuid t policyID = Some pid \<and>
    tg_tenant_exists t tenantID = Inr True \<and> tg_load t tenantID policyID = Inr (src, ref) \<and>
    CompileAll (tg_compiler t) (Some tenantID) src ref st = (out, st') \<and> (\<forall>m. r = Some m \<longrightarrow> out = AllPanic m)"
  using assms
  by (auto simp: handleNotification_def split: option.split_asm prod.split_asm if_split_asm sum.split_asm bool.split_asm
      compile_all.split_asm)

definition sample_trigger :: "((string \<times> string list) list, string, string) trigger" where
  "sample_trigger = \<lparr>tg_compiler = sample_compiler, tg_decode = \<lambda>s. Some (''t1'', ''p1''), tg_uuid = Some,
     tg_tenant_exists = \<lambda>_. Inr True, tg_load = \<lambda>_ _. Inr (sample_source, sample_ref)\<rparr>"

lemma sample_notification:
  "handleNotification sample_trigger ''{}'' sample_state =
     (None, sample_state\<lparr>cs_db := [(setTenantSQL, [''t1'']), (listEnginesSQL, [])]\<rparr>)"
proof -
  have "ListEngines log_pg (Some ''t1'') [] = (Inr [], [(setTenantSQL, [''t1'']), (listEnginesSQL, [])])"
    by (simp add: ListEngines_def execute_log txQuery_def log_pg_def execute_defs)
  then show ?thesis
    by (simp add: handleNotification_def sample_trigger_def CompileAll_def sample_compiler_def)
qed

theorem notification_guarded_witness:
  "\<exists>out st'. CompileAll sample_compiler (Some ''t1'') sample_source sample_ref sample_state = (out, st') \<and> st' \<noteq> sample_state"
proof -
  from notification_guarded [OF sample_notification] show ?thesis
    by (auto simp: sample_trigger_def)
qed

definition backoffSteps :: "nat set" where
  "backoffSteps = (\<lambda>k. k * second) ` {1, 2, 4, 8, 16, 32, 60}"

lemma backoff_start: "second \<in> backoffSteps"
  by (auto simp: backoffSteps_def)

lemma backoff_next: "b \<in> backoffSteps \<Longrightarrow> (if b * 2 > backoffMax then backoffMax else b * 2) \<in> backoffSteps"
  by (auto simp: backoffSteps_def backoffMax_def second_def)

lemma backoff_range: "b \<in> backoffSteps \<Longrightarrow> second \<le> b \<and> b \<le> backoffMax"
  by (auto simp: backoffSteps_def backoffMax_def)

text \<open>One turn stays on the steps, and a healthy connection starts them over.\<close>

lemma listenTurn_steps:
  assumes "listenTurn took now s = (d, poll, s')" "ls_backoff s \<in> backoffSteps"
  shows "d \<in> backoffSteps" "ls_backoff s' \<in> backoffSteps"
    "reconnectHealthy \<le> took \<Longrightarrow> d = second \<and> \<not> poll \<and> ls_backoff s' = 2 * second"
proof -
  let ?b = "if reconnectHealthy \<le> took then second else ls_backoff s"
  have d: "d = ?b" and s': "ls_backoff s' = (if ?b * 2 > backoffMax then backoffMax else ?b * 2)"
    using assms(1) by (auto simp: listenTurn_def Let_def)
  have b: "?b \<in> backoffSteps" using assms(2) backoff_start by simp
  show "d \<in> backoffSteps" using b d by simp
  show "ls_backoff s' \<in> backoffSteps" unfolding s' by (rule backoff_next [OF b])
  show "d = second \<and> \<not> poll \<and> ls_backoff s' = 2 * second" if "reconnectHealthy \<le> took"
    using assms(1) that by (auto simp: listenTurn_def Let_def backoffMax_def)
qed

lemma listening_steps: "listening start s sleeps \<Longrightarrow> set sleeps \<subseteq> backoffSteps \<and> ls_backoff s \<in> backoffSteps"
  by (induction rule: listening.induct) (auto simp: backoff_start dest: listenTurn_steps)

text \<open>
  The reconnect loop backs off within bounds: every sleep is 1, 2, 4, 8, 16, 32 or 60 seconds,
  and a connection that lived for 30 seconds resets it, so the next sleep is one second and the
  fallback poll is off.
\<close>

theorem listen_backoff_bounded:
  assumes "listening start s sleeps"
  shows "set sleeps \<subseteq> backoffSteps \<and>
    (\<forall>took now d poll s'. listenTurn took now s = (d, poll, s') \<longrightarrow>
       second \<le> d \<and> d \<le> backoffMax \<and> (took \<ge> reconnectHealthy \<longrightarrow> d = second \<and> \<not> poll \<and> ls_backoff s' = 2 * second))"
  using listening_steps [OF assms] listenTurn_steps backoff_range by meson

theorem listen_backoff_bounded_witness:
  "listening 0 \<lparr>ls_backoff = 4 * second, ls_last = 0\<rparr> [second, 2 * second] \<and> set [second, 2 * second] \<subseteq> backoffSteps"
proof -
  have turn: "listenTurn 0 0 \<lparr>ls_backoff = b, ls_last = 0\<rparr> = (b, False, \<lparr>ls_backoff = b * 2, ls_last = 0\<rparr>)"
    if "b \<le> 2 * second" for b
    using that by (simp add: listenTurn_def second_def reconnectHealthy_def backoffMax_def)
  have "listening 0 \<lparr>ls_backoff = second * 2, ls_last = 0\<rparr> ([] @ [second])"
    by (rule listen_turn [OF listen_start turn]) simp
  from listen_turn [OF this turn] have l: "listening 0 \<lparr>ls_backoff = 4 * second, ls_last = 0\<rparr> [second, 2 * second]"
    by (simp add: mult.commute)
  from listen_backoff_bounded [OF l] l show ?thesis by blast
qed

end
