(* ===== verification/Notifications.thy ===== *)
theory Notifications
  imports Policy_Compiler
begin

text \<open>
  The notification supervisor \<open>pkg/pglistener/listener.go\<close>, which \<open>internal/policy/compiler/listener.go\<close>
  re-exports. What the pool and the server do in each turn of the loop is a parameter, an attempt:
  whether the context was over at its head, how the connection went, how long it took and whether
  the context ended during the sleep after it.
\<close>

section \<open>One connection\<close>

datatype wait_end = ContextEnded | ConnectionLost string

datatype 'n connection =
    AcquireFailed bool string
  | ListenRefused bool string
  | Listened "'n list" wait_end

text \<open>The flag of a failure tells whether it wraps the end of the context. The answer is the error and what the listener handled.\<close>

datatype listen_error = CtxError | ListenError string

fun listenOnce :: "'n connection \<Rightarrow> listen_error option \<times> 'n list" where
  "listenOnce (AcquireFailed ctx e) = (Some (if ctx then CtxError else ListenError (''acquire: '' @ e)), [])"
| "listenOnce (ListenRefused ctx e) = (Some (if ctx then CtxError else ListenError (''LISTEN: '' @ e)), [])"
| "listenOnce (Listened ns ContextEnded) = (None, ns)"
| "listenOnce (Listened ns (ConnectionLost e)) = (Some (ListenError (''WaitForNotification: '' @ e)), ns)"

section \<open>Supervisor\<close>

record 'n attempt =
  at_over :: bool
  at_conn :: "'n connection"
  at_took :: nat
  at_woken :: bool

datatype listen_end = Running | Stopped

text \<open>
  The loop over a list of attempts: what was handled, the sleeps between connections and whether
  the loop returned, \<open>Running\<close> when the attempts are used up before it did.
\<close>

fun listenOn :: "nat \<Rightarrow> 'n attempt list \<Rightarrow> 'n list \<times> nat list \<times> listen_end" where
  "listenOn backoff [] = ([], [], Running)"
| "listenOn backoff (a # as) =
     (if at_over a then ([], [], Stopped)
      else case listenOnce (at_conn a) of
        (None, ns) \<Rightarrow> (ns, [], Stopped)
      | (Some CtxError, ns) \<Rightarrow> (ns, [], Stopped)
      | (Some (ListenError e), ns) \<Rightarrow>
          let b = (if at_took a \<ge> reconnectHealthy then second else backoff) in
          if at_woken a then (ns, [b], Stopped)
          else case listenOn (if b * 2 > backoffMax then backoffMax else b * 2) as of
            (ns', sleeps, r) \<Rightarrow> (ns @ ns', b # sleeps, r))"

definition ListenOn :: "'n attempt list \<Rightarrow> 'n list \<times> nat list \<times> listen_end" where
  "ListenOn as = listenOn second as"

section \<open>Delivery\<close>

text \<open>What the connections of a run received: every notification of every attempt that was made.\<close>

fun receivedIn :: "'n connection \<Rightarrow> 'n list" where
  "receivedIn (Listened ns e) = ns"
| "receivedIn _ = []"

definition endsContext :: "'n attempt \<Rightarrow> bool" where
  "endsContext a \<longleftrightarrow> at_over a \<or> at_woken a \<or>
     (case at_conn a of AcquireFailed ctx _ \<Rightarrow> ctx | ListenRefused ctx _ \<Rightarrow> ctx | Listened _ e \<Rightarrow> e = ContextEnded)"

definition made :: "'n attempt list \<Rightarrow> 'n attempt list" where
  "made as = takeWhile (\<lambda>a. \<not> endsContext a) as @ take 1 (dropWhile (\<lambda>a. \<not> endsContext a) as)"

lemma made_Cons: "made (a # as) = a # (if endsContext a then [] else made as)"
  by (simp add: made_def)

lemma listenOnce_received: "snd (listenOnce c) = receivedIn c"
  by (cases c rule: listenOnce.cases) simp_all

lemma listenOn_step:
  "\<not> endsContext a \<Longrightarrow> \<exists>b. b = (if at_took a \<ge> reconnectHealthy then second else backoff) \<and>
     listenOn backoff (a # as) = (case listenOn (if b * 2 > backoffMax then backoffMax else b * 2) as of
       (ns', sleeps, r) \<Rightarrow> (receivedIn (at_conn a) @ ns', b # sleeps, r))"
  by (cases "at_conn a" rule: listenOnce.cases) (simp_all add: endsContext_def Let_def)

lemma listenOn_last:
  "endsContext a \<Longrightarrow> \<exists>sleeps. listenOn backoff (a # as) = (if at_over a then [] else receivedIn (at_conn a), sleeps, Stopped) \<and>
     set sleeps \<subseteq> {backoff, second}"
  by (cases "at_conn a" rule: listenOnce.cases) (auto simp: endsContext_def Let_def)

text \<open>
  The supervisor returns exactly when the context is over, never because of a failed connection, and
  until then the listener handles every notification that a connection received, once and in order,
  across reconnects; between two connections it sleeps one of the seven steps from one second to a minute.
\<close>
theorem notifications_handled:
  "case ListenOn as of
     (handled, sleeps, r) \<Rightarrow>
       handled = concat (map (\<lambda>a. if at_over a then [] else receivedIn (at_conn a)) (made as)) \<and>
       (r = Stopped \<longleftrightarrow> list_ex endsContext as) \<and> set sleeps \<subseteq> backoffSteps"
proof -
  have "b0 \<in> backoffSteps \<Longrightarrow> case listenOn b0 as of
     (handled, sleeps, r) \<Rightarrow>
       handled = concat (map (\<lambda>a. if at_over a then [] else receivedIn (at_conn a)) (made as)) \<and>
       (r = Stopped \<longleftrightarrow> list_ex endsContext as) \<and> set sleeps \<subseteq> backoffSteps" for b0
  proof (induction as arbitrary: b0)
    case Nil
    then show ?case by (simp add: made_def)
  next
    case (Cons a as)
    show ?case
    proof (cases "endsContext a")
      case True
      from listenOn_last [OF this, of b0 as] obtain sleeps where
        "listenOn b0 (a # as) = (if at_over a then [] else receivedIn (at_conn a), sleeps, Stopped)" "set sleeps \<subseteq> {b0, second}" by blast
      then show ?thesis using True Cons.prems backoff_start by (auto simp: made_Cons)
    next
      case False
      define b where "b = (if at_took a \<ge> reconnectHealthy then second else b0)"
      have b: "b \<in> backoffSteps" using Cons.prems backoff_start by (simp add: b_def)
      have "\<not> at_over a" using False by (simp add: endsContext_def)
      then show ?thesis
        using Cons.IH [OF backoff_next [OF b]] listenOn_step [OF False, of b0 as] False b
        by (auto simp: made_Cons b_def [symmetric] simp del: listenOn.simps split: prod.splits)
    qed
  qed
  from this [OF backoff_start] show ?thesis unfolding ListenOn_def .
qed

text \<open>The sleeps are the ones of the policy trigger, whose loop is this one with a fallback poll.\<close>

lemma same_backoff:
  "listenTurn took now s = (d, poll, s') \<Longrightarrow>
   d = (if took \<ge> reconnectHealthy then second else ls_backoff s) \<and> ls_backoff s' = (if d * 2 > backoffMax then backoffMax else d * 2)"
  by (auto simp: listenTurn_def Let_def)

end
