(* ===== verification/Go_Time.thy ===== *)
theory Go_Time
  imports Neksur_Prelude "HOL-Library.List_Lexorder" "HOL-Library.Char_ord"
begin

text \<open>
  Instants and their RFC 3339 texts, the part of Go's \<open>time\<close> package that the stores splice into
  Cypher. An instant is the number of nanoseconds since 1970-01-01T00:00:00Z, always in UTC.
  \<open>FormatRFC3339\<close> is \<open>t.UTC().Format(time.RFC3339)\<close>, which drops the fraction of a second;
  \<open>ParseRFC3339\<close> reads the strict form of that layout back, with a \<open>Z\<close> zone, the form the stores write.

  The stores compare such texts in place of the instants. \<open>rfc3339_order\<close> and \<open>rfc3339_roundtrip\<close>
  say when that is right: for the years 1 to 9999, up to the dropped fraction.
\<close>

type_synonym instant = int

section \<open>The calendar\<close>

definition isLeap :: "int \<Rightarrow> bool" where
  "isLeap y \<longleftrightarrow> y mod 4 = 0 \<and> (y mod 100 \<noteq> 0 \<or> y mod 400 = 0)"

definition monthLengths :: "int \<Rightarrow> int list" where
  "monthLengths y = [31, if isLeap y then 29 else 28, 31, 30, 31, 30, 31, 31, 30, 31, 30, 31]"

text \<open>
  The year and the day of the year, from the days since 1 January of year 1: the digits of the
  year in the cycles of 400, 100, 4 and 1 years. The last day of a cycle of 400 or of 4 years
  would start a fifth century or year, which \<open>min 3\<close> corrects.
\<close>

definition r400 :: "int \<Rightarrow> int" where "r400 d = d mod 146097"
definition n100 :: "int \<Rightarrow> int" where "n100 d = min 3 (r400 d div 36524)"
definition r100 :: "int \<Rightarrow> int" where "r100 d = r400 d - 36524 * n100 d"
definition r4 :: "int \<Rightarrow> int" where "r4 d = r100 d mod 1461"
definition n1 :: "int \<Rightarrow> int" where "n1 d = min 3 (r4 d div 365)"

definition yearDay :: "int \<Rightarrow> int \<times> int" where
  "yearDay d =
     (1 + 400 * (d div 146097) + 100 * n100 d + 4 * (r100 d div 1461) + n1 d, r4 d - 365 * n1 d)"

fun monthDay :: "int list \<Rightarrow> int \<Rightarrow> int \<Rightarrow> int \<times> int" where
  "monthDay [] m d = (m, d + 1)"
| "monthDay (l # ls) m d = (if d < l then (m, d + 1) else monthDay ls (m + 1) (d - l))"

definition civil :: "int \<Rightarrow> int \<times> int \<times> int" where
  "civil d = (case yearDay d of (y, yd) \<Rightarrow> (y, monthDay (monthLengths y) 1 yd))"

text \<open>The inverse: days before a year, before a month, before a day.\<close>

definition daysBeforeYear :: "int \<Rightarrow> int" where
  "daysBeforeYear y = 365 * (y - 1) + (y - 1) div 4 - (y - 1) div 100 + (y - 1) div 400"

definition daysSinceEpoch :: "int \<Rightarrow> int \<Rightarrow> int \<Rightarrow> int" where
  "daysSinceEpoch y m d = daysBeforeYear y + sum_list (take (nat (m - 1)) (monthLengths y)) + (d - 1)"

lemma mod_digit: "0 \<le> r \<Longrightarrow> r < k \<Longrightarrow> (k * q + r) mod k = (r :: int)"
  by simp

lemma lex_div:
  fixes x :: int
  assumes "x < x'" "0 < k"
  shows "x div k < x' div k \<or> x div k = x' div k \<and> x mod k < x' mod k"
proof (cases "x div k = x' div k")
  case True
  moreover have "x = k * (x div k) + x mod k" "x' = k * (x' div k) + x' mod k" by simp_all
  ultimately show ?thesis using assms(1) by (metis add_less_cancel_left)
qed (use zdiv_mono1 [of x x' k] assms in auto)

lemma lex_min:
  fixes x :: int
  assumes "x < x'" "0 < k"
  shows "min 3 (x div k) < min 3 (x' div k) \<or>
    min 3 (x div k) = min 3 (x' div k) \<and> x - k * min 3 (x div k) < x' - k * min 3 (x' div k)"
  using assms zdiv_mono1 [of x x' k] by (auto simp: min_def)

lemma digit_bounds:
  "0 \<le> n100 d" "n100 d \<le> 3" "0 \<le> r100 d" "r100 d < 36525" "0 \<le> r100 d div 1461" "r100 d div 1461 \<le> 24"
  "0 \<le> r4 d" "r4 d < 1461" "0 \<le> n1 d" "n1 d \<le> 3" "0 \<le> r4 d - 365 * n1 d" "r4 d - 365 * n1 d \<le> 365"
proof -
  have r: "0 \<le> r400 d" "r400 d < 146097" by (simp_all add: r400_def)
  have cut: "0 \<le> x - k * min 3 (x div k) \<and> x - k * min 3 (x div k) \<le> k"
    if "0 \<le> x" "x \<le> 4 * k" "0 < k" for x k :: int
  proof -
    have "k * (x div k) \<le> x" "x < k * (x div k) + k"
      using that mult_div_mod_eq [of k x] pos_mod_bound [of k x] pos_mod_sign [of k x] by linarith+
    moreover have "k * 3 \<le> k * (x div k)" if "\<not> x div k \<le> 3" using that \<open>0 < k\<close> by (intro mult_left_mono) auto
    ultimately have "k * 3 \<le> x" if "\<not> x div k \<le> 3" using that by linarith
    with \<open>k * (x div k) \<le> x\<close> \<open>x < k * (x div k) + k\<close> show ?thesis
      using that by (cases "x div k \<le> 3") (auto simp: min_def)
  qed
  show "0 \<le> n100 d" "n100 d \<le> 3" using r by (simp_all add: n100_def pos_imp_zdiv_nonneg_iff)
  show "0 \<le> r100 d" "r100 d < 36525" using cut [of "r400 d" 36524] r by (simp_all add: r100_def n100_def)
  then show "0 \<le> r100 d div 1461" "r100 d div 1461 \<le> 24" by simp_all
  show r4: "0 \<le> r4 d" "r4 d < 1461" by (simp_all add: r4_def)
  show "0 \<le> n1 d" "n1 d \<le> 3" using r4 by (simp_all add: n1_def pos_imp_zdiv_nonneg_iff)
  show "0 \<le> r4 d - 365 * n1 d" "r4 d - 365 * n1 d \<le> 365" using cut [of "r4 d" 365] r4 by (simp_all add: n1_def)
qed

lemma yearDay_mono:
  assumes "d < d'" "yearDay d = (y, yd)" "yearDay d' = (y', yd')"
  shows "y < y' \<or> y = y' \<and> yd < yd'"
proof -
  have "d div 146097 < d' div 146097 \<or> d div 146097 = d' div 146097 \<and> r400 d < r400 d'"
    using lex_div [OF assms(1), of 146097] by (simp add: r400_def)
  moreover have "r400 d < r400 d' \<Longrightarrow> n100 d < n100 d' \<or> n100 d = n100 d' \<and> r100 d < r100 d'"
    unfolding n100_def r100_def by (rule lex_min) simp_all
  moreover have "r100 d < r100 d' \<Longrightarrow> r100 d div 1461 < r100 d' div 1461 \<or> r100 d div 1461 = r100 d' div 1461 \<and> r4 d < r4 d'"
    unfolding r4_def by (rule lex_div) simp_all
  moreover have "r4 d < r4 d' \<Longrightarrow> n1 d < n1 d' \<or> n1 d = n1 d' \<and> r4 d - 365 * n1 d < r4 d' - 365 * n1 d'"
    unfolding n1_def by (rule lex_min) simp_all
  ultimately consider
      "d div 146097 < d' div 146097"
    | "d div 146097 = d' div 146097" "n100 d < n100 d'"
    | "d div 146097 = d' div 146097" "n100 d = n100 d'" "r100 d div 1461 < r100 d' div 1461"
    | "d div 146097 = d' div 146097" "n100 d = n100 d'" "r100 d div 1461 = r100 d' div 1461"
      "n1 d < n1 d' \<or> n1 d = n1 d' \<and> r4 d - 365 * n1 d < r4 d' - 365 * n1 d'" by blast
  then show ?thesis
    using assms(2,3) digit_bounds [of d] digit_bounds [of d'] by cases (auto simp: yearDay_def)
qed

lemma monthDay_mono:
  assumes "d < d'"
  shows "fst (monthDay ls m d) < fst (monthDay ls m d') \<or>
    fst (monthDay ls m d) = fst (monthDay ls m d') \<and> snd (monthDay ls m d) < snd (monthDay ls m d')"
proof -
  have ge: "m \<le> fst (monthDay ls m d)" for ls m d
    by (induction ls m d rule: monthDay.induct) auto
  show ?thesis
    using assms
  proof (induction ls m d arbitrary: d' rule: monthDay.induct)
    case (2 l ls m d)
    then show ?case using ge [of "m + 1" ls "d' - l"] by auto
  qed simp
qed

lemma civil_mono:
  assumes "d < d'" "civil d = (y, m, k)" "civil d' = (y', m', k')"
  shows "y < y' \<or> y = y' \<and> (m < m' \<or> m = m' \<and> k < k')"
proof -
  obtain yd yd' where "yearDay d = (y, yd)" "yearDay d' = (y', yd')"
    "monthDay (monthLengths y) 1 yd = (m, k)" "monthDay (monthLengths y') 1 yd' = (m', k')"
    using assms(2,3) by (auto simp: civil_def split: prod.split_asm)
  with yearDay_mono [OF assms(1)] monthDay_mono [of yd yd' "monthLengths y" 1] show ?thesis by fastforce
qed

lemma year_end_leap:
  assumes "yearDay d = (y, 365)"
  shows "isLeap y"
proof -
  define b where "b = n100 d"
  define c where "c = r100 d div 1461"
  have "n1 d = 3"
  proof (rule ccontr)
    assume "n1 d \<noteq> 3"
    then have "n1 d = r4 d div 365" by (auto simp: n1_def min_def split: if_split_asm)
    then have "r4 d - 365 * n1 d = r4 d mod 365" by (simp add: minus_mult_div_eq_mod)
    then show False using assms pos_mod_bound [of 365 "r4 d"] by (simp add: yearDay_def)
  qed
  then have y: "y = 4 * (100 * (d div 146097) + 25 * b + c + 1)" and r4: "r4 d = 1460"
    using assms by (simp_all add: yearDay_def b_def c_def)
  have century: "c = 24 \<Longrightarrow> b = 3"
  proof (rule ccontr)
    assume c: "c = 24" and b: "b \<noteq> 3"
    have "r100 d = 1461 * c + 1460" using r4 mult_div_mod_eq [of 1461 "r100 d"] by (simp add: r4_def c_def)
    then have "r100 d = 36524" using c by simp
    moreover have "b = r400 d div 36524" using b by (auto simp: b_def n100_def min_def split: if_split_asm)
    then have "r100 d = r400 d mod 36524" by (simp add: r100_def b_def [symmetric] minus_mult_div_eq_mod)
    ultimately show False using pos_mod_bound [of 36524 "r400 d"] by simp
  qed
  have bounds: "0 \<le> b" "b \<le> 3" "0 \<le> c" "c \<le> 24" using digit_bounds [of d] by (simp_all add: b_def c_def)
  show ?thesis
  proof (cases "c = 24")
    case True
    then have "y = 400 * (d div 146097 + 1)" using y century by simp
    then have "y mod 400 = 0" by simp
    moreover have "y mod 4 = 0" using y by simp
    ultimately show ?thesis by (simp add: isLeap_def)
  next
    case False
    have "y = 100 * (4 * (d div 146097) + b) + 4 * (c + 1)" using y by simp
    also have "\<dots> mod 100 = 4 * (c + 1)" by (rule mod_digit) (use False bounds in auto)
    finally have "y mod 100 = 4 * (c + 1)" .
    moreover have "y mod 4 = 0" using y by simp
    ultimately show ?thesis using bounds by (simp add: isLeap_def)
  qed
qed

lemma yearDay_inverse: "yearDay d = (y, yd) \<Longrightarrow> daysBeforeYear y + yd = d"
proof -
  assume yd: "yearDay d = (y, yd)"
  define a where "a = d div 146097"
  define b where "b = n100 d"
  define c where "c = r100 d div 1461"
  define e where "e = n1 d"
  have b: "0 \<le> b" "b \<le> 3" "0 \<le> c" "c \<le> 24" "0 \<le> e" "e \<le> 3"
    using digit_bounds [of d] by (simp_all add: b_def c_def e_def)
  have y: "y - 1 = 400 * a + (100 * b + (4 * c + e))" using yd by (simp add: yearDay_def a_def b_def c_def e_def)
  have d: "d = 146097 * a + 36524 * b + 1461 * c + r4 d"
    using mult_div_mod_eq [of 146097 d] mult_div_mod_eq [of 1461 "r100 d"]
    by (simp add: a_def b_def c_def r4_def r400_def r100_def)
  have "(y - 1) div 4 = 100 * a + 25 * b + c"
  proof -
    have "y - 1 = 4 * (100 * a + 25 * b + c) + e" using y by simp
    then show ?thesis using b by (simp add: div_mult_self4)
  qed
  moreover have "(y - 1) div 100 = 4 * a + b"
  proof -
    have "y - 1 = 100 * (4 * a + b) + (4 * c + e)" using y by simp
    then show ?thesis using b by (simp add: div_mult_self4)
  qed
  moreover have "(y - 1) div 400 = a" using y b by (simp add: div_mult_self4)
  ultimately have "daysBeforeYear y = 365 * (y - 1) + (100 * a + 25 * b + c) - (4 * a + b) + a"
    by (simp add: daysBeforeYear_def)
  then have "daysBeforeYear y = 146097 * a + 36524 * b + 1461 * c + 365 * e" using y by simp
  then show ?thesis using d yd by (simp add: yearDay_def e_def)
qed

lemma monthDay_range:
  "monthDay ls m0 d = (m, k) \<Longrightarrow> 0 \<le> d \<Longrightarrow> d < sum_list ls \<Longrightarrow>
     m0 \<le> m \<and> m < m0 + int (length ls) \<and> 1 \<le> k \<and> k \<le> ls ! nat (m - m0) \<and>
     sum_list (take (nat (m - m0)) ls) + (k - 1) = d"
proof (induction ls m0 d rule: monthDay.induct)
  case (2 l ls m0 d)
  show ?case
  proof (cases "d < l")
    case False
    then have "monthDay ls (m0 + 1) (d - l) = (m, k)" "0 \<le> d - l" "d - l < sum_list ls" using 2 by auto
    from "2.IH" [OF False this] have ih: "m0 + 1 \<le> m" "m < m0 + 1 + int (length ls)" "1 \<le> k"
      "k \<le> ls ! nat (m - (m0 + 1))" "sum_list (take (nat (m - (m0 + 1))) ls) + (k - 1) = d - l" by auto
    have "nat (m - m0) = Suc (nat (m - (m0 + 1)))" using ih(1) by simp
    with ih show ?thesis by simp
  qed (use 2 in auto)
qed simp

lemma civil_range:
  assumes "civil d = (y, m, k)"
  shows "1 \<le> m \<and> m \<le> 12 \<and> 1 \<le> k \<and> k \<le> monthLengths y ! nat (m - 1) \<and> k \<le> 31 \<and> daysSinceEpoch y m k = d"
proof -
  obtain yd where yd: "yearDay d = (y, yd)" and mk: "monthDay (monthLengths y) 1 yd = (m, k)"
    using assms by (auto simp: civil_def split: prod.split_asm)
  have "0 \<le> yd" "yd \<le> 365" using yd digit_bounds [of d] by (auto simp: yearDay_def)
  moreover have "sum_list (monthLengths y) = (if isLeap y then 366 else 365)" by (simp add: monthLengths_def)
  moreover have "yd = 365 \<Longrightarrow> isLeap y" using yd year_end_leap by blast
  ultimately have "yd < sum_list (monthLengths y)" by (cases "yd = 365") auto
  from monthDay_range [OF mk \<open>0 \<le> yd\<close> this] have mk': "1 \<le> m" "m < 1 + int (length (monthLengths y))"
    "1 \<le> k" "k \<le> monthLengths y ! nat (m - 1)" "sum_list (take (nat (m - 1)) (monthLengths y)) + (k - 1) = yd" by auto
  have len: "length (monthLengths y) = 12" by (simp add: monthLengths_def)
  have "\<forall>l \<in> set (monthLengths y). l \<le> 31" by (simp add: monthLengths_def)
  then have "monthLengths y ! nat (m - 1) \<le> 31" using mk'(1,2) len by (auto simp: nth_mem)
  with mk' len yearDay_inverse [OF yd] show ?thesis by (auto simp: daysSinceEpoch_def)
qed

section \<open>Texts\<close>

definition nsPerSec :: int where "nsPerSec = 10 ^ 9"

text \<open>\<open>appendInt\<close>: at least \<open>w\<close> digits.\<close>

fun pad :: "nat \<Rightarrow> nat \<Rightarrow> string" where
  "pad 0 n = []"
| "pad (Suc w) n = pad w (n div 10) @ [digit_char (n mod 10)]"

definition appendInt :: "int \<Rightarrow> nat \<Rightarrow> string" where
  "appendInt x w = (if x < 0 then ''-'' else []) @ (let n = nat \<bar>x\<bar> in if n < 10 ^ w then pad w n else itoa n)"

text \<open>Day 719162 after 1 January of year 1 is 1 January 1970.\<close>

definition dateOf :: "instant \<Rightarrow> int \<times> int \<times> int" where
  "dateOf t = civil (t div nsPerSec div 86400 + 719162)"

definition FormatRFC3339 :: "instant \<Rightarrow> string" where
  "FormatRFC3339 t =
     (case dateOf t of (y, m, k) \<Rightarrow>
        let sod = t div nsPerSec mod 86400 in
        appendInt y 4 @ ''-'' @ appendInt m 2 @ ''-'' @ appendInt k 2 @ ''T'' @ appendInt (sod div 3600) 2 @ '':'' @
        appendInt (sod mod 3600 div 60) 2 @ '':'' @ appendInt (sod mod 60) 2 @ ''Z'')"

definition zeroTime :: instant where "zeroTime = - 62135596800 * nsPerSec"

text \<open>\<open>getnum\<close>: two digits, or one when the field is not of fixed width.\<close>

definition digit_val :: "char \<Rightarrow> int" where
  "digit_val c = int (of_char c) - 48"

definition getnum :: "bool \<Rightarrow> string \<Rightarrow> (int \<times> string) option" where
  "getnum fixed s =
     (case s of
        c # d # r \<Rightarrow>
          if \<not> is_digit c then None
          else if is_digit d then Some (10 * digit_val c + digit_val d, r)
          else if fixed then None else Some (digit_val c, d # r)
      | [c] \<Rightarrow> if is_digit c \<and> \<not> fixed then Some (digit_val c, []) else None
      | [] \<Rightarrow> None)"

definition lit :: "char \<Rightarrow> string \<Rightarrow> string option" where
  "lit c s = (case s of d # r \<Rightarrow> if d = c then Some r else None | [] \<Rightarrow> None)"

definition ranged :: "int \<Rightarrow> int \<Rightarrow> (int \<times> string) option \<Rightarrow> (int \<times> string) option" where
  "ranged lo hi x = (case x of Some (n, r) \<Rightarrow> if lo \<le> n \<and> n < hi then Some (n, r) else None | None \<Rightarrow> None)"

definition parseYear :: "string \<Rightarrow> (int \<times> string) option" where
  "parseYear s =
     (case s of
        a # b # c # d # r \<Rightarrow>
          if list_all is_digit [a, b, c, d]
          then Some (1000 * digit_val a + 100 * digit_val b + 10 * digit_val c + digit_val d, r) else None
      | _ \<Rightarrow> None)"

text \<open>A fraction is a period or comma with digits, read to nine places; the zone is \<open>Z\<close> or an offset.\<close>

definition parseFraction :: "string \<Rightarrow> int \<times> string" where
  "parseFraction s =
     (case s of
        p # d # r \<Rightarrow>
          if (p = CHR ''.'' \<or> p = CHR '','') \<and> is_digit d
          then let ds = take 9 (takeWhile is_digit (d # r)) in
            (foldl (\<lambda>n c. 10 * n + digit_val c) 0 ds * 10 ^ (9 - length ds), dropWhile is_digit (d # r))
          else (0, s)
      | _ \<Rightarrow> (0, s))"

definition parseZone :: "string \<Rightarrow> (int \<times> string) option" where
  "parseZone s =
     (case s of
        [] \<Rightarrow> None
      | c # r \<Rightarrow>
          if c = CHR ''Z'' then Some (0, r)
          else if c \<noteq> CHR ''+'' \<and> c \<noteq> CHR ''-'' then None
          else Option.bind (ranged 0 25 (getnum True r)) (\<lambda>(hh, r1).
               Option.bind (lit CHR '':'' r1) (\<lambda>r2.
               Option.bind (ranged 0 61 (getnum True r2)) (\<lambda>(mm, r3).
                 Some ((if c = CHR ''+'' then 1 else -1) * (3600 * hh + 60 * mm), r3)))))"

text \<open>The instant and the offset of its zone in seconds.\<close>

definition parseTime :: "string \<Rightarrow> (instant \<times> int) option" where
  "parseTime s =
     Option.bind (parseYear s) (\<lambda>(y, s1).
     Option.bind (lit CHR ''-'' s1) (\<lambda>s2.
     Option.bind (ranged 1 13 (getnum True s2)) (\<lambda>(m, s3).
     Option.bind (lit CHR ''-'' s3) (\<lambda>s4.
     Option.bind (getnum True s4) (\<lambda>(k, s5).
     Option.bind (lit CHR ''T'' s5) (\<lambda>s6.
     Option.bind (ranged 0 24 (getnum False s6)) (\<lambda>(hh, s7).
     Option.bind (lit CHR '':'' s7) (\<lambda>s8.
     Option.bind (ranged 0 60 (getnum True s8)) (\<lambda>(mm, s9).
     Option.bind (lit CHR '':'' s9) (\<lambda>s10.
     Option.bind (ranged 0 60 (getnum True s10)) (\<lambda>(ss, s11).
       let (ns, s12) = parseFraction s11 in
       Option.bind (parseZone s12) (\<lambda>(off, s13).
         if s13 = [] \<and> 1 \<le> k \<and> k \<le> monthLengths y ! nat (m - 1)
         then Some (((daysSinceEpoch y m k - 719162) * 86400 + 3600 * hh + 60 * mm + ss - off) * nsPerSec + ns, off)
         else None))))))))))))"

definition parseInstant :: "string \<Rightarrow> instant option" where
  "parseInstant s = map_option fst (parseTime s)"

definition ParseRFC3339 :: "string \<Rightarrow> instant" where
  "ParseRFC3339 s = (case parseInstant s of Some t \<Rightarrow> t | None \<Rightarrow> zeroTime)"

text \<open>\<open>strconv.Atoi\<close>: an optional sign and digits, within 64 bits.\<close>

definition atoi :: "string \<Rightarrow> int option" where
  "atoi s =
     (let (neg, ds) = (case s of c # r \<Rightarrow> if c = CHR ''-'' then (True, r) else if c = CHR ''+'' then (False, r) else (False, s)
                       | [] \<Rightarrow> (False, []));
          n = foldl (\<lambda>n c. 10 * n + digit_val c) 0 ds;
          v = (if neg then - n else n) in
      if ds = [] \<or> \<not> list_all is_digit ds \<or> v < - (2 ^ 63) \<or> v \<ge> 2 ^ 63 then None else Some v)"

text \<open>
  \<open>time.RFC3339Nano\<close>: a fraction without its trailing zeros, none when it is zero. It is read like
  the other layout. \<open>FormatNanoZone\<close> writes the instant in a zone, \<open>zoneText\<close> the offset of the zone.
\<close>

definition FormatRFC3339Nano :: "instant \<Rightarrow> string" where
  "FormatRFC3339Nano t =
     (let ns = t mod nsPerSec;
          frac = rev (dropWhile (\<lambda>c. c = CHR ''0'') (rev (pad 9 (nat ns)))) in
      butlast (FormatRFC3339 t) @ (if ns = 0 then [] else CHR ''.'' # frac) @ ''Z'')"

definition zoneText :: "int \<Rightarrow> string" where
  "zoneText off =
     (if off = 0 then ''Z''
      else (if off < 0 then ''-'' else ''+'') @ appendInt (\<bar>off\<bar> div 60 div 60) 2 @ '':'' @ appendInt (\<bar>off\<bar> div 60 mod 60) 2)"

definition FormatNanoZone :: "instant \<Rightarrow> int \<Rightarrow> string" where
  "FormatNanoZone t off = butlast (FormatRFC3339Nano (t + off * nsPerSec)) @ zoneText off"

definition fourDigitYear :: "instant \<Rightarrow> bool" where
  "fourDigitYear t \<longleftrightarrow> 0 \<le> fst (dateOf t) \<and> fst (dateOf t) \<le> 9999"

lemma append_less: "length u = length v \<Longrightarrow> u < v \<Longrightarrow> u @ x < v @ (y :: 'a :: order list)"
  by (induction u v rule: list_induct2) auto

lemma append_same_less [simp]: "u @ x < u @ y \<longleftrightarrow> x < (y :: 'a :: order list)"
  by (induction u) auto

lemma pad_length [simp]: "length (pad w n) = w"
  by (induction w arbitrary: n) auto

lemma of_digit_char: "n < 10 \<Longrightarrow> of_char (digit_char n) = 48 + n"
  by (simp add: digit_char_def)

lemma digit_char_mono: "n < m \<Longrightarrow> m < 10 \<Longrightarrow> digit_char n < digit_char m"
  by (simp add: less_char_def of_digit_char)

lemma pad_mono: "n < m \<Longrightarrow> m < 10 ^ w \<Longrightarrow> pad w n < pad w m"
proof (induction w arbitrary: n m)
  case (Suc w)
  show ?case
  proof (cases "n div 10 = m div 10")
    case True
    with Suc.prems(1) have "n mod 10 < m mod 10" by (metis div_mult_mod_eq add_less_cancel_left)
    then show ?thesis using True by (simp add: digit_char_mono)
  next
    case False
    then have "n div 10 < m div 10" using Suc.prems(1) by (simp add: div_le_mono le_neq_implies_less)
    moreover have "m div 10 < 10 ^ w" using Suc.prems(2) by (simp add: div_less_iff_less_mult mult.commute)
    ultimately show ?thesis using Suc.IH by (simp add: append_less)
  qed
qed simp

lemma appendInt_pad: "0 \<le> x \<Longrightarrow> x < 10 ^ w \<Longrightarrow> appendInt x w = pad w (nat x)"
  by (simp add: appendInt_def nat_less_iff)

lemma field_less: "0 \<le> x \<Longrightarrow> x < y \<Longrightarrow> y < 10 ^ w \<Longrightarrow> appendInt x w @ u < appendInt y w @ v"
  by (auto simp: appendInt_pad nat_less_iff intro!: append_less pad_mono)

lemma dateOf_range:
  "dateOf t = (y, m, k) \<Longrightarrow> 1 \<le> m \<and> m \<le> 12 \<and> 1 \<le> k \<and> k \<le> monthLengths y ! nat (m - 1) \<and> k \<le> 31 \<and>
     daysSinceEpoch y m k = t div nsPerSec div 86400 + 719162"
  using civil_range unfolding dateOf_def by blast

lemma Format_less:
  assumes "fourDigitYear t" "fourDigitYear t'" "t div nsPerSec < t' div nsPerSec"
  shows "FormatRFC3339 t < FormatRFC3339 t'"
proof -
  obtain y m k where d: "dateOf t = (y, m, k)" by (cases "dateOf t") auto
  obtain y' m' k' where d': "dateOf t' = (y', m', k')" by (cases "dateOf t'") auto
  let ?s = "t div nsPerSec mod 86400" and ?s' = "t' div nsPerSec mod 86400"
  have r: "0 \<le> y" "y' < 10 ^ 4" "0 \<le> m" "m' < 10 ^ 2" "0 \<le> k" "k' < 10 ^ 2"
    using assms(1,2) d d' dateOf_range [OF d] dateOf_range [OF d'] by (auto simp: fourDigitYear_def)
  consider "t div nsPerSec div 86400 < t' div nsPerSec div 86400"
    | "t div nsPerSec div 86400 = t' div nsPerSec div 86400" "?s < ?s'"
    using lex_div [OF assms(3), of 86400] by auto
  then show ?thesis
  proof cases
    case 1
    then have "t div nsPerSec div 86400 + 719162 < t' div nsPerSec div 86400 + 719162" by simp
    from civil_mono [OF this] d d' have "y < y' \<or> y = y' \<and> (m < m' \<or> m = m' \<and> k < k')" by (simp add: dateOf_def)
    then show ?thesis using r by (elim disjE conjE) (simp_all add: FormatRFC3339_def Let_def d d' field_less)
  next
    case 2
    have same: "y = y'" "m = m'" "k = k'" using 2(1) d d' by (simp_all add: dateOf_def)
    have "?s div 3600 < ?s' div 3600 \<or> ?s div 3600 = ?s' div 3600 \<and> ?s mod 3600 < ?s' mod 3600"
      using lex_div [OF 2(2), of 3600] by simp
    moreover have "?s mod 3600 < ?s' mod 3600 \<Longrightarrow> ?s mod 3600 div 60 < ?s' mod 3600 div 60 \<or>
        ?s mod 3600 div 60 = ?s' mod 3600 div 60 \<and> ?s mod 60 < ?s' mod 60"
      using lex_div [of "?s mod 3600" "?s' mod 3600" 60] by (simp add: mod_mod_cancel)
    moreover have fields: "?s' div 3600 < 10 ^ 2" "?s' mod 3600 div 60 < 10 ^ 2" "?s' mod 60 < 10 ^ 2"
      "0 \<le> ?s div 3600" "0 \<le> ?s mod 3600 div 60" "0 \<le> ?s mod 60"
      using pos_mod_bound [of 86400 "t' div nsPerSec"] pos_mod_bound [of 3600 ?s'] by auto
    ultimately consider "?s div 3600 < ?s' div 3600"
      | "?s div 3600 = ?s' div 3600" "?s mod 3600 div 60 < ?s' mod 3600 div 60"
      | "?s div 3600 = ?s' div 3600" "?s mod 3600 div 60 = ?s' mod 3600 div 60" "?s mod 60 < ?s' mod 60" by blast
    then show ?thesis
      using fields by cases (simp_all only: FormatRFC3339_def Let_def d d' same prod.case append_same_less field_less)
  qed
qed

text \<open>The texts are ordered as the instants are, to the second.\<close>

lemma rfc3339_order:
  assumes "fourDigitYear t" "fourDigitYear t'"
  shows "FormatRFC3339 t < FormatRFC3339 t' \<longleftrightarrow> t div nsPerSec < t' div nsPerSec"
proof (rule linorder_cases [of "t div nsPerSec" "t' div nsPerSec"])
  assume eq: "t div nsPerSec = t' div nsPerSec"
  then have "FormatRFC3339 t = FormatRFC3339 t'" unfolding FormatRFC3339_def dateOf_def by simp
  then show ?thesis using eq by simp
qed (use Format_less assms less_asym in blast)+

lemma digit_val_char [simp]: "n < 10 \<Longrightarrow> digit_val (digit_char n) = int n"
  by (simp add: digit_val_def of_digit_char)

lemma pad2: "pad 2 n = [digit_char (n div 10 mod 10), digit_char (n mod 10)]"
  by (simp add: numeral_2_eq_2)

lemma tens: "n div 10 div 10 = n div (100 :: nat)" "n div 100 div 10 = n div (1000 :: nat)"
  using div_mult2_eq [of n 10 10] div_mult2_eq [of n 100 10] by simp_all

lemma pad4: "pad 4 n = pad 2 (n div 100) @ pad 2 n"
proof -
  have four: "4 = Suc (Suc 2)" by simp
  show ?thesis unfolding four pad.simps(2) by (simp add: pad2 tens)
qed

lemma decimal_split: "10 * int (n div 10) + int (n mod 10) = int n"
  using arg_cong [OF mult_div_mod_eq [of 10 n], of int] by (simp only: of_nat_add of_nat_mult of_nat_numeral)

lemma getnum_field:
  assumes "0 \<le> x" "x < 100"
  shows "getnum fixed (appendInt x 2 @ r) = Some (x, r)"
proof -
  obtain n where x: "x = int n" using assms(1) nonneg_int_cases by blast
  then have "n div 10 < 10" using assms by simp
  then have "10 * int (n div 10 mod 10) + int (n mod 10) = x" using decimal_split [of n] x by simp
  then show ?thesis using assms x by (simp add: appendInt_pad pad2 getnum_def)
qed

lemma parseYear_field:
  assumes "0 \<le> y" "y \<le> 9999"
  shows "parseYear (appendInt y 4 @ r) = Some (y, r)"
proof -
  obtain n where y: "y = int n" using assms(1) nonneg_int_cases by blast
  have "n div 1000 < 10" using assms y by simp
  then have "1000 * int (n div 1000 mod 10) + 100 * int (n div 100 mod 10) + 10 * int (n div 10 mod 10) + int (n mod 10) = y"
    using decimal_split [of n] decimal_split [of "n div 10"] decimal_split [of "n div 100"] y
    by (simp add: tens)
  then show ?thesis using assms y by (simp add: appendInt_pad pad4 pad2 parseYear_def tens)
qed

lemma lit_Cons [simp]: "lit c (c # s) = Some s"
  by (simp add: lit_def)

text \<open>The date and time of a formatted text read back; what follows decides the fraction and the zone.\<close>

lemma parse_date_time:
  assumes "fourDigitYear t"
  shows "parseTime (butlast (FormatRFC3339 t) @ rest) =
    (case parseFraction rest of (ns, r) \<Rightarrow>
       Option.bind (parseZone r) (\<lambda>(off, r').
         if r' = [] then Some ((t div nsPerSec - off) * nsPerSec + ns, off) else None))"
proof -
  obtain y m k where d: "dateOf t = (y, m, k)" by (cases "dateOf t") auto
  note r = dateOf_range [OF d]
  define n where "n = t div nsPerSec mod 86400"
  define hh mm ss where "hh = n div 3600" and "mm = n mod 3600 div 60" and "ss = n mod 60"
  have y: "0 \<le> y" "y \<le> 9999" using assms d by (auto simp: fourDigitYear_def)
  have "0 \<le> n" "n < 86400" by (simp_all add: n_def)
  then have b: "0 \<le> hh" "hh < 24" "0 \<le> mm" "mm < 60" "0 \<le> ss" "ss < 60" by (auto simp: hh_def mm_def ss_def)
  have "n mod 3600 mod 60 = n mod 60" by (simp add: mod_mod_cancel)
  then have "3600 * hh + 60 * mm + ss = n"
    using mult_div_mod_eq [of 3600 n] mult_div_mod_eq [of 60 "n mod 3600"]
    unfolding hh_def mm_def ss_def by linarith
  then have "t div nsPerSec div 86400 * 86400 + 3600 * hh + 60 * mm + ss = t div nsPerSec"
    using div_mult_mod_eq [of "t div nsPerSec" 86400] unfolding n_def by linarith
  then have sum: "(daysSinceEpoch y m k - 719162) * 86400 + 3600 * hh + 60 * mm + ss = t div nsPerSec" using r by simp
  have fields: "parseYear (appendInt y 4 @ r) = Some (y, r)" "ranged 1 13 (getnum True (appendInt m 2 @ r)) = Some (m, r)"
    "getnum True (appendInt k 2 @ r) = Some (k, r)" "ranged 0 24 (getnum False (appendInt hh 2 @ r)) = Some (hh, r)"
    "ranged 0 60 (getnum True (appendInt mm 2 @ r)) = Some (mm, r)" "ranged 0 60 (getnum True (appendInt ss 2 @ r)) = Some (ss, r)"
    for r using y r b by (simp_all add: parseYear_field getnum_field ranged_def)
  have "FormatRFC3339 t = (appendInt y 4 @ ''-'' @ appendInt m 2 @ ''-'' @ appendInt k 2 @ ''T'' @ appendInt hh 2 @ '':'' @
      appendInt mm 2 @ '':'' @ appendInt ss 2) @ ''Z''"
    by (simp add: FormatRFC3339_def d Let_def n_def hh_def mm_def ss_def)
  then have "butlast (FormatRFC3339 t) @ rest = appendInt y 4 @ ''-'' @ appendInt m 2 @ ''-'' @ appendInt k 2 @ ''T'' @
      appendInt hh 2 @ '':'' @ appendInt mm 2 @ '':'' @ appendInt ss 2 @ rest"
    by (simp only: butlast_append append.assoc) simp
  then have "parseTime (butlast (FormatRFC3339 t) @ rest) =
      (case parseFraction rest of (ns, s12) \<Rightarrow> Option.bind (parseZone s12) (\<lambda>(off, s13).
         if s13 = [] \<and> 1 \<le> k \<and> k \<le> monthLengths y ! nat (m - 1)
         then Some (((daysSinceEpoch y m k - 719162) * 86400 + 3600 * hh + 60 * mm + ss - off) * nsPerSec + ns, off)
         else None))"
    by (simp only: parseTime_def fields append_Cons append_Nil lit_Cons Option.bind.simps prod.case Let_def)
  then show ?thesis using r unfolding sum by simp
qed

lemma Format_ends: "FormatRFC3339 t = butlast (FormatRFC3339 t) @ ''Z''"
  by (simp add: FormatRFC3339_def Let_def butlast_append split: prod.split)

text \<open>A text that was formatted reads back as the instant without its fraction of a second.\<close>

lemma rfc3339_roundtrip:
  assumes "fourDigitYear t"
  shows "ParseRFC3339 (FormatRFC3339 t) = t div nsPerSec * nsPerSec"
proof -
  have "parseFraction ''Z'' = (0, ''Z'')" "parseZone ''Z'' = Some (0, [])"
    by (simp_all add: parseFraction_def parseZone_def)
  with parse_date_time [OF assms, of "''Z''"] Format_ends [of t] show ?thesis
    by (simp add: ParseRFC3339_def parseInstant_def)
qed

text \<open>With nanoseconds and a zone of whole minutes, everything reads back.\<close>

lemma decimal_pad: "n < 10 ^ w \<Longrightarrow> foldl (\<lambda>n c. 10 * n + digit_val c) 0 (pad w n) = int n"
proof (induction w arbitrary: n)
  case (Suc w)
  have "n div 10 < 10 ^ w" using Suc.prems by (simp add: div_less_iff_less_mult mult.commute)
  with Suc.IH show ?case using decimal_split [of n] by simp
qed simp

lemma decimal_zeros:
  "foldl (\<lambda>n c. 10 * n + digit_val c) a (u @ replicate k (CHR ''0'')) = foldl (\<lambda>n c. 10 * n + digit_val c) a u * 10 ^ k"
proof (induction k)
  case (Suc k)
  have "u @ replicate (Suc k) (CHR ''0'') = (u @ replicate k (CHR ''0'')) @ [CHR ''0'']"
    by (simp add: replicate_append_same)
  then show ?case using Suc by (simp add: digit_val_def)
qed simp

lemma strip_zeros:
  obtains k where "s = rev (dropWhile (\<lambda>c. c = CHR ''0'') (rev s)) @ replicate k (CHR ''0'')"
proof -
  have "takeWhile (\<lambda>c. c = CHR ''0'') (rev s) = replicate (length (takeWhile (\<lambda>c. c = CHR ''0'') (rev s))) (CHR ''0'')"
    using replicate_eqI [of "takeWhile (\<lambda>c. c = CHR ''0'') (rev s)" _ "CHR ''0''"] by (auto dest: set_takeWhileD)
  moreover have "rev s = takeWhile (\<lambda>c. c = CHR ''0'') (rev s) @ dropWhile (\<lambda>c. c = CHR ''0'') (rev s)" by simp
  ultimately have "s = rev (dropWhile (\<lambda>c. c = CHR ''0'') (rev s)) @ replicate (length (takeWhile (\<lambda>c. c = CHR ''0'') (rev s))) (CHR ''0'')"
    by (metis rev_append rev_replicate rev_rev_ident)
  with that show thesis by blast
qed

lemma pad_digits: "list_all is_digit (pad w n)"
  by (induction w arbitrary: n) auto

lemma parse_fraction:
  assumes "0 < n" "n < 10 ^ 9" "\<not> is_digit z"
  shows "parseFraction (CHR ''.'' # rev (dropWhile (\<lambda>c. c = CHR ''0'') (rev (pad 9 n))) @ z # r) = (int n, z # r)"
proof -
  define f where "f = rev (dropWhile (\<lambda>c. c = CHR ''0'') (rev (pad 9 n)))"
  obtain k where k: "pad 9 n = f @ replicate k (CHR ''0'')" using strip_zeros [of "pad 9 n"] f_def by metis
  then have len: "length f + k = 9" using pad_length [of 9 n] by simp
  have dig: "list_all is_digit f" using pad_digits [of 9 n] k by simp
  have val: "int n = foldl (\<lambda>n c. 10 * n + digit_val c) 0 f * 10 ^ k"
    using decimal_pad [OF assms(2)] k decimal_zeros by metis
  have "f \<noteq> []" using val assms(1) by auto
  then obtain d g where f: "f = d # g" by (cases f) auto
  have tw: "takeWhile is_digit (f @ z # r) = f" "dropWhile is_digit (f @ z # r) = z # r"
    using dig assms(3) by (auto simp: list_all_iff takeWhile_append dropWhile_append)
  have "9 - length f = k" using len by simp
  then show ?thesis
    unfolding f_def [symmetric] using val tw dig len f by (simp add: parseFraction_def Let_def)
qed

lemma parse_zone:
  assumes "off mod 60 = 0" "\<bar>off\<bar> < 86400"
  shows "parseZone (zoneText off) = Some (off, [])"
proof (cases "off = 0")
  case False
  define h where "h = \<bar>off\<bar> div 60 div 60"
  define m where "m = \<bar>off\<bar> div 60 mod 60"
  have b: "0 \<le> h" "h < 24" "0 \<le> m" "m < 60" using assms(2) by (auto simp: h_def m_def)
  have "\<bar>off\<bar> mod 60 = 0" using assms(1) by (cases "off < 0") (simp_all add: zmod_zminus1_eq_if)
  then have "\<bar>off\<bar> = 60 * (\<bar>off\<bar> div 60)" using mult_div_mod_eq [of 60 "\<bar>off\<bar>"] by linarith
  moreover have "\<bar>off\<bar> div 60 = 60 * h + m" using mult_div_mod_eq [of 60 "\<bar>off\<bar> div 60"] unfolding h_def m_def by linarith
  ultimately have sum: "3600 * h + 60 * m = \<bar>off\<bar>" by simp
  have f: "ranged 0 25 (getnum True (appendInt h 2 @ r)) = Some (h, r)"
    "ranged 0 61 (getnum True (appendInt m 2)) = Some (m, [])" for r
    using b getnum_field [of m True "[]"] by (simp_all add: getnum_field ranged_def)
  show ?thesis
    using False f sum by (auto simp: zoneText_def parseZone_def h_def [symmetric] m_def [symmetric])
qed (simp add: zoneText_def parseZone_def)

lemma nano_roundtrip:
  assumes "fourDigitYear (t + off * nsPerSec)" "off mod 60 = 0" "\<bar>off\<bar> < 86400"
  shows "parseTime (FormatNanoZone t off) = Some (t, off)"
proof -
  let ?l = "t + off * nsPerSec"
  have pos: "nsPerSec > 0" by (simp add: nsPerSec_def)
  have secs: "?l div nsPerSec - off = t div nsPerSec" and frac: "?l mod nsPerSec = t mod nsPerSec" using pos by simp_all
  define n where "n = nat (t mod nsPerSec)"
  have n: "int n = t mod nsPerSec" "n < 10 ^ 9" using pos by (simp_all add: n_def nsPerSec_def nat_less_iff)
  have whole: "t div nsPerSec * nsPerSec + int n = t" unfolding n(1) by simp
  have z: "\<exists>z r. zoneText off = z # r \<and> \<not> is_digit z" "zoneText off \<noteq> [] \<and> hd (zoneText off) \<notin> {CHR ''.'', CHR '',''}"
    by (auto simp: zoneText_def is_digit_def)
  have shape: "FormatNanoZone t off = butlast (FormatRFC3339 ?l) @
      (if n = 0 then [] else CHR ''.'' # rev (dropWhile (\<lambda>c. c = CHR ''0'') (rev (pad 9 n)))) @ zoneText off"
    using frac n(1) by (auto simp: FormatNanoZone_def FormatRFC3339Nano_def Let_def butlast_append n_def)
  have "parseFraction ((if n = 0 then [] else CHR ''.'' # rev (dropWhile (\<lambda>c. c = CHR ''0'') (rev (pad 9 n)))) @ zoneText off) =
      (int n, zoneText off)"
  proof (cases "n = 0")
    case True
    then show ?thesis using z(2) by (auto simp: parseFraction_def split: list.split)
  next
    case False
    obtain z0 r where "zoneText off = z0 # r" "\<not> is_digit z0" using z(1) by blast
    then show ?thesis using False parse_fraction [of n z0 r] n(2) by simp
  qed
  then show ?thesis
    unfolding shape using parse_date_time [OF assms(1)] parse_zone [OF assms(2,3)] secs whole by simp
qed

text \<open>The bytes of the texts.\<close>

definition timeByte :: "char \<Rightarrow> bool" where
  "timeByte c \<longleftrightarrow> is_digit c \<or> c \<in> set ''-:TZ.+''"

lemma appendInt_bytes: "list_all timeByte (appendInt x w)"
proof -
  have "list_all timeByte s" if "list_all is_digit s" for s using that by (auto simp: list_all_iff timeByte_def)
  then have "list_all timeByte (pad w n)" "list_all timeByte (itoa n)" for n using pad_digits itoa_digits by blast+
  then show ?thesis by (simp add: appendInt_def Let_def timeByte_def)
qed

lemma Format_bytes: "list_all timeByte (FormatRFC3339 t)"
  by (simp add: FormatRFC3339_def Let_def appendInt_bytes timeByte_def split: prod.split)

lemma zoneText_bytes: "list_all timeByte (zoneText off)"
  by (simp add: zoneText_def appendInt_bytes timeByte_def)

lemma FormatNano_bytes: "list_all timeByte (FormatRFC3339Nano t)"
proof -
  have "list_all timeByte (butlast (FormatRFC3339 t))" using Format_bytes by (meson in_set_butlastD list_all_iff)
  moreover have "list_all timeByte (rev (dropWhile P (rev (pad 9 n))))" for P n
    using pad_digits [of 9 n] by (auto simp: list_all_iff timeByte_def dest: set_dropWhileD)
  ultimately show ?thesis by (simp add: FormatRFC3339Nano_def Let_def timeByte_def)
qed

lemma FormatNanoZone_bytes: "list_all timeByte (FormatNanoZone t off)"
  using FormatNano_bytes [of "t + off * nsPerSec"] zoneText_bytes [of off]
  by (auto simp: FormatNanoZone_def list_all_iff dest: in_set_butlastD)

lemma itoa_value: "foldl (\<lambda>n c. 10 * n + digit_val c) 0 (itoa n) = int n"
proof (induction n rule: itoa.induct)
  case (1 n)
  have "int n = 10 * int (n div 10) + int (n mod 10)" by (simp add: zdiv_int zmod_int)
  with 1 show ?case by (cases "n < 10") (simp_all add: itoa.simps [of n])
qed

lemma atoi_itoaInt:
  assumes "- (2 ^ 63) \<le> n" "n < 2 ^ 63"
  shows "atoi (itoaInt n) = Some n"
proof (cases "n < 0")
  case True
  then show ?thesis using assms itoa_digits by (simp add: atoi_def itoaInt_def itoa_value Let_def)
next
  case False
  obtain c r where c: "itoa (nat n) = c # r" "is_digit c" using itoa_digits [of "nat n"] by (cases "itoa (nat n)") auto
  then have "(case itoa (nat n) of c # r \<Rightarrow> if c = CHR ''-'' then (True, r) else if c = CHR ''+'' then (False, r) else (False, itoa (nat n))
                | [] \<Rightarrow> (False, [])) = (False, itoa (nat n))" by (auto simp: is_digit_def)
  then show ?thesis using assms itoa_digits False by (simp add: atoi_def itoaInt_def itoa_value Let_def)
qed

end
