(* ===== verification/Snapshot_Pins.thy ===== *)
theory Snapshot_Pins
  imports Policy_Store Go_Time "HOL-Library.AList"
begin

text \<open>
  Snapshot pins (\<open>internal/coordination/snapshot\<close>): the pin store with its cache (\<open>pin.go\<close>,
  \<open>pin_lru.go\<close>) and the sweep of expired pins (\<open>pin_sweep.go\<close>).

  A store runs on the graph, or on a map in memory (\<open>NewTestPinStore\<close>). The map is the list of
  its entries; Go leaves the order of an iteration over it open, and no statement below depends
  on it. Instants are those of \<open>Go_Time\<close>; the clock is the argument \<open>now\<close>. The cache is a map
  with the \<open>Add\<close> of the LRU library as a parameter, and the database is the parameter of
  \<open>Graph_Client\<close>.

  The store is what compaction consults before it drops a snapshot, so the property that matters
  is that no live pin is missing from an answer.
\<close>

section \<open>Pins and keys\<close>

record snapshot_pin =
  sp_name :: string
  sp_principal :: string
  sp_snapshot :: string
  sp_pinned_at :: instant
  sp_expiry :: instant
  sp_table :: string
  sp_namespace :: string

record query_ref =
  qr_query :: string
  qr_tenant :: string

record pin_key =
  pk_tenant :: string
  pk_namespace :: string
  pk_table :: string

type_synonym pin_cache = "pin_key \<rightharpoonup> snapshot_pin list"
type_synonym pin_mem = "(string \<times> snapshot_pin) list"

record 'db pin_store =
  ps_mem :: "pin_mem option"
  ps_cache :: pin_cache
  ps_db :: 'db

definition pinKey :: "string \<Rightarrow> snapshot_pin \<Rightarrow> pin_key" where
  "pinKey tid p = \<lparr>pk_tenant = tid, pk_namespace = sp_namespace p, pk_table = sp_table p\<rparr>"

definition joinNS :: "string list \<Rightarrow> string" where
  "joinNS parts = join_with ''.'' parts"

section \<open>The store in memory\<close>

definition memKey :: "string \<Rightarrow> string \<Rightarrow> string" where
  "memKey tid name = tid @ ''/'' @ name"

definition memUpsert :: "string \<Rightarrow> snapshot_pin \<Rightarrow> pin_mem \<Rightarrow> pin_mem" where
  "memUpsert tid p m = AList.update (memKey tid (sp_name p)) p m"

definition memActive :: "instant \<Rightarrow> string \<Rightarrow> string \<Rightarrow> string \<Rightarrow> pin_mem \<Rightarrow> snapshot_pin list" where
  "memActive now tid table ns m =
     map snd (filter (\<lambda>(k, p). has_prefix k (tid @ ''/'') \<and> sp_table p = table \<and> sp_namespace p = ns \<and> sp_expiry p > now) m)"

section \<open>Statements\<close>

definition execPinCypherNoRows :: "'db pg \<Rightarrow> string \<Rightarrow> 'db \<Rightarrow> graph_error + 'db" where
  "execPinCypherNoRows pg cy db =
     rbind (txQuery pg (cypherStatement cy ''out ag_catalog.agtype'') [] db) (\<lambda>(_, db'). Inr db')"

text \<open>Unlike \<open>stripAgtypeQuotes\<close> of the policy store, this copy leaves escapes alone.\<close>

definition stripAgtypeQ :: "string \<Rightarrow> string" where
  "stripAgtypeQ s0 =
     (let s = stripSuffix ''::numeric'' (stripSuffix ''::text'' s0) in
      if length s \<ge> 2 \<and> hd s = CHR 0x22 \<and> last s = CHR 0x22 then butlast (List.tl s) else s)"

definition pinNode :: "string \<Rightarrow> string \<Rightarrow> string" where
  "pinNode tenant name = ''(sp:SnapshotPin {tenant_id: '' @ cyLit tenant @ '', pin_name: '' @ cyLit name @ ''})''"

definition tableNode :: "string \<Rightarrow> string \<Rightarrow> string \<Rightarrow> string" where
  "tableNode tenant name ns =
     ''(t:Table {tenant_id: '' @ cyLit tenant @ '', name: '' @ cyLit name @ '', namespace: '' @ cyLit ns @ ''})''"

definition mergePinNode :: "string \<Rightarrow> string \<Rightarrow> string \<Rightarrow> string \<Rightarrow> string \<Rightarrow> string \<Rightarrow> string" where
  "mergePinNode tenant name prin atSnap pinnedAt expiry =
     ''MERGE '' @ pinNode tenant name @ '' SET sp.pinned_by_principal = '' @ cyLit prin @
     '', sp.at_snapshot_id = '' @ cyLit atSnap @ '', sp.pinned_at = '' @ cyLit pinnedAt @
     '', sp.expiry_utc = '' @ cyLit expiry @ '' RETURN sp.pin_name''"

definition mergePinEdge :: "string \<Rightarrow> string \<Rightarrow> string \<Rightarrow> string \<Rightarrow> string" where
  "mergePinEdge tenant name table ns =
     ''MATCH '' @ pinNode tenant name @ '', '' @ tableNode tenant table ns @
     '' MERGE (sp)-[:PINS]->(t) RETURN sp.pin_name''"

definition pinLockSQL :: string where
  "pinLockSQL = ''SELECT pg_advisory_xact_lock(hashtext($1))''"

definition matchActivePins :: "string \<Rightarrow> string \<Rightarrow> string \<Rightarrow> string \<Rightarrow> string" where
  "matchActivePins tenant table ns nowLit =
     ''MATCH (sp:SnapshotPin {tenant_id: '' @ cyLit tenant @ ''})-[:PINS]->'' @ tableNode tenant table ns @
     '' WHERE sp.expiry_utc > '' @ cyLit nowLit @
     '' RETURN sp.pin_name, sp.pinned_by_principal, sp.at_snapshot_id, sp.pinned_at, sp.expiry_utc''"

definition pinColumns :: string where
  "pinColumns =
     ''pin_name ag_catalog.agtype, pinned_by ag_catalog.agtype, at_snap ag_catalog.agtype, pinned_at ag_catalog.agtype, expiry ag_catalog.agtype''"

section \<open>Operations\<close>

definition invalidatePin :: "string \<Rightarrow> snapshot_pin \<Rightarrow> 'db pin_store \<Rightarrow> 'db pin_store" where
  "invalidatePin tid p st = st\<lparr>ps_cache := (ps_cache st)(pinKey tid p := None)\<rparr>"

definition UpsertSnapshotPin ::
  "'db pg \<Rightarrow> string option \<Rightarrow> snapshot_pin \<Rightarrow> 'db pin_store \<Rightarrow> (graph_error + unit) \<times> 'db pin_store" where
  "UpsertSnapshotPin pg tenant p st =
     (case tenant of
        None \<Rightarrow> (Inl ErrTenantMissing, st)
      | Some tid \<Rightarrow>
         (case ps_mem st of
            Some m \<Rightarrow> (Inr (), invalidatePin tid p (st\<lparr>ps_mem := Some (memUpsert tid p m)\<rparr>))
          | None \<Rightarrow>
             (case traverse MustSanitizeCypherLiteral
                [sp_name p, sp_principal p, sp_snapshot p, FormatRFC3339 (sp_pinned_at p), FormatRFC3339 (sp_expiry p),
                 sp_table p, sp_namespace p, tid] of
                Inl e \<Rightarrow> (Inl e, st)
              | Inr _ \<Rightarrow>
                 (case ExecuteInTenant pg tid (\<lambda>db0.
                    rbind (txQuery pg pinLockSQL [tid @ ''|'' @ sp_table p] db0) (\<lambda>(_, db1).
                    rbind (execPinCypherNoRows pg (mergePinNode tid (sp_name p) (sp_principal p) (sp_snapshot p)
                      (FormatRFC3339 (sp_pinned_at p)) (FormatRFC3339 (sp_expiry p))) db1) (\<lambda>db2.
                    rbind (execPinCypherNoRows pg (mergePinEdge tid (sp_name p) (sp_table p) (sp_namespace p)) db2) (\<lambda>db3.
                      Inr ((), db3))))) (ps_db st) of
                    (Inl e, db') \<Rightarrow> (Inl e, st\<lparr>ps_db := db'\<rparr>)
                  | (Inr _, db') \<Rightarrow> (Inr (), invalidatePin tid p (st\<lparr>ps_db := db'\<rparr>))))))"

definition pinRow :: "string \<Rightarrow> string \<Rightarrow> string list \<Rightarrow> graph_error + snapshot_pin" where
  "pinRow table ns row =
     (case row of
        [name, by, snap, at, exp] \<Rightarrow>
          Inr \<lparr>sp_name = stripAgtypeQ name, sp_principal = stripAgtypeQ by, sp_snapshot = stripAgtypeQ snap,
               sp_pinned_at = ParseRFC3339 (stripAgtypeQ at), sp_expiry = ParseRFC3339 (stripAgtypeQ exp),
               sp_table = table, sp_namespace = ns\<rparr>
      | _ \<Rightarrow> Inl (TransportError ''ActivePinsForTable scan''))"

definition ActivePinsForTable ::
  "'db pg \<Rightarrow> (pin_key \<Rightarrow> snapshot_pin list \<Rightarrow> pin_cache \<Rightarrow> pin_cache) \<Rightarrow> instant \<Rightarrow> string option \<Rightarrow> table_ref \<Rightarrow>
   'db pin_store \<Rightarrow> (graph_error + snapshot_pin list) \<times> 'db pin_store" where
  "ActivePinsForTable pg add now tenant ref st =
     (case tenant of
        None \<Rightarrow> (Inl ErrTenantMissing, st)
      | Some tid \<Rightarrow>
         let ns = joinNS (tr_namespace ref);
             key = \<lparr>pk_tenant = tid, pk_namespace = ns, pk_table = tr_name ref\<rparr> in
         (case ps_cache st key of
            Some pins \<Rightarrow> (Inr pins, st)
          | None \<Rightarrow>
             (case ps_mem st of
                Some m \<Rightarrow>
                  let pins = memActive now tid (tr_name ref) ns m in
                  (Inr pins, st\<lparr>ps_cache := add key pins (ps_cache st)\<rparr>)
              | None \<Rightarrow>
                 (case traverse MustSanitizeCypherLiteral [tid, tr_name ref, ns, FormatRFC3339 now] of
                    Inl e \<Rightarrow> (Inl e, st)
                  | Inr _ \<Rightarrow>
                     (case ExecuteInTenant pg tid (\<lambda>db0.
                        rbind (txQuery pg (cypherStatement (matchActivePins tid (tr_name ref) ns (FormatRFC3339 now)) pinColumns)
                          [] db0) (\<lambda>(rows, db1).
                        rbind (traverse (pinRow (tr_name ref) ns) rows) (\<lambda>pins. Inr (pins, db1)))) (ps_db st) of
                        (Inl e, db') \<Rightarrow> (Inl e, st\<lparr>ps_db := db'\<rparr>)
                      | (Inr pins, db') \<Rightarrow> (Inr pins, st\<lparr>ps_db := db', ps_cache := add key pins (ps_cache st)\<rparr>))))))"

definition mergeQueryNode :: "string \<Rightarrow> string \<Rightarrow> string" where
  "mergeQueryNode tenant qid =
     ''MERGE (q:Query {tenant_id: '' @ cyLit tenant @ '', query_id: '' @ cyLit qid @ ''}) RETURN q.query_id''"

definition mergeReadEdge :: "string \<Rightarrow> string \<Rightarrow> string \<Rightarrow> string \<Rightarrow> string \<Rightarrow> string \<Rightarrow> string \<Rightarrow> string" where
  "mergeReadEdge tenant qid table ns pinned pinnedBy atSnap =
     ''MATCH (q:Query {tenant_id: '' @ cyLit tenant @ '', query_id: '' @ cyLit qid @ ''}), '' @ tableNode tenant table ns @
     '' MERGE (q)-[r:READ]->(t) SET r.pinned = '' @ pinned @ '', r.pinned_by = '' @ cyLit pinnedBy @
     '', r.at_snapshot = '' @ cyLit atSnap @ '' RETURN q.query_id''"

definition RecordQueryRead ::
  "'db pg \<Rightarrow> string option \<Rightarrow> query_ref \<Rightarrow> table_ref \<Rightarrow> snapshot_pin option \<Rightarrow> 'db pin_store \<Rightarrow>
   (graph_error + unit) \<times> 'db pin_store" where
  "RecordQueryRead pg tenant q ref p st =
     (case tenant of
        None \<Rightarrow> (Inl ErrTenantMissing, st)
      | Some tid \<Rightarrow>
         let ns = joinNS (tr_namespace ref);
             (pinned, pinnedBy, atSnap) =
               (case p of None \<Rightarrow> (''false'', [], []) | Some x \<Rightarrow> (''true'', sp_name x, sp_snapshot x)) in
         (case ps_mem st of
            Some _ \<Rightarrow> (Inr (), st)
          | None \<Rightarrow>
             (case traverse MustSanitizeCypherLiteral [tid, qr_query q, tr_name ref, ns, pinnedBy, atSnap] of
                Inl e \<Rightarrow> (Inl e, st)
              | Inr _ \<Rightarrow>
                 (case ExecuteInTenant pg tid (\<lambda>db0.
                    rbind (execPinCypherNoRows pg (mergeQueryNode tid (qr_query q)) db0) (\<lambda>db1.
                    rbind (execPinCypherNoRows pg
                      (mergeReadEdge tid (qr_query q) (tr_name ref) ns pinned pinnedBy atSnap) db1) (\<lambda>db2.
                      Inr ((), db2)))) (ps_db st) of
                    (r, db') \<Rightarrow> (r, st\<lparr>ps_db := db'\<rparr>)))))"

section \<open>The sweep\<close>

definition deleteExpired :: "string \<Rightarrow> string \<Rightarrow> string" where
  "deleteExpired tenant nowLit =
     ''MATCH (sp:SnapshotPin {tenant_id: '' @ cyLit tenant @ ''}) WHERE sp.expiry_utc < '' @ cyLit nowLit @
     '' DETACH DELETE sp RETURN count(sp)''"

text \<open>A count that does not parse is skipped.\<close>

definition countRow :: "string list \<Rightarrow> graph_error + int" where
  "countRow row =
     (case row of
        [raw] \<Rightarrow> Inr (case atoi (stripAgtypeQ raw) of Some n \<Rightarrow> n | None \<Rightarrow> 0)
      | _ \<Rightarrow> Inl (TransportError ''sweeper scan''))"

definition sweepTenant :: "'db pg \<Rightarrow> instant \<Rightarrow> string \<Rightarrow> 'db \<Rightarrow> (graph_error + int) \<times> 'db" where
  "sweepTenant pg now tid db =
     (case traverse MustSanitizeCypherLiteral [tid, FormatRFC3339 now] of
        Inl e \<Rightarrow> (Inl e, db)
      | Inr _ \<Rightarrow>
         ExecuteInTenant pg tid (\<lambda>db0.
           rbind (txQuery pg (cypherStatement (deleteExpired tid (FormatRFC3339 now)) ''cnt ag_catalog.agtype'') [] db0)
             (\<lambda>(rows, db1).
           rbind (traverse countRow rows) (\<lambda>ns. Inr (sum_list ns, db1)))) db)"

text \<open>
  The tenant list comes from the admin pool, whose query is a parameter. A cancelled context ends
  the loop before a tenant; a failed tenant is skipped; a panic of the literal check leaves it.
  The clock is read once per tenant (\<open>clock\<close>), or once for the store in memory (\<open>now\<close>).
  The counters of the sweep are the tenants with their counts.
\<close>

definition listSweepTenants :: "(string \<Rightarrow> string + string list list) \<Rightarrow> graph_error + string list" where
  "listSweepTenants admin =
     (case admin (''SELECT id::text FROM public.tenants WHERE lifecycle_state = '' @ cyLit ''active'') of
        Inl e \<Rightarrow> Inl (TransportError e)
      | Inr rows \<Rightarrow> traverse (\<lambda>row. case row of [i] \<Rightarrow> Inr i | _ \<Rightarrow> Inl (TransportError ''scan tenant'')) rows)"

fun sweepTenants ::
  "'db pg \<Rightarrow> (string \<Rightarrow> bool) \<Rightarrow> (string \<Rightarrow> instant) \<Rightarrow> string list \<Rightarrow> 'db \<Rightarrow> (string option \<times> (string \<times> int) list) \<times> 'db" where
  "sweepTenants pg cancelled clock [] db = ((None, []), db)"
| "sweepTenants pg cancelled clock (tid # tids) db =
     (if cancelled tid then ((None, []), db)
      else case sweepTenant pg (clock tid) tid db of
        (Inl (Panic m), db1) \<Rightarrow> ((Some m, []), db1)
      | (Inl e, db1) \<Rightarrow> sweepTenants pg cancelled clock tids db1
      | (Inr n, db1) \<Rightarrow>
          (case sweepTenants pg cancelled clock tids db1 of ((r, counts), db2) \<Rightarrow> ((r, (tid, n) # counts), db2)))"

fun splitSlash :: "string \<Rightarrow> string" where
  "splitSlash [] = []"
| "splitSlash (c # s) = (if c = CHR ''/'' then [] else c # splitSlash s)"

definition sweepMem :: "instant \<Rightarrow> 'db pin_store \<Rightarrow> 'db pin_store" where
  "sweepMem now st =
     (case ps_mem st of
        None \<Rightarrow> st
      | Some m \<Rightarrow>
          let dead = filter (\<lambda>(k, p). \<not> sp_expiry p > now) m in
          st\<lparr>ps_mem := Some (filter (\<lambda>(k, p). sp_expiry p > now) m),
             ps_cache := foldr (\<lambda>(k, p) c. c(pinKey (splitSlash k) p := None)) dead (ps_cache st)\<rparr>)"

definition sweepOnce ::
  "'db pg \<Rightarrow> (string \<Rightarrow> string + string list list) \<Rightarrow> (string \<Rightarrow> bool) \<Rightarrow> (string \<Rightarrow> instant) \<Rightarrow>
   instant \<Rightarrow> 'db pin_store \<Rightarrow> (string option \<times> (string \<times> int) list) \<times> 'db pin_store" where
  "sweepOnce pg admin cancelled clock now st =
     (if ps_mem st \<noteq> None then ((None, []), sweepMem now st)
      else case listSweepTenants admin of
        Inl e \<Rightarrow> ((None, []), st)
      | Inr tids \<Rightarrow>
         (case sweepTenants pg cancelled clock tids (ps_db st) of (r, db') \<Rightarrow> (r, st\<lparr>ps_db := db'\<rparr>)))"

section \<open>No live pin is hidden\<close>

text \<open>
  Histories of a store in memory: pins are written, read and swept while the clock moves on. A
  tenant identifier is a UUID, so it holds no slash.
\<close>

inductive pin_history ::
  "(pin_key \<Rightarrow> snapshot_pin list \<Rightarrow> pin_cache \<Rightarrow> pin_cache) \<Rightarrow> instant \<Rightarrow> 'db pin_store \<Rightarrow> bool" for add where
  start: "pin_history add now \<lparr>ps_mem = Some [], ps_cache = Map.empty, ps_db = db\<rparr>"
| upsert: "pin_history add now st \<Longrightarrow> now \<le> now' \<Longrightarrow> CHR ''/'' \<notin> set tid \<Longrightarrow>
    UpsertSnapshotPin pg (Some tid) p st = (r, st') \<Longrightarrow> pin_history add now' st'"
| read: "pin_history add now st \<Longrightarrow> now \<le> now' \<Longrightarrow> CHR ''/'' \<notin> set tid \<Longrightarrow>
    ActivePinsForTable pg add now' (Some tid) ref st = (r', st') \<Longrightarrow> pin_history add now' st'"
| sweep: "pin_history add now st \<Longrightarrow> now \<le> now' \<Longrightarrow>
    sweepOnce pg admin cancelled clock now' st = (r'', st') \<Longrightarrow> pin_history add now' st'"

text \<open>A pin that a table of a tenant must see.\<close>

definition live :: "instant \<Rightarrow> pin_key \<Rightarrow> string \<times> snapshot_pin \<Rightarrow> bool" where
  "live now key = (\<lambda>(k, p). has_prefix k (pk_tenant key @ ''/'') \<and> sp_table p = pk_table key \<and>
     sp_namespace p = pk_namespace key \<and> sp_expiry p > now)"

definition complete :: "instant \<Rightarrow> pin_mem \<Rightarrow> pin_key \<Rightarrow> snapshot_pin list \<Rightarrow> bool" where
  "complete now m key pins \<longleftrightarrow> CHR ''/'' \<notin> set (pk_tenant key) \<and> (\<forall>e \<in> set m. live now key e \<longrightarrow> snd e \<in> set pins)"

lemma complete_mono:
  assumes "complete now m key pins" "now \<le> now'" "set m' \<subseteq> set m"
  shows "complete now' m' key pins"
  using assms by (force simp: complete_def live_def)

lemma cache_sound_mono:
  "cache_sound I c \<Longrightarrow> (\<And>k v. c' k = Some v \<Longrightarrow> c k = Some v) \<Longrightarrow> (\<And>k v. c' k = Some v \<Longrightarrow> I k v \<Longrightarrow> J k v) \<Longrightarrow> cache_sound J c'"
  by (auto simp: cache_sound_def)

lemma prefix_tenant:
  "CHR ''/'' \<notin> set t \<Longrightarrow> CHR ''/'' \<notin> set t' \<Longrightarrow> has_prefix (memKey t name) (t' @ ''/'') \<Longrightarrow> t' = t"
proof (induction t arbitrary: t')
  case Nil
  then show ?case by (cases t') (auto simp: memKey_def)
next
  case (Cons c t)
  then show ?case by (cases t') (auto simp: memKey_def)
qed

lemma update_subset: "set (AList.update k v m) \<subseteq> insert (k, v) (set m)"
  by (induction m) auto

lemma memActive_complete:
  "CHR ''/'' \<notin> set tid \<Longrightarrow>
   complete now m \<lparr>pk_tenant = tid, pk_namespace = ns, pk_table = table\<rparr> (memActive now tid table ns m)"
  by (force simp: complete_def live_def memActive_def)

lemma foldr_forget: "foldr (\<lambda>(k, p) c. c(f k p := None)) es c key = Some v \<Longrightarrow> c key = Some v"
  by (induction es) (auto split: if_split_asm)

lemma history_complete:
  assumes "pin_history add now st" "lru_add add"
  shows "\<exists>m. ps_mem st = Some m \<and> cache_sound (complete now m) (ps_cache st)"
  using assms(1)
proof induction
  case (start now db)
  show ?case by (simp add: cache_sound_def)
next
  case (upsert now st now' tid pg p r st')
  then obtain m where m: "ps_mem st = Some m" and ok: "cache_sound (complete now m) (ps_cache st)" by blast
  then have st': "ps_mem st' = Some (memUpsert tid p m)" "ps_cache st' = (ps_cache st)(pinKey tid p := None)"
    using upsert.hyps by (auto simp: UpsertSnapshotPin_def invalidatePin_def)
  have "complete now' (memUpsert tid p m) key pins"
    if "ps_cache st' key = Some pins" "complete now m key pins" for key pins
  proof -
    have "key \<noteq> pinKey tid p" using that(1) st' by auto
    then have "\<not> live now' key (memKey tid (sp_name p), p)"
      using prefix_tenant [of tid "pk_tenant key"] upsert.hyps(3) that(2)
      by (cases key) (auto simp: live_def complete_def pinKey_def)
    then show ?thesis
      using that(2) upsert.hyps(2) update_subset [of "memKey tid (sp_name p)" p m]
      by (fastforce simp: complete_def live_def memUpsert_def)
  qed
  with ok st' show ?case by (auto intro: cache_sound_mono split: if_split_asm)
next
  case (read now st now' tid pg ref r' st')
  then obtain m where m: "ps_mem st = Some m" and ok: "cache_sound (complete now m) (ps_cache st)" by blast
  then have ok': "cache_sound (complete now' m) (ps_cache st)"
    using read.hyps(2) by (auto intro: cache_sound_mono complete_mono)
  let ?key = "\<lparr>pk_tenant = tid, pk_namespace = joinNS (tr_namespace ref), pk_table = tr_name ref\<rparr>"
  have "st' = (case ps_cache st ?key of Some pins \<Rightarrow> st
      | None \<Rightarrow> st\<lparr>ps_cache := add ?key (memActive now' tid (tr_name ref) (joinNS (tr_namespace ref)) m) (ps_cache st)\<rparr>)"
    using read.hyps(4) m by (auto simp: ActivePinsForTable_def Let_def split: option.split_asm)
  then show ?case
    using m ok' lru_add_sound [OF assms(2) ok' memActive_complete [OF read.hyps(3)]] by (auto split: option.split)
next
  case (sweep now st now' pg admin cancelled clock r'' st')
  then obtain m where m: "ps_mem st = Some m" and ok: "cache_sound (complete now m) (ps_cache st)" by blast
  then have st': "ps_mem st' = Some (filter (\<lambda>(k, p). sp_expiry p > now') m)"
    "ps_cache st' = foldr (\<lambda>(k, p) c. c(pinKey (splitSlash k) p := None)) (filter (\<lambda>(k, p). \<not> sp_expiry p > now') m) (ps_cache st)"
    using sweep.hyps by (auto simp: sweepOnce_def sweepMem_def Let_def)
  have "cache_sound (complete now' (filter (\<lambda>(k, p). sp_expiry p > now') m)) (ps_cache st')"
    by (rule cache_sound_mono [OF ok])
       (use st' foldr_forget sweep.hyps(2) in \<open>auto intro: complete_mono\<close>)
  with st' show ?case by blast
qed

text \<open>
  C17 No live pin is hidden from a reader. After any history of writes, reads, sweeps and
  evictions, whatever the cache holds, the answer for a table contains every pin of the tenant
  on that table that has not expired.
\<close>

theorem active_pins_complete:
  assumes "lru_add add" "pin_history add now st" "now \<le> now'" "CHR ''/'' \<notin> set tid"
    and "ps_mem st = Some m" "(memKey tid name, p) \<in> set m" "sp_expiry p > now'"
  shows "\<exists>pins st'. ActivePinsForTable pg add now' (Some tid) \<lparr>tr_namespace = [sp_namespace p], tr_name = sp_table p\<rparr> st =
     (Inr pins, st') \<and> p \<in> set pins"
proof -
  let ?key = "\<lparr>pk_tenant = tid, pk_namespace = sp_namespace p, pk_table = sp_table p\<rparr>"
  have live: "live now' ?key (memKey tid name, p)" "live now ?key (memKey tid name, p)"
    using assms(3,7) has_prefix_append [of "tid @ ''/''" name] by (simp_all add: live_def memKey_def)
  show ?thesis
  proof (cases "ps_cache st ?key")
    case None
    have "p \<in> set (memActive now' tid (sp_table p) (sp_namespace p) m)"
      using memActive_complete [OF assms(4), of now' m "sp_namespace p" "sp_table p"] live(1) assms(6)
      by (auto simp: complete_def)
    then show ?thesis using None assms(5) by (simp add: ActivePinsForTable_def Let_def joinNS_def)
  next
    case (Some pins)
    have "complete now m ?key pins" using history_complete [OF assms(2,1)] Some assms(5) by (auto simp: cache_sound_def)
    then have "p \<in> set pins" using live(2) assms(6) by (auto simp: complete_def)
    then show ?thesis using Some by (simp add: ActivePinsForTable_def Let_def joinNS_def)
  qed
qed

abbreviation demo_pin :: snapshot_pin where
  "demo_pin \<equiv> \<lparr>sp_name = ''p1'', sp_principal = ''alice'', sp_snapshot = ''7'', sp_pinned_at = 0, sp_expiry = 10,
     sp_table = ''orders'', sp_namespace = ''sales''\<rparr>"

abbreviation map_add_lru :: "pin_key \<Rightarrow> snapshot_pin list \<Rightarrow> pin_cache \<Rightarrow> pin_cache" where
  "map_add_lru \<equiv> \<lambda>k v c. c(k \<mapsto> v)"

abbreviation mem_store :: "pin_mem \<Rightarrow> pin_cache \<Rightarrow> (string \<times> string list) list pin_store" where
  "mem_store m c \<equiv> \<lparr>ps_mem = Some m, ps_cache = c, ps_db = []\<rparr>"

lemma upsert_empty:
  "UpsertSnapshotPin pg (Some tid) p \<lparr>ps_mem = Some [], ps_cache = Map.empty, ps_db = db\<rparr> =
     (Inr (), \<lparr>ps_mem = Some [(memKey tid (sp_name p), p)], ps_cache = Map.empty, ps_db = db\<rparr>)"
  by (auto simp: UpsertSnapshotPin_def invalidatePin_def memUpsert_def)

theorem active_pins_complete_witness:
  "\<exists>pins st'. ActivePinsForTable log_pg map_add_lru 5 (Some ''t1'') \<lparr>tr_namespace = [''sales''], tr_name = ''orders''\<rparr>
     (mem_store [(memKey ''t1'' ''p1'', demo_pin)] Map.empty) = (Inr pins, st') \<and> demo_pin \<in> set pins"
proof -
  have "lru_add map_add_lru" by (simp add: lru_add_def)
  moreover have "pin_history map_add_lru 0 (mem_store [(memKey ''t1'' ''p1'', demo_pin)] Map.empty)"
    by (rule upsert [OF start, of 0 0 "''t1''" log_pg demo_pin]) (simp_all add: upsert_empty)
  ultimately have "\<exists>pins st'. ActivePinsForTable log_pg map_add_lru 5 (Some ''t1'')
      \<lparr>tr_namespace = [sp_namespace demo_pin], tr_name = sp_table demo_pin\<rparr>
      (mem_store [(memKey ''t1'' ''p1'', demo_pin)] Map.empty) = (Inr pins, st') \<and> demo_pin \<in> set pins"
    by (rule active_pins_complete [where name = "''p1''" and m = "[(memKey ''t1'' ''p1'', demo_pin)]"]) simp_all
  then show ?thesis by simp
qed

text \<open>
  The cache serves expired pins. A pin that was live when a table was first read is answered
  for that table at every later time as long as its entry is cached, although \<open>pin_lru.go\<close> says
  that the expiry is checked at each consultation.
\<close>

theorem expired_pin_served:
  assumes "lru_add add" "now < sp_expiry p" "sp_expiry p \<le> later"
    and "UpsertSnapshotPin pg (Some tid) p \<lparr>ps_mem = Some [], ps_cache = Map.empty, ps_db = db\<rparr> = (r, st1)"
    and "ActivePinsForTable pg add now (Some tid) \<lparr>tr_namespace = [sp_namespace p], tr_name = sp_table p\<rparr> st1 = (r1, st2)"
  shows "ActivePinsForTable pg add later (Some tid) \<lparr>tr_namespace = [sp_namespace p], tr_name = sp_table p\<rparr> st2 = (Inr [p], st2)"
proof -
  let ?key = "\<lparr>pk_tenant = tid, pk_namespace = sp_namespace p, pk_table = sp_table p\<rparr>"
  have "memActive now tid (sp_table p) (sp_namespace p) [(memKey tid (sp_name p), p)] = [p]"
    using assms(2) has_prefix_append [of "tid @ ''/''" "sp_name p"] by (simp add: memActive_def memKey_def)
  then have "ps_cache st2 = add ?key [p] Map.empty"
    using assms(4) assms(5) [unfolded ActivePinsForTable_def] by (auto simp: upsert_empty Let_def joinNS_def)
  then have "ps_cache st2 ?key = Some [p]" using assms(1) by (simp add: lru_add_def)
  then show ?thesis by (simp add: ActivePinsForTable_def Let_def joinNS_def)
qed

theorem expired_pin_served_witness:
  "\<exists>st2. ActivePinsForTable log_pg map_add_lru 100 (Some ''t1'') \<lparr>tr_namespace = [''sales''], tr_name = ''orders''\<rparr> st2 =
     (Inr [demo_pin], st2)"
proof -
  obtain r st1 where 1: "UpsertSnapshotPin log_pg (Some ''t1'') demo_pin (mem_store [] Map.empty) = (r, st1)"
    by (meson surj_pair)
  obtain r1 st2 where 2: "ActivePinsForTable log_pg map_add_lru 0 (Some ''t1'')
      \<lparr>tr_namespace = [sp_namespace demo_pin], tr_name = sp_table demo_pin\<rparr> st1 = (r1, st2)" by (meson surj_pair)
  from expired_pin_served [OF _ _ _ 1 2, of 100] show ?thesis by (auto simp: lru_add_def)
qed

section \<open>The store on the graph\<close>

text \<open>
  What a pin write runs. With literals on the allowlist it runs, in one transaction of the
  tenant, the per-table advisory lock, then the MERGE of the pin and the MERGE of its edge, and
  drops the cached answer of its table; any other literal panics before the database is
  touched. On every graph database a failed write leaves the cache as it was.
\<close>

theorem pin_write_locked:
  "(if list_all (list_all cypherLiteralAllow)
        [sp_name p, sp_principal p, sp_snapshot p, FormatRFC3339 (sp_pinned_at p), FormatRFC3339 (sp_expiry p),
         sp_table p, sp_namespace p, tid]
    then UpsertSnapshotPin log_pg (Some tid) p \<lparr>ps_mem = None, ps_cache = c, ps_db = []\<rparr> =
      (Inr (), \<lparr>ps_mem = None, ps_cache = c(pinKey tid p := None),
         ps_db = [(setTenantSQL, [tid]), (pinLockSQL, [tid @ ''|'' @ sp_table p]),
           (cypherStatement (mergePinNode tid (sp_name p) (sp_principal p) (sp_snapshot p)
              (FormatRFC3339 (sp_pinned_at p)) (FormatRFC3339 (sp_expiry p))) ''out ag_catalog.agtype'', []),
           (cypherStatement (mergePinEdge tid (sp_name p) (sp_table p) (sp_namespace p)) ''out ag_catalog.agtype'', [])]\<rparr>)
    else \<exists>m. UpsertSnapshotPin pg (Some tid) p \<lparr>ps_mem = None, ps_cache = c, ps_db = db\<rparr> =
      (Inl (Panic m), \<lparr>ps_mem = None, ps_cache = c, ps_db = db\<rparr>)) \<and>
   (\<forall>e st'. UpsertSnapshotPin pg (Some tid) p \<lparr>ps_mem = None, ps_cache = c, ps_db = db\<rparr> = (Inl e, st') \<longrightarrow> ps_cache st' = c)"
  (is "(if ?safe then ?log else ?panic) \<and> ?frame")
proof -
  let ?lits = "[sp_name p, sp_principal p, sp_snapshot p, FormatRFC3339 (sp_pinned_at p), FormatRFC3339 (sp_expiry p),
         sp_table p, sp_namespace p, tid]"
  have ?log if ?safe
  proof -
    have "traverse MustSanitizeCypherLiteral ?lits = Inr ?lits" using that traverse_sanitize by blast
    then show ?thesis
      by (simp add: UpsertSnapshotPin_def execute_defs log_pg_def
          txQuery_def execPinCypherNoRows_def invalidatePin_def)
  qed
  moreover have ?panic if unsafe: "\<not> ?safe"
  proof -
    obtain m where "traverse MustSanitizeCypherLiteral ?lits = Inl (Panic m)"
      using unsafe by (rule traverse_panic)
    then show ?thesis by (simp add: UpsertSnapshotPin_def)
  qed
  moreover have ?frame
    by (auto simp: UpsertSnapshotPin_def split: sum.split_asm prod.split_asm)
  ultimately show ?thesis by argo
qed

theorem pin_write_locked_witness:
  "\<exists>db. UpsertSnapshotPin log_pg (Some ''t1'') demo_pin \<lparr>ps_mem = None, ps_cache = Map.empty, ps_db = []\<rparr> =
     (Inr (), \<lparr>ps_mem = None, ps_cache = Map.empty, ps_db = db\<rparr>) \<and> length db = 4 \<and> db ! 1 = (pinLockSQL, [''t1|orders''])"
proof -
  have "list_all (list_all cypherLiteralAllow)
        [sp_name demo_pin, sp_principal demo_pin, sp_snapshot demo_pin, FormatRFC3339 (sp_pinned_at demo_pin),
         FormatRFC3339 (sp_expiry demo_pin), sp_table demo_pin, sp_namespace demo_pin, ''t1'']"
    by code_simp
  with pin_write_locked [of demo_pin "''t1''" Map.empty log_pg "[]"] show ?thesis by (auto simp: pinKey_def)
qed

text \<open>
  The graph may compare texts in place of instants. For the years that have four digits, the
  text of the expiry is after the text of the clock exactly when the expiry is a later second,
  so \<open>sp.expiry_utc > now\<close> selects the pins that are live to the second; and a row with the quoted
  texts that a write stored reads back as the written pin, its instants cut to the second.
\<close>

theorem pin_texts_faithful:
  assumes "fourDigitYear (sp_expiry p)" "fourDigitYear (sp_pinned_at p)" "fourDigitYear now"
  shows "(FormatRFC3339 now < FormatRFC3339 (sp_expiry p) \<longleftrightarrow> now div nsPerSec < sp_expiry p div nsPerSec) \<and>
    pinRow (sp_table p) (sp_namespace p)
      (map (\<lambda>s. [CHR 0x22] @ s @ [CHR 0x22])
        [sp_name p, sp_principal p, sp_snapshot p, FormatRFC3339 (sp_pinned_at p), FormatRFC3339 (sp_expiry p)]) =
    Inr (p\<lparr>sp_pinned_at := sp_pinned_at p div nsPerSec * nsPerSec, sp_expiry := sp_expiry p div nsPerSec * nsPerSec\<rparr>)"
proof
  show "FormatRFC3339 now < FormatRFC3339 (sp_expiry p) \<longleftrightarrow> now div nsPerSec < sp_expiry p div nsPerSec"
    by (rule rfc3339_order [OF assms(3,1)])
  have strip: "stripAgtypeQ ([CHR 0x22] @ s @ [CHR 0x22]) = s" for s
    using quoted_no_suffix [of "''::text''" "CHR 0x22 # s"] quoted_no_suffix [of "''::numeric''" "CHR 0x22 # s"]
    by (simp add: stripAgtypeQ_def butlast_append)
  show "pinRow (sp_table p) (sp_namespace p)
      (map (\<lambda>s. [CHR 0x22] @ s @ [CHR 0x22])
        [sp_name p, sp_principal p, sp_snapshot p, FormatRFC3339 (sp_pinned_at p), FormatRFC3339 (sp_expiry p)]) =
    Inr (p\<lparr>sp_pinned_at := sp_pinned_at p div nsPerSec * nsPerSec, sp_expiry := sp_expiry p div nsPerSec * nsPerSec\<rparr>)"
    using rfc3339_roundtrip [OF assms(1)] rfc3339_roundtrip [OF assms(2)]
    unfolding pinRow_def list.map list.case strip by simp
qed

theorem pin_texts_faithful_witness:
  "FormatRFC3339 0 < FormatRFC3339 (10 * nsPerSec) \<and>
   pinRow ''orders'' ''sales'' (map (\<lambda>s. [CHR 0x22] @ s @ [CHR 0x22])
     [''p1'', ''alice'', ''7'', FormatRFC3339 0, FormatRFC3339 (10 * nsPerSec)]) =
   Inr (demo_pin\<lparr>sp_expiry := 10 * nsPerSec\<rparr>)"
proof -
  let ?p = "demo_pin\<lparr>sp_expiry := 10 * nsPerSec\<rparr>"
  have "fourDigitYear (sp_expiry ?p)" "fourDigitYear (sp_pinned_at ?p)" "fourDigitYear 0" by code_simp+
  from pin_texts_faithful [OF this] show ?thesis by (simp add: nsPerSec_def)
qed

end
