(* ===== verification/Lineage_Ingest.thy ===== *)
theory Lineage_Ingest
  imports Tenant_Session Gateway_Inputs Go_Time
begin

text \<open>
  Lineage ingest: the columns of a snapshot (\<open>internal/ingest/column.go\<close>), the lineage edge with
  its cycle check (\<open>lineage.go\<close>, \<open>cycle.go\<close>, \<open>errors.go\<close>), the periodic cycle sweep
  (\<open>cycle_sweep.go\<close>) and the OpenLineage receiver in front of them (\<open>internal/lineage/http\<close>).

  The database is the parameter of \<open>Graph_Client\<close>; an error while rows are read counts as the
  failure of their statement. \<open>lineage_db\<close> names what the cycle theorem needs to know of the
  graph: what the three Cypher templates of the lineage edge mean for the set of edges.
  \<open>graph_pg\<close> is a graph database of that kind that runs the templates on a list of edges.
\<close>

section \<open>Statements\<close>

definition cycleMaxDepth :: nat where "cycleMaxDepth = 5"

definition resultStatement :: "string \<Rightarrow> string" where
  "resultStatement cy = cypherStatement cy ''result ag_catalog.agtype''"

definition cypherCycleCheck :: "string \<Rightarrow> string \<Rightarrow> string" where
  "cypherCycleCheck tgt src =
     ''MATCH (target {iceberg_id: '' @ cyLit tgt @ ''})-[:LINEAGE_OF*1..5]->(ancestor {iceberg_id: '' @ cyLit src @
     ''}) RETURN ancestor.iceberg_id LIMIT 1''"

definition cypherNext :: "string \<Rightarrow> string" where
  "cypherNext current =
     ''MATCH (n {iceberg_id: '' @ cyLit current @ ''})-[:LINEAGE_OF]->(next) RETURN next.iceberg_id LIMIT 1''"

definition cypherMergeLineageEdge :: "string \<Rightarrow> string \<Rightarrow> string \<Rightarrow> string \<Rightarrow> string \<Rightarrow> string" where
  "cypherMergeLineageEdge src tgt tid ts run =
     ''MATCH (src),(tgt) WHERE src.iceberg_id = '' @ cyLit src @ '' AND tgt.iceberg_id = '' @ cyLit tgt @
     '' MERGE (src)-[r:LINEAGE_OF {tenant_id: '' @ cyLit tid @ ''}]->(tgt) WITH r SET r.created_at = COALESCE(r.created_at, '' @
     cyLit ts @ ''), r.run_id = COALESCE(r.run_id, '' @ cyLit run @ ''), r.last_seen_at = '' @ cyLit ts @ '' RETURN id(r)''"

definition lineageLockSQL :: string where
  "lineageLockSQL = ''SELECT pg_advisory_xact_lock(hashtext($1))''"

text \<open>This copy of the agtype reader strips a suffix only from a longer text.\<close>

definition stripLonger :: "string \<Rightarrow> string \<Rightarrow> string" where
  "stripLonger suffix s = (if length s > length suffix then stripSuffix suffix s else s)"

definition stripAgtypeIngest :: "string \<Rightarrow> string" where
  "stripAgtypeIngest s0 =
     (let s = stripLonger ''::numeric'' (stripLonger ''::text'' s0) in
      if length s \<ge> 2 \<and> hd s = CHR 0x22 \<and> last s = CHR 0x22 then butlast (List.tl s) else s)"

section \<open>The cycle check\<close>

text \<open>
  The walk that reports a cycle: at most \<open>cycleMaxDepth\<close> hops from the target, ended early by the
  source; a failed query ends it with the closing hint.
\<close>

fun cycleWalk :: "'db pg \<Rightarrow> string \<Rightarrow> string \<Rightarrow> nat \<Rightarrow> string \<Rightarrow> 'db \<Rightarrow> string list \<times> 'db" where
  "cycleWalk pg src tgt 0 current db = ([src, tgt], db)"
| "cycleWalk pg src tgt (Suc hops) current db =
     (case pg_exec pg (resultStatement (cypherNext current)) [] db of
        Inr ([raw] # _, db1) \<Rightarrow>
          let next = stripAgtypeIngest raw in
          if next = src then ([next, tgt], db1)
          else (case cycleWalk pg src tgt hops next db1 of (rest, db2) \<Rightarrow> (next # rest, db2))
      | Inr (_, db1) \<Rightarrow> ([src, tgt], db1)
      | Inl e \<Rightarrow> ([src, tgt], db))"

definition fetchCyclePath :: "'db pg \<Rightarrow> string \<Rightarrow> string \<Rightarrow> 'db \<Rightarrow> string list \<times> 'db" where
  "fetchCyclePath pg src tgt db =
     (case cycleWalk pg src tgt cycleMaxDepth tgt db of (rest, db') \<Rightarrow> (tgt # rest, db'))"

definition validateNoCycleTx :: "'db pg \<Rightarrow> string \<Rightarrow> string \<Rightarrow> 'db \<Rightarrow> graph_error + 'db" where
  "validateNoCycleTx pg src tgt db =
     rbind (txQuery pg lineageLockSQL [src] db) (\<lambda>(_, db1).
     rbind (MustSanitizeCypherLiteral tgt) (\<lambda>tgtLit.
     rbind (MustSanitizeCypherLiteral src) (\<lambda>srcLit.
     rbind (txQuery pg (resultStatement (cypherCycleCheck tgtLit srcLit)) [] db1) (\<lambda>(rows, db2).
       if rows = [] then Inr db2
       else Inl (LineageCycleError src tgt (fst (fetchCyclePath pg src tgt db2)))))))"

definition ValidateNoCycle :: "'db pg \<Rightarrow> string \<Rightarrow> string \<Rightarrow> string \<Rightarrow> 'db \<Rightarrow> (graph_error + unit) \<times> 'db" where
  "ValidateNoCycle pg tid src tgt db =
     (case traverse SanitizeCypherLiteral [src, tgt, tid] of
        Inl e \<Rightarrow> (Inl e, db)
      | Inr _ \<Rightarrow>
          ExecuteInTenant pg tid (\<lambda>db0. rbind (validateNoCycleTx pg src tgt db0) (\<lambda>db1. Inr ((), db1))) db)"

section \<open>The lineage edge\<close>

text \<open>The two halves of the transaction: lock and check, then the MERGE.\<close>

definition lineageCheck :: "'db pg \<Rightarrow> string \<Rightarrow> string \<Rightarrow> 'db \<Rightarrow> graph_error + 'db" where
  "lineageCheck pg src tgt db =
     rbind (txQuery pg lineageLockSQL [src] db) (\<lambda>(_, db1). validateNoCycleTx pg src tgt db1)"

definition lineageMerge ::
  "'db pg \<Rightarrow> string \<Rightarrow> string \<Rightarrow> string \<Rightarrow> string \<Rightarrow> string \<Rightarrow> 'db \<Rightarrow> graph_error + 'db" where
  "lineageMerge pg tid src tgt run ts db =
     rbind (traverse MustSanitizeCypherLiteral [src, tgt, tid, run]) (\<lambda>_.
     rbind (txQuery pg (resultStatement (cypherMergeLineageEdge src tgt tid ts run)) [] db) (\<lambda>(_, db1). Inr db1))"

definition MergeLineageEdge ::
  "'db pg \<Rightarrow> string \<Rightarrow> string \<Rightarrow> string \<Rightarrow> string \<Rightarrow> instant \<Rightarrow> 'db \<Rightarrow> (graph_error + unit) \<times> 'db" where
  "MergeLineageEdge pg tid src tgt run ts db =
     (if src = [] \<or> tgt = [] then (Inl ErrLineageBatchEmpty, db)
      else case traverse SanitizeCypherLiteral [src, tgt, tid, run] of
        Inl e \<Rightarrow> (Inl e, db)
      | Inr _ \<Rightarrow>
          if src = tgt then (Inl (LineageCycleError src tgt [src, tgt]), db)
          else ExecuteInTenant pg tid (\<lambda>db0.
            rbind (lineageCheck pg src tgt db0) (\<lambda>db1.
            rbind (lineageMerge pg tid src tgt run (FormatRFC3339Nano ts) db1) (\<lambda>db2. Inr ((), db2)))) db)"

section \<open>The periodic sweep\<close>

definition cypherFullGraphCycleSweep :: string where
  "cypherFullGraphCycleSweep =
     ''MATCH (start)-[:LINEAGE_OF*1..5]->(end) WHERE id(start) = id(end) RETURN start.iceberg_id AS uri LIMIT 1000''"

text \<open>The reported cycles; a row that does not scan is skipped.\<close>

fun sweepAnchors :: "string list list \<Rightarrow> string list" where
  "sweepAnchors [] = []"
| "sweepAnchors ([raw] # rows) = stripAgtypeIngest raw # sweepAnchors rows"
| "sweepAnchors (_ # rows) = sweepAnchors rows"

fun sweepReports :: "'db pg \<Rightarrow> string list \<Rightarrow> 'db \<Rightarrow> (string \<times> string list) list \<times> 'db" where
  "sweepReports pg [] db = ([], db)"
| "sweepReports pg (uri # uris) db =
     (case fetchCyclePath pg uri uri db of
        (cycle, db1) \<Rightarrow>
          (case sweepReports pg uris db1 of (reports, db2) \<Rightarrow> ((uri, cycle) # reports, db2)))"

definition runCycleSweepOnce ::
  "'db pg \<Rightarrow> string \<Rightarrow> 'db \<Rightarrow> (graph_error + (string \<times> string list) list) \<times> 'db" where
  "runCycleSweepOnce pg tid db =
     ExecuteInTenant pg tid (\<lambda>db0.
       rbind (txQuery pg (cypherStatement cypherFullGraphCycleSweep ''uri ag_catalog.agtype'') [] db0) (\<lambda>(rows, db1).
         Inr (sweepReports pg (sweepAnchors rows) db1))) db"

section \<open>Columns\<close>

definition cypherMergeColumnNode :: "string \<Rightarrow> string \<Rightarrow> schema_field \<Rightarrow> string" where
  "cypherMergeColumnNode loc tid col =
     ''MATCH (s:Snapshot {metadata_location: '' @ cyLit loc @ ''}) MERGE (c:Column {snapshot_loc: '' @ cyLit loc @
     '', name: '' @ cyLit (sf_name col) @ '', tenant_id: '' @ cyLit tid @
     ''}) WITH c SET c.iceberg_id = COALESCE(c.iceberg_id, '' @ itoaInt (sf_id col) @
     ''), c.data_type = COALESCE(c.data_type, '' @ cyLit (sf_type col) @ ''), c.required = COALESCE(c.required, '' @
     (if sf_required col then ''true'' else ''false'') @ ''), c.doc = COALESCE(c.doc, '' @ cyLit (sf_doc col) @ '') RETURN id(c)''"

definition cypherMergeHasColumnEdge :: "string \<Rightarrow> string \<Rightarrow> schema_field \<Rightarrow> nat \<Rightarrow> string" where
  "cypherMergeHasColumnEdge loc tid col idx =
     ''MATCH (s:Snapshot {metadata_location: '' @ cyLit loc @ ''}), (c:Column {snapshot_loc: '' @ cyLit loc @
     '', name: '' @ cyLit (sf_name col) @ ''}) MERGE (s)-[r:HAS_COLUMN {tenant_id: '' @ cyLit tid @
     ''}]->(c) WITH r SET r.ordinal = COALESCE(r.ordinal, '' @ itoa idx @ '') RETURN id(r)''"

fun mergeColumnsFrom :: "'db pg \<Rightarrow> string \<Rightarrow> string \<Rightarrow> nat \<Rightarrow> schema_field list \<Rightarrow> 'db \<Rightarrow> graph_error + 'db" where
  "mergeColumnsFrom pg tid loc idx [] db = Inr db"
| "mergeColumnsFrom pg tid loc idx (col # cols) db =
     rbind (traverse MustSanitizeCypherLiteral [loc, sf_name col, tid, sf_type col, sf_doc col]) (\<lambda>_.
     rbind (txQuery pg (resultStatement (cypherMergeColumnNode loc tid col)) [] db) (\<lambda>(rows, db1).
       if rows = [] then Inl ErrSnapshotNotFound
       else rbind (txQuery pg (resultStatement (cypherMergeHasColumnEdge loc tid col idx)) [] db1) (\<lambda>(_, db2).
         mergeColumnsFrom pg tid loc (Suc idx) cols db2)))"

definition assertSnapshotExists :: "'db pg \<Rightarrow> string \<Rightarrow> string \<Rightarrow> 'db \<Rightarrow> (graph_error + unit) \<times> 'db" where
  "assertSnapshotExists pg tid loc db =
     (case SanitizeCypherLiteral loc of
        Inl e \<Rightarrow> (Inl e, db)
      | Inr _ \<Rightarrow>
          ExecuteInTenant pg tid (\<lambda>db0.
            rbind (txQuery pg (resultStatement (''MATCH (s:Snapshot { metadata_location: '' @ cyLit loc @ '' }) RETURN id(s) LIMIT 1''))
              [] db0) (\<lambda>(rows, db1).
              if rows = [] then Inl ErrSnapshotNotFound else Inr ((), db1))) db)"

definition MergeColumns ::
  "'db pg \<Rightarrow> string \<Rightarrow> string \<Rightarrow> schema_field list \<Rightarrow> 'db \<Rightarrow> (graph_error + unit) \<times> 'db" where
  "MergeColumns pg tid loc cols db =
     (if loc = [] then (Inl (Rejected ''empty snapshot metadata_location''), db)
      else case traverse SanitizeCypherLiteral (loc # tid # concat (map (\<lambda>c. [sf_name c, sf_type c, sf_doc c]) cols)) of
        Inl e \<Rightarrow> (Inl e, db)
      | Inr _ \<Rightarrow>
          if cols = [] then assertSnapshotExists pg tid loc db
          else ExecuteInTenant pg tid (\<lambda>db0.
            rbind (mergeColumnsFrom pg tid loc 0 cols db0) (\<lambda>db1. Inr ((), db1))) db)"

section \<open>The OpenLineage receiver\<close>

record dataset =
  ds_namespace :: string
  ds_name :: string

record run_event =
  ev_type :: string
  ev_time :: string
  ev_producer :: string
  ev_run :: string
  ev_inputs :: "dataset list"
  ev_outputs :: "dataset list"

definition datasetURI :: "dataset \<Rightarrow> string" where
  "datasetURI d = ds_namespace d @ ''://'' @ ds_name d"

definition eventValid :: "run_event \<Rightarrow> bool" where
  "eventValid e \<longleftrightarrow> ev_type e \<noteq> [] \<and> ev_run e \<noteq> [] \<and> ev_producer e \<noteq> []"

definition maxBodyBytes :: nat where "maxBodyBytes = 2 ^ 20"

text \<open>\<open>env\<close> is the value of \<open>NEKSUR_LINEAGE_MAX_CROSS_PRODUCT\<close>, empty when it is not set.\<close>

definition crossProductCap :: "string \<Rightarrow> int" where
  "crossProductCap env =
     (case (if env = [] then None else atoi env) of Some n \<Rightarrow> if n > 0 then n else 1000 | None \<Rightarrow> 1000)"

definition inboxInsertSQL :: string where
  "inboxInsertSQL =
     ''INSERT INTO lineage_inbox (producer, run_id, event_type, payload) VALUES ($1, $2, $3, $4::jsonb) ON CONFLICT (producer, run_id) DO NOTHING''"

definition persistInbox :: "'db pg \<Rightarrow> string option \<Rightarrow> string \<Rightarrow> run_event \<Rightarrow> 'db \<Rightarrow> (graph_error + unit) \<times> 'db" where
  "persistInbox pg tenant body e db =
     WithTenantTx pg tenant (\<lambda>db0.
       rbind (txQuery pg inboxInsertSQL [ev_producer e, ev_run e, ev_type e, body] db0) (\<lambda>(_, db1). Inr ((), db1))) db"

definition lineagePairs :: "run_event \<Rightarrow> (string \<times> string) list" where
  "lineagePairs e = concat (map (\<lambda>i. map (\<lambda>out. (datasetURI i, datasetURI out)) (ev_outputs e)) (ev_inputs e))"

text \<open>The edges one after the other; the first error ends the request.\<close>

fun mergePairs ::
  "'db pg \<Rightarrow> string \<Rightarrow> string \<Rightarrow> instant \<Rightarrow> (string \<times> string) list \<Rightarrow> 'db \<Rightarrow> (graph_error + unit) \<times> 'db" where
  "mergePairs pg tid run ts [] db = (Inr (), db)"
| "mergePairs pg tid run ts ((src, tgt) # pairs) db =
     (case MergeLineageEdge pg tid src tgt run ts db of
        (Inl e, db1) \<Rightarrow> (Inl e, db1)
      | (Inr _, db1) \<Rightarrow> mergePairs pg tid run ts pairs db1)"

datatype lineage_reply = LineageStatus nat | LineageCrash string

text \<open>
  The body is \<open>None\<close> when it cannot be read; its JSON decoder, the clock and the environment are
  parameters. The inbox and the graph live in one database.
\<close>

definition LineageHandler ::
  "'db pg \<Rightarrow> (string \<Rightarrow> run_event option) \<Rightarrow> string \<Rightarrow> instant \<Rightarrow> string option \<Rightarrow> string \<Rightarrow> string option \<Rightarrow> 'db \<Rightarrow>
   lineage_reply \<times> 'db" where
  "LineageHandler pg decode env now tenant meth rawBody db =
     (if meth \<noteq> ''POST'' then (LineageStatus 405, db)
      else case tenant of
        None \<Rightarrow> (LineageStatus 500, db)
      | Some tid \<Rightarrow>
         (case rawBody of
            None \<Rightarrow> (LineageStatus 400, db)
          | Some body \<Rightarrow>
             if length body > maxBodyBytes then (LineageStatus 400, db)
             else (case decode body of
                None \<Rightarrow> (LineageStatus 400, db)
              | Some e \<Rightarrow>
                 if \<not> eventValid e then (LineageStatus 400, db)
                 else if int (length (ev_inputs e) * length (ev_outputs e)) > crossProductCap env then (LineageStatus 400, db)
                 else if \<not> list_all (\<lambda>d. IsSafeCypherLiteral (datasetURI d)) (ev_inputs e @ ev_outputs e) then (LineageStatus 400, db)
                 else if \<not> IsSafeCypherLiteral (ev_run e) then (LineageStatus 400, db)
                 else (case persistInbox pg tenant body e db of
                    (Inl err, db1) \<Rightarrow> (LineageStatus 503, db1)
                  | (Inr _, db1) \<Rightarrow>
                     let ts = (case parseInstant (ev_time e) of Some t \<Rightarrow> t | None \<Rightarrow> now) in
                     (case mergePairs pg tid (ev_run e) ts (lineagePairs e) db1 of
                        (Inr _, db2) \<Rightarrow> (LineageStatus 202, db2)
                      | (Inl (LineageCycleError s t c), db2) \<Rightarrow> (LineageStatus 422, db2)
                      | (Inl (Panic m), db2) \<Rightarrow> (LineageCrash m, db2)
                      | (Inl err, db2) \<Rightarrow> (LineageStatus 503, db2))))))"

section \<open>The graph behind the statements\<close>

text \<open>
  \<open>lineage_db pg E\<close>: \<open>E\<close> reads the \<open>LINEAGE_OF\<close> edges of a database, and the statements mean what
  openCypher and PostgreSQL document. The session settings and the lock change no edge; the
  bounded pattern finds a row exactly when a path of 1 to 5 edges leads from the target to the
  source; the MERGE adds at most its own edge (none when a node is missing).
\<close>

abbreviation safe :: "string \<Rightarrow> bool" where "safe \<equiv> list_all cypherLiteralAllow"

definition lineage_db :: "'db pg \<Rightarrow> ('db \<Rightarrow> (string \<times> string) set) \<Rightarrow> bool" where
  "lineage_db pg E \<longleftrightarrow>
     (\<forall>tid db rows db'. pg_exec pg setTenantSQL [tid] db = Inr (rows, db') \<longrightarrow> E db' = E db) \<and>
     (\<forall>key db rows db'. pg_exec pg lineageLockSQL [key] db = Inr (rows, db') \<longrightarrow> E db' = E db) \<and>
     (\<forall>tgt src db rows db'. safe tgt \<longrightarrow> safe src \<longrightarrow>
        pg_exec pg (resultStatement (cypherCycleCheck tgt src)) [] db = Inr (rows, db') \<longrightarrow>
        E db' = E db \<and> (rows \<noteq> [] \<longleftrightarrow> (\<exists>n \<in> {1..5}. (tgt, src) \<in> E db ^^ n))) \<and>
     (\<forall>src tgt tid t run db rows db'. safe src \<longrightarrow> safe tgt \<longrightarrow> safe tid \<longrightarrow> safe run \<longrightarrow>
        pg_exec pg (resultStatement (cypherMergeLineageEdge src tgt tid (FormatRFC3339Nano t) run)) [] db = Inr (rows, db') \<longrightarrow>
        E db' \<subseteq> insert (src, tgt) (E db))"

lemma lineage_dbD:
  assumes "lineage_db pg E"
  shows "pg_exec pg setTenantSQL [tid] db = Inr (rows, db') \<Longrightarrow> E db' = E db"
    and "pg_exec pg lineageLockSQL [key] db = Inr (rows, db') \<Longrightarrow> E db' = E db"
    and "safe tgt \<Longrightarrow> safe src \<Longrightarrow> pg_exec pg (resultStatement (cypherCycleCheck tgt src)) [] db = Inr (rows, db') \<Longrightarrow>
      E db' = E db \<and> (rows \<noteq> [] \<longleftrightarrow> (\<exists>n \<in> {1..5}. (tgt, src) \<in> E db ^^ n))"
    and "safe src \<Longrightarrow> safe tgt \<Longrightarrow> safe tid \<Longrightarrow> safe run \<Longrightarrow>
      pg_exec pg (resultStatement (cypherMergeLineageEdge src tgt tid (FormatRFC3339Nano t) run)) [] db = Inr (rows, db') \<Longrightarrow>
      E db' \<subseteq> insert (src, tgt) (E db)"
  using assms unfolding lineage_db_def by metis+

lemma txQuery_Inr: "txQuery pg q args db = Inr r \<longleftrightarrow> pg_exec pg q args db = Inr r"
  by (auto simp: txQuery_def split: sum.split)

text \<open>No cycle of up to six edges: what a check of five edges can guarantee.\<close>

definition no_short_cycle :: "(string \<times> string) set \<Rightarrow> bool" where
  "no_short_cycle E \<longleftrightarrow> (\<forall>n \<in> {1..6}. \<forall>x. (x, x) \<notin> E ^^ n)"

lemma relpow_insert:
  "(x, y) \<in> insert (s, t) E ^^ n \<Longrightarrow>
   (x, y) \<in> E ^^ n \<or> (\<exists>i j. i + j < n \<and> (x, s) \<in> E ^^ i \<and> (t, y) \<in> E ^^ j)"
proof (induction n arbitrary: y)
  case (Suc n)
  then obtain z where xz: "(x, z) \<in> insert (s, t) E ^^ n" and zy: "(z, y) \<in> insert (s, t) E" by auto
  from Suc.IH [OF xz] show ?case
  proof
    assume "(x, z) \<in> E ^^ n"
    show ?thesis
    proof (cases "(z, y) \<in> E")
      case True
      with \<open>(x, z) \<in> E ^^ n\<close> show ?thesis by auto
    next
      case False
      with zy \<open>(x, z) \<in> E ^^ n\<close> show ?thesis by (intro disjI2 exI [of _ n] exI [of _ 0]) auto
    qed
  next
    assume "\<exists>i j. i + j < n \<and> (x, s) \<in> E ^^ i \<and> (t, z) \<in> E ^^ j"
    then obtain i j where ij: "i + j < n" "(x, s) \<in> E ^^ i" "(t, z) \<in> E ^^ j" by blast
    show ?thesis
    proof (cases "(z, y) \<in> E")
      case True
      with ij have "(t, y) \<in> E ^^ Suc j" by auto
      with ij show ?thesis by (intro disjI2 exI [of _ i] exI [of _ "Suc j"]) auto
    next
      case False
      with zy ij show ?thesis by (intro disjI2 exI [of _ i] exI [of _ 0]) auto
    qed
  qed
qed simp

lemma relpow_mono_set: "E \<subseteq> F \<Longrightarrow> E ^^ n \<subseteq> F ^^ n" for E F :: "('a \<times> 'a) set"
  by (induction n) (auto intro: relcomp_mono)

lemma insert_no_short_cycle:
  assumes "no_short_cycle E" "s \<noteq> t" "\<forall>n \<in> {1..5}. (t, s) \<notin> E ^^ n"
  shows "no_short_cycle (insert (s, t) E)"
  unfolding no_short_cycle_def
proof (intro ballI allI notI)
  fix n x assume n: "n \<in> {1..6 :: nat}" and "(x, x) \<in> insert (s, t) E ^^ n"
  with assms(1) obtain i j where ij: "i + j < n" "(x, s) \<in> E ^^ i" "(t, x) \<in> E ^^ j"
    using relpow_insert [where x = x and y = x and n = n and s = s and t = t and E = E] unfolding no_short_cycle_def by metis
  then have "(t, s) \<in> E ^^ (j + i)" by (auto simp: relpow_add)
  moreover have "j + i \<noteq> 0"
  proof
    assume "j + i = 0"
    then have "j = 0" "i = 0" by simp_all
    with ij assms(2) show False by simp
  qed
  ultimately show False using assms(3) ij(1) n by (auto simp: Ball_def)
qed

lemma no_short_cycle_mono: "no_short_cycle F \<Longrightarrow> E \<subseteq> F \<Longrightarrow> no_short_cycle E"
  unfolding no_short_cycle_def using relpow_mono_set by blast

lemma lineageCheck_sound:
  assumes db: "lineage_db pg E" and run: "lineageCheck pg src tgt db = Inr db'"
  shows "E db' = E db \<and> safe src \<and> safe tgt \<and> (\<forall>n \<in> {1..5}. (tgt, src) \<notin> E db ^^ n)"
proof -
  obtain r1 db1 r2 db2 where
      lock: "pg_exec pg lineageLockSQL [src] db = Inr (r1, db1)" "pg_exec pg lineageLockSQL [src] db1 = Inr (r2, db2)" and
      lits: "safe tgt" "safe src" and
      q: "pg_exec pg (resultStatement (cypherCycleCheck tgt src)) [] db2 = Inr ([], db')"
    using run by (auto simp: lineageCheck_def validateNoCycleTx_def result_simps MustSanitize_iff txQuery_Inr split: if_split_asm)
  have "E db2 = E db" using lineage_dbD(2) [OF db lock(1)] lineage_dbD(2) [OF db lock(2)] by simp
  with lineage_dbD(3) [OF db lits q] lits show ?thesis by auto
qed

lemma lineageMerge_sound:
  assumes db: "lineage_db pg E" and run: "lineageMerge pg tid src tgt rid (FormatRFC3339Nano t) db = Inr db'"
  shows "E db' \<subseteq> insert (src, tgt) (E db)"
proof -
  obtain rows where q: "pg_exec pg (resultStatement (cypherMergeLineageEdge src tgt tid (FormatRFC3339Nano t) rid)) [] db = Inr (rows, db')"
    and lits: "safe src" "safe tgt" "safe tid" "safe rid"
    using run by (auto simp: lineageMerge_def result_simps MustSanitize_iff txQuery_Inr)
  show ?thesis by (rule lineage_dbD(4) [OF db lits q])
qed

text \<open>
  C18 Lineage stays free of short cycles. On a graph whose statements mean what \<open>lineage_db\<close> says,
  if no cycle of up to six edges is there, none is there after \<open>MergeLineageEdge\<close>, whatever its
  arguments and whatever it answers; an edge from a node to itself is refused untouched.
\<close>

theorem lineage_stays_acyclic:
  assumes "lineage_db pg E" "no_short_cycle (E db)"
  shows "no_short_cycle (E (snd (MergeLineageEdge pg tid src tgt run t db))) \<and>
    snd (MergeLineageEdge pg tid src src run t db) = db"
proof
  show "snd (MergeLineageEdge pg tid src src run t db) = db"
    by (auto simp: MergeLineageEdge_def split: sum.split)
  let ?fn = "\<lambda>db0. rbind (lineageCheck pg src tgt db0) (\<lambda>db1.
      rbind (lineageMerge pg tid src tgt run (FormatRFC3339Nano t) db1) (\<lambda>db2. Inr ((), db2)))"
  obtain r db' where res: "MergeLineageEdge pg tid src tgt run t db = (r, db')" by (meson surj_pair)
  have committed: "no_short_cycle (E db2)"
    if ne: "src \<noteq> tgt" and set: "SetTenantContext pg tid db = Inr db1" and fn: "?fn db1 = Inr ((), db2)" for db1 db2
  proof -
    obtain rows where "pg_exec pg setTenantSQL [tid] db = Inr (rows, db1)"
      using set by (auto simp: SetTenantContext_def split: sum.split_asm)
    from lineage_dbD(1) [OF assms(1) this] have same: "E db1 = E db" .
    obtain db3 where check: "lineageCheck pg src tgt db1 = Inr db3"
      and merge: "lineageMerge pg tid src tgt run (FormatRFC3339Nano t) db3 = Inr db2"
      using fn by (auto simp: result_simps)
    from lineageCheck_sound [OF assms(1) check] same assms(2) ne have "no_short_cycle (insert (src, tgt) (E db3))"
      by (auto intro: insert_no_short_cycle)
    with lineageMerge_sound [OF assms(1) merge] show ?thesis by (rule no_short_cycle_mono [rotated])
  qed
  have "db' = db \<or> no_short_cycle (E db')"
  proof (cases "src = tgt \<or> MergeLineageEdge pg tid src tgt run t db \<noteq> ExecuteInTenant pg tid ?fn db")
    case True
    then show ?thesis using res by (auto simp: MergeLineageEdge_def split: sum.split_asm if_split_asm)
  next
    case False
    then have ex: "ExecuteInTenant pg tid ?fn db = (r, db')" and ne: "src \<noteq> tgt" using res by auto
    from ExecuteInTenant_outcome [OF ex] have "db' = db \<or> (\<exists>db1. SetTenantContext pg tid db = Inr db1 \<and> ?fn db1 = Inr ((), db'))"
      by (cases r) auto
    with committed [OF ne] show ?thesis by blast
  qed
  with assms(2) res show "no_short_cycle (E (snd (MergeLineageEdge pg tid src tgt run t db)))" by auto
qed

section \<open>A graph database that runs the templates\<close>

text \<open>The state is the list of edges. A statement is recognised by the literals it quotes.\<close>

fun hops :: "(string \<times> string) list \<Rightarrow> nat \<Rightarrow> string list \<Rightarrow> string list" where
  "hops es 0 xs = xs"
| "hops es (Suc n) xs = hops es n (concat (map (\<lambda>x. map snd (filter (\<lambda>e. fst e = x) es)) xs))"

lemma relpow_first: "(x, y) \<in> R ^^ Suc n \<longleftrightarrow> (\<exists>z. (x, z) \<in> R \<and> (z, y) \<in> R ^^ n)"
  using relpow_Suc_D2 relpow_Suc_I2 by metis

lemma set_hops: "set (hops es n xs) = {y. \<exists>x \<in> set xs. (x, y) \<in> set es ^^ n}"
proof (induction n arbitrary: xs)
  case (Suc n)
  have step: "set (concat (map (\<lambda>x. map snd (filter (\<lambda>e. fst e = x) es)) xs)) = {y. \<exists>x \<in> set xs. (x, y) \<in> set es}"
    by force
  show ?case unfolding hops.simps Suc.IH step relpow_first by blast
qed simp

definition graphExec :: "string \<Rightarrow> string list \<Rightarrow> (string \<times> string) list \<Rightarrow> string + (string list list \<times> (string \<times> string) list)" where
  "graphExec q args es =
     (case quotedParts q of
        [_, cur] \<Rightarrow> Inr (map (\<lambda>y. [[CHR 0x22] @ y @ [CHR 0x22]]) (take 1 (hops es 1 [cur])), es)
      | [_, tgt, src] \<Rightarrow> Inr (if list_ex (\<lambda>n. src \<in> set (hops es n [tgt])) [1..<6] then [[src]] else [], es)
      | [_, src, tgt, _, _, _, _] \<Rightarrow> Inr ([[src]], (src, tgt) # es)
      | _ \<Rightarrow> Inr ([], es))"

definition graph_pg :: "(string \<times> string) list pg" where
  "graph_pg = \<lparr>pg_acquire = \<lambda>_. None, pg_begin = \<lambda>_. None, pg_exec = graphExec, pg_commit = \<lambda>_. None, pg_reset = \<lambda>_. None\<rparr>"

lemma quoted_cyLit: "CHR 0x27 \<notin> set v \<Longrightarrow> quotedParts (cyLit v @ s) = v # quotedParts s"
  using quotedParts_literal by (simp add: cyLit_def)

lemma quoted_check:
  "safe tgt \<Longrightarrow> safe src \<Longrightarrow> quotedParts (resultStatement (cypherCycleCheck tgt src)) = [''neksur'', tgt, src]"
  by (simp add: resultStatement_def cypherStatement_def cypherCycleCheck_def quotedParts.simps(2) quoted_cyLit safe_no_quote)

lemma nano_no_quote: "CHR 0x27 \<notin> set (FormatRFC3339Nano t)"
  using FormatNano_bytes [of t] by (auto simp: list_all_iff timeByte_def is_digit_def)

lemma quoted_merge:
  "safe src \<Longrightarrow> safe tgt \<Longrightarrow> safe tid \<Longrightarrow> safe run \<Longrightarrow> CHR 0x27 \<notin> set ts \<Longrightarrow>
   quotedParts (resultStatement (cypherMergeLineageEdge src tgt tid ts run)) = [''neksur'', src, tgt, tid, ts, run, ts]"
  by (simp add: resultStatement_def cypherStatement_def cypherMergeLineageEdge_def quotedParts.simps(2) quoted_cyLit safe_no_quote)

lemma graph_pg_lineage: "lineage_db graph_pg set"
proof -
  have "quotedParts setTenantSQL = [''app.current_tenant'']" "quotedParts lineageLockSQL = []" by code_simp+
  moreover have "list_ex (\<lambda>n. src \<in> set (hops es n [tgt])) [1..<6] \<longleftrightarrow> (\<exists>n \<in> {1..5}. (tgt, src) \<in> set es ^^ n)" for src tgt es
    by (auto simp: list_ex_iff set_hops)
  ultimately show ?thesis
    unfolding lineage_db_def by (auto simp: graph_pg_def graphExec_def quoted_check quoted_merge nano_no_quote)
qed

lemma no_short_cycle_empty: "no_short_cycle {}"
  by (auto simp: no_short_cycle_def relpow_empty)

theorem lineage_stays_acyclic_witness:
  "MergeLineageEdge graph_pg ''t1'' ''a'' ''b'' ''r1'' 0 [] = (Inr (), [(''a'', ''b'')]) \<and>
   no_short_cycle (set (snd (MergeLineageEdge graph_pg ''t1'' ''a'' ''b'' ''r1'' 0 [])))"
proof
  show "MergeLineageEdge graph_pg ''t1'' ''a'' ''b'' ''r1'' 0 [] = (Inr (), [(''a'', ''b'')])" by code_simp
  have "no_short_cycle (set [])" using no_short_cycle_empty by simp
  from lineage_stays_acyclic [OF graph_pg_lineage this]
  show "no_short_cycle (set (snd (MergeLineageEdge graph_pg ''t1'' ''a'' ''b'' ''r1'' 0 [])))" by blast
qed

text \<open>
  What the advisory lock of the lineage write is worth. It serialises writers of one source.
  Two writers of one source that both checked the same committed graph may both write: no cycle
  of up to six edges appears, with or without the lock. Two writers of different sources hold
  different locks, may check the same graph, and together close a cycle.
\<close>

theorem lineage_lock_scope:
  assumes "lineage_db pg E" "no_short_cycle (E db)" "s \<noteq> a" "s \<noteq> b"
    and "lineageCheck pg s a db = Inr d1" "lineageCheck pg s b db = Inr d2"
    and "lineageMerge pg tid s a run (FormatRFC3339Nano t) db = Inr m1"
    and "lineageMerge pg tid s b run' (FormatRFC3339Nano t') m1 = Inr m2"
  shows "no_short_cycle (E m2) \<and>
    lineageCheck graph_pg ''x'' ''y'' [] = Inr [] \<and> lineageCheck graph_pg ''y'' ''x'' [] = Inr [] \<and>
    lineageMerge graph_pg ''t1'' ''x'' ''y'' ''r1'' ''now'' [] = Inr [(''x'', ''y'')] \<and>
    lineageMerge graph_pg ''t1'' ''y'' ''x'' ''r2'' ''now'' [(''x'', ''y'')] = Inr [(''y'', ''x''), (''x'', ''y'')] \<and>
    \<not> no_short_cycle (set [(''y'', ''x''), (''x'', ''y'')])"
proof (intro conjI)
  have a: "\<forall>n \<in> {1..5}. (a, s) \<notin> E db ^^ n" and b: "\<forall>n \<in> {1..5}. (b, s) \<notin> E db ^^ n"
    using lineageCheck_sound [OF assms(1,5)] lineageCheck_sound [OF assms(1,6)] by simp_all
  have one: "no_short_cycle (insert (s, a) (E db))" by (rule insert_no_short_cycle [OF assms(2,3) a])
  have "(b, s) \<notin> insert (s, a) (E db) ^^ n" if n: "n \<in> {1..5}" for n
  proof
    assume "(b, s) \<in> insert (s, a) (E db) ^^ n"
    from relpow_insert [OF this] have "\<exists>k \<le> n. (b, s) \<in> E db ^^ k"
      by (elim disjE exE conjE) (auto intro: exI [of _ n] less_imp_le add_leD1)
    then obtain k where k: "k \<le> n" "(b, s) \<in> E db ^^ k" by blast
    moreover have "k \<noteq> 0" using k(2) assms(4) by (cases k) auto
    ultimately show False using b n by auto
  qed
  from insert_no_short_cycle [OF one assms(4)] this have two: "no_short_cycle (insert (s, b) (insert (s, a) (E db)))" by blast
  have "E m1 \<subseteq> insert (s, a) (E db)" "E m2 \<subseteq> insert (s, b) (E m1)"
    using lineageMerge_sound [OF assms(1,7)] lineageMerge_sound [OF assms(1,8)] .
  then show "no_short_cycle (E m2)" using no_short_cycle_mono [OF two] by blast
  show "\<not> no_short_cycle (set [(''y'', ''x''), (''x'', ''y'')])"
    unfolding no_short_cycle_def by (auto simp: numeral_2_eq_2 intro!: bexI [of _ 2] exI [of _ "''x''"])
qed code_simp+

theorem lineage_lock_scope_witness:
  "\<exists>m2. lineageMerge graph_pg ''t1'' ''s'' ''b'' ''r'' (FormatRFC3339Nano 0) [(''s'', ''a'')] = Inr m2 \<and> no_short_cycle (set m2)"
proof -
  have 1: "lineageCheck graph_pg ''s'' ''a'' [] = Inr []" "lineageCheck graph_pg ''s'' ''b'' [] = Inr []"
    "lineageMerge graph_pg ''t1'' ''s'' ''a'' ''r'' (FormatRFC3339Nano 0) [] = Inr [(''s'', ''a'')]"
    "lineageMerge graph_pg ''t1'' ''s'' ''b'' ''r'' (FormatRFC3339Nano 0) [(''s'', ''a'')] = Inr [(''s'', ''b''), (''s'', ''a'')]"
    by code_simp+
  have "no_short_cycle (set [])" using no_short_cycle_empty by simp
  from lineage_lock_scope [OF graph_pg_lineage this _ _ 1] 1(4) show ?thesis by simp
qed

text \<open>
  The receiver answers honestly. Any status below 422 other than 202 means that nothing was
  written. A 202 means that the payload went through the inbox insert first, and that every
  pair of an input and an output dataset was then merged in order; a 422 means that some pair
  closed a cycle.
\<close>

theorem lineage_receiver:
  assumes "LineageHandler pg decode env now tenant meth rawBody db = (LineageStatus st, db')"
  shows "(st \<in> {400, 405, 500} \<and> db' = db) \<or>
    (\<exists>tid body e. tenant = Some tid \<and> rawBody = Some body \<and> decode body = Some e \<and> eventValid e \<and>
       int (length (lineagePairs e)) \<le> crossProductCap env \<and>
       list_all (\<lambda>(s, t). safe s \<and> safe t) (lineagePairs e) \<and>
       (st = 503 \<or> (\<exists>db1 ts r. persistInbox pg tenant body e db = (Inr (), db1) \<and>
         mergePairs pg tid (ev_run e) ts (lineagePairs e) db1 = (r, db') \<and>
         (st = 202 \<and> r = Inr () \<or> st = 422 \<and> (\<exists>s t c. r = Inl (LineageCycleError s t c))))))"
proof -
  have pairs: "length (lineagePairs e) = length (ev_inputs e) * length (ev_outputs e)" for e
    by (simp add: lineagePairs_def length_concat o_def sum_list_triv)
  have lits: "list_all (\<lambda>(s, t). safe s \<and> safe t) (lineagePairs e)"
    if "list_all (\<lambda>d. IsSafeCypherLiteral (datasetURI d)) (ev_inputs e @ ev_outputs e)" for e
    using that by (auto simp: lineagePairs_def list_all_iff IsSafe_iff)
  show ?thesis
  proof (cases "\<exists>tid body e. tenant = Some tid \<and> rawBody = Some body \<and> decode body = Some e \<and> eventValid e \<and> meth = ''POST'' \<and>
      length body \<le> maxBodyBytes \<and> int (length (ev_inputs e) * length (ev_outputs e)) \<le> crossProductCap env \<and>
      list_all (\<lambda>d. IsSafeCypherLiteral (datasetURI d)) (ev_inputs e @ ev_outputs e) \<and> IsSafeCypherLiteral (ev_run e)")
    case False
    then show ?thesis
      using assms by (auto simp: LineageHandler_def not_le not_less split: if_split_asm option.split_asm)
  next
    case True
    then obtain tid body e where g: "tenant = Some tid" "rawBody = Some body" "decode body = Some e" "eventValid e" "meth = ''POST''"
      "length body \<le> maxBodyBytes" "int (length (ev_inputs e) * length (ev_outputs e)) \<le> crossProductCap env"
      "list_all (\<lambda>d. IsSafeCypherLiteral (datasetURI d)) (ev_inputs e @ ev_outputs e)" "IsSafeCypherLiteral (ev_run e)" by blast
    let ?ts = "case parseInstant (ev_time e) of Some t \<Rightarrow> t | None \<Rightarrow> now"
    have eq: "(case persistInbox pg tenant body e db of
        (Inl err, db1) \<Rightarrow> (LineageStatus 503, db1)
      | (Inr _, db1) \<Rightarrow>
         (case mergePairs pg tid (ev_run e) ?ts (lineagePairs e) db1 of
            (Inr _, db2) \<Rightarrow> (LineageStatus 202, db2)
          | (Inl (LineageCycleError s t c), db2) \<Rightarrow> (LineageStatus 422, db2)
          | (Inl (Panic m), db2) \<Rightarrow> (LineageCrash m, db2)
          | (Inl err, db2) \<Rightarrow> (LineageStatus 503, db2))) = (LineageStatus st, db')"
      using assms g unfolding LineageHandler_def Let_def by (simp add: not_less)
    have "st = 503 \<or> (\<exists>db1. persistInbox pg tenant body e db = (Inr (), db1) \<and>
        (mergePairs pg tid (ev_run e) ?ts (lineagePairs e) db1 = (Inr (), db') \<and> st = 202 \<or>
         (\<exists>s t c. mergePairs pg tid (ev_run e) ?ts (lineagePairs e) db1 = (Inl (LineageCycleError s t c), db') \<and> st = 422)))"
      using eq by (auto split: prod.split_asm sum.split_asm graph_error.split_asm)
    then have "st = 503 \<or> (\<exists>db1 ts r. persistInbox pg tenant body e db = (Inr (), db1) \<and>
         mergePairs pg tid (ev_run e) ts (lineagePairs e) db1 = (r, db') \<and>
         (st = 202 \<and> r = Inr () \<or> st = 422 \<and> (\<exists>s t c. r = Inl (LineageCycleError s t c))))" by blast
    then show ?thesis using g pairs lits by auto
  qed
qed

theorem lineage_receiver_witness:
  "\<exists>db'. LineageHandler graph_pg
     (\<lambda>_. Some \<lparr>ev_type = ''COMPLETE'', ev_time = [], ev_producer = ''spark'', ev_run = ''r1'',
        ev_inputs = [\<lparr>ds_namespace = ''ice'', ds_name = ''a''\<rparr>], ev_outputs = [\<lparr>ds_namespace = ''ice'', ds_name = ''b''\<rparr>]\<rparr>)
     [] 0 (Some ''t1'') ''POST'' (Some ''{}'') [] = (LineageStatus 202, db') \<and>
     db' = [(''ice://a'', ''ice://b'')]"
proof -
  let ?ev = "\<lparr>ev_type = ''COMPLETE'', ev_time = [], ev_producer = ''spark'', ev_run = ''r1'',
        ev_inputs = [\<lparr>ds_namespace = ''ice'', ds_name = ''a''\<rparr>], ev_outputs = [\<lparr>ds_namespace = ''ice'', ds_name = ''b''\<rparr>]\<rparr>"
  have steps: "persistInbox graph_pg (Some ''t1'') ''{}'' ?ev [] = (Inr (), [])"
    "mergePairs graph_pg ''t1'' ''r1'' 0 (lineagePairs ?ev) [] = (Inr (), [(''ice://a'', ''ice://b'')])"
    "crossProductCap [] = 1000" "list_all (\<lambda>d. IsSafeCypherLiteral (datasetURI d)) (ev_inputs ?ev @ ev_outputs ?ev)"
    "IsSafeCypherLiteral ''r1''" "eventValid ?ev" "parseInstant [] = None"
    by code_simp+
  have run: "LineageHandler graph_pg (\<lambda>_. Some ?ev) [] 0 (Some ''t1'') ''POST'' (Some ''{}'') [] =
      (LineageStatus 202, [(''ice://a'', ''ice://b'')])"
    using steps by (simp add: LineageHandler_def maxBodyBytes_def Let_def)
  from lineage_receiver [OF run] show ?thesis using run by auto
qed

end
