(* ===== verification/Graph_Telemetry.thy ===== *)
theory Graph_Telemetry
  imports CEL_Policy "HOL-Library.Word"
begin

text \<open>
  The telemetry layer of the graph client: the plan reader (\<open>internal/graph/explain_parser.go\<close>)
  and the instrumented statement (\<open>cypher_wrapper.go\<close>).

  A plan is the decoded JSON value; a number is given as \<open>int64\<close> of the decoded float, the only
  use the reader makes of it. The counters are 64-bit and wrap. Spans and log lines are left
  out; the observations are the list of \<open>metric\<close> values.
\<close>

section \<open>Plans\<close>

datatype relation_kind = RelationOther | RelationVertex | RelationEdge

definition classifyRelation :: "string \<Rightarrow> relation_kind" where
  "classifyRelation rel =
     (if rel = ''_ag_label_vertex'' then RelationVertex
      else if rel = ''_ag_label_edge'' then RelationEdge
      else if str_contains rel ''_v_'' \<or> has_suffix rel ''_vertex'' then RelationVertex
      else if str_contains rel ''_e_'' \<or> has_suffix rel ''_edge'' then RelationEdge
      else RelationOther)"

type_synonym plan = "(string \<times> go_any) list"

definition subplans :: "string \<Rightarrow> plan \<Rightarrow> plan list" where
  "subplans key node =
     (case map_of node key of Some (AList cs) \<Rightarrow> List.map_filter asMap cs | _ \<Rightarrow> [])"

definition children :: "plan \<Rightarrow> plan list" where
  "children node = subplans ''Plans'' node @ subplans ''InitPlan'' node @ subplans ''SubPlan'' node"

definition planRows :: "relation_kind \<Rightarrow> plan \<Rightarrow> 64 word" where
  "planRows kind node =
     (case field asStr ''Relation Name'' node of
        Some rel \<Rightarrow>
          if rel \<noteq> [] \<and> classifyRelation rel = kind
          then (case map_of node ''Actual Rows'' of Some (ANum n) \<Rightarrow> word_of_int n | _ \<Rightarrow> 0) else 0
      | None \<Rightarrow> 0)"

lemma asMap_Some: "asMap v = Some m \<longleftrightarrow> v = AMap m"
  by (cases v) auto

lemma map_of_size: "map_of m k = Some v \<Longrightarrow> size v < size (AMap m)"
  by (induction m) (auto split: if_split_asm)

lemma subplan_smaller:
  assumes "c \<in> set (subplans key node)"
  shows "size (AMap c) < size (AMap node)"
proof -
  obtain v where v: "map_of node key = Some v" using assms by (cases "map_of node key") (auto simp: subplans_def)
  then obtain cs where cs: "map_of node key = Some (AList cs)" and c: "AMap c \<in> set cs"
    using assms by (cases v) (auto simp: subplans_def List.map_filter_def asMap_Some)
  have "size (AMap c) \<le> size_list size cs" using c by (simp add: size_list_estimation')
  then show ?thesis using map_of_size [OF cs] by simp
qed

lemma child_smaller [termination_simp]:
  "c \<in> set (children node) \<Longrightarrow> size (AMap c) < size (AMap node)"
  using subplan_smaller by (auto simp: children_def)

text \<open>The recursive walk with its two accumulators.\<close>

function walkPlanNode :: "plan \<Rightarrow> 64 word \<times> 64 word \<Rightarrow> 64 word \<times> 64 word" where
  "walkPlanNode node acc =
     foldl (\<lambda>a c. walkPlanNode c a)
       (fst acc + planRows RelationVertex node, snd acc + planRows RelationEdge node) (children node)"
  by pat_completeness auto
termination
  by (relation "measure (\<lambda>(node, _). size (AMap node))") (use child_smaller in auto)

declare walkPlanNode.simps [simp del]

datatype explain_error = EmptyPlan | UnmarshalPlan | NoPlans | NoPlanObject

text \<open>The decoder gives the array of objects; a \<open>null\<close> element is an object without keys.\<close>

definition ParseExplain :: "(string \<Rightarrow> plan list option) \<Rightarrow> string \<Rightarrow> explain_error + 64 word \<times> 64 word" where
  "ParseExplain decode planJSON =
     (if planJSON = [] then Inl EmptyPlan
      else case decode planJSON of
        None \<Rightarrow> Inl UnmarshalPlan
      | Some [] \<Rightarrow> Inl NoPlans
      | Some (root # _) \<Rightarrow>
         (case field asMap ''Plan'' root of
            None \<Rightarrow> Inl NoPlanObject
          | Some planNode \<Rightarrow> Inr (walkPlanNode planNode (0, 0))))"

section \<open>The instrumented statement\<close>

datatype metric =
    CypherDurationMs int
  | CypherErrorsTotal
  | CypherNodesVisited "64 word"
  | CypherEdgesTraversed "64 word"

definition slowQueryThresholdMs :: int where "slowQueryThresholdMs = 500"

definition explainCall :: "string \<Rightarrow> string \<Rightarrow> string" where
  "explainCall graph stmt = ''EXPLAIN (FORMAT JSON, ANALYZE) '' @ cypherCall graph stmt"

definition explainAndParse ::
  "'db pg \<Rightarrow> (string \<Rightarrow> plan list option) \<Rightarrow> string \<Rightarrow> string \<Rightarrow> string list \<Rightarrow> 'db \<Rightarrow>
   (64 word \<times> 64 word) option \<times> 'db" where
  "explainAndParse pg decode graph stmt args db =
     (case pg_exec pg (explainCall graph stmt) args db of
        Inl e \<Rightarrow> (None, db)
      | Inr ([planJSON] # _, db1) \<Rightarrow>
          ((case ParseExplain decode planJSON of Inl e \<Rightarrow> None | Inr r \<Rightarrow> Some r), db1)
      | Inr (_, db1) \<Rightarrow> (None, db1))"

text \<open>\<open>forced\<close> is \<open>WithForceSample\<close>, \<open>took\<close> the measured milliseconds, \<open>sampled\<close> the draw of the 1\% sampler.\<close>

definition ExecuteCypher ::
  "'db pg \<Rightarrow> (string \<Rightarrow> plan list option) \<Rightarrow> bool \<Rightarrow> int \<Rightarrow> bool \<Rightarrow> string \<Rightarrow> string \<Rightarrow> string list \<Rightarrow> 'db \<Rightarrow>
   (graph_error + string list list) \<times> metric list \<times> 'db" where
  "ExecuteCypher pg decode forced took sampled graph stmt args db =
     (case Cypher pg graph stmt args db of
        Inl e \<Rightarrow> (Inl e, [CypherDurationMs took, CypherErrorsTotal], db)
      | Inr (rows, db1) \<Rightarrow>
          if forced \<or> took > slowQueryThresholdMs \<or> sampled
          then (case explainAndParse pg decode graph stmt args db1 of
                  (Some (nodes, edges), db2) \<Rightarrow>
                    (Inr rows, [CypherDurationMs took, CypherNodesVisited nodes, CypherEdgesTraversed edges], db2)
                | (None, db2) \<Rightarrow> (Inr rows, [CypherDurationMs took], db2))
          else (Inr rows, [CypherDurationMs took], db1))"

section \<open>Properties\<close>

text \<open>Every node of a plan tree, in the order of the walk.\<close>

function planNodes :: "plan \<Rightarrow> plan list" where
  "planNodes node = node # concat (map planNodes (children node))"
  by pat_completeness auto
termination
  by (relation "measure (\<lambda>node. size (AMap node))") (use child_smaller in auto)

declare planNodes.simps [simp del]

definition rowsOf :: "plan list \<Rightarrow> 64 word \<times> 64 word" where
  "rowsOf ps = (sum_list (map (planRows RelationVertex) ps), sum_list (map (planRows RelationEdge) ps))"

lemma walk_counts: "walkPlanNode node acc = (fst acc + fst (rowsOf (planNodes node)), snd acc + snd (rowsOf (planNodes node)))"
proof (induction node acc rule: walkPlanNode.induct)
  case (1 node acc)
  have fold: "foldl (\<lambda>a c. walkPlanNode c a) a cs =
      (fst a + fst (rowsOf (concat (map planNodes cs))), snd a + snd (rowsOf (concat (map planNodes cs))))"
    if "set cs \<subseteq> set (children node)" for a cs
    using that
    by (induction cs arbitrary: a) (simp_all add: rowsOf_def "1.IH" add.assoc)
  show ?case
    unfolding walkPlanNode.simps [of node] planNodes.simps [of node] fold [OF subset_refl]
    by (simp add: rowsOf_def add.assoc)
qed

text \<open>
  The plan reader counts every node once. On a plan tree it terminates, and its two counts are
  the sums, in 64-bit arithmetic, of the row counts of the vertex and edge relations over all
  nodes of the tree, whatever their nesting.
\<close>

theorem explain_counts_all:
  "(case decode json of
      Some (root # rest) \<Rightarrow> json \<noteq> [] \<and> field asMap ''Plan'' root = Some node
    | _ \<Rightarrow> False) \<Longrightarrow>
   ParseExplain decode json = Inr (rowsOf (planNodes node))"
  by (auto simp: ParseExplain_def walk_counts rowsOf_def split: option.split_asm list.split_asm)

abbreviation sample_plan :: plan where
  "sample_plan \<equiv> [(''Node Type'', AStr ''Nested Loop''), (''Plans'', AList [
      AMap [(''Relation Name'', AStr ''_ag_label_vertex''), (''Actual Rows'', ANum 5)],
      AMap [(''SubPlan'', AList [AMap [(''Relation Name'', AStr ''LINEAGE_OF_e_1''), (''Actual Rows'', ANum 2)]])]])]"

theorem explain_counts_all_witness:
  "ParseExplain (\<lambda>_. Some [[(''Plan'', AMap sample_plan)]]) ''[]'' = Inr (5, 2)"
proof -
  have "ParseExplain (\<lambda>_. Some [[(''Plan'', AMap sample_plan)]]) ''[]'' = Inr (rowsOf (planNodes sample_plan))"
    by (rule explain_counts_all) (simp add: field_def)
  moreover have "rowsOf (planNodes sample_plan) = (5, 2)" by code_simp
  ultimately show ?thesis by simp
qed

text \<open>
  Telemetry never changes an answer. The rows or the error are those of the bare statement, and
  the graph is touched a second time only when the call is sampled, slow or forced; then the
  statement itself runs again, under \<open>EXPLAIN ANALYZE\<close>.
\<close>

lemma telemetry_transparent:
  assumes "ExecuteCypher pg decode forced took sampled graph stmt args db = (r, ms, db')"
  shows "case Cypher pg graph stmt args db of
      Inl e \<Rightarrow> r = Inl e \<and> db' = db
    | Inr (rows, db1) \<Rightarrow> r = Inr rows \<and>
        (if forced \<or> took > slowQueryThresholdMs \<or> sampled
         then (case pg_exec pg (explainCall graph stmt) args db1 of Inl _ \<Rightarrow> db' = db1 | Inr (_, db2) \<Rightarrow> db' = db2)
         else db' = db1)"
  using assms
  by (auto simp: ExecuteCypher_def explainAndParse_def split: sum.splits prod.splits if_split_asm list.splits option.split_asm)

end
