(* ===== verification/Hot_Reload.thy ===== *)
theory Hot_Reload
  imports Neksur_Prelude
begin

text \<open>
  Values that are reloaded from files while the server runs: the license manifest and the
  certificate of the SQL proxy. Both watchers react to the same events, a periodic tick and the
  operations of the file watcher, and keep the value they have when a reload fails. The locale
  states that contract once; each watcher interprets it.
\<close>

datatype fs_op = OpWrite | OpCreate | OpRename | OpRemove | OpChmod

datatype watch_event = Tick | FileEvent "fs_op list" | WatchError

definition interesting :: "fs_op list \<Rightarrow> bool" where
  "interesting ops \<longleftrightarrow> list_ex (\<lambda>op. op \<noteq> OpChmod) ops"

definition reloadTurn :: "('e \<Rightarrow> 'a option \<Rightarrow> 'a option) \<Rightarrow> 'e \<times> watch_event \<Rightarrow> 'a option \<Rightarrow> 'a option" where
  "reloadTurn reload turn current =
     (case turn of
        (e, Tick) \<Rightarrow> reload e current
      | (e, FileEvent ops) \<Rightarrow> if interesting ops then reload e current else current
      | (e, WatchError) \<Rightarrow> current)"

text \<open>\<open>load\<close> is what the files hold in a situation, when they can be read and pass their checks.\<close>

locale hot_reload =
  fixes load :: "'e \<Rightarrow> 'a option"
    and reload :: "'e \<Rightarrow> 'a option \<Rightarrow> 'a option"
  assumes reload_loads: "load e = Some x \<Longrightarrow> reload e current = Some x"
    and reload_keeps: "load e = None \<Longrightarrow> reload e current = current"
begin

lemma turn_cases: "reloadTurn reload t current = current \<or> load (fst t) = reloadTurn reload t current \<and> load (fst t) \<noteq> None"
  by (cases "load (fst t)")
    (auto simp: reloadTurn_def reload_loads reload_keeps split: prod.split watch_event.split)

lemma served_loaded:
  "fold (reloadTurn reload) ts current = current \<or> (\<exists>t \<in> set ts. load (fst t) = fold (reloadTurn reload) ts current \<and> load (fst t) \<noteq> None)"
proof (induction ts rule: rev_induct)
  case (snoc t ts)
  let ?v = "fold (reloadTurn reload) ts current"
  from turn_cases [of t ?v] show ?case
  proof
    assume "reloadTurn reload t ?v = ?v"
    with snoc.IH show ?thesis by (metis UnCI comp_apply fold_append fold_simps(1) fold_simps(2) set_append)
  next
    assume "load (fst t) = reloadTurn reload t ?v \<and> load (fst t) \<noteq> None"
    then have "\<exists>u \<in> set (ts @ [t]). load (fst u) = fold (reloadTurn reload) (ts @ [t]) current \<and> load (fst u) \<noteq> None" by auto
    then show ?thesis by blast
  qed
qed simp

lemma never_unloaded: "current \<noteq> None \<Longrightarrow> fold (reloadTurn reload) ts current \<noteq> None"
  using served_loaded [of ts current] by auto

lemma tick_catches_up: "load e = Some x \<Longrightarrow> fold (reloadTurn reload) (ts @ [(e, Tick)]) current = Some x"
  by (simp add: reloadTurn_def reload_loads)

lemma stable_after:
  assumes "\<forall>t \<in> set ts. load (fst t) = Some x"
  shows "fold (reloadTurn reload) ts (Some x) = Some x"
  using assms
proof (induction ts)
  case (Cons t ts)
  then have "reloadTurn reload t (Some x) = Some x" using turn_cases [of t "Some x"] by auto
  with Cons show ?case by simp
qed simp

end

end
