(* ===== verification/Go_JSON.thy ===== *)
theory Go_JSON
  imports Gateway_Inputs Go_Time
begin

text \<open>
  The JSON writer of Go (\<open>encoding/json\<close>), as far as the sources use it on strings, lists of strings
  and times, and the fact that makes its output safe to sign and to send: a quoted string ends where
  the writer ended it, so the texts written for different values are different.
\<close>

section \<open>JSON text\<close>

text \<open>
  \<open>json.Marshal\<close> of a string: an invalid byte becomes U+FFFD, quotes, backslashes, control bytes
  and the HTML bytes are escaped, and so are U+2028 and U+2029.
\<close>

definition hexDigit :: "nat \<Rightarrow> char" where
  "hexDigit n = (if n < 10 then digit_char n else char_of (87 + n))"

definition escByte :: "char \<Rightarrow> string" where
  "escByte c =
     (if c = CHR 0x5C \<or> c = CHR 0x22 then [CHR 0x5C, c]
      else if c = CHR 0x08 then [CHR 0x5C, CHR ''b'']
      else if c = CHR 0x0C then [CHR 0x5C, CHR ''f'']
      else if c = CHR 0x0A then [CHR 0x5C, CHR ''n'']
      else if c = CHR 0x0D then [CHR 0x5C, CHR ''r'']
      else if c = CHR 0x09 then [CHR 0x5C, CHR ''t'']
      else if byte_val c < 32 \<or> c = CHR ''<'' \<or> c = CHR ''>'' \<or> c = CHR ''&''
      then [CHR 0x5C, CHR ''u'', CHR ''0'', CHR ''0'', hexDigit (byte_val c div 16), hexDigit (byte_val c mod 16)]
      else [c])"

fun jsonEscape :: "string \<Rightarrow> string" where
  "jsonEscape (a # b # c # s) =
     (if a = CHR 0xE2 \<and> b = CHR 0x80 \<and> c = CHR 0xA8 then [CHR 0x5C] @ ''u2028'' @ jsonEscape s
      else if a = CHR 0xE2 \<and> b = CHR 0x80 \<and> c = CHR 0xA9 then [CHR 0x5C] @ ''u2029'' @ jsonEscape s
      else escByte a @ jsonEscape (b # c # s))"
| "jsonEscape (a # s) = escByte a @ jsonEscape s"
| "jsonEscape [] = []"

definition jsonQuote :: "string \<Rightarrow> string" where
  "jsonQuote s = [CHR 0x22] @ jsonEscape (jsonText s) @ [CHR 0x22]"

definition jsonStrings :: "string list option \<Rightarrow> string" where
  "jsonStrings xs = (case xs of None \<Rightarrow> ''null'' | Some ys \<Rightarrow> ''['' @ join_with '','' (map jsonQuote ys) @ '']'')"

section \<open>The JSON writer is readable\<close>

text \<open>A scanner that ends at the first quote that no backslash protects, and an unescaper.\<close>

function closing :: "string \<Rightarrow> string \<times> string" where
  "closing [] = ([], [])"
| "closing (c # s) =
     (if c = CHR 0x22 then ([], s)
      else if c = CHR 0x5C then (case closing (drop 1 s) of (u, v) \<Rightarrow> (c # take 1 s @ u, v))
      else (case closing s of (u, v) \<Rightarrow> (c # u, v)))"
  by pat_completeness auto
termination by (relation "measure length") auto

definition hexVal :: "char \<Rightarrow> nat" where
  "hexVal c = (if is_digit c then byte_val c - 48 else byte_val c - 87)"

function unescape :: "string \<Rightarrow> string" where
  "unescape [] = []"
| "unescape (c # s) =
     (if c \<noteq> CHR 0x5C then c # unescape s
      else case s of
        [] \<Rightarrow> []
      | d # r \<Rightarrow>
          if d = CHR ''u'' then
            (if take 3 r = ''202''
             then [CHR 0xE2, CHR 0x80, if r ! 3 = CHR ''8'' then CHR 0xA8 else CHR 0xA9] @ unescape (drop 4 r)
             else char_of (hexVal (r ! 2) * 16 + hexVal (r ! 3)) # unescape (drop 4 r))
          else (if d = CHR ''b'' then CHR 0x08 else if d = CHR ''f'' then CHR 0x0C else if d = CHR ''n'' then CHR 0x0A
                else if d = CHR ''r'' then CHR 0x0D else if d = CHR ''t'' then CHR 0x09 else d) # unescape r)"
  by pat_completeness auto
termination by (relation "measure length") auto

lemma hexDigit_plain:
  assumes "n < 16"
  shows "hexDigit n \<noteq> CHR 0x22" "hexDigit n \<noteq> CHR 0x5C" "hexVal (hexDigit n) = n"
proof -
  have v: "byte_val (hexDigit n) = (if n < 10 then 48 + n else 87 + n)"
    using assms by (simp add: hexDigit_def digit_char_def)
  then show "hexDigit n \<noteq> CHR 0x22" "hexDigit n \<noteq> CHR 0x5C" using assms by (auto split: if_splits)
  show "hexVal (hexDigit n) = n" using v assms by (auto simp: hexVal_def is_digit_def)
qed

definition shortEscape :: "char \<Rightarrow> char" where
  "shortEscape d = (if d = CHR ''b'' then CHR 0x08 else if d = CHR ''f'' then CHR 0x0C else if d = CHR ''n'' then CHR 0x0A
                else if d = CHR ''r'' then CHR 0x0D else if d = CHR ''t'' then CHR 0x09 else d)"

lemma escByte_shape:
  obtains (plain) "escByte c = [c]" "c \<noteq> CHR 0x22" "c \<noteq> CHR 0x5C"
  | (short) d where "escByte c = [CHR 0x5C, d]" "d \<noteq> CHR ''u''" "shortEscape d = c"
  | (hex) i j where "escByte c = [CHR 0x5C, CHR ''u'', CHR ''0'', CHR ''0'', hexDigit i, hexDigit j]"
      "i < 16" "j < 16" "c = char_of (i * 16 + j)"
proof -
  let ?S = "{CHR 0x5C, CHR 0x22, CHR 0x08, CHR 0x0C, CHR 0x0A, CHR 0x0D, CHR 0x09}"
  let ?P = "byte_val c < 32 \<or> c = CHR ''<'' \<or> c = CHR ''>'' \<or> c = CHR ''&''"
  show thesis
  proof (cases "c \<in> ?S")
    case a: True
    have e: "escByte (CHR 0x5C) = [CHR 0x5C, CHR 0x5C]" "escByte (CHR 0x22) = [CHR 0x5C, CHR 0x22]"
      "escByte (CHR 0x08) = [CHR 0x5C, CHR ''b'']" "escByte (CHR 0x0C) = [CHR 0x5C, CHR ''f'']"
      "escByte (CHR 0x0A) = [CHR 0x5C, CHR ''n'']" "escByte (CHR 0x0D) = [CHR 0x5C, CHR ''r'']"
      "escByte (CHR 0x09) = [CHR 0x5C, CHR ''t'']"
      by (simp_all add: escByte_def)
    have v: "shortEscape (CHR 0x5C) = CHR 0x5C" "shortEscape (CHR 0x22) = CHR 0x22" "shortEscape (CHR ''b'') = CHR 0x08"
      "shortEscape (CHR ''f'') = CHR 0x0C" "shortEscape (CHR ''n'') = CHR 0x0A" "shortEscape (CHR ''r'') = CHR 0x0D"
      "shortEscape (CHR ''t'') = CHR 0x09"
      by (simp_all add: shortEscape_def)
    show ?thesis using a short by (elim insertE emptyE) (simp_all add: e v)
  next
    case n: False
    have l: "byte_val c div 16 < 16" by (rule less_mult_imp_div_less) simp
    show ?thesis
    proof (cases ?P)
      case True
      show ?thesis
      proof (rule hex [of "byte_val c div 16" "byte_val c mod 16"])
        show "escByte c = [CHR 0x5C, CHR ''u'', CHR ''0'', CHR ''0'', hexDigit (byte_val c div 16), hexDigit (byte_val c mod 16)]"
          unfolding escByte_def using n True by (simp only: insert_iff empty_iff if_False if_True de_Morgan_disj simp_thms)
      qed (use l in simp_all)
    next
      case False
      show ?thesis
        by (rule plain) (use n False in \<open>simp_all only: escByte_def insert_iff empty_iff if_False if_True de_Morgan_disj simp_thms\<close>)
    qed
  qed
qed

lemma closing_plain: "c \<noteq> CHR 0x22 \<Longrightarrow> c \<noteq> CHR 0x5C \<Longrightarrow> closing (c # s) = (c # fst (closing s), snd (closing s))"
  by (simp add: split_def)

lemma closing_backslash: "closing (CHR 0x5C # d # s) = (CHR 0x5C # d # fst (closing s), snd (closing s))"
  by (simp add: split_def)

lemma closing_quote: "closing (CHR 0x22 # s) = ([], s)"
  by simp

lemma unescape_plain: "c \<noteq> CHR 0x5C \<Longrightarrow> unescape (c # s) = c # unescape s"
  by simp

lemma unescape_short: "d \<noteq> CHR ''u'' \<Longrightarrow> unescape (CHR 0x5C # d # s) = shortEscape d # unescape s"
  by (simp add: shortEscape_def)

lemma unescape_hex: "unescape (CHR 0x5C # CHR ''u'' # CHR ''0'' # CHR ''0'' # x # y # s) = char_of (hexVal x * 16 + hexVal y) # unescape s"
  by (simp add: numeral_2_eq_2 numeral_3_eq_3)

lemma unescape_line: "unescape (CHR 0x5C # CHR ''u'' # CHR ''2'' # CHR ''0'' # CHR ''2'' # x # s) =
  [CHR 0xE2, CHR 0x80, if x = CHR ''8'' then CHR 0xA8 else CHR 0xA9] @ unescape s"
  by (simp add: numeral_2_eq_2 numeral_3_eq_3)

declare closing.simps(2) [simp del] unescape.simps(2) [simp del]

lemma closing_escByte: "closing (escByte c @ x) = (escByte c @ fst (closing x), snd (closing x))"
  by (cases c rule: escByte_shape) (simp_all add: closing_plain closing_backslash hexDigit_plain)

lemma unescape_escByte: "unescape (escByte c @ x) = c # unescape x"
  by (cases c rule: escByte_shape) (simp_all add: unescape_plain unescape_short unescape_hex hexDigit_plain)

lemma closing_jsonEscape: "closing (jsonEscape s @ CHR 0x22 # x) = (jsonEscape s, x)"
  by (induction s rule: jsonEscape.induct) (simp_all add: closing_escByte closing_quote closing_backslash closing_plain)

lemma unescape_jsonEscape: "unescape (jsonEscape s) = s"
  by (induction s rule: jsonEscape.induct) (simp_all add: unescape_escByte unescape_escByte [where x = "[]", simplified] unescape_line)

lemma jsonQuote_prefix_free:
  assumes "jsonQuote s @ x = jsonQuote t @ y"
  shows "jsonText s = jsonText t \<and> x = y"
proof -
  have "closing (jsonEscape (jsonText s) @ CHR 0x22 # x) = closing (jsonEscape (jsonText t) @ CHR 0x22 # y)"
    using assms by (simp add: jsonQuote_def)
  then have "jsonEscape (jsonText s) = jsonEscape (jsonText t) \<and> x = y" by (simp only: closing_jsonEscape prod.inject)
  then show ?thesis using unescape_jsonEscape by metis
qed

lemma jsonQuote_shape: "jsonQuote s @ x = CHR 0x22 # jsonEscape (jsonText s) @ CHR 0x22 # x"
  by (simp add: jsonQuote_def)

lemma jsonQuotes_prefix_free:
  assumes "join_with '','' (map jsonQuote xs) @ '']'' @ x = join_with '','' (map jsonQuote ys) @ '']'' @ y"
  shows "map jsonText xs = map jsonText ys \<and> x = y"
  using assms
proof (induction xs arbitrary: ys)
  case Nil
  then show ?case by (cases ys; cases "tl ys") (auto simp: jsonQuote_def)
next
  case (Cons a xs)
  let ?r = "\<lambda>zs x. if zs = [] then '']'' @ x else '','' @ join_with '','' (map jsonQuote zs) @ '']'' @ x"
  have split: "join_with '','' (map jsonQuote (z # zs)) @ '']'' @ x = jsonQuote z @ ?r zs x" for z zs x
    by (cases zs) simp_all
  obtain b ys' where ys: "ys = b # ys'" using Cons.prems by (cases ys; cases xs) (auto simp: jsonQuote_def)
  have "jsonQuote a @ ?r xs x = jsonQuote b @ ?r ys' y" using Cons.prems unfolding ys split .
  from jsonQuote_prefix_free [OF this] have ab: "jsonText a = jsonText b" and r: "?r xs x = ?r ys' y" by blast+
  show ?case
  proof (cases "xs = []")
    case True
    then show ?thesis using r ab ys by (auto split: if_splits)
  next
    case False
    then have "ys' \<noteq> []" "join_with '','' (map jsonQuote xs) @ '']'' @ x = join_with '','' (map jsonQuote ys') @ '']'' @ y"
      using r by (auto split: if_splits)
    then show ?thesis using Cons.IH [of ys'] ab ys by simp
  qed
qed

lemma jsonStrings_prefix_free:
  assumes "jsonStrings xs @ x = jsonStrings ys @ y"
  shows "map_option (map jsonText) xs = map_option (map jsonText) ys \<and> x = y"
proof (cases xs; cases ys)
  fix us vs
  assume e: "xs = Some us" "ys = Some vs"
  then have "join_with '','' (map jsonQuote us) @ '']'' @ x = join_with '','' (map jsonQuote vs) @ '']'' @ y"
    using assms by (simp add: jsonStrings_def)
  from jsonQuotes_prefix_free [OF this] e show ?thesis by simp
qed (use assms in \<open>auto simp: jsonStrings_def\<close>)

section \<open>Valid strings\<close>

definition validUTF8 :: "string \<Rightarrow> bool" where
  "validUTF8 s \<longleftrightarrow> jsonText s = s"

lemma json_time: "jsonText (FormatNanoZone t off) = FormatNanoZone t off"
proof (rule jsonText_ascii)
  have "timeByte c \<Longrightarrow> inRange 0 127 c" for c by (auto simp: timeByte_def inRange_def is_digit_def)
  then show "list_all (inRange 0 127) (FormatNanoZone t off)"
    using FormatNanoZone_bytes [of t off] by (auto simp: list_all_iff)
qed

end
