(* ===== verification/License.thy ===== *)
theory License
  imports Hot_Reload Artifact_Codec Go_JSON "HOL-Library.Multiset"
begin

text \<open>
  License manifests: canonical form, verification and grace period (\<open>internal/license/manifest.go\<close>,
  \<open>verifier.go\<close>), the feature flag (\<open>feature_flag.go\<close>), the hot reload (\<open>watcher.go\<close>) and the
  signing tool (\<open>internal/licensegen/run.go\<close>).

  Parameters: the ECDSA signature and its check, the PEM and X.509 readers of keys, the file
  system, and the reader of a manifest file. The canonical form is written with
  the JSON writer of \<open>Go_JSON\<close>.
\<close>

section \<open>Manifests\<close>

text \<open>The expiry keeps the zone it was written in.\<close>

record manifest =
  lm_license_id :: string
  lm_customer_id :: string
  lm_tenant_id :: string
  lm_tier :: string
  lm_expiry :: instant
  lm_zone :: int
  lm_features :: "string list option"
  lm_signature :: string

text \<open>\<open>Time.MarshalJSON\<close> refuses years without four digits and offsets of a day or more.\<close>

definition timeJSON :: "instant \<Rightarrow> int \<Rightarrow> string option" where
  "timeJSON t off =
     (if \<not> fourDigitYear (t + off * nsPerSec) \<or> \<bar>off\<bar> div 3600 \<ge> 24 then None
      else Some (jsonQuote (FormatNanoZone t off)))"

definition sortedKeysJSON :: "(string \<times> string) list \<Rightarrow> string" where
  "sortedKeysJSON kvs = ''{'' @ join_with '','' (map (\<lambda>(k, v). jsonQuote k @ '':'' @ v) (sort_key fst kvs)) @ ''}''"

text \<open>
  The canonical form: no signature, features sorted, and the keys of the marshalled and
  unmarshalled struct in order.
\<close>

definition canonicalJSON :: "manifest \<Rightarrow> string option" where
  "canonicalJSON m =
     (case timeJSON (lm_expiry m) (lm_zone m) of
        None \<Rightarrow> None
      | Some expiry \<Rightarrow>
          Some (sortedKeysJSON
            [(''license_id'', jsonQuote (jsonText (lm_license_id m))), (''customer_id'', jsonQuote (jsonText (lm_customer_id m))),
             (''tenant_id'', jsonQuote (jsonText (lm_tenant_id m))), (''tier'', jsonQuote (jsonText (lm_tier m))),
             (''expiry_utc'', expiry),
             (''allowed_features'', jsonStrings (map_option (map jsonText) (map_option sort (lm_features m))))]))"

section \<open>Verification\<close>

definition gracePeriod :: int where "gracePeriod = 7 * 24 * 3600 * nsPerSec"

datatype license_error =
    ParseManifest | CanonicalizeFailed | DecodeSignature | LoadKey | BadSignature | ExpiredBeyondGrace manifest

record 'pk license_env =
  le_decode :: "string \<Rightarrow> manifest option"
  le_key :: "'pk option"
  le_check :: "'pk \<Rightarrow> nat list \<Rightarrow> nat list \<Rightarrow> bool"

definition beyondGrace :: "instant \<Rightarrow> manifest \<Rightarrow> bool" where
  "beyondGrace now m \<longleftrightarrow> now > lm_expiry m \<and> now - lm_expiry m > gracePeriod"

definition VerifyLicense :: "'pk license_env \<Rightarrow> instant \<Rightarrow> string \<Rightarrow> license_error + manifest" where
  "VerifyLicense env now bytes =
     (case le_decode env bytes of
        None \<Rightarrow> Inl ParseManifest
      | Some m \<Rightarrow>
         (case canonicalJSON m of
            None \<Rightarrow> Inl CanonicalizeFailed
          | Some canonical \<Rightarrow>
             (case b64decode (lm_signature m) of
                None \<Rightarrow> Inl DecodeSignature
              | Some sig \<Rightarrow>
                 (case le_key env of
                    None \<Rightarrow> Inl LoadKey
                  | Some pk \<Rightarrow>
                      if \<not> le_check env pk (Sum256 canonical) sig then Inl BadSignature
                      else if beyondGrace now m then Inl (ExpiredBeyondGrace m)
                      else Inr m))))"

definition GracePeriodRemaining :: "instant \<Rightarrow> manifest \<Rightarrow> int" where
  "GracePeriodRemaining now m =
     (if \<not> now > lm_expiry m then 0
      else if now - lm_expiry m \<ge> gracePeriod then 0
      else gracePeriod - (now - lm_expiry m))"

definition IsFeatureAllowed :: "manifest option \<Rightarrow> instant \<Rightarrow> string \<Rightarrow> bool" where
  "IsFeatureAllowed current now feature =
     (case current of
        None \<Rightarrow> False
      | Some m \<Rightarrow>
          if beyondGrace now m then False
          else (case lm_features m of None \<Rightarrow> False | Some fs \<Rightarrow> list_ex (\<lambda>f. f = feature) fs))"

section \<open>Hot reload\<close>

text \<open>A reload reads the file (\<open>None\<close> when it cannot) and keeps the manifest when anything fails.\<close>

definition reloadLicense :: "'pk license_env \<Rightarrow> instant \<Rightarrow> string option \<Rightarrow> manifest option \<Rightarrow> manifest option" where
  "reloadLicense env now file current =
     (case file of
        None \<Rightarrow> current
      | Some bytes \<Rightarrow> (case VerifyLicense env now bytes of Inl e \<Rightarrow> current | Inr m \<Rightarrow> Some m))"

definition watchTurn :: "'pk license_env \<Rightarrow> instant \<Rightarrow> string option \<Rightarrow> watch_event \<Rightarrow> manifest option \<Rightarrow> manifest option" where
  "watchTurn env now file ev current =
     (case ev of
        Tick \<Rightarrow> reloadLicense env now file current
      | FileEvent ops \<Rightarrow> if interesting ops then reloadLicense env now file current else current
      | WatchError \<Rightarrow> current)"

text \<open>What the license file holds at a time, and the contract of the reload.\<close>

definition loadLicense :: "'pk license_env \<Rightarrow> instant \<times> string option \<Rightarrow> manifest option" where
  "loadLicense env e = (case snd e of None \<Rightarrow> None | Some bytes \<Rightarrow> (case VerifyLicense env (fst e) bytes of Inl _ \<Rightarrow> None | Inr m \<Rightarrow> Some m))"

interpretation license_file: hot_reload "loadLicense env" "\<lambda>e. reloadLicense env (fst e) (snd e)" for env
  by unfold_locales (auto simp: loadLicense_def reloadLicense_def split: option.splits sum.splits)

lemma watchTurn_reload: "watchTurn env now file ev = reloadTurn (\<lambda>e. reloadLicense env (fst e) (snd e)) ((now, file), ev)"
  by (auto simp: watchTurn_def reloadTurn_def split: watch_event.split)

inductive license_history :: "'pk license_env \<Rightarrow> instant \<Rightarrow> manifest option \<Rightarrow> bool" for env where
  boot: "license_history env now None"
| boot_verified: "VerifyLicense env now bytes = Inr m \<Longrightarrow> license_history env now (Some m)"
| turn: "license_history env now current \<Longrightarrow> now \<le> now' \<Longrightarrow> license_history env now' (watchTurn env now' file ev current)"

section \<open>Signing\<close>

record gen_flags =
  gf_customer :: string
  gf_tenant :: string
  gf_tier :: string
  gf_expiry :: string
  gf_features :: string
  gf_key_path :: string
  gf_out :: string

datatype gen_error =
    BadFlags | MissingFlags "string list" | BadTier | BadExpiry | ExpiryPast | EmptyFeature | ReadKey | LoadPrivateKey
  | GenCanonicalize | SignFailed | WriteFailed

definition missingFlags :: "gen_flags \<Rightarrow> string list" where
  "missingFlags f = map fst (filter (\<lambda>(_, v). v = [])
     [(''-customer-id'', gf_customer f), (''-tenant-id'', gf_tenant f), (''-tier'', gf_tier f), (''-expiry-utc'', gf_expiry f),
      (''-allowed-features'', gf_features f), (''-private-key-path'', gf_key_path f), (''-out'', gf_out f)])"

definition validTiers :: "string set" where "validTiers = {''commercial'', ''enterprise''}"

definition dateText :: "instant \<Rightarrow> string" where
  "dateText t = (case dateOf t of (y, m, k) \<Rightarrow> appendInt y 4 @ appendInt m 2 @ appendInt k 2)"

record 'sk gen_env =
  ge_read :: "string \<Rightarrow> string option"
  ge_load :: "string \<Rightarrow> 'sk option"
  ge_sign :: "'sk \<Rightarrow> nat list \<Rightarrow> nat list option"
  ge_write :: "string \<Rightarrow> manifest \<Rightarrow> bool"

definition unsignedManifest :: "gen_flags \<Rightarrow> instant \<Rightarrow> int \<Rightarrow> manifest" where
  "unsignedManifest f expiry zone =
     \<lparr>lm_license_id = ''lic-'' @ gf_customer f @ ''-'' @ dateText (expiry + zone * nsPerSec),
      lm_customer_id = gf_customer f, lm_tenant_id = gf_tenant f, lm_tier = gf_tier f,
      lm_expiry = expiry, lm_zone = 0, lm_features = Some (map TrimSpace (splitOn (CHR '','') (gf_features f))),
      lm_signature = []\<rparr>"

text \<open>The tool after flag parsing: the manifest it wrote to the output file, or why it did not.\<close>

definition RunLicenseGen :: "'sk gen_env \<Rightarrow> instant \<Rightarrow> gen_flags option \<Rightarrow> gen_error + manifest" where
  "RunLicenseGen env now flags =
     (case flags of
        None \<Rightarrow> Inl BadFlags
      | Some f \<Rightarrow>
          if missingFlags f \<noteq> [] then Inl (MissingFlags (missingFlags f))
          else if gf_tier f \<notin> validTiers then Inl BadTier
          else (case parseTime (gf_expiry f) of
             None \<Rightarrow> Inl BadExpiry
           | Some (expiry, zone) \<Rightarrow>
               if \<not> expiry > now then Inl ExpiryPast
               else
                 let features = map TrimSpace (splitOn (CHR '','') (gf_features f)) in
                 if [] \<in> set features then Inl EmptyFeature
                 else (case ge_read env (gf_key_path f) of
                    None \<Rightarrow> Inl ReadKey
                  | Some pem \<Rightarrow>
                     (case ge_load env pem of
                        None \<Rightarrow> Inl LoadPrivateKey
                      | Some sk \<Rightarrow>
                         let m = unsignedManifest f expiry zone in
                         (case canonicalJSON m of
                            None \<Rightarrow> Inl GenCanonicalize
                          | Some canonical \<Rightarrow>
                             (case ge_sign env sk (Sum256 canonical) of
                                None \<Rightarrow> Inl SignFailed
                              | Some sig \<Rightarrow>
                                  let signed = m\<lparr>lm_signature := b64encode sig\<rparr> in
                                  if ge_write env (gf_out f) signed then Inr signed else Inl WriteFailed))))))"

section \<open>The signature covers every field\<close>

text \<open>
  The strings that \<open>json.Unmarshal\<close> answers are valid UTF-8, and the instants that \<open>time.Parse\<close>
  answers have an offset of whole minutes, less than a day.
\<close>

definition decoded :: "manifest \<Rightarrow> bool" where
  "decoded m \<longleftrightarrow> validUTF8 (lm_license_id m) \<and> validUTF8 (lm_customer_id m) \<and> validUTF8 (lm_tenant_id m) \<and>
     validUTF8 (lm_tier m) \<and> (\<forall>fs. lm_features m = Some fs \<longrightarrow> list_all validUTF8 fs) \<and>
     lm_zone m mod 60 = 0 \<and> \<bar>lm_zone m\<bar> < 86400"

lemma canonical_text:
  assumes "canonicalJSON m = Some w"
  shows "w = ''{'' @ jsonQuote ''allowed_features'' @ '':'' @ jsonStrings (map_option (map jsonText) (map_option sort (lm_features m)))
    @ '','' @ jsonQuote ''customer_id'' @ '':'' @ jsonQuote (jsonText (lm_customer_id m))
    @ '','' @ jsonQuote ''expiry_utc'' @ '':'' @ jsonQuote (FormatNanoZone (lm_expiry m) (lm_zone m))
    @ '','' @ jsonQuote ''license_id'' @ '':'' @ jsonQuote (jsonText (lm_license_id m))
    @ '','' @ jsonQuote ''tenant_id'' @ '':'' @ jsonQuote (jsonText (lm_tenant_id m))
    @ '','' @ jsonQuote ''tier'' @ '':'' @ jsonQuote (jsonText (lm_tier m)) @ ''}''"
    and "fourDigitYear (lm_expiry m + lm_zone m * nsPerSec)"
  using assms by (auto simp: canonicalJSON_def sortedKeysJSON_def timeJSON_def split: option.splits if_splits)

lemma six_fields_inj:
  assumes "p @ jsonStrings f @ q @ jsonQuote a @ r @ jsonQuote b @ s @ jsonQuote c @ t @ jsonQuote d @ u @ jsonQuote e @ v =
    p @ jsonStrings f' @ q @ jsonQuote a' @ r @ jsonQuote b' @ s @ jsonQuote c' @ t @ jsonQuote d' @ u @ jsonQuote e' @ v"
  shows "map_option (map jsonText) f = map_option (map jsonText) f'" "jsonText a = jsonText a'" "jsonText b = jsonText b'"
    "jsonText c = jsonText c'" "jsonText d = jsonText d'" "jsonText e = jsonText e'"
proof -
  note drop = same_append_eq [THEN iffD1] and q = jsonQuote_prefix_free [THEN conjunct1] jsonQuote_prefix_free [THEN conjunct2]
  note f = jsonStrings_prefix_free [OF drop [OF assms]]
  show "map_option (map jsonText) f = map_option (map jsonText) f'" using f by blast
  note a = q [OF drop [OF conjunct2 [OF f]]]
  note b = q [OF drop [OF a(2)]]
  note c = q [OF drop [OF b(2)]]
  note d = q [OF drop [OF c(2)]]
  note e = q [OF drop [OF d(2)]]
  show "jsonText a = jsonText a'" "jsonText b = jsonText b'" "jsonText c = jsonText c'" "jsonText d = jsonText d'"
    "jsonText e = jsonText e'" by (rule a b c d e)+
qed

lemma sort_eq_mset: "sort xs = sort ys \<Longrightarrow> mset xs = mset ys"
  by (metis mset_sort)

lemma sorted_features: "list_all validUTF8 fs \<Longrightarrow> map jsonText (sort fs) = sort fs"
  by (auto simp: list_all_iff validUTF8_def intro!: map_idI)

text \<open>
  A signature stands for one manifest: manifests read from files that have the same canonical form
  agree in every field but the signature itself, the expiry with its zone included, and in the
  features up to their order. So no field can be edited under a valid signature, short of a
  collision of SHA-256 or a forged signature.
\<close>
theorem canonical_injective:
  assumes "decoded m" "decoded m'" "canonicalJSON m = Some w" "canonicalJSON m' = Some w"
  shows "lm_license_id m = lm_license_id m' \<and> lm_customer_id m = lm_customer_id m' \<and> lm_tenant_id m = lm_tenant_id m' \<and>
    lm_tier m = lm_tier m' \<and> lm_expiry m = lm_expiry m' \<and> lm_zone m = lm_zone m' \<and>
    map_option mset (lm_features m) = map_option mset (lm_features m')"
proof -
  let ?fs = "\<lambda>m. map_option (map jsonText) (map_option sort (lm_features m))"
  note t = canonical_text [OF assms(3)] and t' = canonical_text [OF assms(4)]
  note eqs = six_fields_inj
    [where p = "''{'' @ jsonQuote ''allowed_features'' @ '':''" and q = "'','' @ jsonQuote ''customer_id'' @ '':''"
       and r = "'','' @ jsonQuote ''expiry_utc'' @ '':''" and s = "'','' @ jsonQuote ''license_id'' @ '':''"
       and t = "'','' @ jsonQuote ''tenant_id'' @ '':''" and u = "'','' @ jsonQuote ''tier'' @ '':''" and v = "''}''",
     unfolded append_assoc, OF t(1) [unfolded t'(1), symmetric]]
  have time: "FormatNanoZone (lm_expiry m') (lm_zone m') = FormatNanoZone (lm_expiry m) (lm_zone m)"
    using eqs(3) by (simp only: json_time)
  have "parseTime (FormatNanoZone (lm_expiry m) (lm_zone m)) = Some (lm_expiry m, lm_zone m)"
    "parseTime (FormatNanoZone (lm_expiry m') (lm_zone m')) = Some (lm_expiry m', lm_zone m')"
    using assms(1,2) t(2) t'(2) by (auto simp: decoded_def intro!: nano_roundtrip)
  then have "lm_expiry m = lm_expiry m' \<and> lm_zone m = lm_zone m'" unfolding time by simp
  moreover have "map_option mset (lm_features m) = map_option mset (lm_features m')"
    using eqs(1) assms(1,2)
    by (cases "lm_features m"; cases "lm_features m'")
      (auto simp: decoded_def sorted_features dest: sort_eq_mset)
  ultimately show ?thesis using eqs(2,4,5,6) assms(1,2) by (simp add: decoded_def validUTF8_def)
qed

definition license_a :: manifest where
  "license_a = \<lparr>lm_license_id = ''lic-acme'', lm_customer_id = ''acme'', lm_tenant_id = ''t1'', lm_tier = ''enterprise'',
     lm_expiry = 0, lm_zone = 0, lm_features = Some [''sso'', ''mcp''], lm_signature = ''AAAA''\<rparr>"

theorem canonical_injective_witness:
  "\<exists>w. decoded license_a \<and> decoded (license_a\<lparr>lm_features := Some [''mcp'', ''sso''], lm_signature := []\<rparr>) \<and>
     canonicalJSON license_a = Some w \<and> canonicalJSON (license_a\<lparr>lm_features := Some [''mcp'', ''sso''], lm_signature := []\<rparr>) = Some w \<and>
     mset [''sso'', ''mcp''] = mset [''mcp'', ''sso'']"
proof -
  let ?b = "license_a\<lparr>lm_features := Some [''mcp'', ''sso''], lm_signature := []\<rparr>"
  have d: "decoded license_a" "decoded ?b"
    by (simp_all add: decoded_def license_a_def validUTF8_def jsonText_ascii inRange_def)
  have "fourDigitYear 0" by code_simp
  then obtain w where w: "canonicalJSON license_a = Some w" by (auto simp: canonicalJSON_def timeJSON_def license_a_def)
  moreover have "canonicalJSON ?b = canonicalJSON license_a" unfolding canonicalJSON_def license_a_def by (simp cong: option.case_cong)
  ultimately have "canonicalJSON ?b = Some w" by simp
  with canonical_injective [OF d w this] d w show ?thesis by (auto simp: license_a_def)
qed

section \<open>Features need a verified licence\<close>

definition verifiedBy :: "'pk license_env \<Rightarrow> manifest \<Rightarrow> bool" where
  "verifiedBy env m \<longleftrightarrow> (\<exists>canonical sig pk. canonicalJSON m = Some canonical \<and> b64decode (lm_signature m) = Some sig \<and>
     le_key env = Some pk \<and> le_check env pk (Sum256 canonical) sig)"

lemma VerifyLicense_iff:
  "VerifyLicense env now bytes = Inr m \<longleftrightarrow> le_decode env bytes = Some m \<and> verifiedBy env m \<and> \<not> beyondGrace now m"
  by (auto simp: VerifyLicense_def verifiedBy_def split: option.splits if_splits)

lemma watchTurn_source:
  "watchTurn env now file ev current = Some m \<Longrightarrow> current = Some m \<or> (\<exists>bytes. VerifyLicense env now bytes = Inr m)"
  using license_file.turn_cases [of env "((now, file), ev)" current]
  by (auto simp: watchTurn_reload loadLicense_def split: option.splits sum.splits)

text \<open>
  C32 Whatever the file watcher sees, in any order of ticks, file events, unreadable and unverifiable
  files and time steps, a gated feature is open only while the process holds a manifest that lists
  it, whose signature was checked at some earlier moment, and that is at most seven days past its
  expiry at the moment of the question.
\<close>
theorem feature_requires_license:
  assumes "license_history env now current" "IsFeatureAllowed current ask feature"
  shows "\<exists>m bytes fs. current = Some m \<and> le_decode env bytes = Some m \<and> verifiedBy env m \<and>
    (\<exists>t \<le> now. \<not> beyondGrace t m) \<and> lm_features m = Some fs \<and> feature \<in> set fs \<and> ask - lm_expiry m \<le> gracePeriod"
proof -
  have "current = Some m \<Longrightarrow> \<exists>t bytes. t \<le> now \<and> VerifyLicense env t bytes = Inr m" for m
    using assms(1)
  proof (induction arbitrary: m rule: license_history.induct)
    case (turn now current now' fl ev)
    then show ?case using watchTurn_source [OF turn.prems] by (metis order_trans order_refl)
  qed auto
  then show ?thesis
    using assms(2) by (fastforce simp: IsFeatureAllowed_def VerifyLicense_iff beyondGrace_def gracePeriod_def nsPerSec_def list_ex_iff
      split: option.splits if_splits)
qed

text \<open>The remaining grace is positive exactly strictly inside the period; at its last instant the licence still verifies.\<close>

lemma grace_remaining: "0 \<le> GracePeriodRemaining now m \<and> GracePeriodRemaining now m \<le> gracePeriod \<and>
  (GracePeriodRemaining now m > 0 \<longrightarrow> \<not> beyondGrace now m)"
  by (auto simp: GracePeriodRemaining_def beyondGrace_def gracePeriod_def nsPerSec_def)

lemma b64_roundtrip: "list_all (\<lambda>b. b < 256) bs \<Longrightarrow> b64decode (b64encode bs) = Some bs"
proof -
  assume "list_all (\<lambda>b. b < 256) bs"
  moreover have "filter (\<lambda>c. c \<noteq> CHR 0x0A \<and> c \<noteq> CHR 0x0D) (b64encode bs) = b64encode bs"
    using b64_chars_clean [of bs] by (auto simp: filter_id_conv)
  ultimately show ?thesis by (simp add: b64decode_def b64_quanta_encode)
qed

lemma canonical_signature: "canonicalJSON (u\<lparr>lm_signature := s\<rparr>) = canonicalJSON u"
  by (simp add: canonicalJSON_def cong: option.case_cong)

lemma RunLicenseGen_cases:
  assumes "RunLicenseGen genv now (Some f) = Inr m"
  obtains pem sk expiry zone canonical sig where
    "ge_read genv (gf_key_path f) = Some pem" "ge_load genv pem = Some sk" "gf_tier f \<in> validTiers" "now < expiry"
    "canonicalJSON (unsignedManifest f expiry zone) = Some canonical" "ge_sign genv sk (Sum256 canonical) = Some sig"
    "m = unsignedManifest f expiry zone\<lparr>lm_signature := b64encode sig\<rparr>"
  using assms that by (auto simp: RunLicenseGen_def Let_def split: if_splits option.splits)

text \<open>
  A licence that the signing tool wrote verifies: if the key of the verifier accepts what the key of
  the tool signs, and the file decodes to what was written, the verifier answers that manifest until
  seven days after the expiry, and opens every feature that was asked for, the tier and the tenant
  being the ones of the flags.
\<close>
theorem license_roundtrip:
  assumes "RunLicenseGen genv now (Some f) = Inr m"
    and "le_decode env bytes = Some m" "le_key env = Some pk"
    and "\<And>pem sk digest sig. ge_read genv (gf_key_path f) = Some pem \<Longrightarrow> ge_load genv pem = Some sk \<Longrightarrow>
      ge_sign genv sk digest = Some sig \<Longrightarrow> list_all (\<lambda>b. b < 256) sig \<and> le_check env pk digest sig"
    and "later - lm_expiry m \<le> gracePeriod"
  shows "VerifyLicense env later bytes = Inr m \<and> lm_tier m = gf_tier f \<and> lm_tenant_id m = gf_tenant f \<and>
    now < lm_expiry m \<and> gf_tier f \<in> validTiers \<and>
    (\<forall>feature \<in> set (map TrimSpace (splitOn (CHR '','') (gf_features f))). IsFeatureAllowed (Some m) later feature)"
proof -
  from RunLicenseGen_cases [OF assms(1)] obtain pem sk expiry zone canonical sig where
    k: "ge_read genv (gf_key_path f) = Some pem" "ge_load genv pem = Some sk" "gf_tier f \<in> validTiers" "now < expiry"
    and s: "canonicalJSON (unsignedManifest f expiry zone) = Some canonical" "ge_sign genv sk (Sum256 canonical) = Some sig"
    and m: "m = unsignedManifest f expiry zone\<lparr>lm_signature := b64encode sig\<rparr>" .
  have v: "list_all (\<lambda>b. b < 256) sig" "le_check env pk (Sum256 canonical) sig" using assms(4) [OF k(1,2) s(2)] by auto
  have "verifiedBy env m"
    unfolding verifiedBy_def m using s(1) assms(3) v by (simp add: canonical_signature b64_roundtrip)
  moreover have "\<not> beyondGrace later m" using assms(5) by (simp add: beyondGrace_def)
  ultimately show ?thesis
    using assms(2) k by (auto simp: VerifyLicense_iff IsFeatureAllowed_def list_ex_iff m unsignedManifest_def)
qed

text \<open>A signature scheme whose signature is the digest itself, and a file system that holds the last manifest.\<close>

definition toy_gen :: "unit gen_env" where
  "toy_gen = \<lparr>ge_read = (\<lambda>_. Some ''key''), ge_load = (\<lambda>_. Some ()), ge_sign = (\<lambda>_ d. Some (map (\<lambda>b. b mod 256) d)),
     ge_write = (\<lambda>_ _. True)\<rparr>"

definition toy_env :: "manifest \<Rightarrow> unit license_env" where
  "toy_env m = \<lparr>le_decode = (\<lambda>_. Some m), le_key = Some (), le_check = (\<lambda>_ d s. s = map (\<lambda>b. b mod 256) d)\<rparr>"

definition toy_flags :: gen_flags where
  "toy_flags = \<lparr>gf_customer = ''acme'', gf_tenant = ''t1'', gf_tier = ''enterprise'', gf_expiry = ''2030-01-02T03:04:05Z'',
     gf_features = ''sso, mcp'', gf_key_path = ''k.pem'', gf_out = ''out.json''\<rparr>"

lemma toy_expiry: "parseTime ''2030-01-02T03:04:05Z'' = Some (1893553445000000000, 0)"
  by code_simp

lemma toy_gen_runs: "\<exists>m. RunLicenseGen toy_gen 0 (Some toy_flags) = Inr m \<and> lm_expiry m = 1893553445000000000"
proof -
  have "fourDigitYear 1893553445000000000" by code_simp
  moreover have "map TrimSpace (splitOn (CHR '','') ''sso, mcp'') = [''sso'', ''mcp'']" by code_simp
  ultimately show ?thesis
    using toy_expiry by (simp add: RunLicenseGen_def toy_flags_def missingFlags_def validTiers_def toy_gen_def Let_def canonicalJSON_def
        unsignedManifest_def timeJSON_def)
qed

theorem license_roundtrip_witness:
  "\<exists>m. RunLicenseGen toy_gen 0 (Some toy_flags) = Inr m \<and> VerifyLicense (toy_env m) (lm_expiry m) ''file'' = Inr m \<and>
     IsFeatureAllowed (Some m) (lm_expiry m) ''mcp''"
proof -
  obtain m where m: "RunLicenseGen toy_gen 0 (Some toy_flags) = Inr m" using toy_gen_runs by blast
  have "VerifyLicense (toy_env m) (lm_expiry m) ''file'' = Inr m \<and> lm_tier m = gf_tier toy_flags \<and> lm_tenant_id m = gf_tenant toy_flags \<and>
    0 < lm_expiry m \<and> gf_tier toy_flags \<in> validTiers \<and>
    (\<forall>feature \<in> set (map TrimSpace (splitOn (CHR '','') (gf_features toy_flags))). IsFeatureAllowed (Some m) (lm_expiry m) feature)"
    by (rule license_roundtrip [OF m, where pk = "()"])
      (auto simp: toy_env_def toy_gen_def list_all_iff gracePeriod_def nsPerSec_def)
  moreover have "''mcp'' \<in> set (map TrimSpace (splitOn (CHR '','') (gf_features toy_flags)))"
    unfolding toy_flags_def gen_flags.simps by code_simp
  ultimately show ?thesis using m by blast
qed

theorem feature_requires_license_witness:
  "\<exists>m fs. license_history (toy_env m) 5 (watchTurn (toy_env m) 5 (Some ''file'') Tick None) \<and>
     watchTurn (toy_env m) 5 (Some ''file'') Tick None = Some m \<and>
     verifiedBy (toy_env m) m \<and> lm_features m = Some fs \<and> ''mcp'' \<in> set fs"
proof -
  have f: "fourDigitYear 0" by code_simp
  define m where "m = license_a\<lparr>lm_signature := b64encode (map (\<lambda>b. b mod 256) (Sum256 (the (canonicalJSON license_a))))\<rparr>"
  have "canonicalJSON license_a \<noteq> None" using f by (auto simp: canonicalJSON_def timeJSON_def license_a_def)
  then have "verifiedBy (toy_env m) m"
    unfolding m_def verifiedBy_def toy_env_def by (auto simp: canonical_signature b64_roundtrip list_all_iff)
  then have v: "VerifyLicense (toy_env m) 5 ''file'' = Inr m"
    unfolding VerifyLicense_iff
    by (simp add: toy_env_def beyondGrace_def m_def license_a_def gracePeriod_def nsPerSec_def)
  then have t: "watchTurn (toy_env m) 5 (Some ''file'') Tick None = Some m" by (simp add: watchTurn_def reloadLicense_def)
  have h: "license_history (toy_env m) 5 (watchTurn (toy_env m) 5 (Some ''file'') Tick None)"
    by (rule license_history.turn [OF license_history.boot [of _ 0]]) simp
  have "IsFeatureAllowed (Some m) 5 ''mcp''"
    by (simp add: IsFeatureAllowed_def beyondGrace_def m_def license_a_def gracePeriod_def nsPerSec_def)
  with t have "IsFeatureAllowed (watchTurn (toy_env m) 5 (Some ''file'') Tick None) 5 ''mcp''" by simp
  from feature_requires_license [OF h this] t
  have "\<exists>fs. verifiedBy (toy_env m) m \<and> lm_features m = Some fs \<and> ''mcp'' \<in> set fs" by auto
  with h t show ?thesis by blast
qed

end
