(* ===== verification/Tenant_Registry.thy ===== *)
theory Tenant_Registry
  imports Tenant_Session Go_Time
begin

text \<open>
  The tenant registry: rows of \<open>public.tenants\<close> (\<open>internal/tenant/repo.go\<close>), the lifecycle
  transitions (\<open>lifecycle.go\<close>) and the move of a tenant from pool A to pool B
  (\<open>pool_b_migrate.go\<close>).

  The registry is the table as rows in insertion order, the system audit log and the tenant
  schemas. A statement has the effect that its SQL states, with the constraints that
  \<open>V0041__public_tenants.sql\<close> declares; that a statement can fail is a parameter, which names the
  call and gives its error. The shell tools and the counts they are checked with are parameters.
\<close>

section \<open>Rows\<close>

record tenant_row =
  tn_id :: string
  tn_org :: string
  tn_state :: string
  tn_pool :: string
  tn_dsn :: "string option"
  tn_onboarded :: instant
  tn_updated :: instant
  tn_last_audit :: "instant option"

record audit_row =
  au_actor :: string
  au_target :: string
  au_event :: string
  au_payload :: "(string \<times> string list) list"

record registry =
  rg_tenants :: "tenant_row list"
  rg_audit :: "audit_row list"
  rg_schemas :: "string list"

datatype tenant_error =
    ErrTenantNotFound | ConfirmRequired | BadPool | BadOption string | DbError string | ToolError string
  | RowCountMismatch string int int | NoTables

type_synonym faults = "string \<Rightarrow> string option"

definition lifecycleStates :: "string list" where
  "lifecycleStates = [''active'', ''suspended'', ''wind_down'', ''deleted'']"

definition updateWhere :: "(tenant_row \<Rightarrow> bool) \<Rightarrow> (tenant_row \<Rightarrow> tenant_row) \<Rightarrow> registry \<Rightarrow> registry" where
  "updateWhere P f rg = rg\<lparr>rg_tenants := map (\<lambda>t. if P t then f t else t) (rg_tenants rg)\<rparr>"

definition matches :: "(tenant_row \<Rightarrow> bool) \<Rightarrow> registry \<Rightarrow> bool" where
  "matches P rg \<longleftrightarrow> list_ex P (rg_tenants rg)"

section \<open>Repository\<close>

text \<open>The lookup function of \<open>V0044\<close>: active and suspended tenants only.\<close>

definition ByWorkOSOrgID :: "faults \<Rightarrow> string \<Rightarrow> registry \<Rightarrow> tenant_error + string" where
  "ByWorkOSOrgID fault org rg =
     (case fault ''lookup'' of
        Some e \<Rightarrow> Inl (DbError e)
      | None \<Rightarrow>
         (case List.find (\<lambda>t. tn_org t = org \<and> tn_state t \<in> {''active'', ''suspended''}) (rg_tenants rg) of
            None \<Rightarrow> Inl ErrTenantNotFound
          | Some t \<Rightarrow> Inr (tn_id t)))"

text \<open>
  \<open>INSERT ... ON CONFLICT (workos_org_id) DO NOTHING\<close>: a known organization is left as it is, a
  known id or a value outside the constraints is an error.
\<close>

definition Create :: "faults \<Rightarrow> instant \<Rightarrow> instant option \<Rightarrow> tenant_row \<Rightarrow> registry \<Rightarrow> (tenant_error + unit) \<times> registry" where
  "Create fault now onboarded t rg =
     (let st = (if tn_state t = [] then ''active'' else tn_state t);
          pl = (if tn_pool t = [] then ''A'' else tn_pool t) in
      case fault ''create'' of
        Some e \<Rightarrow> (Inl (DbError e), rg)
      | None \<Rightarrow>
          if st \<notin> set lifecycleStates \<or> pl \<notin> {''A'', ''B''} \<or> \<not> ValidateWorkOSOrgID (tn_org t)
          then (Inl (DbError ''check constraint''), rg)
          else if matches (\<lambda>u. tn_org u = tn_org t) rg then (Inr (), rg)
          else if matches (\<lambda>u. tn_id u = tn_id t) rg then (Inl (DbError ''duplicate key''), rg)
          else (Inr (), rg\<lparr>rg_tenants := rg_tenants rg @
                 [t\<lparr>tn_state := st, tn_pool := pl, tn_onboarded := (case onboarded of None \<Rightarrow> now | Some o' \<Rightarrow> o'), tn_updated := now,
                   tn_last_audit := None\<rparr>]\<rparr>))"

definition SetLifecycleState :: "faults \<Rightarrow> instant \<Rightarrow> string \<Rightarrow> string \<Rightarrow> registry \<Rightarrow> (tenant_error + unit) \<times> registry" where
  "SetLifecycleState fault now tid st rg =
     (case fault ''set state'' of
        Some e \<Rightarrow> (Inl (DbError e), rg)
      | None \<Rightarrow>
          if \<not> matches (\<lambda>t. tn_id t = tid) rg then (Inl ErrTenantNotFound, rg)
          else if st \<notin> set lifecycleStates then (Inl (DbError ''check constraint''), rg)
          else (Inr (), updateWhere (\<lambda>t. tn_id t = tid) (\<lambda>t. t\<lparr>tn_state := st, tn_updated := now\<rparr>) rg))"

definition UpdatePoolAndDSN ::
  "faults \<Rightarrow> instant \<Rightarrow> string \<Rightarrow> string \<Rightarrow> string \<Rightarrow> registry \<Rightarrow> (tenant_error + unit) \<times> registry" where
  "UpdatePoolAndDSN fault now tid pl dsn rg =
     (if pl \<noteq> ''A'' \<and> pl \<noteq> ''B'' then (Inl BadPool, rg)
      else case fault ''update pool'' of
        Some e \<Rightarrow> (Inl (DbError e), rg)
      | None \<Rightarrow>
          if \<not> matches (\<lambda>t. tn_id t = tid) rg then (Inl ErrTenantNotFound, rg)
          else (Inr (), updateWhere (\<lambda>t. tn_id t = tid) (\<lambda>t. t\<lparr>tn_pool := pl, tn_dsn := Some dsn, tn_updated := now\<rparr>) rg))"

section \<open>Lifecycle\<close>

definition transitionLifecycle ::
  "faults \<Rightarrow> instant \<Rightarrow> string \<Rightarrow> string \<Rightarrow> string list \<Rightarrow> string \<Rightarrow> string \<Rightarrow> registry \<Rightarrow> (tenant_error + unit) \<times> registry" where
  "transitionLifecycle fault now tid newState fromStates event actor rg =
     (let P = (\<lambda>t. tn_id t = tid \<and> tn_state t \<in> set fromStates) in
      case fault ''begin'' of
        Some e \<Rightarrow> (Inl (DbError e), rg)
      | None \<Rightarrow>
         (case fault ''update'' of
            Some e \<Rightarrow> (Inl (DbError e), rg)
          | None \<Rightarrow>
              if \<not> matches P rg then (Inl ErrTenantNotFound, rg)
              else (case fault ''audit'' of
                 Some e \<Rightarrow> (Inl (DbError e), rg)
               | None \<Rightarrow>
                  (case fault ''commit'' of
                     Some e \<Rightarrow> (Inl (DbError e), rg)
                   | None \<Rightarrow>
                      (Inr (), (updateWhere P (\<lambda>t. t\<lparr>tn_state := newState, tn_updated := now\<rparr>) rg)
                         \<lparr>rg_audit := rg_audit rg @ [\<lparr>au_actor = actor, au_target = tid, au_event = event,
                           au_payload = [(''new_state'', [newState]), (''from_states'', fromStates), (''actor'', [actor])]\<rparr>]\<rparr>)))))"

definition Suspend :: "faults \<Rightarrow> instant \<Rightarrow> string \<Rightarrow> string \<Rightarrow> registry \<Rightarrow> (tenant_error + unit) \<times> registry" where
  "Suspend fault now tid actor = transitionLifecycle fault now tid ''suspended'' [''active''] ''tenant.suspended'' actor"

definition WindDown :: "faults \<Rightarrow> instant \<Rightarrow> string \<Rightarrow> string \<Rightarrow> registry \<Rightarrow> (tenant_error + unit) \<times> registry" where
  "WindDown fault now tid actor =
     transitionLifecycle fault now tid ''wind_down'' [''active'', ''suspended''] ''tenant.wind_down'' actor"

definition isUndefinedGraphError :: "string \<Rightarrow> bool" where
  "isUndefinedGraphError msg \<longleftrightarrow> str_contains msg ''does not exist'' \<and> str_contains msg ''graph''"

text \<open>
  The second transaction of \<open>Delete\<close>. A statement that failed aborts the transaction, and the
  commit then answers \<open>ErrTxCommitRollback\<close>; \<open>drop_graph\<close> of an unknown graph fails.
\<close>

definition dropSchema :: "faults \<Rightarrow> string \<Rightarrow> registry \<Rightarrow> (tenant_error + unit) \<times> registry" where
  "dropSchema fault tid rg =
     (case List.find (\<lambda>c. fault c \<noteq> None) [''drop begin'', ''load age'', ''search path''] of
        Some c \<Rightarrow> (Inl (DbError (the (fault c))), rg)
      | None \<Rightarrow>
         (case (case fault ''drop graph'' of
                  Some e \<Rightarrow> Some e
                | None \<Rightarrow> if SchemaName tid \<in> set (rg_schemas rg) then None
                    else Some (''graph '' @ SchemaName tid @ '' does not exist'')) of
            Some e \<Rightarrow>
              if \<not> isUndefinedGraphError e then (Inl (DbError e), rg)
              else (Inl (DbError ''commit unexpectedly resulted in rollback''), rg)
          | None \<Rightarrow>
             (case fault ''drop commit'' of
                Some e \<Rightarrow> (Inl (DbError e), rg)
              | None \<Rightarrow> (Inr (), rg\<lparr>rg_schemas := removeAll (SchemaName tid) (rg_schemas rg)\<rparr>))))"

definition Delete :: "faults \<Rightarrow> instant \<Rightarrow> string \<Rightarrow> string \<Rightarrow> bool \<Rightarrow> registry \<Rightarrow> (tenant_error + unit) \<times> registry" where
  "Delete fault now tid actor confirm rg =
     (if \<not> confirm then (Inl ConfirmRequired, rg)
      else case transitionLifecycle fault now tid ''deleted'' [''active'', ''suspended'', ''wind_down''] ''tenant.deleted'' actor rg of
        (Inl e, rg1) \<Rightarrow> (Inl e, rg1)
      | (Inr _, rg1) \<Rightarrow> dropSchema fault tid rg1)"

section \<open>From pool A to pool B\<close>

record migration_opts =
  mo_tenant :: string
  mo_source :: string
  mo_target :: string
  mo_dump :: string
  mo_actor :: string

record migration_result =
  mr_counts :: "(string \<times> int) list"
  mr_schema :: string
  mr_dump :: string
  mr_deadline :: instant

text \<open>The tools: \<open>pg_dump\<close> and \<open>pg_restore\<close> answer an error or nothing, the two pools answer table names and counts.\<close>

record migration_tools =
  mt_dump :: "string list \<Rightarrow> string option"
  mt_restore :: "string list \<Rightarrow> string option"
  mt_connect :: "string \<Rightarrow> string option"
  mt_tables :: "string \<Rightarrow> string \<Rightarrow> string + string list"
  mt_count :: "string \<Rightarrow> string \<Rightarrow> string + int"

definition zeroUUID :: string where
  "zeroUUID = ''00000000-0000-0000-0000-000000000000''"

definition postgresDSN :: "string \<Rightarrow> bool" where
  "postgresDSN s \<longleftrightarrow> has_prefix s ''postgres://'' \<or> has_prefix s ''postgresql://''"

definition validateOpts :: "migration_opts \<Rightarrow> tenant_error + migration_opts" where
  "validateOpts o' =
     (if mo_tenant o' = zeroUUID then Inl (BadOption ''tenant id is zero UUID'')
      else if \<not> postgresDSN (mo_source o') then Inl (BadOption ''PoolAStreamDSN'')
      else if \<not> postgresDSN (mo_target o') then Inl (BadOption ''PoolBDSN'')
      else Inr (o'\<lparr>mo_dump := (if mo_dump o' = [] then ''/tmp/'' @ SchemaName (mo_tenant o') @ ''.dump'' else mo_dump o'),
                  mo_actor := (if mo_actor o' = [] then ''migration@neksur.com'' else mo_actor o')\<rparr>))"

definition pgDumpArgs :: "migration_opts \<Rightarrow> string list" where
  "pgDumpArgs o' = [''--schema='' @ SchemaName (mo_tenant o'), ''--no-owner'', ''--no-acl'', ''-d'', mo_source o', ''-f'', mo_dump o']"

definition pgRestoreArgs :: "migration_opts \<Rightarrow> string list" where
  "pgRestoreArgs o' = [''-d'', mo_target o', mo_dump o']"

definition toolResult :: "string option \<Rightarrow> tenant_error + unit" where
  "toolResult r = (case r of Some e \<Rightarrow> Inl (ToolError e) | None \<Rightarrow> Inr ())"

definition countSQL :: "string \<Rightarrow> string \<Rightarrow> string" where
  "countSQL schema table = ''SELECT count(*)::int8 FROM '' @ sanitizeIdent [schema] @ ''.'' @ sanitizeIdent [table]"

fun compareCounts :: "migration_tools \<Rightarrow> migration_opts \<Rightarrow> string \<Rightarrow> string list \<Rightarrow> tenant_error + (string \<times> int) list" where
  "compareCounts tools o' schema [] = Inr []"
| "compareCounts tools o' schema (t # ts) =
     (case mt_count tools (mo_source o') (countSQL schema t) of
        Inl e \<Rightarrow> Inl (DbError e)
      | Inr src \<Rightarrow>
         (case mt_count tools (mo_target o') (countSQL schema t) of
            Inl e \<Rightarrow> Inl (DbError e)
          | Inr tgt \<Rightarrow>
              if src \<noteq> tgt then Inl (RowCountMismatch t src tgt)
              else rbind (compareCounts tools o' schema ts) (\<lambda>cs. Inr ((t, src) # cs))))"

definition validateRowCounts :: "migration_tools \<Rightarrow> migration_opts \<Rightarrow> string \<Rightarrow> tenant_error + (string \<times> int) list" where
  "validateRowCounts tools o' schema =
     (case mt_connect tools (mo_source o') of
        Some e \<Rightarrow> Inl (DbError e)
      | None \<Rightarrow>
         (case mt_connect tools (mo_target o') of
            Some e \<Rightarrow> Inl (DbError e)
          | None \<Rightarrow>
             (case mt_tables tools (mo_source o') schema of
                Inl e \<Rightarrow> Inl (DbError e)
              | Inr tables \<Rightarrow> if tables = [] then Inl NoTables else compareCounts tools o' schema tables)))"

text \<open>The target of the audit payload, without its password.\<close>

fun indexOf :: "string \<Rightarrow> string \<Rightarrow> nat option" where
  "indexOf [] p = (if p = [] then Some 0 else None)"
| "indexOf (c # s) p = (if has_prefix (c # s) p then Some 0 else map_option Suc (indexOf s p))"

definition redactDSN :: "string \<Rightarrow> string" where
  "redactDSN dsn =
     (case indexOf dsn ''://'' of
        None \<Rightarrow> dsn
      | Some prefixEnd \<Rightarrow>
         (case indexOf (drop prefixEnd dsn) ''@'' of
            None \<Rightarrow> dsn
          | Some at \<Rightarrow>
             let authStart = prefixEnd + 3; authEnd = prefixEnd + at; auth = take (authEnd - authStart) (drop authStart dsn) in
             (case indexOf auth '':'' of
                None \<Rightarrow> dsn
              | Some colon \<Rightarrow> take authStart dsn @ take colon auth @ '':***'' @ drop authEnd dsn)))"

definition writeMigrationAudit :: "faults \<Rightarrow> migration_opts \<Rightarrow> registry \<Rightarrow> (tenant_error + unit) \<times> registry" where
  "writeMigrationAudit fault o' rg =
     (case fault ''migration audit'' of
        Some e \<Rightarrow> (Inl (DbError e), rg)
      | None \<Rightarrow> (Inr (), rg\<lparr>rg_audit := rg_audit rg @
          [\<lparr>au_actor = mo_actor o', au_target = mo_tenant o', au_event = ''tenant.migrated_pool_a_to_b'',
            au_payload = [(''from_pool'', [''A'']), (''to_pool'', [''B'']), (''dump_path'', [mo_dump o']),
              (''target_dsn_redacted'', [redactDSN (mo_target o')]), (''schema'', [SchemaName (mo_tenant o')])]\<rparr>]\<rparr>))"

text \<open>Steps 6 to 8: flip the pool, resume the tenant, write the audit row.\<close>

definition finishMigration :: "faults \<Rightarrow> instant \<Rightarrow> migration_opts \<Rightarrow> registry \<Rightarrow> (tenant_error + unit) \<times> registry" where
  "finishMigration fault now o' rg =
     (case UpdatePoolAndDSN fault now (mo_tenant o') ''B'' (mo_target o') rg of
        (Inl e, rg1) \<Rightarrow> (Inl e, rg1)
      | (Inr _, rg1) \<Rightarrow>
         (case SetLifecycleState fault now (mo_tenant o') ''active'' rg1 of
            (Inl e, rg2) \<Rightarrow> (Inl e, rg2)
          | (Inr _, rg2) \<Rightarrow> writeMigrationAudit fault o' rg2))"

definition MigratePoolAToB ::
  "faults \<Rightarrow> migration_tools \<Rightarrow> instant \<Rightarrow> migration_opts \<Rightarrow> registry \<Rightarrow> (tenant_error + migration_result) \<times> registry" where
  "MigratePoolAToB fault tools now opts rg =
     (case validateOpts opts of
        Inl e \<Rightarrow> (Inl e, rg)
      | Inr o' \<Rightarrow>
         (case Suspend fault now (mo_tenant o') (mo_actor o') rg of
            (Inl e, rg1) \<Rightarrow> (Inl e, rg1)
          | (Inr _, rg1) \<Rightarrow>
             (case rbind (toolResult (mt_dump tools (pgDumpArgs o'))) (\<lambda>_.
                   rbind (toolResult (mt_restore tools (pgRestoreArgs o'))) (\<lambda>_.
                     validateRowCounts tools o' (SchemaName (mo_tenant o')))) of
                Inl e \<Rightarrow> (Inl e, rg1)
              | Inr counts \<Rightarrow>
                 (case finishMigration fault now o' rg1 of
                    (Inl e, rg2) \<Rightarrow> (Inl e, rg2)
                  | (Inr _, rg2) \<Rightarrow>
                     (Inr \<lparr>mr_counts = counts, mr_schema = SchemaName (mo_tenant o'), mr_dump = mo_dump o',
                            mr_deadline = now + 30 * 24 * 3600 * nsPerSec\<rparr>, rg2)))))"

section \<open>Lifecycle histories\<close>

text \<open>
  A machine whose values move up a rank, each move leaving an entry in a log that only grows. What
  it promises over one step holds over any sequence of steps.
\<close>

locale audited_machine =
  fixes step :: "'o \<Rightarrow> 's \<Rightarrow> 's"
    and state_of :: "'s \<Rightarrow> 'k \<Rightarrow> 'v option"
    and rank :: "'v \<Rightarrow> nat"
    and logged :: "'s \<Rightarrow> ('k \<times> 'v) list"
  assumes step_moves: "state_of s k = Some v \<Longrightarrow>
      \<exists>v'. state_of (step x s) k = Some v' \<and> (v' = v \<or> rank v < rank v' \<and> (k, v') \<in> set (logged (step x s)))"
    and log_grows: "set (logged s) \<subseteq> set (logged (step x s))"
begin

lemma run_moves:
  assumes "state_of s k = Some v"
  shows "\<exists>v'. state_of (fold step xs s) k = Some v' \<and>
    (v' = v \<or> rank v < rank v' \<and> (k, v') \<in> set (logged (fold step xs s)))"
  using assms
proof (induction xs rule: rev_induct)
  case (snoc x xs)
  then obtain v1 where v1: "state_of (fold step xs s) k = Some v1"
    "v1 = v \<or> rank v < rank v1 \<and> (k, v1) \<in> set (logged (fold step xs s))" by blast
  from step_moves [OF v1(1), of x] log_grows [of "fold step xs s" x] v1(2) show ?case by fastforce
qed simp

lemma run_terminal:
  assumes "state_of s k = Some v" "\<And>v'. rank v' \<le> rank v"
  shows "state_of (fold step xs s) k = Some v"
  using run_moves [OF assms(1), of xs] assms(2) by (metis leD)

end

definition state_of :: "registry \<Rightarrow> string \<Rightarrow> string option" where
  "state_of rg tid = map_option tn_state (List.find (\<lambda>t. tn_id t = tid) (rg_tenants rg))"

definition state_rank :: "string \<Rightarrow> nat" where
  "state_rank s = (if s = ''active'' then 0 else if s = ''suspended'' then 1 else if s = ''wind_down'' then 2
     else if s = ''deleted'' then 3 else 0)"

definition logged :: "registry \<Rightarrow> (string \<times> string) list" where
  "logged rg = map (\<lambda>a. (au_target a, drop 7 (au_event a))) (rg_audit rg)"

datatype lifecycle_op =
    DoCreate faults instant "instant option" tenant_row | DoSuspend faults instant string string
  | DoWindDown faults instant string string | DoDelete faults instant string string bool

fun lifecycleStep :: "lifecycle_op \<Rightarrow> registry \<Rightarrow> registry" where
  "lifecycleStep (DoCreate f now ob t) rg = snd (Create f now ob t rg)"
| "lifecycleStep (DoSuspend f now tid actor) rg = snd (Suspend f now tid actor rg)"
| "lifecycleStep (DoWindDown f now tid actor) rg = snd (WindDown f now tid actor rg)"
| "lifecycleStep (DoDelete f now tid actor c) rg = snd (Delete f now tid actor c rg)"

lemma find_map: "List.find P (map f xs) = map_option f (List.find (\<lambda>x. P (f x)) xs)"
  by (induction xs) auto

lemma find_append: "List.find P (xs @ ys) = (case List.find P xs of None \<Rightarrow> List.find P ys | Some x \<Rightarrow> Some x)"
  by (induction xs) auto

lemma row_updateWhere:
  assumes "\<And>t. tn_id (f t) = tn_id t"
  shows "List.find (\<lambda>t. tn_id t = tid) (rg_tenants (updateWhere P f rg)) =
    map_option (\<lambda>t. if P t then f t else t) (List.find (\<lambda>t. tn_id t = tid) (rg_tenants rg))"
proof -
  have "(\<lambda>t. tn_id (if P t then f t else t) = tid) = (\<lambda>t. tn_id t = tid)" using assms by auto
  then show ?thesis by (simp add: updateWhere_def find_map)
qed

lemma matches_updateWhere:
  assumes "\<And>t. tn_id (f t) = tn_id t"
  shows "matches (\<lambda>t. tn_id t = k) (updateWhere P f rg) = matches (\<lambda>t. tn_id t = k) rg"
proof -
  have "list_ex (\<lambda>t. tn_id t = k) (map (\<lambda>t. if P t then f t else t) xs) = list_ex (\<lambda>t. tn_id t = k) xs" for xs
    by (induction xs) (auto simp: assms)
  then show ?thesis by (simp add: matches_def updateWhere_def)
qed

lemma transition_cases:
  assumes "transitionLifecycle fault now tid new from event actor rg = (r, rg')"
  obtains (failed) e where "r = Inl e" "rg' = rg"
  | (moved) "r = Inr ()" "\<And>c. c \<in> {''begin'', ''update'', ''audit'', ''commit''} \<Longrightarrow> fault c = None"
      "matches (\<lambda>t. tn_id t = tid \<and> tn_state t \<in> set from) rg"
      "rg' = (updateWhere (\<lambda>t. tn_id t = tid \<and> tn_state t \<in> set from) (\<lambda>t. t\<lparr>tn_state := new, tn_updated := now\<rparr>) rg)
        \<lparr>rg_audit := rg_audit rg @ [\<lparr>au_actor = actor, au_target = tid, au_event = event,
           au_payload = [(''new_state'', [new]), (''from_states'', from), (''actor'', [actor])]\<rparr>]\<rparr>"
proof -
  let ?P = "\<lambda>t. tn_id t = tid \<and> tn_state t \<in> set from"
  consider (ok) "fault ''begin'' = None" "fault ''update'' = None" "matches ?P rg" "fault ''audit'' = None" "fault ''commit'' = None"
    | (bad) "\<exists>e. transitionLifecycle fault now tid new from event actor rg = (Inl e, rg)"
    unfolding transitionLifecycle_def Let_def
    by (cases "fault ''begin''"; cases "fault ''update''"; cases "matches ?P rg"; cases "fault ''audit''"; cases "fault ''commit''") simp_all
  then show thesis
  proof cases
    case ok
    then show ?thesis using assms by (intro moved) (auto simp: transitionLifecycle_def)
  next
    case bad
    then show ?thesis using assms failed by auto
  qed
qed

lemma transition_rows:
  assumes "transitionLifecycle fault now tid new from event actor rg = (Inr x, rg')"
  shows "rg_tenants rg' = rg_tenants (updateWhere (\<lambda>t. tn_id t = tid \<and> tn_state t \<in> set from)
      (\<lambda>t. t\<lparr>tn_state := new, tn_updated := now\<rparr>) rg)"
    "rg_schemas rg' = rg_schemas rg" "matches (\<lambda>t. tn_id t = tid \<and> tn_state t \<in> set from) rg"
  using assms by (cases rule: transition_cases; simp add: updateWhere_def)+

lemma transition_moves:
  assumes s: "state_of rg k = Some v" and t: "transitionLifecycle fault now tid new from (''tenant.'' @ new) actor rg = (r, rg')"
    and up: "\<And>u. u \<in> set from \<Longrightarrow> state_rank u < state_rank new"
  shows "\<exists>v'. state_of rg' k = Some v' \<and> (v' = v \<or> state_rank v < state_rank v' \<and> (k, v') \<in> set (logged rg'))"
  using t
proof (cases rule: transition_cases)
  case moved
  let ?P = "\<lambda>t. tn_id t = tid \<and> tn_state t \<in> set from" and ?f = "\<lambda>t. t\<lparr>tn_state := new, tn_updated := now\<rparr>"
  obtain row where row: "List.find (\<lambda>t. tn_id t = k) (rg_tenants rg) = Some row" "tn_state row = v"
    using s by (auto simp: state_of_def)
  then have id: "tn_id row = k" by (auto simp: find_Some_iff)
  have "state_of rg' k = Some (tn_state (if ?P row then ?f row else row))"
    unfolding moved(4) state_of_def
    using row_updateWhere [of ?f k ?P rg] row(1) by simp
  moreover have "(tid, new) \<in> set (logged rg')" unfolding moved(4) by (simp add: logged_def)
  ultimately show ?thesis using up [of v] row(2) id by auto
qed (use s in auto)

lemma Create_keeps: "state_of rg k = Some v \<Longrightarrow> state_of (snd (Create fault now ob t rg)) k = Some v"
  by (auto simp: Create_def Let_def state_of_def find_append split: option.splits)

lemma dropSchema_keeps: "dropSchema fault tid rg = (r, rg') \<Longrightarrow> rg_tenants rg' = rg_tenants rg \<and> rg_audit rg' = rg_audit rg"
  by (auto simp: dropSchema_def split: option.splits if_splits)

lemma transition_log: "set (logged rg) \<subseteq> set (logged (snd (transitionLifecycle fault now tid new from event actor rg)))"
  by (cases "transitionLifecycle fault now tid new from event actor rg" rule: prod.exhaust)
    (auto elim!: transition_cases simp: logged_def)

lemma lifecycle_moves:
  assumes "state_of rg k = Some v"
  shows "\<exists>v'. state_of (lifecycleStep x rg) k = Some v' \<and>
    (v' = v \<or> state_rank v < state_rank v' \<and> (k, v') \<in> set (logged (lifecycleStep x rg)))"
proof (cases x)
  case (DoSuspend f now tid actor)
  obtain r rg' where t: "Suspend f now tid actor rg = (r, rg')" by fastforce
  have "\<exists>v'. state_of rg' k = Some v' \<and> (v' = v \<or> state_rank v < state_rank v' \<and> (k, v') \<in> set (logged rg'))"
    by (rule transition_moves [OF assms, where new = "''suspended''"]) (use t in \<open>auto simp: Suspend_def state_rank_def\<close>)
  then show ?thesis by (simp add: DoSuspend t)
next
  case (DoWindDown f now tid actor)
  obtain r rg' where t: "WindDown f now tid actor rg = (r, rg')" by fastforce
  have "\<exists>v'. state_of rg' k = Some v' \<and> (v' = v \<or> state_rank v < state_rank v' \<and> (k, v') \<in> set (logged rg'))"
    by (rule transition_moves [OF assms, where new = "''wind_down''"]) (use t in \<open>auto simp: WindDown_def state_rank_def\<close>)
  then show ?thesis by (simp add: DoWindDown t)
next
  case (DoDelete f now tid actor c)
  obtain r rg1 where t: "transitionLifecycle f now tid ''deleted'' [''active'', ''suspended'', ''wind_down''] ''tenant.deleted'' actor rg = (r, rg1)"
    by fastforce
  obtain r2 rg2 where d: "dropSchema f tid rg1 = (r2, rg2)" by fastforce
  have same: "state_of rg2 = state_of rg1" "logged rg2 = logged rg1"
    using dropSchema_keeps [OF d] by (auto simp: state_of_def logged_def fun_eq_iff)
  have "\<exists>v'. state_of rg1 k = Some v' \<and> (v' = v \<or> state_rank v < state_rank v' \<and> (k, v') \<in> set (logged rg1))"
    by (rule transition_moves [OF assms, where new = "''deleted''"]) (use t in \<open>auto simp: state_rank_def\<close>)
  then show ?thesis
    using assms by (cases c; cases r) (simp_all add: DoDelete Delete_def t d same)
qed (use assms Create_keeps in auto)

lemma lifecycle_log: "set (logged rg) \<subseteq> set (logged (lifecycleStep x rg))"
proof (cases x)
  case (DoCreate f now ob t)
  then show ?thesis by (auto simp: Create_def Let_def logged_def split: option.splits)
next
  case (DoDelete f now tid actor c)
  obtain r rg1 where t: "transitionLifecycle f now tid ''deleted'' [''active'', ''suspended'', ''wind_down''] ''tenant.deleted'' actor rg = (r, rg1)"
    by fastforce
  obtain r2 rg2 where d: "dropSchema f tid rg1 = (r2, rg2)" by fastforce
  have "set (logged rg) \<subseteq> set (logged rg1)" using transition_log [of rg] t by (metis snd_conv)
  moreover have "logged rg2 = logged rg1" using dropSchema_keeps [OF d] by (simp add: logged_def)
  ultimately show ?thesis by (cases c; cases r) (simp_all add: DoDelete Delete_def t d)
qed (simp_all add: Suspend_def WindDown_def transition_log)

interpretation lifecycle: audited_machine lifecycleStep state_of state_rank logged
  by unfold_locales (rule lifecycle_moves lifecycle_log; assumption?)+

text \<open>
  C20 The lifecycle only moves forward: over any sequence of creations, suspensions, wind-downs and
  deletions of any tenants, with any failures, a tenant that is in the registry stays there, its
  state changes only along active, suspended, wind-down, deleted, each new state has its row in the
  audit log, and a deleted tenant stays deleted.
\<close>
theorem lifecycle_forward:
  assumes "state_of rg tid = Some st"
  shows "\<exists>st'. state_of (fold lifecycleStep ops rg) tid = Some st' \<and>
    (st' = st \<or> state_rank st < state_rank st' \<and>
      (\<exists>a \<in> set (rg_audit (fold lifecycleStep ops rg)). au_target a = tid \<and> drop 7 (au_event a) = st')) \<and>
    (st = ''deleted'' \<longrightarrow> st' = ''deleted'')"
proof -
  have "state_rank v \<le> state_rank ''deleted''" for v by (simp add: state_rank_def)
  then have "st = ''deleted'' \<Longrightarrow> state_of (fold lifecycleStep ops rg) tid = Some ''deleted''"
    using lifecycle.run_terminal assms by blast
  then show ?thesis using lifecycle.run_moves [OF assms, of ops] by (fastforce simp: logged_def)
qed

abbreviation no_faults :: faults where "no_faults \<equiv> \<lambda>_. None"

definition tenant_a :: tenant_row where
  "tenant_a = \<lparr>tn_id = ''a'', tn_org = ''org_A'', tn_state = ''active'', tn_pool = ''A'', tn_dsn = None, tn_onboarded = 0, tn_updated = 0, tn_last_audit = None\<rparr>"

definition registry_a :: registry where
  "registry_a = \<lparr>rg_tenants = [tenant_a], rg_audit = [], rg_schemas = [''tenant_a'']\<rparr>"

theorem lifecycle_forward_witness:
  "state_of registry_a ''a'' = Some ''active'' \<and>
   state_of (fold lifecycleStep [DoSuspend no_faults 1 ''a'' ''ops'', DoDelete no_faults 2 ''a'' ''ops'' True] registry_a) ''a'' = Some ''deleted'' \<and>
   (\<exists>a \<in> set (rg_audit (fold lifecycleStep [DoSuspend no_faults 1 ''a'' ''ops'', DoDelete no_faults 2 ''a'' ''ops'' True] registry_a)).
      au_target a = ''a'' \<and> drop 7 (au_event a) = ''deleted'')"
proof -
  let ?ops = "[DoSuspend no_faults 1 ''a'' ''ops'', DoDelete no_faults 2 ''a'' ''ops'' True]"
  have a: "state_of registry_a ''a'' = Some ''active''" by code_simp
  have "state_of (fold lifecycleStep ?ops registry_a) ''a'' = Some ''deleted''" by code_simp
  with lifecycle_forward [OF a, of ?ops] a show ?thesis by simp
qed

section \<open>Deletion\<close>

lemma deleted_not_matched:
  assumes "distinct (map tn_id (rg_tenants rg))" "state_of rg tid = Some ''deleted''"
  shows "\<not> matches (\<lambda>t. tn_id t = tid \<and> tn_state t \<in> set [''active'', ''suspended'', ''wind_down'']) rg"
proof
  assume "matches (\<lambda>t. tn_id t = tid \<and> tn_state t \<in> set [''active'', ''suspended'', ''wind_down'']) rg"
  then obtain t where t: "t \<in> set (rg_tenants rg)" "tn_id t = tid" "tn_state t \<in> set [''active'', ''suspended'', ''wind_down'']"
    by (auto simp: matches_def list_ex_iff)
  obtain u where u: "List.find (\<lambda>t. tn_id t = tid) (rg_tenants rg) = Some u" "tn_state u = ''deleted''"
    using assms(2) by (auto simp: state_of_def)
  then have "u \<in> set (rg_tenants rg)" "tn_id u = tid" by (auto simp: find_Some_iff)
  with t assms(1) have "u = t" by (metis distinct_map inj_on_def)
  with u(2) t(3) show False by simp
qed

lemma Delete_again:
  assumes "distinct (map tn_id (rg_tenants rg))" "state_of rg tid = Some ''deleted''"
  shows "\<exists>e. Delete fault now tid actor confirm rg = (Inl e, rg)"
  using deleted_not_matched [OF assms]
  by (auto simp: Delete_def transitionLifecycle_def Let_def split: option.split)

lemma updateWhere_ids: "(\<And>t. tn_id (f t) = tn_id t) \<Longrightarrow> map tn_id (rg_tenants (updateWhere P f rg)) = map tn_id (rg_tenants rg)"
  by (simp add: updateWhere_def)

text \<open>
  A deletion whose schema drop fails cannot be repeated: the tenant is already marked deleted, so
  every further call is refused before the drop, whatever its arguments, and the schema with the
  data of the tenant stays. The comment of \<open>Delete\<close> says that a retry re-tries the drop.
\<close>
theorem delete_not_retryable:
  assumes "distinct (map tn_id (rg_tenants rg))"
    and "state_of rg tid = Some st" "st \<in> {''active'', ''suspended'', ''wind_down''}"
    and "SchemaName tid \<in> set (rg_schemas rg)"
    and "fault ''begin'' = None" "fault ''update'' = None" "fault ''audit'' = None" "fault ''commit'' = None"
    and "fault ''drop graph'' = Some e"
    and "Delete fault now tid actor True rg = (r, rg1)"
  shows "(\<exists>e'. r = Inl e') \<and> state_of rg1 tid = Some ''deleted'' \<and> SchemaName tid \<in> set (rg_schemas rg1) \<and>
    (\<forall>fault' now' actor' confirm. \<exists>e'. Delete fault' now' tid actor' confirm rg1 = (Inl e', rg1))"
proof -
  let ?P = "\<lambda>t. tn_id t = tid \<and> tn_state t \<in> set [''active'', ''suspended'', ''wind_down'']"
  let ?f = "\<lambda>t. t\<lparr>tn_state := ''deleted'', tn_updated := now\<rparr>"
  obtain r0 rg0 where t: "transitionLifecycle fault now tid ''deleted'' [''active'', ''suspended'', ''wind_down''] ''tenant.deleted'' actor rg = (r0, rg0)"
    by fastforce
  obtain u where u: "List.find (\<lambda>t. tn_id t = tid) (rg_tenants rg) = Some u" "tn_state u = st"
    using assms(2) by (auto simp: state_of_def)
  then have m: "u \<in> set (rg_tenants rg)" "tn_id u = tid" by (auto simp: find_Some_iff)
  then have "matches ?P rg" using u(2) assms(3) by (auto simp: matches_def list_ex_iff)
  then have r0: "r0 = Inr ()" using t assms(5-8) by (simp add: transitionLifecycle_def)
  note rg0 = transition_rows [OF t [unfolded r0]]
  have st: "state_of rg0 tid = Some ''deleted''"
    using row_updateWhere [of ?f tid ?P rg] u m(2) assms(3) by (auto simp: state_of_def rg0)
  have ids: "distinct (map tn_id (rg_tenants rg0))" using assms(1) by (simp add: rg0 updateWhere_ids)
  have d: "dropSchema fault tid rg0 = (r, rg1)" using assms(10) by (simp add: Delete_def t r0)
  have "(\<exists>e'. r = Inl e') \<and> rg1 = rg0"
    using d assms(9) by (auto simp: dropSchema_def split: option.split_asm if_split_asm)
  then show ?thesis using st ids Delete_again assms(4) rg0(2) by auto
qed

theorem delete_not_retryable_witness:
  "\<exists>rg1. Delete (\<lambda>c. if c = ''drop graph'' then Some ''timeout'' else None) 1 ''a'' ''ops'' True registry_a = (Inl (DbError ''timeout''), rg1) \<and>
     ''tenant_a'' \<in> set (rg_schemas rg1) \<and> (\<exists>e. Delete no_faults 2 ''a'' ''ops'' True rg1 = (Inl e, rg1))"
proof -
  let ?f = "\<lambda>c. if c = ''drop graph'' then Some ''timeout'' else None"
  obtain r rg1 where d: "Delete ?f 1 ''a'' ''ops'' True registry_a = (r, rg1)" by fastforce
  have n: "SchemaName ''a'' = ''tenant_a''" by code_simp
  have "fst (Delete ?f 1 ''a'' ''ops'' True registry_a) = Inl (DbError ''timeout'')" by code_simp
  with d have r: "r = Inl (DbError ''timeout'')" by simp
  have "distinct (map tn_id (rg_tenants registry_a))" "state_of registry_a ''a'' = Some ''active''"
    "''active'' \<in> {''active'', ''suspended'', ''wind_down''}" "SchemaName ''a'' \<in> set (rg_schemas registry_a)"
    by (simp_all add: registry_a_def tenant_a_def state_of_def n)
  from delete_not_retryable [OF this _ _ _ _ _ d] have
    "SchemaName ''a'' \<in> set (rg_schemas rg1)" "\<exists>e. Delete no_faults 2 ''a'' ''ops'' True rg1 = (Inl e, rg1)" by simp_all
  with d r n show ?thesis by auto
qed

section \<open>Migration\<close>

lemma compareCounts_Inr:
  assumes "compareCounts tools o' schema ts = Inr cs"
  shows "map fst cs = ts \<and> (\<forall>(t, n) \<in> set cs. mt_count tools (mo_source o') (countSQL schema t) = Inr n \<and>
    mt_count tools (mo_target o') (countSQL schema t) = Inr n)"
  using assms by (induction ts arbitrary: cs) (auto simp: result_simps split: sum.splits if_splits)

lemma validateRowCounts_Inr:
  assumes "validateRowCounts tools o' schema = Inr cs"
  shows "\<exists>tables. mt_tables tools (mo_source o') schema = Inr tables \<and> tables \<noteq> [] \<and> map fst cs = tables \<and>
    (\<forall>(t, n) \<in> set cs. mt_count tools (mo_source o') (countSQL schema t) = Inr n \<and> mt_count tools (mo_target o') (countSQL schema t) = Inr n)"
  using assms compareCounts_Inr by (fastforce simp: validateRowCounts_def split: option.splits sum.splits if_splits)

definition row_of :: "registry \<Rightarrow> string \<Rightarrow> tenant_row option" where
  "row_of rg tid = List.find (\<lambda>t. tn_id t = tid) (rg_tenants rg)"

lemma Suspend_row:
  assumes "Suspend fault now tid actor rg = (r, rg')"
  shows "map_option tn_pool (row_of rg' k) = map_option tn_pool (row_of rg k) \<and>
    map_option tn_dsn (row_of rg' k) = map_option tn_dsn (row_of rg k)"
proof (cases r)
  case (Inl e)
  have "rg' = rg" using assms [unfolded Suspend_def] by (cases rule: transition_cases) (use Inl in auto)
  then show ?thesis by simp
next
  case (Inr x)
  note rows = transition_rows [OF assms [unfolded Suspend_def Inr]]
  show ?thesis unfolding row_of_def rows(1)
    by (cases "List.find (\<lambda>t. tn_id t = k) (rg_tenants rg)") (simp_all add: row_updateWhere)
qed

lemma finishMigration_Inr:
  assumes "finishMigration fault now o' rg = (Inr x, rg')"
  shows "\<exists>t. row_of rg' (mo_tenant o') = Some t \<and> tn_pool t = ''B'' \<and> tn_dsn t = Some (mo_target o') \<and> tn_state t = ''active'' \<and>
    (\<exists>a \<in> set (rg_audit rg'). au_target a = mo_tenant o' \<and> au_event a = ''tenant.migrated_pool_a_to_b'')"
proof -
  have found: "matches (\<lambda>t. tn_id t = k) r \<Longrightarrow> \<exists>u. row_of r k = Some u \<and> tn_id u = k" for k r
    by (cases "row_of r k") (auto simp: row_of_def matches_def list_ex_iff find_None_iff find_Some_iff)
  show ?thesis
    using assms found [of "mo_tenant o'" rg]
    by (auto simp: finishMigration_def UpdatePoolAndDSN_def SetLifecycleState_def writeMigrationAudit_def row_of_def
        lifecycleStates_def updateWhere_def find_map o_def if_distrib [of tn_id] split: option.split_asm if_split_asm prod.split_asm cong: if_cong)
qed

text \<open>
  C21 The migration stops before the flip: whenever it fails before the pool is flipped the tenant still
  points to its old pool and connection, and whenever it reports success the tenant is active on pool B with
  the target connection, the move is in the audit log, and every table that the source listed, of
  which there is at least one, had the same count on both sides.
\<close>
theorem migration_fail_stop:
  assumes "MigratePoolAToB fault tools now opts rg = (r, rg')"
  shows "(\<forall>t'. row_of rg' (mo_tenant opts) = Some t' \<and> map_option tn_pool (row_of rg (mo_tenant opts)) \<noteq> Some (tn_pool t') \<longrightarrow>
      (\<exists>tables cs. mt_tables tools (mo_source opts) (SchemaName (mo_tenant opts)) = Inr tables \<and> tables \<noteq> [] \<and> map fst cs = tables \<and>
        (\<forall>(t, n) \<in> set cs. mt_count tools (mo_source opts) (countSQL (SchemaName (mo_tenant opts)) t) = Inr n \<and>
          mt_count tools (mo_target opts) (countSQL (SchemaName (mo_tenant opts)) t) = Inr n))) \<and>
    (\<forall>res. r = Inr res \<longrightarrow> map fst (mr_counts res) \<noteq> [] \<and>
      (\<exists>t. row_of rg' (mo_tenant opts) = Some t \<and> tn_pool t = ''B'' \<and> tn_dsn t = Some (mo_target opts) \<and> tn_state t = ''active'') \<and>
      (\<exists>a \<in> set (rg_audit rg'). au_target a = mo_tenant opts \<and> au_event a = ''tenant.migrated_pool_a_to_b'') \<and>
      (\<forall>(t, n) \<in> set (mr_counts res). mt_count tools (mo_source opts) (countSQL (SchemaName (mo_tenant opts)) t) = Inr n \<and>
        mt_count tools (mo_target opts) (countSQL (SchemaName (mo_tenant opts)) t) = Inr n))"
proof (cases "validateOpts opts")
  case (Inl e)
  then show ?thesis using assms by (auto simp: MigratePoolAToB_def)
next
  case (Inr o')
  have o': "mo_tenant o' = mo_tenant opts" "mo_source o' = mo_source opts" "mo_target o' = mo_target opts"
    using Inr by (auto simp: validateOpts_def split: if_splits)
  obtain s rg1 where sus: "Suspend fault now (mo_tenant o') (mo_actor o') rg = (s, rg1)" by fastforce
  note keep = Suspend_row [OF sus, of "mo_tenant opts"]
  let ?checks = "rbind (toolResult (mt_dump tools (pgDumpArgs o'))) (\<lambda>_. rbind (toolResult (mt_restore tools (pgRestoreArgs o'))) (\<lambda>_.
                     validateRowCounts tools o' (SchemaName (mo_tenant o'))))"
  show ?thesis
  proof (cases "\<exists>x cs. s = Inr x \<and> ?checks = Inr cs")
    case False
    then have "(\<exists>e. r = Inl e) \<and> rg' = rg1"
      using assms by (cases s; cases ?checks) (auto simp: MigratePoolAToB_def Inr sus)
    then show ?thesis using keep by (cases "row_of rg (mo_tenant opts)") auto
  next
    case True
    then obtain x cs where x: "s = Inr x" and cs: "?checks = Inr cs" by blast
    then have "validateRowCounts tools o' (SchemaName (mo_tenant o')) = Inr cs" by (auto simp: result_simps)
    from validateRowCounts_Inr [OF this] obtain tables where
      t: "mt_tables tools (mo_source opts) (SchemaName (mo_tenant opts)) = Inr tables" "tables \<noteq> []" "map fst cs = tables"
      and n: "\<forall>(t, n) \<in> set cs. mt_count tools (mo_source opts) (countSQL (SchemaName (mo_tenant opts)) t) = Inr n \<and>
        mt_count tools (mo_target opts) (countSQL (SchemaName (mo_tenant opts)) t) = Inr n"
      unfolding o' by blast
    obtain y rg2 where fin: "finishMigration fault now o' rg1 = (y, rg2)" by fastforce
    have run: "(r, rg') = (case y of Inl e \<Rightarrow> (Inl e, rg2) | Inr _ \<Rightarrow>
       (Inr \<lparr>mr_counts = cs, mr_schema = SchemaName (mo_tenant o'), mr_dump = mo_dump o', mr_deadline = now + 30 * 24 * 3600 * nsPerSec\<rparr>, rg2))"
      using assms by (cases y) (auto simp: MigratePoolAToB_def Inr sus x cs fin)
    have "y = Inr z \<Longrightarrow> \<exists>t. row_of rg2 (mo_tenant opts) = Some t \<and> tn_pool t = ''B'' \<and> tn_dsn t = Some (mo_target opts) \<and> tn_state t = ''active'' \<and>
      (\<exists>a \<in> set (rg_audit rg2). au_target a = mo_tenant opts \<and> au_event a = ''tenant.migrated_pool_a_to_b'')" for z
      using finishMigration_Inr [of fault now o' rg1 z rg2] fin o' by simp
    then have "\<forall>res. r = Inr res \<longrightarrow> map fst (mr_counts res) \<noteq> [] \<and>
      (\<exists>t. row_of rg' (mo_tenant opts) = Some t \<and> tn_pool t = ''B'' \<and> tn_dsn t = Some (mo_target opts) \<and> tn_state t = ''active'') \<and>
      (\<exists>a \<in> set (rg_audit rg'). au_target a = mo_tenant opts \<and> au_event a = ''tenant.migrated_pool_a_to_b'') \<and>
      (\<forall>(t, n) \<in> set (mr_counts res). mt_count tools (mo_source opts) (countSQL (SchemaName (mo_tenant opts)) t) = Inr n \<and>
        mt_count tools (mo_target opts) (countSQL (SchemaName (mo_tenant opts)) t) = Inr n)"
      using run t(2,3) n by (cases y) auto
    then show ?thesis using t n by blast
  qed
qed

definition tools_a :: migration_tools where
  "tools_a = \<lparr>mt_dump = (\<lambda>_. None), mt_restore = (\<lambda>_. None), mt_connect = (\<lambda>_. None),
     mt_tables = (\<lambda>_ _. Inr [''audit_log'']), mt_count = (\<lambda>_ _. Inr 3)\<rparr>"

definition opts_a :: migration_opts where
  "opts_a = \<lparr>mo_tenant = ''a'', mo_source = ''postgres://a'', mo_target = ''postgres://b'', mo_dump = [], mo_actor = []\<rparr>"

theorem migration_fail_stop_witness:
  "\<exists>res rg' t. MigratePoolAToB no_faults tools_a 1 opts_a registry_a = (Inr res, rg') \<and>
     row_of rg' ''a'' = Some t \<and> tn_pool t = ''B'' \<and> map fst (mr_counts res) \<noteq> []"
proof -
  obtain r rg' where m: "MigratePoolAToB no_faults tools_a 1 opts_a registry_a = (r, rg')" by fastforce
  have "\<not> isl (fst (MigratePoolAToB no_faults tools_a 1 opts_a registry_a))" by code_simp
  then obtain res where "r = Inr res" using m by (cases r) auto
  moreover have "mo_tenant opts_a = ''a''" by (simp add: opts_a_def)
  ultimately show ?thesis using migration_fail_stop [OF m] m by auto
qed

text \<open>
  The resume of the migration is not guarded: if an operator winds the tenant down or deletes it
  between the suspension and the flip, the last steps of the migration set it active again, and the
  lookup of sessions finds it, whatever its state was; the guarded transitions would refuse that.
\<close>
theorem migration_revives_deleted:
  assumes "row_of rg (mo_tenant o') = Some t"
    and "fault ''update pool'' = None" "fault ''set state'' = None" "fault ''migration audit'' = None"
  shows "\<exists>rg' t'. finishMigration fault now o' rg = (Inr (), rg') \<and> row_of rg' (mo_tenant o') = Some t' \<and>
    tn_state t' = ''active'' \<and> tn_org t' = tn_org t \<and>
    (\<exists>tid. ByWorkOSOrgID (\<lambda>_. None) (tn_org t) rg' = Inr tid)"
proof -
  have t: "t \<in> set (rg_tenants rg)" "tn_id t = mo_tenant o'" using assms(1) by (auto simp: row_of_def find_Some_iff)
  then have m: "matches (\<lambda>t. tn_id t = mo_tenant o') rg" by (auto simp: matches_def list_ex_iff)
  let ?f = "\<lambda>t. t\<lparr>tn_pool := ''B'', tn_dsn := Some (mo_target o'), tn_updated := now\<rparr>"
  let ?g = "\<lambda>t. t\<lparr>tn_state := ''active'', tn_updated := now\<rparr>"
  let ?rg1 = "updateWhere (\<lambda>t. tn_id t = mo_tenant o') ?f rg"
  let ?rg2 = "updateWhere (\<lambda>t. tn_id t = mo_tenant o') ?g ?rg1"
  have "matches (\<lambda>t. tn_id t = mo_tenant o') ?rg1" using m by (simp add: matches_updateWhere)
  then have fin: "finishMigration fault now o' rg = writeMigrationAudit fault o' ?rg2"
    using m assms(2,3) by (simp add: finishMigration_def UpdatePoolAndDSN_def SetLifecycleState_def lifecycleStates_def)
  obtain rg' where rg': "writeMigrationAudit fault o' ?rg2 = (Inr (), rg')" "rg_tenants rg' = rg_tenants ?rg2"
    using assms(4) by (auto simp: writeMigrationAudit_def)
  have row: "row_of rg' (mo_tenant o') = Some (?g (?f t))"
    using assms(1) t(2) by (simp add: row_of_def rg' row_updateWhere)
  have "?g (?f t) \<in> set (rg_tenants rg')" using t by (force simp: rg' updateWhere_def)
  then have "List.find (\<lambda>u. tn_org u = tn_org t \<and> tn_state u \<in> {''active'', ''suspended''}) (rg_tenants rg') \<noteq> None"
    unfolding find_None_iff not_not by (intro exI [of _ "?g (?f t)"]) simp
  then have "\<exists>tid. ByWorkOSOrgID (\<lambda>_. None) (tn_org t) rg' = Inr tid" by (auto simp: ByWorkOSOrgID_def)
  with row fin rg'(1) show ?thesis by auto
qed

theorem migration_revives_deleted_witness:
  "\<exists>rg rg' t'. Delete no_faults 2 ''a'' ''ops'' True (snd (Suspend no_faults 1 ''a'' ''ops'' registry_a)) = (Inr (), rg) \<and>
     state_of rg ''a'' = Some ''deleted'' \<and> rg_schemas rg = [] \<and>
     finishMigration no_faults 3 opts_a rg = (Inr (), rg') \<and> row_of rg' ''a'' = Some t' \<and> tn_state t' = ''active''"
proof -
  let ?d = "Delete no_faults 2 ''a'' ''ops'' True (snd (Suspend no_faults 1 ''a'' ''ops'' registry_a))"
  obtain r rg where d: "?d = (r, rg)" by fastforce
  have "fst ?d = Inr () \<and> state_of (snd ?d) ''a'' = Some ''deleted'' \<and> rg_schemas (snd ?d) = []" by code_simp
  with d have s: "r = Inr ()" "state_of rg ''a'' = Some ''deleted''" "rg_schemas rg = []" by simp_all
  then obtain t where t: "row_of rg ''a'' = Some t" by (auto simp: state_of_def row_of_def)
  have o: "mo_tenant opts_a = ''a''" by (simp add: opts_a_def)
  from migration_revives_deleted [where o' = opts_a and now = 3 and fault = no_faults, unfolded o, OF t] d s show ?thesis by auto
qed

section \<open>Redaction\<close>

lemma indexOf_scheme: "CHR '':'' \<notin> set u \<Longrightarrow> indexOf (u @ CHR '':'' # CHR ''/'' # CHR ''/'' # s) ''://'' = Some (length u)"
  by (induction u) auto

lemma indexOf_byte: "c \<notin> set u \<Longrightarrow> indexOf (u @ c # s) [c] = Some (length u)"
  by (induction u) (auto simp: has_prefix_def)

text \<open>
  The audit row of a migration keeps the target without its password: between the user and the host
  there is only the mask, provided that the password holds no at sign. With one, the part of the
  password after its first at sign is kept (lemma \<open>redact_leaks\<close>).
\<close>
theorem redact_dsn_hides:
  assumes "CHR '':'' \<notin> set scheme" "CHR ''@'' \<notin> set scheme" "CHR '':'' \<notin> set user" "CHR ''@'' \<notin> set user" "CHR ''@'' \<notin> set pass"
  shows "redactDSN (scheme @ ''://'' @ user @ '':'' @ pass @ ''@'' @ host) = scheme @ ''://'' @ user @ '':***@'' @ host"
proof -
  let ?dsn = "scheme @ ''://'' @ user @ '':'' @ pass @ ''@'' @ host"
  have a: "indexOf ?dsn ''://'' = Some (length scheme)" using indexOf_scheme [OF assms(1)] by simp
  have b: "indexOf (drop (length scheme) ?dsn) ''@'' = Some (3 + length user + 1 + length pass)"
    using indexOf_byte [of "CHR ''@''" "''://'' @ user @ '':'' @ pass" host] assms(4,5) by simp
  have c: "indexOf (user @ '':'' @ pass) '':'' = Some (length user)" using indexOf_byte [OF assms(3), of pass] by simp
  have d: "drop (length scheme + (3 + length user + 1 + length pass)) ?dsn = CHR ''@'' # host"
    "drop (length scheme + 3) ?dsn = (user @ '':'' @ pass) @ ''@'' @ host" "take (length scheme + 3) ?dsn = scheme @ ''://''"
    by (simp_all add: eval_nat_numeral)
  have e: "length scheme + (3 + length user + 1 + length pass) - (length scheme + 3) = length (user @ '':'' @ pass)" by simp
  show ?thesis
    unfolding redactDSN_def a option.case b Let_def d e append_eq_conv_conj [THEN iffD1, OF refl, THEN conjunct1, symmetric]
    using c by simp
qed

theorem redact_dsn_hides_witness:
  "CHR ''@'' \<notin> set ''pw'' \<and> redactDSN ''postgres://app:pw@db/neksur'' = ''postgres://app:***@db/neksur''"
  using redact_dsn_hides [of "''postgres''" "''app''" "''pw''" "''db/neksur''"] by simp

lemma redact_leaks: "redactDSN ''postgres://app:p@ss@db/neksur'' = ''postgres://app:***@ss@db/neksur''"
  by code_simp

end
