(* ===== verification/Tenant_Provision.thy ===== *)
theory Tenant_Provision
  imports Tenant_Session Go_Time
begin

text \<open>
  Provisioning of a tenant (\<open>internal/tenant/provision.go\<close>) and the smoke checks after it
  (\<open>smoke.go\<close>): the graph and its schema, the role and its grants, the migrations, the revocation
  on the audit log, peering, certificates.

  The catalogue of the database is explicit: graphs, roles, tables, table privileges, default
  privileges, memberships. A statement is a constructor with its SQL text (\<open>sqlText\<close>) and its
  meaning on the catalogue (\<open>applyStmt\<close>); whether a statement fails is a parameter over its text.
  Atlas, terraform and the AWS command line are parameters.
\<close>

section \<open>The catalogue\<close>

datatype priv = SelectPriv | InsertPriv | UpdatePriv | DeletePriv | TruncatePriv

record catalogue =
  ct_graphs :: "string list"
  ct_roles :: "string list"
  ct_tables :: "(string \<times> string) list"
  ct_privs :: "(string \<times> string \<times> string \<times> priv) list"
  ct_defaults :: "(string \<times> string \<times> priv) list"
  ct_usage :: "(string \<times> string) list"
  ct_members :: "(string \<times> string) list"
  ct_audit :: "(string \<times> string) list"

type_synonym sql_faults = "string \<Rightarrow> string option"

datatype provision_error =
    NilPool | EmptyDSN | EmptyTfDir | BadVPC | BadRegion | SqlError string | ToolFailed string | NoOutput | SameTenant
  | CrossTenantAccess | WrongState string | NotPgError string | PeeringNotActive | Canceled | SmokeFailed graph_error | IdMismatch

datatype stmt =
    EnsureRole string
  | GrantUsageOnSchema string string
  | GrantOnAllTables "priv list" string string
  | GrantUsageOnSequences string string
  | DefaultTablePrivs "priv list" string string
  | DefaultSequenceUsage string string
  | GrantMembership string string
  | RevokeOnTable "priv list" string string string

fun privText :: "priv \<Rightarrow> string" where
  "privText SelectPriv = ''SELECT''"
| "privText InsertPriv = ''INSERT''"
| "privText UpdatePriv = ''UPDATE''"
| "privText DeletePriv = ''DELETE''"
| "privText TruncatePriv = ''TRUNCATE''"

definition privList :: "priv list \<Rightarrow> string" where
  "privList ps = join_with '', '' (map privText ps)"

definition quoteLiteral :: "string \<Rightarrow> string" where
  "quoteLiteral s = quoteSQLString s"

text \<open>Schemas other than the one of the tenant are written without quotes.\<close>

fun sqlText :: "stmt \<Rightarrow> string" where
  "sqlText (EnsureRole r) = ''DO $$ BEGIN IF NOT EXISTS (SELECT 1 FROM pg_roles WHERE rolname = '' @ quoteLiteral r @
     '') THEN CREATE ROLE '' @ sanitizeIdent [r] @
     '' NOLOGIN NOSUPERUSER NOBYPASSRLS NOCREATEDB NOCREATEROLE NOREPLICATION; END IF; END $$ LANGUAGE plpgsql''"
| "sqlText (GrantUsageOnSchema s r) = ''GRANT USAGE ON SCHEMA '' @ (if s = ''ag_catalog'' then s else sanitizeIdent [s]) @ '' TO '' @ sanitizeIdent [r]"
| "sqlText (GrantOnAllTables ps s r) =
     ''GRANT '' @ privList ps @ '' ON ALL TABLES IN SCHEMA '' @ (if s = ''ag_catalog'' then s else sanitizeIdent [s]) @ '' TO '' @ sanitizeIdent [r]"
| "sqlText (GrantUsageOnSequences s r) = ''GRANT USAGE ON ALL SEQUENCES IN SCHEMA '' @ sanitizeIdent [s] @ '' TO '' @ sanitizeIdent [r]"
| "sqlText (DefaultTablePrivs ps s r) =
     ''ALTER DEFAULT PRIVILEGES IN SCHEMA '' @ sanitizeIdent [s] @ '' GRANT '' @ privList ps @ '' ON TABLES TO '' @ sanitizeIdent [r]"
| "sqlText (DefaultSequenceUsage s r) =
     ''ALTER DEFAULT PRIVILEGES IN SCHEMA '' @ sanitizeIdent [s] @ '' GRANT USAGE ON SEQUENCES TO '' @ sanitizeIdent [r]"
| "sqlText (GrantMembership r m) = ''GRANT '' @ sanitizeIdent [r] @ '' TO '' @ m"
| "sqlText (RevokeOnTable ps s t r) =
     ''REVOKE '' @ privList ps @ '' ON '' @ sanitizeIdent [s] @ ''.'' @ t @ '' FROM '' @ sanitizeIdent [r] @ '' -- audit_log INSERT-only''"

definition tablesIn :: "string \<Rightarrow> catalogue \<Rightarrow> string list" where
  "tablesIn s c = map snd (filter (\<lambda>(s', _). s' = s) (ct_tables c))"

fun applyStmt :: "stmt \<Rightarrow> catalogue \<Rightarrow> catalogue" where
  "applyStmt (EnsureRole r) c = c\<lparr>ct_roles := List.insert r (ct_roles c)\<rparr>"
| "applyStmt (GrantUsageOnSchema s r) c = c\<lparr>ct_usage := List.insert (s, r) (ct_usage c)\<rparr>"
| "applyStmt (GrantOnAllTables ps s r) c =
     c\<lparr>ct_privs := List.union [(r, s, t, p). t \<leftarrow> tablesIn s c, p \<leftarrow> ps] (ct_privs c)\<rparr>"
| "applyStmt (GrantUsageOnSequences s r) c = c"
| "applyStmt (DefaultTablePrivs ps s r) c = c\<lparr>ct_defaults := List.union (map (\<lambda>p. (s, r, p)) ps) (ct_defaults c)\<rparr>"
| "applyStmt (DefaultSequenceUsage s r) c = c"
| "applyStmt (GrantMembership r m) c = c\<lparr>ct_members := List.insert (r, m) (ct_members c)\<rparr>"
| "applyStmt (RevokeOnTable ps s t r) c = c\<lparr>ct_privs := filter (\<lambda>(r', s', t', p). \<not> (r' = r \<and> s' = s \<and> t' = t \<and> p \<in> set ps)) (ct_privs c)\<rparr>"

text \<open>A new table gets the default privileges of its schema.\<close>

definition createTable :: "string \<times> string \<Rightarrow> catalogue \<Rightarrow> catalogue" where
  "createTable st c =
     (if st \<in> set (ct_tables c) then c
      else c\<lparr>ct_tables := ct_tables c @ [st],
             ct_privs := List.union (map (\<lambda>(s, r, p). (r, fst st, snd st, p)) (filter (\<lambda>(s, _). s = fst st) (ct_defaults c))) (ct_privs c)\<rparr>)"

section \<open>Steps\<close>

definition CreateGraph :: "bool \<Rightarrow> sql_faults \<Rightarrow> string \<Rightarrow> catalogue \<Rightarrow> (provision_error + unit) \<times> catalogue" where
  "CreateGraph pool fault tid c =
     (if \<not> pool then (Inl NilPool, c)
      else case List.find (\<lambda>q. fault q \<noteq> None) [''acquire'', ''LOAD age'', ''SET search_path'', ''probe ag_graph''] of
        Some q \<Rightarrow> (Inl (SqlError (the (fault q))), c)
      | None \<Rightarrow>
          if SchemaName tid \<in> set (ct_graphs c) then (Inr (), c)
          else (case fault ''SELECT create_graph($1)'' of
             Some e \<Rightarrow> (Inl (SqlError e), c)
           | None \<Rightarrow> (Inr (), c\<lparr>ct_graphs := ct_graphs c @ [SchemaName tid]\<rparr>)))"

definition roleStmts :: "string \<Rightarrow> stmt list" where
  "roleStmts tid =
     (let s = SchemaName tid; r = RoleName tid in
      [EnsureRole r,
       GrantUsageOnSchema s r,
       GrantOnAllTables [SelectPriv, InsertPriv, UpdatePriv] s r,
       GrantUsageOnSequences s r,
       DefaultTablePrivs [SelectPriv, InsertPriv, UpdatePriv] s r,
       DefaultSequenceUsage s r,
       GrantUsageOnSchema ''ag_catalog'' r,
       GrantOnAllTables [SelectPriv] ''ag_catalog'' r,
       GrantMembership r ''neksur_app''])"

text \<open>Statements one after the other; the first that fails ends the loop.\<close>

fun execAll :: "sql_faults \<Rightarrow> stmt list \<Rightarrow> catalogue \<Rightarrow> (provision_error + unit) \<times> catalogue" where
  "execAll fault [] c = (Inr (), c)"
| "execAll fault (q # qs) c =
     (case fault (sqlText q) of Some e \<Rightarrow> (Inl (SqlError e), c) | None \<Rightarrow> execAll fault qs (applyStmt q c))"

definition CreateRole :: "bool \<Rightarrow> sql_faults \<Rightarrow> string \<Rightarrow> catalogue \<Rightarrow> (provision_error + unit) \<times> catalogue" where
  "CreateRole pool fault tid c =
     (if \<not> pool then (Inl NilPool, c)
      else case fault ''begin'' of
        Some e \<Rightarrow> (Inl (SqlError e), c)
      | None \<Rightarrow>
         (case execAll fault (roleStmts tid) c of
            (Inl e, _) \<Rightarrow> (Inl e, c)
          | (Inr _, c') \<Rightarrow> (case fault ''commit'' of Some e \<Rightarrow> (Inl (SqlError e), c) | None \<Rightarrow> (Inr (), c'))))"

definition revokeStmts :: "string \<Rightarrow> stmt list" where
  "revokeStmts tid =
     [RevokeOnTable [UpdatePriv, DeletePriv] (SchemaName tid) ''audit_log'' (RoleName tid),
      RevokeOnTable [TruncatePriv] (SchemaName tid) ''audit_log'' (RoleName tid)]"

text \<open>The probe answers NULL while the table does not exist; the two revocations are not in a transaction.\<close>

definition RevokeAuditLogWrites :: "bool \<Rightarrow> sql_faults \<Rightarrow> string \<Rightarrow> catalogue \<Rightarrow> (provision_error + unit) \<times> catalogue" where
  "RevokeAuditLogWrites pool fault tid c =
     (if \<not> pool then (Inl NilPool, c)
      else case fault ''SELECT to_regclass($1)::oid'' of
        Some e \<Rightarrow> if e = ''no rows in result set'' then (Inr (), c) else (Inl (SqlError e), c)
      | None \<Rightarrow>
          if (SchemaName tid, ''audit_log'') \<notin> set (ct_tables c) then (Inr (), c)
          else execAll fault (revokeStmts tid) c)"

definition ApplyTenantMigrations ::
  "(string \<Rightarrow> string \<Rightarrow> catalogue \<Rightarrow> string option \<times> catalogue) \<Rightarrow> string \<Rightarrow> string \<Rightarrow> catalogue \<Rightarrow> (provision_error + unit) \<times> catalogue" where
  "ApplyTenantMigrations atlas baseDSN tid c =
     (if baseDSN = [] then (Inl EmptyDSN, c)
      else case atlas baseDSN (SchemaName tid) c of
        (Some e, c') \<Rightarrow> (Inl (ToolFailed e), c')
      | (None, c') \<Rightarrow> (Inr (), c'))"

section \<open>The tenant migrations\<close>

text \<open>
  What the files of \<open>migrations/postgres\<close> above the baseline 0044 do to tables and table privileges
  when they run with the schema of a tenant first on the search path. Columns, indexes, triggers and
  row policies are left out; \<open>PUBLIC\<close> stands for every role.
\<close>

datatype mig_stmt =
    CreateTableIfNotExists string string
  | GrantTable "priv list" string string string
  | RevokeTable "priv list" string string string

fun applyMig :: "mig_stmt \<Rightarrow> catalogue \<Rightarrow> catalogue" where
  "applyMig (CreateTableIfNotExists s t) c = createTable (s, t) c"
| "applyMig (GrantTable ps s t r) c = c\<lparr>ct_privs := List.union (map (\<lambda>p. (r, s, t, p)) ps) (ct_privs c)\<rparr>"
| "applyMig (RevokeTable ps s t r) c =
     c\<lparr>ct_privs := filter (\<lambda>(r', s', t', p). \<not> (r' = r \<and> s' = s \<and> t' = t \<and> p \<in> set ps)) (ct_privs c)\<rparr>"

definition tenantMigrations :: "string \<Rightarrow> (string \<times> mig_stmt list) list" where
  "tenantMigrations s =
     [(''0050'', [CreateTableIfNotExists s ''audit_log'']),
      (''0051'', [CreateTableIfNotExists s ''query_history'']),
      (''0052'', [CreateTableIfNotExists s ''policies'']),
      (''0060'', [CreateTableIfNotExists s ''catalog_credentials'',
                 GrantTable [SelectPriv] s ''catalog_credentials'' ''PUBLIC'',
                 RevokeTable [InsertPriv, UpdatePriv, DeletePriv] s ''catalog_credentials'' ''PUBLIC'']),
      (''0061'', [CreateTableIfNotExists s ''policy_cache'']),
      (''0062'', [CreateTableIfNotExists s ''detection_runs'']),
      (''0063'', [CreateTableIfNotExists s ''lineage_inbox'']),
      (''0064'', [CreateTableIfNotExists ''staging'' ''iceberg_tables'', CreateTableIfNotExists ''staging'' ''iceberg_columns'',
                 CreateTableIfNotExists ''staging'' ''iceberg_snapshots'']),
      (''0065'', []),
      (''0066'', []),
      (''0070'', [CreateTableIfNotExists ''public'' ''engines'',
                 GrantTable [InsertPriv, UpdatePriv, DeletePriv] ''public'' ''engines'' ''admin_role'',
                 GrantTable [SelectPriv] ''public'' ''engines'' ''neksur_app'']),
      (''0071'', []),
      (''0072'', [CreateTableIfNotExists s ''policy_compile_log'',
                 GrantTable [InsertPriv] s ''policy_compile_log'' ''neksur_app'',
                 GrantTable [SelectPriv] s ''policy_compile_log'' ''neksur_app'',
                 RevokeTable [UpdatePriv, DeletePriv, TruncatePriv] s ''policy_compile_log'' ''neksur_app'']),
      (''0073'', []),
      (''0080'', [CreateTableIfNotExists s ''snapshots'']),
      (''0081'', [])]"

text \<open>Atlas runs the pending files in order and may stop between two of them: a segment of the list.\<close>

definition runMigrations :: "string \<Rightarrow> nat \<Rightarrow> nat \<Rightarrow> catalogue \<Rightarrow> catalogue" where
  "runMigrations tid m n c = fold applyMig (concat (map snd (take n (drop m (tenantMigrations (SchemaName tid)))))) c"

section \<open>Peering and certificates\<close>

record peering_opts =
  po_tenant :: string
  po_vpc :: string
  po_region :: string
  po_account :: string

record peering_result =
  pr_connection :: string
  pr_sg :: string
  pr_pending :: bool

definition peeringArgs :: "string \<Rightarrow> peering_opts \<Rightarrow> string list" where
  "peeringArgs tfDir o' =
     [''-chdir='' @ tfDir, ''apply'', ''-auto-approve'',
      ''-target=module.customer_peering['' @ [CHR 0x22] @ po_tenant o' @ [CHR 0x22] @ '']'',
      ''-var=tenant_uuid='' @ po_tenant o', ''-var=customer_vpc_id='' @ po_vpc o', ''-var=customer_region='' @ po_region o'] @
     (if po_account o' = [] then [] else [''-var=customer_aws_account='' @ po_account o'])"

definition InitiatePeering ::
  "(string list \<Rightarrow> string option) \<Rightarrow> (string list \<Rightarrow> string + (string \<rightharpoonup> peering_result)) \<Rightarrow> string \<Rightarrow> peering_opts \<Rightarrow>
   provision_error + peering_result" where
  "InitiatePeering terraform outputs tfDir o' =
     (if \<not> ValidateCustomerVPCID (po_vpc o') then Inl BadVPC
      else if \<not> ValidateAWSRegion (po_region o') then Inl BadRegion
      else if tfDir = [] then Inl EmptyTfDir
      else case terraform (peeringArgs tfDir o') of
        Some e \<Rightarrow> Inl (ToolFailed e)
      | None \<Rightarrow>
         (case outputs [''-chdir='' @ tfDir, ''output'', ''-json'', ''customer_peering_outputs''] of
            Inl e \<Rightarrow> Inl (ToolFailed e)
          | Inr m \<Rightarrow> (case m (po_tenant o') of None \<Rightarrow> Inl NoOutput | Some v \<Rightarrow> Inr v)))"

record cert_bundle =
  cb_certificate :: string
  cb_chain :: string
  cb_subject :: string

definition IssueClientCert :: "(string list \<Rightarrow> string + string) \<Rightarrow> string \<Rightarrow> string \<Rightarrow> provision_error + cert_bundle" where
  "IssueClientCert aws arn tid =
     (if arn = [] then
        Inr \<lparr>cb_certificate = ''-----BEGIN CERTIFICATE-----'' @ [CHR 0x0A] @ ''SYNTHETIC-MOCK-NEKSUR-PHASE-0.5'' @ [CHR 0x0A] @
                ''-----END CERTIFICATE-----'' @ [CHR 0x0A],
             cb_chain = ''-----BEGIN CERTIFICATE-----'' @ [CHR 0x0A] @ ''SYNTHETIC-MOCK-CHAIN'' @ [CHR 0x0A] @
                ''-----END CERTIFICATE-----'' @ [CHR 0x0A],
             cb_subject = ''CN=neksur-tenant-'' @ tid @ '', O=Neksur (mock), C=US''\<rparr>
      else case aws [''acm-pca'', ''issue-certificate'', ''--certificate-authority-arn'', arn, ''--csr'', ''fileb:///dev/stdin'',
             ''--signing-algorithm'', ''SHA256WITHRSA'', ''--validity'', ''Type=DAYS,Value=365'',
             ''--template-arn'', ''arn:aws:acm-pca:::template/EndEntityClientAuthCertificate/V1''] of
        Inl e \<Rightarrow> Inl (ToolFailed e)
      | Inr out \<Rightarrow> Inr \<lparr>cb_certificate = out, cb_chain = [], cb_subject = ''CN=neksur-tenant-'' @ tid\<rparr>)"

section \<open>Smoke checks\<close>

definition pgwireBackoff :: "nat list" where
  "pgwireBackoff = [1, 2, 5, 15, 30, 60, 120]"

text \<open>
  The probe loop: \<open>connect i\<close> is the answer of attempt \<open>i\<close>, \<open>done i\<close> and \<open>woken i\<close> tell whether the
  context is over before the attempt and during the sleep after it. The second component is the
  time slept.
\<close>

fun pgwireFrom :: "(nat \<Rightarrow> bool) \<Rightarrow> (nat \<Rightarrow> bool) \<Rightarrow> (nat \<Rightarrow> bool) \<Rightarrow> nat \<Rightarrow> nat list \<Rightarrow> (provision_error + unit) \<times> nat" where
  "pgwireFrom canceled connects woken i [] = (Inl PeeringNotActive, 0)"
| "pgwireFrom canceled connects woken i (d # ds) =
     (if canceled i then (Inl Canceled, 0)
      else if connects i then (Inr (), 0)
      else if woken i then (Inl Canceled, 0)
      else case pgwireFrom canceled connects woken (Suc i) ds of (r, n) \<Rightarrow> (r, d + n))"

definition PgwireReachable :: "(nat \<Rightarrow> bool) \<Rightarrow> (nat \<Rightarrow> bool) \<Rightarrow> (nat \<Rightarrow> bool) \<Rightarrow> (provision_error + unit) \<times> nat" where
  "PgwireReachable canceled connects woken = pgwireFrom canceled connects woken 0 pgwireBackoff"

definition smokeInsertSQL :: string where
  "smokeInsertSQL = ''INSERT INTO audit_log (occurred_at, actor_user_id, event_type, payload) VALUES (now(), $1, $2, $3::jsonb) RETURNING id''"

definition smokeSelectSQL :: string where
  "smokeSelectSQL = ''SELECT id FROM audit_log WHERE id = $1''"

text \<open>A row is read as one column of text; another shape does not scan.\<close>

definition oneCell :: "string list list \<Rightarrow> graph_error + string" where
  "oneCell rows = (case rows of [x] # _ \<Rightarrow> Inr x | [] \<Rightarrow> Inl (TransportError ''no rows in result set'') | _ \<Rightarrow> Inl (TransportError ''scan''))"

definition GatewayCommitAuditEdge :: "'db pg \<Rightarrow> string \<Rightarrow> 'db \<Rightarrow> (graph_error + unit) \<times> 'db" where
  "GatewayCommitAuditEdge pg tid db =
     WithTenantTx pg (Some tid) (\<lambda>db0.
       rbind (txQuery pg smokeInsertSQL [''provisioner@neksur.com'', ''tenant.smoke'',
         ''{'' @ [CHR 0x22] @ ''smoke_marker'' @ [CHR 0x22] @ '':'' @ [CHR 0x22] @ ''tenant.smoke.GatewayCommitAuditEdge'' @ [CHR 0x22] @ ''}''] db0)
         (\<lambda>(rows, db1). rbind (oneCell rows) (\<lambda>inserted.
       rbind (txQuery pg smokeSelectSQL [inserted] db1) (\<lambda>(back, db2). rbind (oneCell back) (\<lambda>got.
         if got \<noteq> inserted then Inl (Rejected ''id mismatch'') else Inr ((), db2)))))) db"

definition PolicyFetch :: "'db pg \<Rightarrow> string \<Rightarrow> 'db \<Rightarrow> (graph_error + unit) \<times> 'db" where
  "PolicyFetch pg tid db =
     WithTenantTx pg (Some tid) (\<lambda>db0.
       rbind (txQuery pg ''SELECT count(*) FROM policies'' [] db0) (\<lambda>(rows, db1). rbind (oneCell rows) (\<lambda>_. Inr ((), db1)))) db"

datatype probe_error = PgCode string | OtherError string

definition CrossTenantProbe ::
  "sql_faults \<Rightarrow> (string \<Rightarrow> probe_error option) \<Rightarrow> string \<Rightarrow> string \<Rightarrow> provision_error + unit" where
  "CrossTenantProbe fault read tid other =
     (if tid = other then Inl SameTenant
      else case List.find (\<lambda>q. fault q \<noteq> None) [''acquire'', ''begin'', ''SET LOCAL ROLE '' @ sanitizeIdent [RoleName tid]] of
        Some q \<Rightarrow> Inl (SqlError (the (fault q)))
      | None \<Rightarrow>
         (case read (''SELECT * FROM '' @ sanitizeIdent [SchemaName other, ''audit_log''] @ '' LIMIT 1'') of
            None \<Rightarrow> Inl CrossTenantAccess
          | Some (PgCode code) \<Rightarrow> if code = ''42501'' \<or> code = ''42P01'' then Inr () else Inl (WrongState code)
          | Some (OtherError e) \<Rightarrow> Inl (NotPgError e)))"

definition RunSmoke ::
  "bool \<Rightarrow> 'db pg \<Rightarrow> (string \<Rightarrow> provision_error + unit) \<Rightarrow> (string \<Rightarrow> string \<Rightarrow> 'db \<Rightarrow> string + 'db) \<Rightarrow> string \<Rightarrow> string option \<Rightarrow> 'db \<Rightarrow>
   (provision_error + unit) \<times> 'db" where
  "RunSmoke pool pg probe auditInsert tid other db =
     (if \<not> pool then (Inl NilPool, db)
      else case GatewayCommitAuditEdge pg tid db of
        (Inl e, db1) \<Rightarrow> (Inl (SmokeFailed e), db1)
      | (Inr _, db1) \<Rightarrow>
         (case PolicyFetch pg tid db1 of
            (Inl e, db2) \<Rightarrow> (Inl (SmokeFailed e), db2)
          | (Inr _, db2) \<Rightarrow>
             (case (case other of None \<Rightarrow> Inr () | Some p \<Rightarrow> probe p) of
                Inl e \<Rightarrow> (Inl e, db2)
              | Inr _ \<Rightarrow>
                 (case auditInsert tid ''tenant.onboarded'' db2 of
                    Inl e \<Rightarrow> (Inl (SqlError e), db2)
                  | Inr db3 \<Rightarrow> (Inr (), db3)))))"

section \<open>Privileges\<close>

definition privs_of :: "string \<Rightarrow> string \<Rightarrow> string \<Rightarrow> catalogue \<Rightarrow> priv set" where
  "privs_of r s t c = {p. (r, s, t, p) \<in> set (ct_privs c)}"

lemma execAll_Inr: "execAll fault qs c = (Inr x, c') \<Longrightarrow> c' = fold applyStmt qs c"
  by (induction qs arbitrary: c) (auto split: option.splits)

lemma CreateRole_Inr: "CreateRole pool fault tid c = (Inr x, c') \<Longrightarrow> c' = fold applyStmt (roleStmts tid) c"
  using execAll_Inr by (auto simp: CreateRole_def split: if_splits option.splits prod.splits sum.splits)

lemma schema_not_catalog: "SchemaName tid \<noteq> ''ag_catalog''"
  by (simp add: SchemaName_def)

lemma role_stmts_privs:
  assumes "c' = fold applyStmt (roleStmts tid) c"
  shows "set (ct_privs c') = set (ct_privs c) \<union>
      {(RoleName tid, SchemaName tid, t, p) | t p. (SchemaName tid, t) \<in> set (ct_tables c) \<and> p \<in> {SelectPriv, InsertPriv, UpdatePriv}} \<union>
      {(RoleName tid, ''ag_catalog'', t, SelectPriv) | t. (''ag_catalog'', t) \<in> set (ct_tables c)}"
    "set (ct_defaults c') = set (ct_defaults c) \<union> {(SchemaName tid, RoleName tid, p) | p. p \<in> {SelectPriv, InsertPriv, UpdatePriv}}"
    "ct_tables c' = ct_tables c"
  unfolding assms by (auto simp: roleStmts_def Let_def tablesIn_def)

lemma createTable_privs:
  "set (ct_privs (createTable (s, t) c)) = set (ct_privs c) \<union>
     (if (s, t) \<in> set (ct_tables c) then {} else {(r, s, t, p) | r p. (s, r, p) \<in> set (ct_defaults c)})"
  "ct_defaults (createTable (s, t) c) = ct_defaults c"
  "set (ct_tables (createTable (s, t) c)) = insert (s, t) (set (ct_tables c))"
  by (auto simp: createTable_def image_iff)

lemma fold_createTable:
  "ct_defaults (fold createTable ts c) = ct_defaults c"
  "set (ct_tables (fold createTable ts c)) = set ts \<union> set (ct_tables c)"
  by (induction ts arbitrary: c) (auto simp: createTable_privs split: if_splits)

lemma fold_createTable_keeps: "set (ct_privs c) \<subseteq> set (ct_privs (fold createTable ts c))"
proof (induction ts arbitrary: c)
  case (Cons st ts)
  have "set (ct_privs c) \<subseteq> set (ct_privs (createTable st c))" by (cases st) (simp add: createTable_privs)
  with Cons show ?case by fastforce
qed simp

lemma fold_createTable_defaults:
  assumes "(s, t) \<in> set ts" "(s, t) \<notin> set (ct_tables c)" "(s, r, p) \<in> set (ct_defaults c)"
  shows "(r, s, t, p) \<in> set (ct_privs (fold createTable ts c))"
  using assms
proof (induction ts arbitrary: c)
  case (Cons st ts)
  obtain s' t' where st: "st = (s', t')" by fastforce
  show ?case
  proof (cases "st = (s, t)")
    case True
    then have "(r, s, t, p) \<in> set (ct_privs (createTable st c))" using Cons.prems by (auto simp: createTable_privs)
    then show ?thesis using fold_createTable_keeps by fastforce
  next
    case False
    then have "(s, t) \<in> set ts" "(s, t) \<notin> set (ct_tables (createTable st c))" "(s, r, p) \<in> set (ct_defaults (createTable st c))"
      using Cons.prems by (auto simp: createTable_privs st)
    then show ?thesis using Cons.IH by simp
  qed
qed simp

lemma revoke_privs:
  "set (ct_privs (fold applyStmt (revokeStmts tid) c)) =
     {(r, s, t, p) \<in> set (ct_privs c). \<not> (r = RoleName tid \<and> s = SchemaName tid \<and> t = ''audit_log'' \<and> p \<in> {UpdatePriv, DeletePriv, TruncatePriv})}"
  by (auto simp: revokeStmts_def)

lemma priv_cases: "p \<in> {SelectPriv, InsertPriv, UpdatePriv, DeletePriv, TruncatePriv}"
  by (cases p) simp_all

text \<open>
  C22 The audit log of a provisioned tenant is append-only for its role: after the role, the migrations
  that create the tables and the revocation, the role can read and insert into the audit log of its
  schema, and nothing else.
\<close>
theorem audit_log_append_only:
  assumes "CreateRole pool fault tid c0 = (Inr u, c1)"
    and "(SchemaName tid, ''audit_log'') \<notin> set (ct_tables c0)" "(SchemaName tid, ''audit_log'') \<in> set tables"
    and "ApplyTenantMigrations (\<lambda>dsn schema c. (None, fold createTable tables c)) dsn tid c1 = (Inr v, c2)"
    and "RevokeAuditLogWrites pool fault' tid c2 = (Inr w, c3)" "fault' ''SELECT to_regclass($1)::oid'' = None"
  shows "privs_of (RoleName tid) (SchemaName tid) ''audit_log'' c3 = {SelectPriv, InsertPriv}"
proof -
  let ?a = "(SchemaName tid, ''audit_log'')"
  note r = role_stmts_privs [OF CreateRole_Inr [OF assms(1)]]
  have c2: "c2 = fold createTable tables c1" using assms(4) by (auto simp: ApplyTenantMigrations_def split: if_splits)
  have "?a \<notin> set (ct_tables c1)" using r(3) assms(2) by simp
  then have granted: "(RoleName tid, SchemaName tid, ''audit_log'', p) \<in> set (ct_privs c2)" if "p \<in> {SelectPriv, InsertPriv, UpdatePriv}" for p
    using fold_createTable_defaults [OF assms(3), of c1 "RoleName tid" p] r(2) that unfolding c2 by blast
  have "?a \<in> set (ct_tables c2)" using assms(3) by (simp add: c2 fold_createTable)
  then have c3: "c3 = fold applyStmt (revokeStmts tid) c2"
    using assms(5,6) execAll_Inr by (auto simp: RevokeAuditLogWrites_def split: if_splits)
  show ?thesis
  proof (intro set_eqI)
    fix p
    show "p \<in> privs_of (RoleName tid) (SchemaName tid) ''audit_log'' c3 \<longleftrightarrow> p \<in> {SelectPriv, InsertPriv}"
      using granted [of p] by (cases p) (simp_all add: privs_of_def c3 revoke_privs)
  qed
qed

text \<open>
  Running the provisioning again undoes that: \<open>CreateRole\<close>, which \<open>tenant create\<close> and the bootstrap
  step call and whose comment says that every statement can be repeated, grants the update of every
  existing table, the audit log included, until the revocation is run once more.
\<close>
theorem reprovision_reopens_audit_log:
  assumes "CreateRole pool fault tid c = (Inr u, c')" "(SchemaName tid, ''audit_log'') \<in> set (ct_tables c)"
  shows "UpdatePriv \<in> privs_of (RoleName tid) (SchemaName tid) ''audit_log'' c'"
  using role_stmts_privs(1) [OF CreateRole_Inr [OF assms(1)]] assms(2) by (auto simp: privs_of_def)

text \<open>
  What a role may do with a table in PostgreSQL: it, a role it is a member of, or \<open>PUBLIC\<close> has the usage
  of the schema, and one of them has the privilege on the table.
\<close>

definition roleSet :: "string \<Rightarrow> catalogue \<Rightarrow> string set" where
  "roleSet r c = insert ''PUBLIC'' {g. (g, r) \<in> (set (ct_members c))\<^sup>*}"

definition canAccess :: "string \<Rightarrow> string \<Rightarrow> string \<Rightarrow> priv \<Rightarrow> catalogue \<Rightarrow> bool" where
  "canAccess r s t p c \<longleftrightarrow>
     (\<exists>g \<in> roleSet r c. (s, g) \<in> set (ct_usage c)) \<and> (\<exists>g \<in> roleSet r c. (g, s, t, p) \<in> set (ct_privs c))"

text \<open>
  Any sequence of provisioning steps, of any tenants, with failures. It starts from a database in which
  only the two fixed roles have table privileges, only they and, for the schemas \<open>public\<close> and
  \<open>ag_catalog\<close>, \<open>PUBLIC\<close> have the usage of a schema, and no role of a tenant is a member of anything.
  Besides the steps, tables appear in the schema of a tenant: those of its graph and of Atlas.
\<close>

abbreviation fixedRoles :: "string set" where
  "fixedRoles \<equiv> {''admin_role'', ''neksur_app''}"

inductive provisioned :: "catalogue \<Rightarrow> bool" where
  fresh: "\<forall>(r, s, t, p) \<in> set (ct_privs c). r \<in> fixedRoles \<Longrightarrow> ct_defaults c = [] \<Longrightarrow>
    \<forall>(s, r) \<in> set (ct_usage c). r \<in> fixedRoles \<or> r = ''PUBLIC'' \<and> s \<in> {''public'', ''ag_catalog''} \<Longrightarrow>
    \<forall>(g, m) \<in> set (ct_members c). \<forall>tid. m \<noteq> RoleName tid \<Longrightarrow> provisioned c"
| graph: "provisioned c \<Longrightarrow> provisioned (snd (CreateGraph pool fault tid c))"
| role: "provisioned c \<Longrightarrow> provisioned (snd (CreateRole pool fault tid c))"
| table: "provisioned c \<Longrightarrow> provisioned (createTable (SchemaName tid, t) c)"
| migrations: "provisioned c \<Longrightarrow> provisioned (runMigrations tid m n c)"
| revoke: "provisioned c \<Longrightarrow> provisioned (snd (RevokeAuditLogWrites pool fault tid c))"

definition privOK :: "string \<Rightarrow> string \<Rightarrow> priv \<Rightarrow> bool" where
  "privOK r s p \<longleftrightarrow> r \<in> fixedRoles \<or> (r = ''PUBLIC'' \<and> (\<exists>tid. s = SchemaName tid)) \<or>
     (\<exists>tid. r = RoleName tid \<and> (s = SchemaName tid \<or> s = ''ag_catalog'' \<and> p = SelectPriv))"

definition usageOK :: "string \<Rightarrow> string \<Rightarrow> bool" where
  "usageOK s r \<longleftrightarrow> r \<in> fixedRoles \<or> (r = ''PUBLIC'' \<and> s \<in> {''public'', ''ag_catalog''}) \<or>
     (\<exists>tid. r = RoleName tid \<and> s \<in> {SchemaName tid, ''ag_catalog''})"

definition confined :: "catalogue \<Rightarrow> bool" where
  "confined c \<longleftrightarrow>
     (\<forall>(r, s, t, p) \<in> set (ct_privs c). privOK r s p) \<and>
     (\<forall>(s, r, p) \<in> set (ct_defaults c). \<exists>tid. r = RoleName tid \<and> s = SchemaName tid) \<and>
     (\<forall>(s, r) \<in> set (ct_usage c). usageOK s r) \<and>
     (\<forall>(g, m) \<in> set (ct_members c). \<forall>tid. m \<noteq> RoleName tid)"

lemma RoleName_inj: "RoleName a = RoleName b \<longleftrightarrow> SchemaName a = SchemaName b"
  by (simp add: RoleName_def)

lemma RoleName_other: "RoleName tid \<notin> fixedRoles" "RoleName tid \<noteq> ''PUBLIC''" "''neksur_app'' \<noteq> RoleName tid"
  by (simp_all add: RoleName_def SchemaName_def)

lemma confined_createTable: "confined c \<Longrightarrow> confined (createTable st c)"
proof -
  assume c: "confined c"
  obtain s t where st: "st = (s, t)" by fastforce
  have rest: "ct_usage (createTable st c) = ct_usage c" "ct_members (createTable st c) = ct_members c"
    by (simp_all add: createTable_def)
  have "privOK r s p" if "(s, r, p) \<in> set (ct_defaults c)" for r p
    using c that by (auto simp: confined_def privOK_def)
  then show ?thesis using c rest by (auto simp: confined_def createTable_privs st split: if_splits)
qed

text \<open>The grants of the migrations go to the fixed roles, or to \<open>PUBLIC\<close> inside the schema of the tenant.\<close>

lemma confined_mig:
  assumes "confined c" "\<And>ps s t r. m = GrantTable ps s t r \<Longrightarrow> r \<in> fixedRoles \<or> r = ''PUBLIC'' \<and> (\<exists>tid. s = SchemaName tid)"
  shows "confined (applyMig m c)"
proof (cases m)
  case (CreateTableIfNotExists s t)
  then show ?thesis using confined_createTable [OF assms(1)] by simp
next
  case (GrantTable ps s t r)
  then show ?thesis using assms(1) assms(2) [OF GrantTable] by (auto simp: confined_def privOK_def)
next
  case (RevokeTable ps s t r)
  then show ?thesis using assms(1) by (auto simp: confined_def)
qed

lemma migration_grants:
  "GrantTable ps s t r \<in> set (concat (map snd (take n (drop m (tenantMigrations (SchemaName tid)))))) \<Longrightarrow>
   r \<in> fixedRoles \<or> r = ''PUBLIC'' \<and> s = SchemaName tid"
proof -
  assume "GrantTable ps s t r \<in> set (concat (map snd (take n (drop m (tenantMigrations (SchemaName tid))))))"
  then have "GrantTable ps s t r \<in> set (concat (map snd (tenantMigrations (SchemaName tid))))"
    by (auto dest!: in_set_takeD in_set_dropD)
  then show ?thesis by (auto simp: tenantMigrations_def)
qed

lemma confined_migs:
  assumes "confined c"
    and "\<And>ps s t r. GrantTable ps s t r \<in> set ms \<Longrightarrow> r \<in> fixedRoles \<or> r = ''PUBLIC'' \<and> (\<exists>tid. s = SchemaName tid)"
  shows "confined (fold applyMig ms c)"
  using assms
proof (induction ms arbitrary: c)
  case (Cons m ms)
  have "confined (applyMig m c)" using Cons.prems(2) by (intro confined_mig [OF Cons.prems(1)]) (metis list.set_intros(1))
  moreover have "r \<in> fixedRoles \<or> r = ''PUBLIC'' \<and> (\<exists>tid. s = SchemaName tid)" if "GrantTable ps s t r \<in> set ms" for ps s t r
    using Cons.prems(2) [of ps s t r] that by simp
  ultimately show ?case unfolding fold_simps by (rule Cons.IH)
qed simp

lemma confined_migrations: "confined c \<Longrightarrow> confined (runMigrations tid m n c)"
  unfolding runMigrations_def by (rule confined_migs) (use migration_grants in blast)+

lemma confined_role:
  assumes "confined c" "c' = fold applyStmt (roleStmts tid) c"
  shows "confined c'"
proof -
  have "set (ct_usage c') = set (ct_usage c) \<union> {(SchemaName tid, RoleName tid), (''ag_catalog'', RoleName tid)}"
    "set (ct_members c') = insert (RoleName tid, ''neksur_app'') (set (ct_members c))"
    unfolding assms(2) by (auto simp: roleStmts_def Let_def)
  with assms(1) show ?thesis
    unfolding confined_def role_stmts_privs [OF assms(2)] by (auto simp: privOK_def usageOK_def RoleName_other)
qed

lemma confined_less:
  "confined c \<Longrightarrow> set (ct_privs c') \<subseteq> set (ct_privs c) \<Longrightarrow> ct_defaults c' = ct_defaults c \<Longrightarrow> ct_usage c' = ct_usage c \<Longrightarrow>
   ct_members c' = ct_members c \<Longrightarrow> confined c'"
  by (auto simp: confined_def)

lemma execAll_revoke:
  "set (ct_privs (snd (execAll fault (revokeStmts tid) c))) \<subseteq> set (ct_privs c) \<and>
   ct_defaults (snd (execAll fault (revokeStmts tid) c)) = ct_defaults c \<and>
   ct_usage (snd (execAll fault (revokeStmts tid) c)) = ct_usage c \<and>
   ct_members (snd (execAll fault (revokeStmts tid) c)) = ct_members c"
  by (auto simp: revokeStmts_def split: option.splits)

lemma provisioned_confined: "provisioned c \<Longrightarrow> confined c"
proof (induction rule: provisioned.induct)
  case (role c pool fault tid)
  obtain r c' where e: "CreateRole pool fault tid c = (r, c')" by fastforce
  show ?case
  proof (cases r)
    case (Inl x)
    then have "c' = c" using e by (auto simp: CreateRole_def split: if_splits option.splits prod.splits sum.splits)
    then show ?thesis using role e by simp
  next
    case (Inr x)
    then show ?thesis using confined_role [OF role.IH CreateRole_Inr] e by simp
  qed
next
  case (graph c pool fault tid)
  then show ?case by (auto simp: CreateGraph_def intro: confined_less split: option.splits)
next
  case (revoke c pool fault tid)
  then show ?case
    using execAll_revoke [of fault tid c] by (auto simp: RevokeAuditLogWrites_def intro: confined_less split: option.splits)
next
  case (fresh c)
  then show ?case by (auto simp: confined_def privOK_def usageOK_def)
qed (simp_all add: confined_createTable confined_migrations)

text \<open>A role of a tenant is a member of no other role.\<close>

lemma tenant_roleSet: "confined c \<Longrightarrow> roleSet (RoleName a) c = {''PUBLIC'', RoleName a}"
proof -
  assume "confined c"
  then have "(g, RoleName a) \<notin> set (ct_members c)" for g by (auto simp: confined_def)
  then have "(g, RoleName a) \<in> (set (ct_members c))\<^sup>* \<longleftrightarrow> g = RoleName a" for g by (metis rtrancl.cases rtrancl.rtrancl_refl)
  then show ?thesis by (auto simp: roleSet_def)
qed

text \<open>
  C23 Tenants are confined by the catalogue. After any sequence of provisioning steps and tenant
  migrations, failures included, and with the grants of the migrations to \<open>PUBLIC\<close> and to the
  application role, the role of a tenant can use a table only in its own schema, apart from reading
  the catalogue of the graph extension; in particular no table of another validated tenant.
\<close>
theorem grants_confined:
  assumes "provisioned c" "canAccess (RoleName a) s t p c"
  shows "(s = SchemaName a \<or> s = ''ag_catalog'' \<and> p = SelectPriv) \<and>
    (\<forall>b. ValidateUUIDv4 a \<and> ValidateUUIDv4 b \<and> a \<noteq> b \<longrightarrow> s \<noteq> SchemaName b)"
proof -
  have c: "confined c" by (rule provisioned_confined [OF assms(1)])
  obtain g h where g: "g \<in> {''PUBLIC'', RoleName a}" "(s, g) \<in> set (ct_usage c)"
    and h: "h \<in> {''PUBLIC'', RoleName a}" "(h, s, t, p) \<in> set (ct_privs c)"
    using assms(2) unfolding canAccess_def tenant_roleSet [OF c] by blast
  have ok: "usageOK s g" "privOK h s p" using c g(2) h(2) by (auto simp: confined_def)
  have u: "s \<in> {SchemaName a, ''ag_catalog'', ''public''}"
    using ok(1) g(1) RoleName_other by (auto simp: usageOK_def RoleName_inj) metis+
  have "s = SchemaName a \<or> s = ''ag_catalog'' \<and> p = SelectPriv \<or> (\<exists>tid. s = SchemaName tid)"
    using ok(2) h(1) RoleName_other [of a] by (auto simp: privOK_def RoleName_inj)
  moreover have "SchemaName tid \<noteq> ''public''" for tid by (simp add: SchemaName_def)
  ultimately have own: "s = SchemaName a \<or> s = ''ag_catalog'' \<and> p = SelectPriv"
    using u schema_not_catalog by blast
  have "SchemaName a \<noteq> SchemaName b" if "ValidateUUIDv4 a" "ValidateUUIDv4 b" "a \<noteq> b" for b
    using dash_map_inj uuid_chars that by (auto simp: SchemaName_def)
  with own show ?thesis using schema_not_catalog by metis
qed

definition empty_catalogue :: catalogue where
  "empty_catalogue = \<lparr>ct_graphs = [], ct_roles = [], ct_tables = [(''ag_catalog'', ''ag_graph'')], ct_privs = [], ct_defaults = [],
     ct_usage = [], ct_members = [], ct_audit = []\<rparr>"

abbreviation no_sql_faults :: sql_faults where "no_sql_faults \<equiv> \<lambda>_. None"

lemma CreateRole_runs: "CreateRole True no_sql_faults tid c = (Inr (), fold applyStmt (roleStmts tid) c)"
proof -
  have "execAll no_sql_faults qs c = (Inr (), fold applyStmt qs c)" for qs by (induction qs arbitrary: c) auto
  then show ?thesis by (simp add: CreateRole_def)
qed

lemma Revoke_runs: "fst (RevokeAuditLogWrites True no_sql_faults tid c) = Inr ()"
  by (simp add: RevokeAuditLogWrites_def revokeStmts_def)

theorem audit_log_append_only_witness:
  "\<exists>c1 c2 c3. CreateRole True no_sql_faults uuid_a empty_catalogue = (Inr (), c1) \<and>
     ApplyTenantMigrations (\<lambda>dsn schema c. (None, fold createTable [(SchemaName uuid_a, ''audit_log'')] c)) ''postgres://'' uuid_a c1 = (Inr (), c2) \<and>
     RevokeAuditLogWrites True no_sql_faults uuid_a c2 = (Inr (), c3) \<and>
     privs_of (RoleName uuid_a) (SchemaName uuid_a) ''audit_log'' c3 = {SelectPriv, InsertPriv}"
proof -
  obtain c1 where c1: "CreateRole True no_sql_faults uuid_a empty_catalogue = (Inr (), c1)" using CreateRole_runs by blast
  obtain c2 where c2: "ApplyTenantMigrations (\<lambda>dsn schema c. (None, fold createTable [(SchemaName uuid_a, ''audit_log'')] c)) ''postgres://'' uuid_a c1 = (Inr (), c2)"
    by (simp add: ApplyTenantMigrations_def)
  obtain c3 where c3: "RevokeAuditLogWrites True no_sql_faults uuid_a c2 = (Inr (), c3)"
    using Revoke_runs [of uuid_a c2] by (metis prod.collapse)
  have "(SchemaName uuid_a, ''audit_log'') \<notin> set (ct_tables empty_catalogue)"
    using schema_not_catalog by (simp add: empty_catalogue_def)
  from audit_log_append_only [OF c1 this _ c2 c3] c1 c2 c3 show ?thesis by auto
qed

theorem reprovision_reopens_audit_log_witness:
  "\<exists>c'. CreateRole True no_sql_faults uuid_a (empty_catalogue\<lparr>ct_tables := [(SchemaName uuid_a, ''audit_log'')]\<rparr>) = (Inr (), c') \<and>
     UpdatePriv \<in> privs_of (RoleName uuid_a) (SchemaName uuid_a) ''audit_log'' c'"
proof -
  let ?c = "empty_catalogue\<lparr>ct_tables := [(SchemaName uuid_a, ''audit_log'')]\<rparr>"
  have "CreateRole True no_sql_faults uuid_a ?c = (Inr (), fold applyStmt (roleStmts uuid_a) ?c)" by (rule CreateRole_runs)
  from reprovision_reopens_audit_log [OF this] CreateRole_runs show ?thesis by auto
qed

text \<open>
  A tenant after its role and all migrations: it reads its own credentials, through \<open>PUBLIC\<close> and through
  its own grant; a second tenant, with a role of its own, finds the grant to \<open>PUBLIC\<close> and no way in.
\<close>

definition two_tenants :: catalogue where
  "two_tenants = runMigrations uuid_a 0 16
     (snd (CreateRole True no_sql_faults uuid_b (snd (CreateRole True no_sql_faults uuid_a empty_catalogue))))"

lemma two_tenants_provisioned: "provisioned two_tenants"
  unfolding two_tenants_def
  by (intro provisioned.migrations provisioned.role provisioned.fresh) (simp_all add: empty_catalogue_def)

lemma two_tenants_privs:
  "(''PUBLIC'', SchemaName uuid_a, ''catalog_credentials'', SelectPriv) \<in> set (ct_privs two_tenants)"
  "(SchemaName uuid_a, RoleName uuid_a) \<in> set (ct_usage two_tenants)"
  by code_simp+

theorem grants_confined_witness:
  "provisioned two_tenants \<and> canAccess (RoleName uuid_a) (SchemaName uuid_a) ''catalog_credentials'' SelectPriv two_tenants \<and>
   (''PUBLIC'', SchemaName uuid_a, ''catalog_credentials'', SelectPriv) \<in> set (ct_privs two_tenants) \<and>
   \<not> canAccess (RoleName uuid_b) (SchemaName uuid_a) ''catalog_credentials'' SelectPriv two_tenants"
proof -
  have a: "canAccess (RoleName uuid_a) (SchemaName uuid_a) ''catalog_credentials'' SelectPriv two_tenants"
    using two_tenants_privs unfolding canAccess_def roleSet_def by blast
  have "uuid_b \<noteq> uuid_a" by simp
  with grants_confined [OF two_tenants_provisioned, of uuid_b "SchemaName uuid_a" "''catalog_credentials''" SelectPriv] uuid_samples
  have "\<not> canAccess (RoleName uuid_b) (SchemaName uuid_a) ''catalog_credentials'' SelectPriv two_tenants" by blast
  with a two_tenants_provisioned two_tenants_privs(1) show ?thesis by blast
qed

text \<open>
  The comment of migration V0060 keeps the writes of \<open>catalog_credentials\<close> for the administrator. The
  default privileges of \<open>CreateRole\<close>, which runs first, give them to the tenant's own role: the
  revocation from \<open>PUBLIC\<close> does not touch that.
\<close>

lemma tenant_writes_credentials:
  "canAccess (RoleName uuid_a) (SchemaName uuid_a) ''catalog_credentials'' InsertPriv two_tenants \<and>
   canAccess (RoleName uuid_a) (SchemaName uuid_a) ''catalog_credentials'' UpdatePriv two_tenants"
proof -
  have "(RoleName uuid_a, SchemaName uuid_a, ''catalog_credentials'', InsertPriv) \<in> set (ct_privs two_tenants)"
    "(RoleName uuid_a, SchemaName uuid_a, ''catalog_credentials'', UpdatePriv) \<in> set (ct_privs two_tenants)"
    by code_simp+
  then show ?thesis using two_tenants_privs(2) unfolding canAccess_def roleSet_def by blast
qed

section \<open>The reachability probe\<close>

lemma pgwire_result:
  assumes "\<And>j. \<not> canceled j" "\<And>j. \<not> woken j"
  shows "(fst (pgwireFrom canceled connects woken i ds) = Inr () \<longleftrightarrow> (\<exists>j < length ds. connects (i + j))) \<and>
    snd (pgwireFrom canceled connects woken i ds) \<le> sum_list ds \<and>
    ((\<forall>j < length ds. \<not> connects (i + j)) \<longrightarrow> pgwireFrom canceled connects woken i ds = (Inl PeeringNotActive, sum_list ds))"
proof (induction ds arbitrary: i)
  case (Cons d ds)
  show ?case
  proof (cases "connects i")
    case True
    then show ?thesis by (auto simp: assms intro: exI [of _ 0])
  next
    case False
    have shift: "(\<exists>j < length (d # ds). connects (i + j)) \<longleftrightarrow> (\<exists>j < length ds. connects (Suc i + j))"
      using False by (auto simp: less_Suc_eq_0_disj)
    then show ?thesis using Cons [of "Suc i"] False by (fastforce simp: assms split: prod.split)
  qed
qed simp

text \<open>
  The probe of a new tenant ends: with no cancellation it succeeds exactly when one of its seven
  attempts connects, sleeps at most 233 seconds, and when none connects it has slept the whole
  schedule, the last two minutes after the last attempt included.
\<close>
theorem pgwire_bounded:
  "(fst (PgwireReachable (\<lambda>_. False) connects (\<lambda>_. False)) = Inr () \<longleftrightarrow> (\<exists>j < 7. connects j)) \<and>
   snd (PgwireReachable (\<lambda>_. False) connects (\<lambda>_. False)) \<le> 233 \<and>
   (\<not> (\<exists>j < 7. connects j) \<longleftrightarrow> PgwireReachable (\<lambda>_. False) connects (\<lambda>_. False) = (Inl PeeringNotActive, 233))"
proof -
  have l: "length pgwireBackoff = 7" "sum_list pgwireBackoff = 233" by (simp_all add: pgwireBackoff_def)
  note p = pgwire_result [of "\<lambda>_. False" "\<lambda>_. False" connects 0 pgwireBackoff, unfolded l, folded PgwireReachable_def, simplified]
  show ?thesis using p by (metis fst_conv sum.distinct(1))
qed

end
