(* ===== verification/Credential_Vending.thy ===== *)
theory Credential_Vending
  imports Gateway Go_JSON
begin

text \<open>
  Vending of storage credentials: the session policy (\<open>internal/credvend/sessionpolicy\<close>), the
  credential cache (\<open>cache.go\<close>), the issuing service (\<open>service.go\<close>) and the HTTP handler
  (\<open>handler.go\<close>).

  Parameters: the insertion into the LRU cache, the adapters of the catalogs with their token
  service, the reader of the request body, the clock.
\<close>

section \<open>Session policies\<close>

datatype policy_error = NotS3 | NoPath

definition cutPrefix :: "string \<Rightarrow> string \<Rightarrow> string option" where
  "cutPrefix s p = (if has_prefix s p then Some (drop (length p) s) else None)"

definition extractBucketFromWarehouse :: "string \<Rightarrow> policy_error + string" where
  "extractBucketFromWarehouse warehouse =
     (case cutPrefix warehouse ''s3://'' of
        None \<Rightarrow> Inl NotS3
      | Some after \<Rightarrow>
          if CHR ''/'' \<notin> set after \<or> takeWhile (\<lambda>c. c \<noteq> CHR ''/'') after = [] then Inl NoPath
          else Inr (takeWhile (\<lambda>c. c \<noteq> CHR ''/'') after))"

definition tableS3PrefixFromRef :: "table_ref \<Rightarrow> string" where
  "tableS3PrefixFromRef ref = join_with ''/'' (tr_namespace ref @ [tr_name ref])"

definition tableARN :: "string \<Rightarrow> table_ref \<Rightarrow> string" where
  "tableARN bucket table = ''arn:aws:s3:::'' @ bucket @ ''/'' @ tableS3PrefixFromRef table @ ''/*''"

record session_statement =
  ss_effect :: string
  ss_action :: string
  ss_resource :: "string list"
  ss_region :: string

definition key :: "string \<Rightarrow> string" where
  "key k = jsonQuote k @ '':''"

text \<open>\<open>json.Marshal\<close> of the policy document with its one statement and one condition.\<close>

definition docJSON :: "session_statement \<Rightarrow> string" where
  "docJSON st =
     ''{'' @ key ''Version'' @ jsonQuote ''2012-10-17'' @ '','' @ key ''Statement'' @
     ''[{'' @ key ''Effect'' @ jsonQuote (ss_effect st) @ '','' @ key ''Action'' @ jsonQuote (ss_action st) @ '','' @
     key ''Resource'' @ jsonStrings (Some (ss_resource st)) @ '','' @
     key ''Condition'' @ ''{'' @ key ''StringEquals'' @ ''{'' @ key ''aws:RequestedRegion'' @ jsonQuote (ss_region st) @ ''}}}]}''"

definition Build :: "table_ref \<Rightarrow> string \<Rightarrow> string \<Rightarrow> policy_error + string" where
  "Build table region warehouse =
     rbind (extractBucketFromWarehouse warehouse) (\<lambda>bucket.
       Inr (docJSON \<lparr>ss_effect = ''Allow'', ss_action = ''s3:PutObject'',
         ss_resource = [tableARN bucket table], ss_region = region\<rparr>))"

section \<open>The cache\<close>

record sts_credentials =
  sc_access :: string
  sc_secret :: string
  sc_token :: string
  sc_expiry :: instant
  sc_zone :: int
  sc_region :: string

record sts_key =
  sk_tenant :: string
  sk_namespace :: string
  sk_table :: string
  sk_region :: string

record cached_creds =
  cc_creds :: sts_credentials
  cc_expires :: instant
  cc_issued :: instant

type_synonym sts_cache = "sts_key \<rightharpoonup> cached_creds"

text \<open>\<open>Time.Sub\<close> saturates at the bounds of an \<open>int64\<close>, and the division of a duration truncates.\<close>

definition durationSub :: "instant \<Rightarrow> instant \<Rightarrow> int" where
  "durationSub a b = max (- (2 ^ 63)) (min (2 ^ 63 - 1) (a - b))"

definition halfOf :: "int \<Rightarrow> int" where
  "halfOf d = (if d \<ge> 0 then d div 2 else - ((- d) div 2))"

definition stsKey :: "string \<Rightarrow> string \<Rightarrow> string \<Rightarrow> string \<Rightarrow> sts_key" where
  "stsKey tid ns tbl region = \<lparr>sk_tenant = tid, sk_namespace = ns, sk_table = tbl, sk_region = region\<rparr>"

definition cacheGet :: "instant \<Rightarrow> sts_key \<Rightarrow> sts_cache \<Rightarrow> sts_credentials option \<times> sts_cache" where
  "cacheGet now k c =
     (case c k of
        None \<Rightarrow> (None, c)
      | Some entry \<Rightarrow>
          if now > cc_expires entry then (None, c(k := None))
          else if now > cc_issued entry + halfOf (durationSub (cc_expires entry) (cc_issued entry)) then (None, c(k := None))
          else (Some (cc_creds entry), c))"

definition cacheAdd ::
  "(sts_key \<Rightarrow> cached_creds \<Rightarrow> sts_cache \<Rightarrow> sts_cache) \<Rightarrow> instant \<Rightarrow> sts_key \<Rightarrow> sts_credentials option \<Rightarrow> sts_cache \<Rightarrow> sts_cache" where
  "cacheAdd add now k creds c =
     (case creds of
        None \<Rightarrow> c
      | Some cr \<Rightarrow> add k \<lparr>cc_creds = cr, cc_expires = sc_expiry cr, cc_issued = now\<rparr> c)"

definition cacheInvalidate :: "sts_key \<Rightarrow> sts_cache \<Rightarrow> sts_cache" where
  "cacheInvalidate k c = c(k := None)"

section \<open>Issuing\<close>

datatype vend_error = ErrEngineNotSupported | ErrCredVendUnavailable

datatype adapter_error = AdapterStub string | AdapterFailed string

record vending_adapter =
  va_name :: string
  va_vends :: bool
  va_issue :: "table_ref \<Rightarrow> string \<Rightarrow> adapter_error + sts_credentials"

definition joinNamespace :: "table_ref \<Rightarrow> string" where
  "joinNamespace ref = join_with ''.'' (tr_namespace ref)"

text \<open>The clock is read when the cache is asked and again when the answer is stored.\<close>

definition Issue ::
  "(sts_key \<Rightarrow> cached_creds \<Rightarrow> sts_cache \<Rightarrow> sts_cache) \<Rightarrow> instant \<Rightarrow> instant \<Rightarrow> string \<Rightarrow> vending_adapter \<Rightarrow> table_ref \<Rightarrow> string \<Rightarrow> sts_cache \<Rightarrow>
   (vend_error + sts_credentials) \<times> sts_cache" where
  "Issue add now now' tid ad table region c =
     (let k = stsKey tid (joinNamespace table) (tr_name table) region in
      case cacheGet now k c of
        (Some creds, c1) \<Rightarrow> (Inr creds, c1)
      | (None, c1) \<Rightarrow>
          if \<not> va_vends ad then (Inl ErrEngineNotSupported, c1)
          else (case va_issue ad table region of
             Inl (AdapterStub _) \<Rightarrow> (Inl ErrEngineNotSupported, c1)
           | Inl (AdapterFailed _) \<Rightarrow> (Inl ErrCredVendUnavailable, c1)
           | Inr creds \<Rightarrow> (Inr creds, cacheAdd add now' k (Some creds) c1)))"

section \<open>The handler\<close>

record sts_request =
  sr_nickname :: string
  sr_namespace :: string
  sr_table :: string
  sr_region :: string

definition maxRequestBodyBytes :: nat where "maxRequestBodyBytes = 8192"

definition stsIdentifier :: "string \<Rightarrow> bool" where
  "stsIdentifier s \<longleftrightarrow> s \<noteq> [] \<and> list_all (\<lambda>c. isIdentStart c \<or> is_digit c \<or> c = CHR ''.'' \<or> c = CHR ''-'') s"

definition expirationText :: "sts_credentials \<Rightarrow> string" where
  "expirationText cr = butlast (FormatRFC3339 (sc_expiry cr + sc_zone cr * nsPerSec)) @ zoneText (sc_zone cr)"

datatype sts_reply = StsStatus nat | StsOK sts_credentials string

text \<open>The body reader sees at most the first 8 KiB.\<close>

definition StsHandler ::
  "(sts_key \<Rightarrow> cached_creds \<Rightarrow> sts_cache \<Rightarrow> sts_cache) \<Rightarrow> instant \<Rightarrow> instant \<Rightarrow> (string \<Rightarrow> sts_request option) \<Rightarrow> 'db pg \<Rightarrow>
   (credentials \<Rightarrow> string + vending_adapter) \<Rightarrow> string option \<Rightarrow> string \<Rightarrow> 'db \<times> sts_cache \<Rightarrow> sts_reply \<times> 'db \<times> sts_cache" where
  "StsHandler add now now' decode pg build tenant body st =
     (case tenant of
        None \<Rightarrow> (StsStatus 500, st)
      | Some tid \<Rightarrow>
         (case decode (take maxRequestBodyBytes body) of
            None \<Rightarrow> (StsStatus 400, st)
          | Some req \<Rightarrow>
              if \<not> list_all stsIdentifier [sr_nickname req, sr_namespace req, sr_table req, sr_region req] then (StsStatus 400, st)
              else (case GetCatalogCredentials pg (Some tid) (sr_nickname req) (fst st) of
                 (Inl ErrCredentialsNotFound, db) \<Rightarrow> (StsStatus 404, db, snd st)
               | (Inl (CredTransport _), db) \<Rightarrow> (StsStatus 503, db, snd st)
               | (Inr creds, db) \<Rightarrow>
                  (case build creds of
                     Inl e \<Rightarrow> (StsStatus 503, db, snd st)
                   | Inr ad \<Rightarrow>
                      (case Issue add now now' tid ad \<lparr>tr_namespace = [sr_namespace req], tr_name = sr_table req\<rparr> (sr_region req) (snd st) of
                         (Inl ErrEngineNotSupported, c) \<Rightarrow> (StsStatus 501, db, c)
                       | (Inl ErrCredVendUnavailable, c) \<Rightarrow> (StsStatus 503, db, c)
                       | (Inr cr, c) \<Rightarrow> (StsOK cr (expirationText cr), db, c))))))"

section \<open>What a session policy allows\<close>

lemma append_sep_eq: "c \<notin> set x \<Longrightarrow> c \<notin> set y \<Longrightarrow> x @ c # u = y @ c # v \<longleftrightarrow> x = y \<and> u = v"
  by (induction x y rule: list_induct2') auto

lemma join_slash_free:
  assumes "xs \<noteq> []" "ys \<noteq> []" "\<forall>p \<in> set xs \<union> set ys. c \<notin> set p" "join_with [c] xs = join_with [c] ys"
  shows "xs = ys"
  using assms
proof (induction xs arbitrary: ys)
  case (Cons x xs)
  have split: "join_with [c] (z # zs) = z @ (if zs = [] then [] else c # join_with [c] zs)" for z zs by (cases zs) simp_all
  obtain y ys' where ys: "ys = y # ys'" using Cons.prems(2) by (cases ys) auto
  have free: "c \<notin> set x" "c \<notin> set y" using Cons.prems(3) by (auto simp: ys)
  have eq: "x @ (if xs = [] then [] else c # join_with [c] xs) = y @ (if ys' = [] then [] else c # join_with [c] ys')"
    using Cons.prems(4) by (simp only: ys split)
  show ?case
  proof (cases "xs = []"; cases "ys' = []")
    assume n: "xs \<noteq> []" "ys' \<noteq> []"
    with eq free have "x = y \<and> join_with [c] xs = join_with [c] ys'" by (simp add: append_sep_eq)
    then show ?thesis using Cons.IH [of ys'] n Cons.prems(3) ys by auto
  qed (use eq free ys in auto)
qed simp

lemma takeWhile_sep: "c \<notin> set x \<Longrightarrow> takeWhile (\<lambda>d. d \<noteq> c) (x @ c # r) = x"
  by (induction x) auto

lemma Build_Inr:
  "Build table region warehouse = Inr x \<longleftrightarrow>
     (\<exists>bucket rest. warehouse = ''s3://'' @ bucket @ ''/'' @ rest \<and> bucket \<noteq> [] \<and> CHR ''/'' \<notin> set bucket \<and>
       x = docJSON \<lparr>ss_effect = ''Allow'', ss_action = ''s3:PutObject'',
         ss_resource = [tableARN bucket table], ss_region = region\<rparr>)"
proof -
  have "extractBucketFromWarehouse warehouse = Inr bucket \<longleftrightarrow>
      (\<exists>rest. warehouse = ''s3://'' @ bucket @ ''/'' @ rest \<and> bucket \<noteq> [] \<and> CHR ''/'' \<notin> set bucket)" (is "?l \<longleftrightarrow> ?r") for bucket
  proof
    assume l: ?l
    then obtain after where a: "warehouse = ''s3://'' @ after" "CHR ''/'' \<in> set after"
      "bucket = takeWhile (\<lambda>c. c \<noteq> CHR ''/'') after" "bucket \<noteq> []"
      by (auto simp: extractBucketFromWarehouse_def cutPrefix_def dest!: has_prefixE split: if_splits)
    let ?d = "dropWhile (\<lambda>c. c \<noteq> CHR ''/'') after"
    have "?d \<noteq> []" using a(2) by (simp add: dropWhile_eq_Nil_conv)
    then have "?d = CHR ''/'' # tl ?d" using hd_dropWhile [of "\<lambda>c. c \<noteq> CHR ''/''" after] by (cases ?d) simp_all
    then have "after = bucket @ CHR ''/'' # tl ?d" unfolding a(3) by (metis takeWhile_dropWhile_id)
    moreover have "CHR ''/'' \<notin> set bucket" using a(3) by (auto dest: set_takeWhileD)
    ultimately show ?r using a by auto
  next
    assume ?r
    then obtain rest where r: "warehouse = ''s3://'' @ bucket @ ''/'' @ rest" "bucket \<noteq> []" "CHR ''/'' \<notin> set bucket" by blast
    then show ?l by (simp add: extractBucketFromWarehouse_def cutPrefix_def takeWhile_sep)
  qed
  then show ?thesis by (auto simp: Build_def result_simps)
qed

lemma docJSON_inj:
  assumes "docJSON st = docJSON st'" "ss_effect st = ss_effect st'" "ss_action st = ss_action st'"
  shows "map jsonText (ss_resource st) = map jsonText (ss_resource st') \<and> jsonText (ss_region st) = jsonText (ss_region st')"
proof -
  from assms have "jsonStrings (Some (ss_resource st)) @ '','' @ key ''Condition'' @ ''{'' @ key ''StringEquals'' @ ''{'' @ key ''aws:RequestedRegion'' @
      jsonQuote (ss_region st) @ ''}}}]}'' =
    jsonStrings (Some (ss_resource st')) @ '','' @ key ''Condition'' @ ''{'' @ key ''StringEquals'' @ ''{'' @ key ''aws:RequestedRegion'' @
      jsonQuote (ss_region st') @ ''}}}]}''"
    unfolding docJSON_def same_append_eq by simp
  from jsonStrings_prefix_free [OF this] have r: "map jsonText (ss_resource st) = map jsonText (ss_resource st')"
    and q: "jsonQuote (ss_region st) @ ''}}}]}'' = jsonQuote (ss_region st') @ ''}}}]}''" by (simp_all only: option.map option.inject same_append_eq)
  from r jsonQuote_prefix_free [OF q] show ?thesis by blast
qed

lemma tableARN_ascii:
  assumes "list_all (inRange 0 127) bucket" "\<forall>p \<in> set (tr_namespace t @ [tr_name t]). list_all (inRange 0 127) p"
  shows "jsonText (tableARN bucket t) = tableARN bucket t"
proof (rule jsonText_ascii)
  have "\<forall>p \<in> set ps. list_all (inRange 0 127) p \<Longrightarrow> list_all (inRange 0 127) (join_with ''/'' ps)" for ps
    by (induction ps rule: induct_list012) (auto simp: inRange_def)
  then have "list_all (inRange 0 127) (tableS3PrefixFromRef t)" using assms(2) unfolding tableS3PrefixFromRef_def by blast
  then show "list_all (inRange 0 127) (tableARN bucket t)" using assms(1) by (simp add: tableARN_def inRange_def)
qed

text \<open>
  A session policy is scoped: it exists only for a warehouse with a bucket and a path, it allows
  only the upload below the prefix of one table in that bucket, in one region, and the text of the
  policy determines all three, so no field of a request can change the document it is written into.
\<close>
theorem session_policy_scoped:
  assumes "Build table region warehouse = Inr x" "Build table' region' warehouse' = Inr x"
    and "\<forall>p \<in> set (tr_namespace table @ [tr_name table] @ tr_namespace table' @ [tr_name table']). CHR ''/'' \<notin> set p"
    and "list_all (inRange 0 127) (warehouse @ warehouse' @ region @ region')"
    and "\<forall>p \<in> set (tr_namespace table @ [tr_name table] @ tr_namespace table' @ [tr_name table']). list_all (inRange 0 127) p"
  shows "tr_namespace table = tr_namespace table' \<and> tr_name table = tr_name table' \<and> region = region' \<and>
    (\<exists>bucket rest rest'. bucket \<noteq> [] \<and> CHR ''/'' \<notin> set bucket \<and>
       warehouse = ''s3://'' @ bucket @ ''/'' @ rest \<and> warehouse' = ''s3://'' @ bucket @ ''/'' @ rest' \<and>
       x = docJSON \<lparr>ss_effect = ''Allow'', ss_action = ''s3:PutObject'',
         ss_resource = [tableARN bucket table], ss_region = region\<rparr>)"
proof -
  obtain bucket rest where b: "warehouse = ''s3://'' @ bucket @ ''/'' @ rest" "bucket \<noteq> []" "CHR ''/'' \<notin> set bucket"
    "x = docJSON \<lparr>ss_effect = ''Allow'', ss_action = ''s3:PutObject'',
         ss_resource = [tableARN bucket table], ss_region = region\<rparr>"
    using assms(1) unfolding Build_Inr by blast
  obtain bucket' rest' where b': "warehouse' = ''s3://'' @ bucket' @ ''/'' @ rest'" "bucket' \<noteq> []" "CHR ''/'' \<notin> set bucket'"
    "x = docJSON \<lparr>ss_effect = ''Allow'', ss_action = ''s3:PutObject'',
         ss_resource = [tableARN bucket' table'], ss_region = region'\<rparr>"
    using assms(2) unfolding Build_Inr by blast
  have ascii: "list_all (inRange 0 127) bucket" "list_all (inRange 0 127) bucket'" "list_all (inRange 0 127) region" "list_all (inRange 0 127) region'"
    using assms(4) by (simp_all add: b(1) b'(1))
  have "map jsonText [tableARN bucket table] = map jsonText [tableARN bucket' table'] \<and> jsonText region = jsonText region'"
    using docJSON_inj [OF b(4) [unfolded b'(4), symmetric]] by simp
  then have "tableARN bucket table = tableARN bucket' table'" "region = region'"
    using assms(5) ascii by (simp_all add: tableARN_ascii jsonText_ascii)
  then have eq: "bucket = bucket'" "tableS3PrefixFromRef table = tableS3PrefixFromRef table'" "region = region'"
    using b(3) b'(3) by (simp_all add: tableARN_def append_sep_eq)
  then have "tr_namespace table @ [tr_name table] = tr_namespace table' @ [tr_name table']"
    using assms(3) by (intro join_slash_free [of _ _ "CHR ''/''"]) (auto simp: tableS3PrefixFromRef_def)
  with eq b b' show ?thesis by auto
qed

theorem session_policy_scoped_witness:
  "\<exists>x. Build \<lparr>tr_namespace = [''sales''], tr_name = ''orders''\<rparr> ''eu-west-1'' ''s3://lake/wh'' = Inr x \<and>
     (\<exists>bucket rest. ''s3://lake/wh'' = ''s3://'' @ bucket @ ''/'' @ rest \<and> bucket \<noteq> [])"
proof -
  let ?t = "\<lparr>tr_namespace = [''sales''], tr_name = ''orders''\<rparr>"
  obtain x where x: "Build ?t ''eu-west-1'' ''s3://lake/wh'' = Inr x"
    by (auto simp: Build_def extractBucketFromWarehouse_def cutPrefix_def)
  from session_policy_scoped [OF x x] have
    "\<exists>bucket rest rest'. bucket \<noteq> [] \<and> ''s3://lake/wh'' = ''s3://'' @ bucket @ ''/'' @ rest"
    by (auto simp: inRange_def)
  with x show ?thesis by auto
qed

text \<open>The path of the warehouse is no part of the policy.\<close>

lemma warehouse_path_ignored:
  "bucket \<noteq> [] \<Longrightarrow> CHR ''/'' \<notin> set bucket \<Longrightarrow>
   Build table region (''s3://'' @ bucket @ ''/'' @ p) = Build table region (''s3://'' @ bucket @ ''/'' @ q)"
proof -
  assume b: "bucket \<noteq> []" "CHR ''/'' \<notin> set bucket"
  then show ?thesis by (simp add: Build_def extractBucketFromWarehouse_def cutPrefix_def takeWhile_sep)
qed

section \<open>Histories of the service\<close>

record issue_call =
  ic_time :: instant
  ic_tenant :: string
  ic_adapter :: vending_adapter
  ic_table :: table_ref
  ic_region :: string

definition callKey :: "issue_call \<Rightarrow> sts_key" where
  "callKey x = stsKey (ic_tenant x) (joinNamespace (ic_table x)) (tr_name (ic_table x)) (ic_region x)"

inductive vend_history ::
  "(sts_key \<Rightarrow> cached_creds \<Rightarrow> sts_cache \<Rightarrow> sts_cache) \<Rightarrow> issue_call list \<Rightarrow> instant \<Rightarrow> sts_cache \<Rightarrow> bool" for add where
  start: "vend_history add [] now Map.empty"
| issue: "vend_history add calls now c \<Longrightarrow> now \<le> t1 \<Longrightarrow> t1 \<le> t2 \<Longrightarrow>
    vend_history add (\<lparr>ic_time = t2, ic_tenant = tid, ic_adapter = ad, ic_table = table, ic_region = region\<rparr> # calls) t2
      (snd (Issue add t1 t2 tid ad table region c))"
| invalidate: "vend_history add calls now c \<Longrightarrow> vend_history add calls now (cacheInvalidate k c)"

definition issued_by :: "issue_call list \<Rightarrow> instant \<Rightarrow> sts_key \<Rightarrow> cached_creds \<Rightarrow> bool" where
  "issued_by calls now k e \<longleftrightarrow>
     (\<exists>x \<in> set calls. callKey x = k \<and> ic_time x \<le> now \<and> cc_issued e = ic_time x \<and> cc_expires e = sc_expiry (cc_creds e) \<and>
        va_vends (ic_adapter x) \<and> va_issue (ic_adapter x) (ic_table x) (ic_region x) = Inr (cc_creds e))"

lemma cacheGet_sound:
  assumes "cacheGet now k c = (r, c')" "cache_sound I c"
  shows "cache_sound I c' \<and> (\<forall>cr. r = Some cr \<longrightarrow> c' = c \<and> (\<exists>e. c k = Some e \<and> cc_creds e = cr \<and> now \<le> cc_expires e \<and>
     now \<le> cc_issued e + halfOf (durationSub (cc_expires e) (cc_issued e))))"
  using assms by (auto simp: cacheGet_def cache_sound_def split: option.splits if_splits)

lemma Issue_cases:
  assumes "Issue add t1 t2 tid ad table region c = (r, c')"
  obtains (hit) cr where "cacheGet t1 (stsKey tid (joinNamespace table) (tr_name table) region) c = (Some cr, c')" "r = Inr cr"
  | (fresh) cr c1 where "cacheGet t1 (stsKey tid (joinNamespace table) (tr_name table) region) c = (None, c1)" "va_vends ad"
      "va_issue ad table region = Inr cr" "r = Inr cr"
      "c' = add (stsKey tid (joinNamespace table) (tr_name table) region) \<lparr>cc_creds = cr, cc_expires = sc_expiry cr, cc_issued = t2\<rparr> c1"
  | (refused) e where "cacheGet t1 (stsKey tid (joinNamespace table) (tr_name table) region) c = (None, c')" "r = Inl e"
  using assms
  by (auto simp: Issue_def Let_def cacheAdd_def split: prod.splits option.splits if_splits sum.splits adapter_error.splits)

lemma issued_by_mono: "issued_by calls now k e \<Longrightarrow> set calls \<subseteq> set calls' \<Longrightarrow> now \<le> now' \<Longrightarrow> issued_by calls' now' k e"
  unfolding issued_by_def by fastforce

lemma vend_history_sound:
  assumes "lru_add add" "vend_history add calls now c"
  shows "cache_sound (issued_by calls now) c"
  using assms(2)
proof (induction rule: vend_history.induct)
  case (issue calls now c t1 t2 tid ad table region)
  let ?x = "\<lparr>ic_time = t2, ic_tenant = tid, ic_adapter = ad, ic_table = table, ic_region = region\<rparr>"
  have sound: "cache_sound (issued_by (?x # calls) t2) c"
    using issue.IH issue.hyps issued_by_mono [of calls now _ _ "?x # calls" t2] by (auto simp: cache_sound_def)
  obtain r c' where i: "Issue add t1 t2 tid ad table region c = (r, c')" by fastforce
  then show ?case
  proof (cases rule: Issue_cases)
    case (fresh cr c1)
    have "issued_by (?x # calls) t2 (callKey ?x) \<lparr>cc_creds = cr, cc_expires = sc_expiry cr, cc_issued = t2\<rparr>"
      using fresh by (simp add: issued_by_def)
    then show ?thesis
      using lru_add_sound [OF assms(1)] cacheGet_sound [OF fresh(1) sound] i fresh(5) by (simp add: callKey_def)
  qed (use cacheGet_sound sound i in auto)
qed (auto simp: cache_sound_def cacheInvalidate_def)

lemma half_life:
  assumes "t \<le> now" "now \<le> ex" "now \<le> t + halfOf (durationSub ex t)"
  shows "2 * (now - t) \<le> ex - t"
proof -
  have "t \<le> ex" using assms by linarith
  then have "0 \<le> durationSub ex t" "durationSub ex t \<le> ex - t" by (auto simp: durationSub_def)
  then show ?thesis using assms(3) by (simp add: halfOf_def)
qed

text \<open>
  C27 Over any history of requests, refusals, evictions and invalidations, credentials that the service
  answers were issued by an adapter that can vend, for the same tenant, table and region: now, or by
  an earlier call of which at most half of the lifetime has passed, so expired credentials are never
  answered.
\<close>
theorem sts_scoped_and_fresh:
  assumes "lru_add add" "vend_history add calls now c" "now \<le> t1" "t1 \<le> t2"
    and "Issue add t1 t2 tid ad table region c = (Inr cr, c')"
  shows "(va_vends ad \<and> va_issue ad table region = Inr cr) \<or>
    (\<exists>x \<in> set calls. ic_tenant x = tid \<and> joinNamespace (ic_table x) = joinNamespace table \<and> tr_name (ic_table x) = tr_name table \<and>
       ic_region x = region \<and> va_vends (ic_adapter x) \<and> va_issue (ic_adapter x) (ic_table x) region = Inr cr \<and>
       t1 \<le> sc_expiry cr \<and> 2 * (t1 - ic_time x) \<le> sc_expiry cr - ic_time x)"
  using assms(5)
proof (cases rule: Issue_cases)
  case (hit cr')
  note sound = vend_history_sound [OF assms(1,2)]
  obtain e where e: "c (stsKey tid (joinNamespace table) (tr_name table) region) = Some e" "cc_creds e = cr" "t1 \<le> cc_expires e"
    "t1 \<le> cc_issued e + halfOf (durationSub (cc_expires e) (cc_issued e))"
    using cacheGet_sound [OF hit(1) sound] hit(2) by auto
  with sound obtain x where x: "x \<in> set calls" "callKey x = stsKey tid (joinNamespace table) (tr_name table) region" "ic_time x \<le> now"
    "cc_issued e = ic_time x" "cc_expires e = sc_expiry cr" "va_vends (ic_adapter x)"
    "va_issue (ic_adapter x) (ic_table x) (ic_region x) = Inr cr"
    unfolding cache_sound_def issued_by_def by blast
  then have "2 * (t1 - ic_time x) \<le> sc_expiry cr - ic_time x" using half_life [of "ic_time x" t1 "sc_expiry cr"] e assms(3) by simp
  then show ?thesis using x e by (auto simp: callKey_def stsKey_def)
qed auto

text \<open>
  The cache does not know the catalog: after one adapter issued credentials for a table, a request
  for a table of the same name is answered with them through any other adapter, one that does not
  support vending included, for half of their lifetime.
\<close>
theorem sts_cache_ignores_catalog:
  assumes "lru_add add" "c (stsKey tid (joinNamespace table) (tr_name table) region) = None"
    and "va_vends a" "va_issue a table region = Inr cr" "Issue add t1 t2 tid a table region c = (r, c')"
    and "t3 \<le> sc_expiry cr" "t3 \<le> t2 + halfOf (durationSub (sc_expiry cr) t2)"
  shows "r = Inr cr \<and> Issue add t3 t4 tid b table region c' = (Inr cr, c')"
proof -
  let ?k = "stsKey tid (joinNamespace table) (tr_name table) region"
  let ?e = "\<lparr>cc_creds = cr, cc_expires = sc_expiry cr, cc_issued = t2\<rparr>"
  have "cacheGet t1 ?k c = (None, c)" using assms(2) by (simp add: cacheGet_def)
  then have r: "r = Inr cr" "c' = add ?k ?e c" using assms(3-5) by (auto simp: Issue_def cacheAdd_def)
  then have "c' ?k = Some ?e" using assms(1) by (simp add: lru_add_def)
  then have "cacheGet t3 ?k c' = (Some cr, c')" using assms(6,7) by (simp add: cacheGet_def)
  then show ?thesis using r by (simp add: Issue_def)
qed

definition keep_all :: "sts_key \<Rightarrow> cached_creds \<Rightarrow> sts_cache \<Rightarrow> sts_cache" where
  "keep_all k e c = c(k \<mapsto> e)"

lemma keep_all_lru: "lru_add keep_all"
  by (simp add: lru_add_def keep_all_def)

definition polaris_a :: vending_adapter where
  "polaris_a = \<lparr>va_name = ''polaris'', va_vends = True, va_issue = (\<lambda>t r. Inr \<lparr>sc_access = ''AK'', sc_secret = ''S'', sc_token = ''T'',
     sc_expiry = 100, sc_zone = 0, sc_region = r\<rparr>)\<rparr>"

definition glue_stub :: vending_adapter where
  "glue_stub = \<lparr>va_name = ''glue'', va_vends = False, va_issue = (\<lambda>t r. Inl (AdapterStub ''glue''))\<rparr>"

abbreviation orders :: table_ref where "orders \<equiv> \<lparr>tr_namespace = [''sales''], tr_name = ''orders''\<rparr>"
abbreviation creds_a :: sts_credentials where
  "creds_a \<equiv> \<lparr>sc_access = ''AK'', sc_secret = ''S'', sc_token = ''T'', sc_expiry = 100, sc_zone = 0, sc_region = ''eu''\<rparr>"

lemma orders_first: "fst (Issue keep_all 1 2 ''t1'' polaris_a orders ''eu'' Map.empty) = Inr creds_a"
  by (simp add: Issue_def cacheGet_def polaris_a_def)

theorem sts_cache_ignores_catalog_witness:
  "\<exists>c. Issue keep_all 1 2 ''t1'' polaris_a orders ''eu'' Map.empty = (Inr creds_a, c) \<and>
     \<not> va_vends glue_stub \<and> Issue keep_all 40 41 ''t1'' glue_stub orders ''eu'' c = (Inr creds_a, c)"
proof -
  obtain r c where i: "Issue keep_all 1 2 ''t1'' polaris_a orders ''eu'' Map.empty = (r, c)" by fastforce
  have "va_vends polaris_a" "va_issue polaris_a orders ''eu'' = Inr creds_a" by (simp_all add: polaris_a_def)
  from sts_cache_ignores_catalog [OF keep_all_lru _ this i, of 40] i show ?thesis
    by (auto simp: halfOf_def durationSub_def glue_stub_def)
qed

theorem sts_scoped_and_fresh_witness:
  "\<exists>calls c c'. vend_history keep_all calls 2 c \<and> Issue keep_all 40 41 ''t1'' glue_stub orders ''eu'' c = (Inr creds_a, c') \<and>
     (\<exists>x \<in> set calls. ic_tenant x = ''t1'' \<and> 2 * (40 - ic_time x) \<le> 100 - ic_time x)"
proof -
  let ?calls = "[\<lparr>ic_time = 2, ic_tenant = ''t1'', ic_adapter = polaris_a, ic_table = orders, ic_region = ''eu''\<rparr>]"
  let ?c = "snd (Issue keep_all 1 2 ''t1'' polaris_a orders ''eu'' Map.empty)"
  have h: "vend_history keep_all ?calls 2 ?c"
    by (rule vend_history.issue [OF vend_history.start [of _ 0]]) simp_all
  have i: "Issue keep_all 40 41 ''t1'' glue_stub orders ''eu'' ?c = (Inr creds_a, ?c)"
    by (simp add: Issue_def cacheGet_def cacheAdd_def keep_all_def polaris_a_def halfOf_def durationSub_def stsKey_def)
  from sts_scoped_and_fresh [OF keep_all_lru h _ _ i] have "\<exists>x \<in> set ?calls. ic_tenant x = ''t1'' \<and> 2 * (40 - ic_time x) \<le> 100 - ic_time x"
    by (auto simp: glue_stub_def)
  with h i show ?thesis by blast
qed

section \<open>The handler fails closed\<close>

text \<open>
  The handler answers credentials only for a tenant of the session, four validated identifiers, a
  catalog row read in a transaction of that tenant, and a service that issued them for it; every
  other answer is one of the five error statuses; 400 and 404 leave the database as it was, and no
  status but 501 and 503 touches the credential cache.
\<close>
theorem sts_handler_fail_closed:
  "case StsHandler add t1 t2 decode pg build tenant body (db, c) of
     (StsOK cr txt, db', c') \<Rightarrow> \<exists>tid req creds ad. tenant = Some tid \<and> decode (take maxRequestBodyBytes body) = Some req \<and>
       list_all stsIdentifier [sr_nickname req, sr_namespace req, sr_table req, sr_region req] \<and>
       GetCatalogCredentials pg (Some tid) (sr_nickname req) db = (Inr creds, db') \<and> build creds = Inr ad \<and>
       Issue add t1 t2 tid ad \<lparr>tr_namespace = [sr_namespace req], tr_name = sr_table req\<rparr> (sr_region req) c = (Inr cr, c') \<and>
       txt = expirationText cr
   | (StsStatus n, db', c') \<Rightarrow> n \<in> {501, 503} \<or> n = 500 \<and> c' = c \<or> n \<in> {400, 404} \<and> db' = db \<and> c' = c"
  using GetCatalogCredentials_frame [of pg _ _ db]
  by (auto simp: StsHandler_def split: option.split prod.split sum.split cred_error.split vend_error.split)

end
