(* ===== verification/Go_Regexp.thy ===== *)
theory Go_Regexp
  imports Gateway_Inputs
begin

text \<open>
  The part of Go's \<open>regexp\<close> package that the detection patterns use. A text is matched as its
  sequence of runes; a byte that starts no valid encoding counts as U+FFFD. An expression is
  built from classes of runes, concatenation, choice and repetition, and \<open>in_lang\<close> is the set of
  texts it denotes. \<open>fullMatch\<close> decides it with derivatives; \<open>fullMatch_iff\<close> says that it does.
\<close>

section \<open>Runes\<close>

definition runeOf :: "string \<Rightarrow> nat" where
  "runeOf s =
     (case map of_char s of
        [a] \<Rightarrow> a
      | [a, b] \<Rightarrow> (a - 192) * 64 + (b - 128)
      | [a, b, c] \<Rightarrow> ((a - 224) * 64 + (b - 128)) * 64 + (c - 128)
      | [a, b, c, d] \<Rightarrow> (((a - 240) * 64 + (b - 128)) * 64 + (c - 128)) * 64 + (d - 128)
      | _ \<Rightarrow> 65533)"

function runesOf :: "string \<Rightarrow> nat list" where
  "runesOf [] = []"
| "runesOf (c # s) =
     (case runeWidth (c # s) of
        0 \<Rightarrow> 65533 # runesOf s
      | Suc n \<Rightarrow> runeOf (c # take n s) # runesOf (drop n s))"
  by pat_completeness auto
termination by (relation "measure length") auto

lemma runesOf_ascii: "list_all (inRange 0 127) s \<Longrightarrow> runesOf s = map of_char s"
proof (induction s)
  case (Cons c s)
  then have "runeWidth (c # s) = 1" by (cases "c # s" rule: runeWidth.cases) auto
  with Cons show ?case by (simp add: runeOf_def)
qed simp

section \<open>Expressions\<close>

text \<open>A class is a list of ranges, possibly negated.\<close>

datatype rexp =
    RNone
  | REmpty
  | RClass bool "(nat \<times> nat) list"
  | RAlt rexp rexp
  | RSeq rexp rexp
  | RStar rexp

definition inClass :: "bool \<Rightarrow> (nat \<times> nat) list \<Rightarrow> nat \<Rightarrow> bool" where
  "inClass neg rs c \<longleftrightarrow> (list_ex (\<lambda>(lo, hi). lo \<le> c \<and> c \<le> hi) rs \<noteq> neg)"

inductive in_lang :: "rexp \<Rightarrow> nat list \<Rightarrow> bool" where
  empty: "in_lang REmpty []"
| rune: "inClass neg rs c \<Longrightarrow> in_lang (RClass neg rs) [c]"
| left: "in_lang r w \<Longrightarrow> in_lang (RAlt r s) w"
| right: "in_lang s w \<Longrightarrow> in_lang (RAlt r s) w"
| seq: "in_lang r v \<Longrightarrow> in_lang s w \<Longrightarrow> in_lang (RSeq r s) (v @ w)"
| stop: "in_lang (RStar r) []"
| again: "in_lang r v \<Longrightarrow> in_lang (RStar r) w \<Longrightarrow> in_lang (RStar r) (v @ w)"

inductive_simps in_lang_none [simp]: "in_lang RNone w"
inductive_simps in_lang_empty [simp]: "in_lang REmpty w"
inductive_simps in_lang_class [simp]: "in_lang (RClass neg rs) w"
inductive_simps in_lang_alt [simp]: "in_lang (RAlt r s) w"
inductive_simps in_lang_seq: "in_lang (RSeq r s) w"

section \<open>Matching\<close>

fun nullable :: "rexp \<Rightarrow> bool" where
  "nullable RNone = False"
| "nullable REmpty = True"
| "nullable (RClass neg rs) = False"
| "nullable (RAlt r s) = (nullable r \<or> nullable s)"
| "nullable (RSeq r s) = (nullable r \<and> nullable s)"
| "nullable (RStar r) = True"

fun mkSeq :: "rexp \<Rightarrow> rexp \<Rightarrow> rexp" where
  "mkSeq RNone s = RNone"
| "mkSeq REmpty s = s"
| "mkSeq r s = RSeq r s"

fun mkAlt :: "rexp \<Rightarrow> rexp \<Rightarrow> rexp" where
  "mkAlt RNone s = s"
| "mkAlt r RNone = r"
| "mkAlt r s = (if r = s then r else RAlt r s)"

fun deriv :: "nat \<Rightarrow> rexp \<Rightarrow> rexp" where
  "deriv c RNone = RNone"
| "deriv c REmpty = RNone"
| "deriv c (RClass neg rs) = (if inClass neg rs c then REmpty else RNone)"
| "deriv c (RAlt r s) = mkAlt (deriv c r) (deriv c s)"
| "deriv c (RSeq r s) =
     (if nullable r then mkAlt (mkSeq (deriv c r) s) (deriv c s) else mkSeq (deriv c r) s)"
| "deriv c (RStar r) = mkSeq (deriv c r) (RStar r)"

definition fullMatch :: "rexp \<Rightarrow> string \<Rightarrow> bool" where
  "fullMatch r s = nullable (fold deriv (runesOf s) r)"

definition anyText :: rexp where
  "anyText = RStar (RClass True [])"

definition searchMatch :: "rexp \<Rightarrow> string \<Rightarrow> bool" where
  "searchMatch r s = fullMatch (RSeq anyText (RSeq r anyText)) s"

subsection \<open>Correctness\<close>

lemma nullable_iff: "nullable r \<longleftrightarrow> in_lang r []"
  by (induction r) (auto simp: in_lang_seq intro: in_lang.intros)

lemma mkSeq_lang [simp]: "in_lang (mkSeq r s) w \<longleftrightarrow> in_lang (RSeq r s) w"
  by (cases r) (auto simp: in_lang_seq)

lemma mkAlt_lang [simp]: "in_lang (mkAlt r s) w \<longleftrightarrow> in_lang r w \<or> in_lang s w"
  by (cases "(r, s)" rule: mkAlt.cases) auto

lemma star_cons:
  assumes "in_lang (RStar r) (c # w)"
  obtains v u where "w = v @ u" "in_lang r (c # v)" "in_lang (RStar r) u"
  using assms
proof (induction "RStar r" "c # w" arbitrary: thesis rule: in_lang.induct)
  case (again v u)
  then show ?case by (cases v) auto
qed

lemma star_cons_iff:
  "in_lang (RStar r) (c # w) \<longleftrightarrow> (\<exists>v u. w = v @ u \<and> in_lang r (c # v) \<and> in_lang (RStar r) u)"
  using in_lang.again [of r "c # _"] by (auto elim!: star_cons)

lemma deriv_iff: "in_lang (deriv c r) w \<longleftrightarrow> in_lang r (c # w)"
proof (induction r arbitrary: w)
  case (RSeq r s)
  have "in_lang (RSeq r s) (c # w) \<longleftrightarrow>
    (\<exists>v u. w = v @ u \<and> in_lang r (c # v) \<and> in_lang s u) \<or> in_lang r [] \<and> in_lang s (c # w)"
    by (auto simp: in_lang_seq Cons_eq_append_conv)
  with RSeq show ?case by (auto simp: nullable_iff in_lang_seq)
qed (auto simp: star_cons_iff in_lang_seq)

theorem fullMatch_iff: "fullMatch r s \<longleftrightarrow> in_lang r (runesOf s)"
proof -
  have "nullable (fold deriv w r) \<longleftrightarrow> in_lang r w" for w
    by (induction w arbitrary: r) (simp_all add: nullable_iff deriv_iff)
  then show ?thesis by (simp add: fullMatch_def)
qed

lemma anyText_all: "in_lang anyText w"
  unfolding anyText_def
proof (induction w)
  case (Cons c w)
  then show ?case using in_lang.again [of "RClass True []" "[c]" w] by (simp add: inClass_def)
qed (rule in_lang.stop)

theorem searchMatch_iff:
  "searchMatch r s \<longleftrightarrow> (\<exists>u v w. runesOf s = u @ v @ w \<and> in_lang r v)"
  unfolding searchMatch_def fullMatch_iff by (auto simp: in_lang_seq anyText_all)

section \<open>Building expressions\<close>

definition runeLit :: "char \<Rightarrow> rexp" where
  "runeLit c = RClass False [(of_char c, of_char c)]"

text \<open>Under \<open>(?i)\<close> a letter stands for its simple case folds; \<open>s\<close> folds with U+017F, \<open>k\<close> with U+212A.\<close>

definition foldLit :: "char \<Rightarrow> rexp" where
  "foldLit c =
     (let n = of_char c in
      RClass False
        ((n, n) # (if 97 \<le> n \<and> n \<le> 122 then [(n - 32, n - 32)] else []) @
         (if c = CHR ''s'' then [(383, 383)] else if c = CHR ''k'' then [(8490, 8490)] else [])))"

fun seqAll :: "rexp list \<Rightarrow> rexp" where
  "seqAll [] = REmpty"
| "seqAll [r] = r"
| "seqAll (r # rs) = RSeq r (seqAll rs)"

definition foldWord :: "string \<Rightarrow> rexp" where
  "foldWord s = seqAll (map foldLit s)"

definition optional :: "rexp \<Rightarrow> rexp" where
  "optional r = RAlt r REmpty"

fun repeatTo :: "nat \<Rightarrow> rexp \<Rightarrow> rexp" where
  "repeatTo 0 r = REmpty"
| "repeatTo (Suc n) r = optional (RSeq r (repeatTo n r))"

definition repeatN :: "nat \<Rightarrow> rexp \<Rightarrow> rexp" where
  "repeatN n r = seqAll (replicate n r)"

definition plus :: "rexp \<Rightarrow> rexp" where
  "plus r = RSeq r (RStar r)"

definition digitClass :: rexp where
  "digitClass = RClass False [(48, 57)]"

definition anyButNewline :: rexp where
  "anyButNewline = RClass True [(10, 10)]"

text \<open>The white space of \<open>\s\<close>.\<close>

abbreviation spaceRanges :: "(nat \<times> nat) list" where
  "spaceRanges \<equiv> [(9, 10), (12, 13), (32, 32)]"

lemma in_lang_seqAll: "in_lang (seqAll rs) w \<longleftrightarrow> (\<exists>ws. w = concat ws \<and> list_all2 in_lang rs ws)"
proof (induction rs arbitrary: w rule: seqAll.induct)
  case (3 r r' rs)
  show ?case
    unfolding seqAll.simps in_lang_seq "3.IH"
    by (auto simp: list_all2_Cons1) (metis concat.simps(2) list_all2_Cons1)+
qed (auto simp: list_all2_Cons1 intro: exI [of _ "[_]"])

lemma in_lang_repeatTo:
  "in_lang (repeatTo n r) w \<longleftrightarrow> (\<exists>ws. w = concat ws \<and> length ws \<le> n \<and> list_all (in_lang r) ws)"
proof (induction n arbitrary: w)
  case (Suc n)
  show ?case
  proof
    assume "in_lang (repeatTo (Suc n) r) w"
    then consider v u where "w = v @ u" "in_lang r v" "in_lang (repeatTo n r) u" | "w = []"
      by (auto simp: optional_def in_lang_seq)
    then show "\<exists>ws. w = concat ws \<and> length ws \<le> Suc n \<and> list_all (in_lang r) ws"
    proof cases
      case 1
      then obtain ws where "u = concat ws" "length ws \<le> n" "list_all (in_lang r) ws" using Suc by auto
      with 1 show ?thesis by (intro exI [of _ "v # ws"]) simp
    qed (auto intro: exI [of _ "[]"])
  next
    assume "\<exists>ws. w = concat ws \<and> length ws \<le> Suc n \<and> list_all (in_lang r) ws"
    then obtain ws where ws: "w = concat ws" "length ws \<le> Suc n" "list_all (in_lang r) ws" by blast
    then show "in_lang (repeatTo (Suc n) r) w"
    proof (cases ws)
      case (Cons v vs)
      with ws have "in_lang (repeatTo n r) (concat vs)" using Suc by auto
      with Cons ws show ?thesis by (auto simp: optional_def in_lang_seq)
    qed (simp add: optional_def)
  qed
qed simp

end
