(* ===== verification/Detection.thy ===== *)
theory Detection
  imports Gateway Go_Regexp Go_Time Go_JSON
begin

text \<open>
  Detection of personal data in committed snapshots: the classifier with its five patterns
  (\<open>internal/detect/regex/classifier.go\<close>), the emission of a detection run into the graph and the
  \<open>detection_runs\<close> table (\<open>emit.go\<close>), the scanner that the dispatch pool calls
  (\<open>cmd/neksur-server/regex_scanner.go\<close>), the alert poster (\<open>internal/alerts/slack.go\<close>) and the
  stratified sample (\<open>internal/detect/sampling.go\<close>).

  Confidences are two-digit decimals and are kept as hundredths. The UUID parser, the catalog
  adapter, fresh run ids, the clock and the HTTP client are parameters. \<open>detection_db\<close> names what
  the emission theorems need to know of the table of migration V0062.
\<close>

section \<open>The classifier\<close>

record tag =
  tg_id :: string
  tg_name :: string
  tg_category :: string

record pattern_bank =
  pb_name :: rexp
  pb_value :: rexp
  pb_tag :: tag

definition aroundAny :: "string \<Rightarrow> string \<Rightarrow> rexp" where
  "aroundAny a b = seqAll [foldWord a, optional anyButNewline, foldWord b]"

definition notSpaceAt :: rexp where
  "notSpaceAt = RClass True (spaceRanges @ [(64, 64)])"

definition Phase1Bank :: "pattern_bank list" where
  "Phase1Bank =
     [\<lparr>pb_name = RAlt (foldWord ''ssn'') (aroundAny ''social'' ''security''),
       pb_value = RAlt (seqAll [repeatN 3 digitClass, runeLit CHR ''-'', repeatN 2 digitClass, runeLit CHR ''-'', repeatN 4 digitClass])
         (repeatN 9 digitClass),
       pb_tag = \<lparr>tg_id = ''pii-ssn-us'', tg_name = ''US SSN'', tg_category = ''PII''\<rparr>\<rparr>,
      \<lparr>pb_name = RAlt (foldWord ''email'')
         (seqAll [foldLit CHR ''e'', optional (RClass False [(45, 45), (95, 95)]), foldWord ''mail'']),
       pb_value = seqAll [plus notSpaceAt, runeLit CHR ''@'', plus notSpaceAt, runeLit CHR ''.'', plus notSpaceAt],
       pb_tag = \<lparr>tg_id = ''pii-email'', tg_name = ''Email'', tg_category = ''PII''\<rparr>\<rparr>,
      \<lparr>pb_name = RAlt (aroundAny ''credit'' ''card'') (RAlt (foldWord ''cc'') (foldWord ''pan'')),
       pb_value = (let cl = RClass False ((48, 57) # spaceRanges @ [(45, 45)]) in RSeq (repeatN 13 cl) (repeatTo 6 cl)),
       pb_tag = \<lparr>tg_id = ''pii-credit-card'', tg_name = ''Credit Card'', tg_category = ''PCI''\<rparr>\<rparr>,
      \<lparr>pb_name = RAlt (foldWord ''phone'') (foldWord ''tel''),
       pb_value = (let cl = RClass False ((48, 57) # spaceRanges @ [(45, 45), (40, 41), (46, 46)]) in
         seqAll [optional (runeLit CHR ''+''), repeatN 7 cl, RStar cl]),
       pb_tag = \<lparr>tg_id = ''pii-phone'', tg_name = ''Phone'', tg_category = ''PII''\<rparr>\<rparr>,
      \<lparr>pb_name = RAlt (foldWord ''iban'') (aroundAny ''account'' ''number''),
       pb_value = (let cl = RClass False [(65, 90), (48, 57)] in
         seqAll [repeatN 2 (RClass False [(65, 90)]), repeatN 2 digitClass, cl, repeatTo 29 cl]),
       pb_tag = \<lparr>tg_id = ''pii-iban'', tg_name = ''IBAN'', tg_category = ''PII''\<rparr>\<rparr>]"

definition MatchNameOnly :: string where "MatchNameOnly = ''name_only''"
definition MatchValueOnly :: string where "MatchValueOnly = ''value_only''"
definition MatchNameAndValue :: string where "MatchNameAndValue = ''name_and_value''"

definition ConfidenceNameAndValue :: nat where "ConfidenceNameAndValue = 92"
definition ConfidenceNameOnly :: nat where "ConfidenceNameOnly = 65"
definition ConfidenceValueOnly :: nat where "ConfidenceValueOnly = 55"
definition AlertThreshold :: nat where "AlertThreshold = 85"

record column_finding =
  cf_column :: string
  cf_tag :: tag
  cf_confidence :: nat
  cf_match :: string

definition score :: "bool \<Rightarrow> bool \<Rightarrow> (nat \<times> string) option" where
  "score nameMatch valueMatch =
     (if nameMatch \<and> valueMatch then Some (ConfidenceNameAndValue, MatchNameAndValue)
      else if nameMatch \<and> \<not> valueMatch then Some (ConfidenceNameOnly, MatchNameOnly)
      else if \<not> nameMatch \<and> valueMatch then Some (ConfidenceValueOnly, MatchValueOnly)
      else None)"

fun Classify :: "pattern_bank list \<Rightarrow> string \<Rightarrow> string list \<Rightarrow> column_finding list" where
  "Classify [] col vals = []"
| "Classify (p # bank) col vals =
     (case score (searchMatch (pb_name p) col) (list_ex (fullMatch (pb_value p)) vals) of
        None \<Rightarrow> Classify bank col vals
      | Some (conf, mt) \<Rightarrow>
          if conf < 50 then Classify bank col vals
          else \<lparr>cf_column = col, cf_tag = pb_tag p, cf_confidence = conf, cf_match = mt\<rparr> # Classify bank col vals)"

definition classifyAllColumns :: "pattern_bank list \<Rightarrow> schema_field list \<Rightarrow> column_finding list" where
  "classifyAllColumns bank fs = concat (map (\<lambda>f. Classify bank (sf_name f) []) fs)"

section \<open>Emission\<close>

text \<open>\<open>%f\<close> and \<open>%.2f\<close> of a confidence.\<close>

definition fmtConfidence :: "nat \<Rightarrow> string" where
  "fmtConfidence n = itoa (n div 100) @ ''.'' @ pad 2 (n mod 100)"

definition fmtF :: "nat \<Rightarrow> string" where
  "fmtF n = fmtConfidence n @ ''0000''"

definition cypherMergeDetectionRun :: "string \<Rightarrow> string \<Rightarrow> string \<Rightarrow> string \<Rightarrow> int \<Rightarrow> string" where
  "cypherMergeDetectionRun run tid now strategy rows_n =
     ''MERGE (dr:DetectionRun {run_id: '' @ cyLit run @ '', tenant_id: '' @ cyLit tid @
     ''}) WITH dr SET dr.started_at = COALESCE(dr.started_at, '' @ cyLit now @
     ''), dr.scan_strategy = COALESCE(dr.scan_strategy, '' @ cyLit strategy @
     ''), dr.sample_size = COALESCE(dr.sample_size, '' @ itoaInt rows_n @ '') RETURN id(dr)''"

definition cypherMergeSnapshotForDetect :: "string \<Rightarrow> string \<Rightarrow> string" where
  "cypherMergeSnapshotForDetect loc tid =
     ''MERGE (s:Snapshot {metadata_location: '' @ cyLit loc @ '', tenant_id: '' @ cyLit tid @ ''}) RETURN id(s)''"

definition cypherMergeViolationEdge :: "string \<Rightarrow> string \<Rightarrow> string \<Rightarrow> string \<Rightarrow> string" where
  "cypherMergeViolationEdge loc run tid now =
     ''MATCH (s:Snapshot {metadata_location: '' @ cyLit loc @ ''}), (dr:DetectionRun {run_id: '' @ cyLit run @
     ''}) MERGE (s)-[r:VIOLATION_DETECTED_BY {tenant_id: '' @ cyLit tid @
     ''}]->(dr) WITH r SET r.detected_at = COALESCE(r.detected_at, '' @ cyLit now @ '') RETURN id(r)''"

definition cypherMergeColumn :: "string \<Rightarrow> string \<Rightarrow> string \<Rightarrow> string" where
  "cypherMergeColumn loc col tid =
     ''MERGE (c:Column {snapshot_loc: '' @ cyLit loc @ '', name: '' @ cyLit col @ '', tenant_id: '' @ cyLit tid @
     ''}) RETURN id(c)''"

definition cypherMergeTag :: "tag \<Rightarrow> string \<Rightarrow> string" where
  "cypherMergeTag tg tid =
     ''MERGE (tag:Tag {id: '' @ cyLit (tg_id tg) @ '', tenant_id: '' @ cyLit tid @
     ''}) WITH tag SET tag.name = COALESCE(tag.name, '' @ cyLit (tg_name tg) @
     ''), tag.category = COALESCE(tag.category, '' @ cyLit (tg_category tg) @ '') RETURN id(tag)''"

definition cypherMergeClassifiedAsEdge :: "string \<Rightarrow> column_finding \<Rightarrow> string \<Rightarrow> string \<Rightarrow> string" where
  "cypherMergeClassifiedAsEdge loc f tid now =
     ''MATCH (c:Column {snapshot_loc: '' @ cyLit loc @ '', name: '' @ cyLit (cf_column f) @
     ''}), (tag:Tag {id: '' @ cyLit (tg_id (cf_tag f)) @ ''}) MERGE (c)-[r:CLASSIFIED_AS {tenant_id: '' @ cyLit tid @
     ''}]->(tag) WITH r SET r.confidence = '' @ fmtF (cf_confidence f) @ '', r.source = '' @ cyLit ''regex'' @
     '', r.last_seen_at = '' @ cyLit now @ '' RETURN id(r)''"

definition cypherMergeClassification :: "string \<Rightarrow> column_finding \<Rightarrow> string \<Rightarrow> string \<Rightarrow> string" where
  "cypherMergeClassification loc f run tid =
     ''MERGE (cl:Classification {column_snap_loc: '' @ cyLit loc @ '', column_name: '' @ cyLit (cf_column f) @
     '', tag_id: '' @ cyLit (tg_id (cf_tag f)) @ '', detection_run: '' @ cyLit run @ '', tenant_id: '' @ cyLit tid @
     ''}) WITH cl SET cl.confidence = COALESCE(cl.confidence, '' @ fmtF (cf_confidence f) @
     ''), cl.source = COALESCE(cl.source, '' @ cyLit ''regex'' @ ''), cl.match_type = COALESCE(cl.match_type, '' @
     cyLit (cf_match f) @ '') RETURN id(cl)''"

definition cypherMergeDetectedByEdge :: "string \<Rightarrow> column_finding \<Rightarrow> string \<Rightarrow> string \<Rightarrow> string" where
  "cypherMergeDetectedByEdge loc f run tid =
     ''MATCH (cl:Classification {column_snap_loc: '' @ cyLit loc @ '', column_name: '' @ cyLit (cf_column f) @
     '', tag_id: '' @ cyLit (tg_id (cf_tag f)) @ '', detection_run: '' @ cyLit run @
     ''}), (dr:DetectionRun {run_id: '' @ cyLit run @ ''}) MERGE (cl)-[r:DETECTED_BY {tenant_id: '' @ cyLit tid @
     ''}]->(dr) RETURN id(r)''"

definition detectionInsertSQL :: "string \<Rightarrow> string" where
  "detectionInsertSQL tid =
     ''INSERT INTO '' @ sanitizeIdent [SchemaName tid, ''detection_runs''] @
     '' (run_id, snapshot_metadata_location, started_at, scan_strategy, sample_size) VALUES ($1, $2, now(), $3, $4)'' @
     '' ON CONFLICT (snapshot_metadata_location) DO NOTHING RETURNING id''"

definition detectionUpdateSQL :: "string \<Rightarrow> string" where
  "detectionUpdateSQL tid =
     ''UPDATE '' @ sanitizeIdent [SchemaName tid, ''detection_runs''] @
     '' SET finished_at = now(), findings_count = $1 WHERE id = $2''"

text \<open>A statement whose literals are checked by \<open>escapeCypher\<close> first.\<close>

definition execSafe :: "'db pg \<Rightarrow> string list \<Rightarrow> string \<Rightarrow> 'db \<Rightarrow> graph_error + 'db" where
  "execSafe pg lits cy db = rbind (traverse MustSanitizeCypherLiteral lits) (\<lambda>_. execAGE pg cy db)"

fun emitFindings ::
  "'db pg \<Rightarrow> string \<Rightarrow> string \<Rightarrow> string \<Rightarrow> string \<Rightarrow> column_finding list \<Rightarrow> 'db \<Rightarrow> graph_error + 'db" where
  "emitFindings pg tid run now loc [] db = Inr db"
| "emitFindings pg tid run now loc (f # fs) db =
     (let col = cf_column f; tg = cf_tag f in
      rbind (execSafe pg [loc, col, tid] (cypherMergeColumn loc col tid) db) (\<lambda>db1.
      rbind (execSafe pg [tg_id tg, tid, tg_name tg, tg_category tg] (cypherMergeTag tg tid) db1) (\<lambda>db2.
      rbind (execSafe pg [loc, col, tg_id tg, tid] (cypherMergeClassifiedAsEdge loc f tid now) db2) (\<lambda>db3.
      rbind (execSafe pg [loc, col, tg_id tg, run, tid, cf_match f] (cypherMergeClassification loc f run tid) db3) (\<lambda>db4.
      rbind (execSafe pg [loc, col, tg_id tg, run, run, tid] (cypherMergeDetectedByEdge loc f run tid) db4) (\<lambda>db5.
        emitFindings pg tid run now loc fs db5))))))"

text \<open>The body of the transaction; True means that another replica holds the run.\<close>

definition emitTx ::
  "'db pg \<Rightarrow> string \<Rightarrow> string \<Rightarrow> string \<Rightarrow> string \<Rightarrow> string \<Rightarrow> string \<Rightarrow> int \<Rightarrow> column_finding list \<Rightarrow> 'db \<Rightarrow> graph_error + (bool \<times> 'db)" where
  "emitTx pg schemaID tid run now loc strategy rows_n fs db =
     rbind (txQuery pg (detectionInsertSQL schemaID) [run, loc, strategy, itoaInt rows_n] db) (\<lambda>(rows, db1).
       case rows of
         [] \<Rightarrow> Inr (True, db1)
       | [rid] # _ \<Rightarrow>
           rbind (execSafe pg [run, tid, strategy] (cypherMergeDetectionRun run tid now strategy rows_n) db1) (\<lambda>db2.
           rbind (execSafe pg [loc, tid] (cypherMergeSnapshotForDetect loc tid) db2) (\<lambda>db3.
           rbind (execSafe pg [loc, run, tid] (cypherMergeViolationEdge loc run tid now) db3) (\<lambda>db4.
           rbind (emitFindings pg tid run now loc fs db4) (\<lambda>db5.
           rbind (txQuery pg (detectionUpdateSQL schemaID) [itoa (length fs), rid] db5) (\<lambda>(_, db6).
             Inr (False, db6))))))
       | _ # _ \<Rightarrow> Inl (TransportError ''scan''))"

datatype detect_error =
    EmptyLocation
  | UnsafeEmission graph_error
  | BadTenantID
  | EmitFailed graph_error
  | ErrDetectionAlreadyEmittedByPeer
  | ScanCredentials graph_error
  | ScanAdapter string

definition findingTexts :: "column_finding \<Rightarrow> string list" where
  "findingTexts f = [cf_column f, tg_id (cf_tag f), tg_name (cf_tag f), tg_category (cf_tag f), cf_match f]"

definition EmitDetectionResults ::
  "(string \<Rightarrow> string option) \<Rightarrow> 'db pg \<Rightarrow> string \<Rightarrow> instant \<Rightarrow> string \<Rightarrow> string \<Rightarrow> string \<Rightarrow> int \<Rightarrow> column_finding list \<Rightarrow>
   'db \<Rightarrow> (detect_error + string) \<times> 'db" where
  "EmitDetectionResults uuidParse pg run now tid loc strategy0 rows_n fs db =
     (if loc = [] then (Inl EmptyLocation, db)
      else
        let strategy = (if strategy0 = [] then ''regex'' else strategy0) in
        case traverse SanitizeCypherLiteral (loc # strategy # concat (map findingTexts fs)) of
          Inl e \<Rightarrow> (Inl (UnsafeEmission e), db)
        | Inr _ \<Rightarrow>
           (case uuidParse tid of
              None \<Rightarrow> (Inl BadTenantID, db)
            | Some schemaID \<Rightarrow>
               (case ExecuteInTenant pg tid (emitTx pg schemaID tid run (FormatRFC3339Nano now) loc strategy rows_n fs) db of
                  (Inl e, db') \<Rightarrow> (Inl (EmitFailed e), db')
                | (Inr True, db') \<Rightarrow> (Inl ErrDetectionAlreadyEmittedByPeer, db')
                | (Inr False, db') \<Rightarrow> (Inr run, db'))))"

section \<open>Alerts\<close>

record slack =
  sl_url :: string
  sl_tag :: string

datatype slack_error = ErrSlackPostFailed nat | SlackTransport string

definition severityColor :: "string \<Rightarrow> string" where
  "severityColor sev =
     (if sev = ''error'' \<or> sev = ''critical'' then ''danger''
      else if sev = ''warning'' then ''warning'' else ''good'')"

definition slackField :: "string \<times> string \<Rightarrow> string" where
  "slackField kv =
     (case kv of (k, v) \<Rightarrow>
        ''{'' @ jsonQuote ''title'' @ '':'' @ jsonQuote k @ '','' @ jsonQuote ''value'' @ '':'' @ jsonQuote v @
        '','' @ jsonQuote ''short'' @ '':true}'')"

text \<open>The body of the request; \<open>details\<close> in the order in which the map is iterated.\<close>

definition slackBody :: "slack \<Rightarrow> string \<Rightarrow> string \<Rightarrow> string \<Rightarrow> (string \<times> string) list \<Rightarrow> string" where
  "slackBody s severity summary tid details =
     ''{'' @ jsonQuote ''text'' @ '':'' @
     jsonQuote (''['' @ sl_tag s @ ''] '' @ severity @ '' '' @ [CHR 0xE2, CHR 0x80, CHR 0x94] @ '' '' @ summary) @
     '','' @ jsonQuote ''attachments'' @ '':[{'' @ jsonQuote ''color'' @ '':'' @ jsonQuote (severityColor severity) @ '','' @
     (if summary = [] then [] else jsonQuote ''title'' @ '':'' @ jsonQuote summary @ '','') @
     jsonQuote ''fields'' @ '':['' @ join_with '','' (map slackField ((''tenant'', tid) # details)) @ '']}]}''"

text \<open>The requests sent so far are the state; the answer of the endpoint is a parameter.\<close>

definition slackPost ::
  "(string \<Rightarrow> string \<Rightarrow> string + nat) \<Rightarrow> slack \<Rightarrow> string \<Rightarrow> string \<Rightarrow> string \<Rightarrow> (string \<times> string) list \<Rightarrow>
   string list \<Rightarrow> slack_error option \<times> string list" where
  "slackPost http s severity summary tid details sent =
     (if sl_url s = [] then (None, sent)
      else
        let body = slackBody s severity summary tid details in
        case http (sl_url s) body of
          Inl e \<Rightarrow> (Some (SlackTransport e), sent @ [body])
        | Inr status \<Rightarrow>
            (if status < 200 \<or> 300 \<le> status then Some (ErrSlackPostFailed status) else None, sent @ [body]))"

section \<open>The scanner\<close>

record hit =
  hit_tenant :: string
  hit_location :: string
  hit_source :: string
  hit_namespace :: "string list"
  hit_table :: string

definition scanSchema :: "'up adapter \<Rightarrow> 'up \<Rightarrow> hit \<Rightarrow> schema_field list option" where
  "scanSchema ad up h =
     (if hit_table h = [] then None
      else case ad_load ad \<lparr>tr_namespace = hit_namespace h, tr_name = hit_table h\<rparr> up of
        Inl _ \<Rightarrow> None
      | Inr None \<Rightarrow> None
      | Inr (Some meta) \<Rightarrow> Some (tm_schema meta))"

fun postAlerts ::
  "(string \<Rightarrow> string \<Rightarrow> string + nat) \<Rightarrow> slack \<Rightarrow> hit \<Rightarrow> string \<Rightarrow> column_finding list \<Rightarrow> string list \<Rightarrow> string list" where
  "postAlerts http s h run [] sent = sent"
| "postAlerts http s h run (f # fs) sent =
     (if cf_confidence f < AlertThreshold then postAlerts http s h run fs sent
      else
        let tid = tg_id (cf_tag f); conf = fmtConfidence (cf_confidence f);
            summary = ''PII detected: '' @ cf_column f @ '' (tag='' @ tid @ '', confidence='' @ conf @ '')'' in
        postAlerts http s h run fs (snd (slackPost http s ''warning'' summary (hit_tenant h)
          [(''column'', cf_column f), (''tag'', tid), (''confidence'', conf), (''meta_loc'', hit_location h),
           (''source'', hit_source h), (''run_id'', run)] sent)))"

record ('db, 'up) scan_deps =
  sd_uuid :: "string \<Rightarrow> string option"
  sd_pg :: "'db pg"
  sd_build :: "credentials \<Rightarrow> string + 'up adapter"
  sd_bank :: "pattern_bank list"
  sd_http :: "string \<Rightarrow> string \<Rightarrow> string + nat"
  sd_slack :: slack

text \<open>The result is an error or None, with the alerts sent and the database.\<close>

definition Scan ::
  "('db, 'up) scan_deps \<Rightarrow> string \<Rightarrow> instant \<Rightarrow> 'up \<Rightarrow> hit \<Rightarrow> 'db \<Rightarrow> detect_error option \<times> string list \<times> 'db" where
  "Scan deps run now up h db =
     (case sd_uuid deps (hit_tenant h) of
        None \<Rightarrow> (Some BadTenantID, [], db)
      | Some tid \<Rightarrow>
         (case GetCatalogCredentials (sd_pg deps) (Some tid) ''prod-polaris'' db of
            (Inl ErrCredentialsNotFound, db1) \<Rightarrow> (None, [], db1)
          | (Inl (CredTransport e), db1) \<Rightarrow> (Some (ScanCredentials e), [], db1)
          | (Inr creds, db1) \<Rightarrow>
             (case sd_build deps creds of
                Inl e \<Rightarrow> (Some (ScanAdapter e), [], db1)
              | Inr ad \<Rightarrow>
                 let sc = scanSchema ad up h;
                     findings = classifyAllColumns (sd_bank deps) (case sc of None \<Rightarrow> [] | Some fs \<Rightarrow> fs);
                     strategy = (if sc = None then ''regex_skipped_no_table_ref'' else ''regex'') in
                 (case EmitDetectionResults (sd_uuid deps) (sd_pg deps) run now (hit_tenant h) (hit_location h) strategy
                         (int (length findings)) findings db1 of
                    (Inl ErrDetectionAlreadyEmittedByPeer, db2) \<Rightarrow> (None, [], db2)
                  | (Inl e, db2) \<Rightarrow> (Some e, [], db2)
                  | (Inr rid, db2) \<Rightarrow> (None, postAlerts (sd_http deps) (sd_slack deps) h rid findings [], db2)))))"

section \<open>Sampling\<close>

record file_meta =
  fm_path :: string
  fm_size :: int
  fm_columns :: "string list"

datatype bucket = BucketTiny | BucketSmall | BucketMedium | BucketLarge

definition tinyMaxBytes :: int where "tinyMaxBytes = 10 * 1024 * 1024"
definition smallMaxBytes :: int where "smallMaxBytes = 1024 * 1024 * 1024"
definition mediumMaxBytes :: int where "mediumMaxBytes = 10 * 1024 * 1024 * 1024"

definition classifyBucket :: "int \<Rightarrow> bucket" where
  "classifyBucket n =
     (if n < tinyMaxBytes then BucketTiny
      else if n < smallMaxBytes then BucketSmall
      else if n < mediumMaxBytes then BucketMedium else BucketLarge)"

text \<open>
  A rate is a double: a significand and the exponent of the power of two that divides it. The
  entries are 1, 0.1, 0.01 and 0.001, and 0.8, as the compiler rounds them.
\<close>

fun bucketRate :: "bucket \<Rightarrow> nat \<times> nat" where
  "bucketRate BucketTiny = (1, 0)"
| "bucketRate BucketSmall = (3602879701896397, 55)"
| "bucketRate BucketMedium = (5764607523034235, 59)"
| "bucketRate BucketLarge = (1152921504606847, 60)"

definition adjustedRate :: "bucket \<Rightarrow> nat \<times> nat" where
  "adjustedRate b = (case bucketRate b of (m, e) \<Rightarrow> (roundSig (m * 3602879701896397), e + 52))"

definition atLeastOne :: "nat \<times> nat \<Rightarrow> bool" where
  "atLeastOne r = (case r of (m, e) \<Rightarrow> 2 ^ e \<le> m)"

text \<open>A draw of \<open>Float64\<close> is a multiple of two to the power -53.\<close>

definition drawBelow :: "nat \<Rightarrow> nat \<times> nat \<Rightarrow> bool" where
  "drawBelow k r = (case r of (m, e) \<Rightarrow> k * 2 ^ e < m * 2 ^ 53)"

fun randomPass :: "(nat \<Rightarrow> nat) \<Rightarrow> nat \<Rightarrow> file_meta list \<Rightarrow> (string \<rightharpoonup> file_meta) \<Rightarrow> (string \<rightharpoonup> file_meta)" where
  "randomPass rng i [] picked = picked"
| "randomPass rng i (f # fs) picked =
     (let r = adjustedRate (classifyBucket (fm_size f)) in
      if atLeastOne r then randomPass rng i fs (picked(fm_path f \<mapsto> f))
      else if drawBelow (rng i) r then randomPass rng (Suc i) fs (picked(fm_path f \<mapsto> f))
      else randomPass rng (Suc i) fs picked)"

text \<open>The case table of Unicode is a parameter.\<close>

definition matchesAdversarial :: "(string \<Rightarrow> string) \<Rightarrow> file_meta \<Rightarrow> string list \<Rightarrow> bool" where
  "matchesAdversarial lower f hints \<longleftrightarrow>
     hints \<noteq> [] \<and> list_ex (\<lambda>col. list_ex (\<lambda>h. str_contains (lower col) (lower h)) hints) (fm_columns f)"

text \<open>The result is the map of the picked files by path; the code lists its values in no particular order.\<close>

definition StratifiedSample ::
  "(string \<Rightarrow> string) \<Rightarrow> (nat \<Rightarrow> nat) \<Rightarrow> file_meta list \<Rightarrow> string list \<Rightarrow> (string \<rightharpoonup> file_meta)" where
  "StratifiedSample lower rng files hints =
     (if files = [] then Map.empty
      else fold (\<lambda>f picked. if matchesAdversarial lower f hints then picked(fm_path f \<mapsto> f) else picked) files
        (randomPass rng 0 files Map.empty))"

definition DefaultAdversarialHints :: "string list" where
  "DefaultAdversarialHints =
     [''ssn'', ''social'', ''email'', ''phone'', ''iban'', ''credit'', ''card'', ''account'', ''customer'', ''user'',
      ''personal'', ''birth'', ''address'']"

section \<open>What the classifier reports\<close>

lemma Classify_iff:
  "f \<in> set (Classify bank col vals) \<longleftrightarrow>
   (\<exists>p \<in> set bank. \<exists>conf mt. score (searchMatch (pb_name p) col) (list_ex (fullMatch (pb_value p)) vals) = Some (conf, mt) \<and>
      f = \<lparr>cf_column = col, cf_tag = pb_tag p, cf_confidence = conf, cf_match = mt\<rparr>)"
proof (induction bank)
  case (Cons p bank)
  have "50 \<le> conf" if "score a b = Some (conf, mt)" for a b conf mt
    using that
    by (auto simp: score_def ConfidenceNameAndValue_def ConfidenceNameOnly_def ConfidenceValueOnly_def split: if_split_asm)
  then have "\<not> conf < 50" if "score a b = Some (conf, mt)" for a b conf mt using that by (simp add: not_less)
  with Cons show ?case by (auto split: option.split prod.split)
qed simp

lemma bank_tags: "p \<in> set Phase1Bank \<Longrightarrow> q \<in> set Phase1Bank \<Longrightarrow> pb_tag p = pb_tag q \<Longrightarrow> p = q"
proof -
  have "distinct (map pb_tag Phase1Bank)" by (simp add: Phase1Bank_def)
  then have "inj_on pb_tag (set Phase1Bank)" by (simp add: distinct_map)
  then show "p \<in> set Phase1Bank \<Longrightarrow> q \<in> set Phase1Bank \<Longrightarrow> pb_tag p = pb_tag q \<Longrightarrow> p = q" by (blast dest: inj_onD)
qed

lemma score_alert: "score a b = Some (conf, mt) \<Longrightarrow> AlertThreshold \<le> conf \<longleftrightarrow> a \<and> b"
  by (auto simp: score_def ConfidenceNameAndValue_def ConfidenceNameOnly_def ConfidenceValueOnly_def AlertThreshold_def split: if_split_asm)

text \<open>The two ways in which a pattern concerns a column, over the languages of its expressions.\<close>

definition nameHit :: "pattern_bank \<Rightarrow> string \<Rightarrow> bool" where
  "nameHit p col \<longleftrightarrow> (\<exists>u v w. runesOf col = u @ v @ w \<and> in_lang (pb_name p) v)"

definition valueHit :: "pattern_bank \<Rightarrow> string list \<Rightarrow> bool" where
  "valueHit p vals \<longleftrightarrow> (\<exists>x \<in> set vals. in_lang (pb_value p) (runesOf x))"

lemma hit_iff:
  "searchMatch (pb_name p) col \<longleftrightarrow> nameHit p col" "list_ex (fullMatch (pb_value p)) vals \<longleftrightarrow> valueHit p vals"
  by (simp_all add: nameHit_def valueHit_def searchMatch_iff fullMatch_iff list_ex_iff)

lemma Classify_tag:
  assumes "p \<in> set Phase1Bank"
  shows "(\<exists>f \<in> set (Classify Phase1Bank col vals). cf_tag f = pb_tag p \<and> P (cf_confidence f)) \<longleftrightarrow>
    (\<exists>conf mt. score (nameHit p col) (valueHit p vals) = Some (conf, mt) \<and> P conf)"
proof
  assume "\<exists>f \<in> set (Classify Phase1Bank col vals). cf_tag f = pb_tag p \<and> P (cf_confidence f)"
  then obtain q conf mt where q: "q \<in> set Phase1Bank" "pb_tag q = pb_tag p"
    "score (nameHit q col) (valueHit q vals) = Some (conf, mt)" "P conf"
    by (auto simp: Classify_iff hit_iff)
  then have "q = p" using bank_tags assms by blast
  with q show "\<exists>conf mt. score (nameHit p col) (valueHit p vals) = Some (conf, mt) \<and> P conf" by blast
next
  assume "\<exists>conf mt. score (nameHit p col) (valueHit p vals) = Some (conf, mt) \<and> P conf"
  then obtain conf mt where c: "score (nameHit p col) (valueHit p vals) = Some (conf, mt)" "P conf" by blast
  let ?f = "\<lparr>cf_column = col, cf_tag = pb_tag p, cf_confidence = conf, cf_match = mt\<rparr>"
  have "?f \<in> set (Classify Phase1Bank col vals)" unfolding Classify_iff using assms c(1) by (auto simp: hit_iff)
  then show "\<exists>f \<in> set (Classify Phase1Bank col vals). cf_tag f = pb_tag p \<and> P (cf_confidence f)"
    using c(2) by (intro bexI [of _ ?f]) simp_all
qed

text \<open>
  C34 A finding of a tag is reported for a column exactly when a part of the column name or a whole
  sampled value is in the language of the pattern of the tag, and it reaches the alert threshold
  exactly when both are.
\<close>
theorem classify_exact:
  assumes "p \<in> set Phase1Bank"
  shows "((\<exists>f \<in> set (Classify Phase1Bank col vals). cf_tag f = pb_tag p) \<longleftrightarrow> nameHit p col \<or> valueHit p vals) \<and>
    ((\<exists>f \<in> set (Classify Phase1Bank col vals). cf_tag f = pb_tag p \<and> AlertThreshold \<le> cf_confidence f) \<longleftrightarrow>
       nameHit p col \<and> valueHit p vals)"
proof -
  have sc: "(\<exists>conf mt. score a b = Some (conf, mt)) \<longleftrightarrow> a \<or> b" for a b by (auto simp: score_def)
  have al: "(\<exists>conf mt. score a b = Some (conf, mt) \<and> AlertThreshold \<le> conf) \<longleftrightarrow> a \<and> b" for a b
    using sc [of a b] score_alert [of a b] by blast
  show ?thesis
    using Classify_tag [OF assms, of col vals "\<lambda>_. True"] Classify_tag [OF assms, of col vals "\<lambda>c. AlertThreshold \<le> c"]
    unfolding al sc simp_thms by blast
qed

theorem classify_exact_witness:
  "(\<exists>f \<in> set (Classify Phase1Bank ''User_Email'' [''a@b.io'']). cf_tag f = pb_tag (Phase1Bank ! 1) \<and>
     AlertThreshold \<le> cf_confidence f) \<and>
   \<not> (\<exists>f \<in> set (Classify Phase1Bank ''User_Email'' [''7'']). cf_tag f = pb_tag (Phase1Bank ! 1) \<and>
     AlertThreshold \<le> cf_confidence f)"
proof -
  have p: "Phase1Bank ! 1 \<in> set Phase1Bank" by (simp add: Phase1Bank_def)
  let ?e = "RAlt (foldWord ''email'') (seqAll [foldLit CHR ''e'', optional (RClass False [(45, 45), (95, 95)]), foldWord ''mail''])"
  let ?v = "seqAll [plus notSpaceAt, runeLit CHR ''@'', plus notSpaceAt, runeLit CHR ''.'', plus notSpaceAt]"
  have b: "pb_name (Phase1Bank ! 1) = ?e" "pb_value (Phase1Bank ! 1) = ?v" by (simp_all add: Phase1Bank_def)
  have r: "runesOf ''User_Email'' = map of_char ''User_Email''" "runesOf ''a@b.io'' = map of_char ''a@b.io''" "runesOf ''7'' = map of_char ''7''"
    by (rule runesOf_ascii; simp add: inRange_def)+
  have n: "searchMatch (pb_name (Phase1Bank ! 1)) ''User_Email''"
    unfolding b searchMatch_def fullMatch_def r
    by (simp add: foldWord_def foldLit_def optional_def anyText_def inClass_def)
  have v: "fullMatch (pb_value (Phase1Bank ! 1)) ''a@b.io''" "\<not> fullMatch (pb_value (Phase1Bank ! 1)) ''7''"
    unfolding b fullMatch_def r by (simp_all add: plus_def notSpaceAt_def runeLit_def inClass_def)
  show ?thesis
    using classify_exact [OF p, of "''User_Email''" "[''a@b.io'']"] classify_exact [OF p, of "''User_Email''" "[''7'']"] n v
    hit_iff [of "Phase1Bank ! 1"]
    by (simp add: hit_iff [symmetric])
qed

section \<open>The table of runs\<close>

text \<open>
  The statements that the scan and the emission send besides the insert: the ones that bind the
  tenant, the read of the catalog row, the update that closes a run by its id, and the eight Cypher
  templates of \<open>emit.go\<close> over literals that passed the sanitiser, inside an AGE call.
\<close>

abbreviation safeLits :: "string list \<Rightarrow> bool" where
  "safeLits lits \<equiv> list_all (list_all cypherLiteralAllow) lits"

abbreviation ageStatement :: "string \<Rightarrow> string" where
  "ageStatement cy \<equiv> cypherStatement cy ''result ag_catalog.agtype''"

inductive scanStatement :: "string \<Rightarrow> string \<Rightarrow> bool" for sid :: string where
  searchPath: "scanStatement sid (layer1SQL tid)"
| setRole: "scanStatement sid (layer2SQL tid)"
| setTenant: "scanStatement sid setTenantSQL"
| catalogRow: "scanStatement sid credentialsSQL"
| closeRun: "scanStatement sid (detectionUpdateSQL sid)"
| detectionRun: "safeLits [run, tid, strategy] \<Longrightarrow>
    scanStatement sid (ageStatement (cypherMergeDetectionRun run tid (FormatRFC3339Nano t) strategy n))"
| snapshot: "safeLits [loc, tid] \<Longrightarrow> scanStatement sid (ageStatement (cypherMergeSnapshotForDetect loc tid))"
| violation: "safeLits [loc, run, tid] \<Longrightarrow>
    scanStatement sid (ageStatement (cypherMergeViolationEdge loc run tid (FormatRFC3339Nano t)))"
| column: "safeLits [loc, col, tid] \<Longrightarrow> scanStatement sid (ageStatement (cypherMergeColumn loc col tid))"
| tag: "safeLits [tg_id tg, tid, tg_name tg, tg_category tg] \<Longrightarrow> scanStatement sid (ageStatement (cypherMergeTag tg tid))"
| classifiedAs: "safeLits [loc, cf_column f, tg_id (cf_tag f), tid] \<Longrightarrow>
    scanStatement sid (ageStatement (cypherMergeClassifiedAsEdge loc f tid (FormatRFC3339Nano t)))"
| classification: "safeLits [loc, cf_column f, tg_id (cf_tag f), run, tid, cf_match f] \<Longrightarrow>
    scanStatement sid (ageStatement (cypherMergeClassification loc f run tid))"
| detectedBy: "safeLits [loc, cf_column f, tg_id (cf_tag f), run, run, tid] \<Longrightarrow>
    scanStatement sid (ageStatement (cypherMergeDetectedByEdge loc f run tid))"

text \<open>
  What the emission relies on: migration V0062 makes \<open>snapshot_metadata_location\<close> unique and checks
  that the strategy is \<open>regex\<close>; the insert skips a location that is there and otherwise adds it and
  returns its id; and the statements above leave the locations of the table as they are. \<open>runs\<close> reads
  the locations of the table of the tenant. Nothing is assumed of any other statement.
\<close>

definition detection_db :: "'db pg \<Rightarrow> string \<Rightarrow> ('db \<Rightarrow> string set) \<Rightarrow> bool" where
  "detection_db pg sid runs \<longleftrightarrow>
     (\<forall>run loc strategy n db.
        case pg_exec pg (detectionInsertSQL sid) [run, loc, strategy, n] db of
          Inl e \<Rightarrow> True
        | Inr (rows, db') \<Rightarrow> strategy = ''regex'' \<and>
            (if loc \<in> runs db then rows = [] \<and> runs db' = runs db
             else rows \<noteq> [] \<and> runs db' = insert loc (runs db))) \<and>
     (\<forall>q args db rows db'. scanStatement sid q \<longrightarrow> pg_exec pg q args db = Inr (rows, db') \<longrightarrow> runs db' = runs db)"

lemma detection_insert:
  assumes "detection_db pg sid runs" "txQuery pg (detectionInsertSQL sid) [run, loc, strategy, n] db = Inr (rows, db')"
  shows "strategy = ''regex'' \<and>
    (if loc \<in> runs db then rows = [] \<and> runs db' = runs db else rows \<noteq> [] \<and> runs db' = insert loc (runs db))"
proof -
  have e: "pg_exec pg (detectionInsertSQL sid) [run, loc, strategy, n] db = Inr (rows, db')"
    using assms(2) by (simp add: txQuery_def split: sum.split_asm)
  have "case pg_exec pg (detectionInsertSQL sid) [run, loc, strategy, n] db of
          Inl e \<Rightarrow> True
        | Inr (rows, db') \<Rightarrow> strategy = ''regex'' \<and>
            (if loc \<in> runs db then rows = [] \<and> runs db' = runs db
             else rows \<noteq> [] \<and> runs db' = insert loc (runs db))"
    using assms(1) unfolding detection_db_def by blast
  then show ?thesis unfolding e by simp
qed

lemma detection_other:
  assumes "detection_db pg sid runs" "txQuery pg q args db = Inr (rows, db')" "scanStatement sid q"
  shows "runs db' = runs db"
proof -
  have "pg_exec pg q args db = Inr (rows, db')" using assms(2) by (simp add: txQuery_def split: sum.split_asm)
  with assms(1,3) show ?thesis unfolding detection_db_def by blast
qed

lemma execSafe_runs:
  assumes "detection_db pg sid runs" "execSafe pg lits cy db = Inr db'"
    and "safeLits lits \<Longrightarrow> scanStatement sid (ageStatement cy)"
  shows "runs db' = runs db"
  using assms by (auto simp: execSafe_def execAGE_def traverse_sanitize elim!: rbind_InrE dest: detection_other)

lemma emitFindings_runs:
  assumes "detection_db pg sid runs"
  shows "emitFindings pg tid run (FormatRFC3339Nano t) loc fs db = Inr db' \<Longrightarrow> runs db' = runs db"
proof (induction fs arbitrary: db)
  case (Cons f fs)
  note keep = execSafe_runs [OF assms]
  from Cons.prems obtain d1 d2 d3 d4 d5 where
    "execSafe pg [loc, cf_column f, tid] (cypherMergeColumn loc (cf_column f) tid) db = Inr d1"
    "execSafe pg [tg_id (cf_tag f), tid, tg_name (cf_tag f), tg_category (cf_tag f)] (cypherMergeTag (cf_tag f) tid) d1 = Inr d2"
    "execSafe pg [loc, cf_column f, tg_id (cf_tag f), tid] (cypherMergeClassifiedAsEdge loc f tid (FormatRFC3339Nano t)) d2 = Inr d3"
    "execSafe pg [loc, cf_column f, tg_id (cf_tag f), run, tid, cf_match f] (cypherMergeClassification loc f run tid) d3 = Inr d4"
    "execSafe pg [loc, cf_column f, tg_id (cf_tag f), run, run, tid] (cypherMergeDetectedByEdge loc f run tid) d4 = Inr d5"
    and rest: "emitFindings pg tid run (FormatRFC3339Nano t) loc fs d5 = Inr db'"
    by (auto simp: Let_def elim!: rbind_InrE)
  then have "runs d5 = runs db"
    using keep [OF _ column] keep [OF _ tag] keep [OF _ classifiedAs] keep [OF _ classification] keep [OF _ detectedBy]
    by metis
  with Cons.IH [OF rest] show ?case by simp
qed simp

lemma emitTx_runs:
  assumes "detection_db pg sid runs" "emitTx pg sid tid run (FormatRFC3339Nano t) loc strategy n fs db = Inr (skipped, db')"
  shows "strategy = ''regex'' \<and>
    (if skipped then loc \<in> runs db \<and> runs db' = runs db else loc \<notin> runs db \<and> runs db' = insert loc (runs db))"
proof -
  obtain rows db1 where i: "txQuery pg (detectionInsertSQL sid) [run, loc, strategy, itoaInt n] db = Inr (rows, db1)"
    using assms(2) unfolding emitTx_def by (auto elim!: rbind_InrE)
  note ins = detection_insert [OF assms(1) i]
  show ?thesis
  proof (cases rows)
    case Nil
    then have "skipped" "db' = db1" using assms(2) i by (simp_all add: emitTx_def)
    with ins Nil show ?thesis by (auto split: if_split_asm)
  next
    case (Cons r rs)
    obtain rid where r: "r = [rid]" using assms(2) i Cons by (auto simp: emitTx_def split: list.split_asm)
    note keep = execSafe_runs [OF assms(1)]
    from assms(2) i Cons r obtain d2 d3 d4 d5 us where
      "execSafe pg [run, tid, strategy] (cypherMergeDetectionRun run tid (FormatRFC3339Nano t) strategy n) db1 = Inr d2"
      "execSafe pg [loc, tid] (cypherMergeSnapshotForDetect loc tid) d2 = Inr d3"
      "execSafe pg [loc, run, tid] (cypherMergeViolationEdge loc run tid (FormatRFC3339Nano t)) d3 = Inr d4"
      and f: "emitFindings pg tid run (FormatRFC3339Nano t) loc fs d4 = Inr d5"
      and u: "txQuery pg (detectionUpdateSQL sid) [itoa (length fs), rid] d5 = Inr (us, db')" and "\<not> skipped"
      by (auto simp: emitTx_def elim!: rbind_InrE)
    moreover from this have "runs d4 = runs db1"
      using keep [OF _ detectionRun] keep [OF _ snapshot] keep [OF _ violation] by metis
    moreover have "runs d5 = runs d4" using emitFindings_runs [OF assms(1) f] .
    moreover have "runs db' = runs d5" using detection_other [OF assms(1) u closeRun] .
    ultimately have "\<not> skipped \<and> runs db' = runs db1" by simp
    with ins Cons show ?thesis by (auto split: if_split_asm)
  qed
qed

lemma SetTenant_runs: "detection_db pg sid runs \<Longrightarrow> SetTenantContext pg tid db = Inr db' \<Longrightarrow> runs db' = runs db"
  using detection_other [OF _ _ setTenant, of pg sid runs "[tid]" db _ db']
  by (auto simp: SetTenantContext_def txQuery_def split: sum.split_asm)

text \<open>The outcomes of one emission, seen on the table.\<close>

lemma emit_step:
  assumes d: "detection_db pg sid runs" "uuidParse tid = Some sid"
    and "EmitDetectionResults uuidParse pg run now tid loc strategy n fs db = (r, db')"
  shows "case r of
      Inr rid \<Rightarrow> strategy \<in> {[], ''regex''} \<and> loc \<notin> runs db \<and> runs db' = insert loc (runs db)
    | Inl ErrDetectionAlreadyEmittedByPeer \<Rightarrow> loc \<in> runs db \<and> runs db' = runs db
    | Inl e \<Rightarrow> runs db' = runs db \<or> strategy \<in> {[], ''regex''} \<and> runs db' = insert loc (runs db)"
proof -
  let ?s = "if strategy = [] then ''regex'' else strategy"
  let ?fn = "emitTx pg sid tid run (FormatRFC3339Nano now) loc ?s n fs"
  consider (early) "db' = db" "r \<in> {Inl EmptyLocation, Inl BadTenantID} \<or> (\<exists>e. r = Inl (UnsafeEmission e))"
    | (tx) x where "ExecuteInTenant pg tid ?fn db = (x, db')"
       "r = (case x of Inl e \<Rightarrow> Inl (EmitFailed e) | Inr True \<Rightarrow> Inl ErrDetectionAlreadyEmittedByPeer | Inr False \<Rightarrow> Inr run)"
    using assms(2,3) unfolding EmitDetectionResults_def
    by (auto simp: Let_def split: if_split_asm sum.split_asm prod.split_asm bool.split_asm)
  then show ?thesis
  proof cases
    case early
    then show ?thesis by auto
  next
    case tx
    have step: "?s = ''regex'' \<and>
      (if sk then loc \<in> runs db \<and> runs db' = runs db else loc \<notin> runs db \<and> runs db' = insert loc (runs db))"
      if "SetTenantContext pg tid db = Inr db1" "?fn db1 = Inr (sk, db')" for db1 sk
      using emitTx_runs [OF d(1) that(2)] unfolding SetTenant_runs [OF d(1) that(1)] .
    show ?thesis
    proof (cases x)
      case (Inl e)
      then consider "db' = db" | db1 y where "SetTenantContext pg tid db = Inr db1" "?fn db1 = Inr (y, db')"
        using ExecuteInTenant_outcome [OF tx(1)] by auto
      then show ?thesis
      proof cases
        case 2
        from step [OF this] tx(2) Inl show ?thesis by (cases y) (simp_all split: if_split_asm)
      qed (simp add: tx(2) Inl)
    next
      case (Inr sk)
      then obtain db1 where "SetTenantContext pg tid db = Inr db1" "?fn db1 = Inr (sk, db')"
        using ExecuteInTenant_outcome [OF tx(1)] by auto
      from step [OF this] tx(2) Inr show ?thesis by (cases sk) (simp_all split: if_split_asm)
    qed
  qed
qed

section \<open>At most one run per snapshot\<close>

record emit_call =
  ec_run :: string
  ec_now :: instant
  ec_location :: string
  ec_strategy :: string
  ec_size :: int
  ec_findings :: "column_finding list"

text \<open>The emissions of all replicas of a tenant, in the order in which the database serialises them.\<close>

fun emitAll ::
  "(string \<Rightarrow> string option) \<Rightarrow> 'db pg \<Rightarrow> string \<Rightarrow> emit_call list \<Rightarrow> 'db \<Rightarrow> (emit_call \<times> (detect_error + string)) list \<times> 'db" where
  "emitAll uuidParse pg tid [] db = ([], db)"
| "emitAll uuidParse pg tid (c # cs) db =
     (case EmitDetectionResults uuidParse pg (ec_run c) (ec_now c) tid (ec_location c) (ec_strategy c) (ec_size c) (ec_findings c) db of
        (r, db1) \<Rightarrow> (case emitAll uuidParse pg tid cs db1 of (rs, db2) \<Rightarrow> ((c, r) # rs, db2)))"

definition emitted :: "(emit_call \<times> (detect_error + string)) list \<Rightarrow> string list" where
  "emitted rs = map (ec_location \<circ> fst) (filter (\<lambda>(c, r). \<not> isl r) rs)"

definition yielded :: "(emit_call \<times> (detect_error + string)) list \<Rightarrow> string list" where
  "yielded rs = map (ec_location \<circ> fst) (filter (\<lambda>(c, r). r = Inl ErrDetectionAlreadyEmittedByPeer) rs)"

text \<open>
  C35 Over any sequence of emissions for a tenant, by any number of replicas and with any failures, no
  snapshot is reported as emitted twice, none that was recorded before is emitted again, and an
  emission that yields to a peer finds the snapshot recorded.
\<close>
theorem detection_emitted_once:
  assumes "detection_db pg sid runs" "uuidParse tid = Some sid" "emitAll uuidParse pg tid cs db = (rs, db')"
  shows "distinct (emitted rs) \<and> set (emitted rs) \<inter> runs db = {} \<and>
    set (emitted rs) \<union> set (yielded rs) \<union> runs db \<subseteq> runs db'"
  using assms(3)
proof (induction cs arbitrary: db rs)
  case Nil
  then show ?case by (simp add: emitted_def yielded_def)
next
  case (Cons c cs)
  obtain r db1 rs' where e: "EmitDetectionResults uuidParse pg (ec_run c) (ec_now c) tid (ec_location c) (ec_strategy c)
      (ec_size c) (ec_findings c) db = (r, db1)"
    and rest: "emitAll uuidParse pg tid cs db1 = (rs', db')" and rs: "rs = (c, r) # rs'"
    using Cons.prems by (auto split: prod.split_asm)
  note ih = Cons.IH [OF rest]
  note step = emit_step [OF assms(1,2) e]
  consider (ok) rid where "r = Inr rid" | (peer) "r = Inl ErrDetectionAlreadyEmittedByPeer"
    | (err) e where "r = Inl e" "e \<noteq> ErrDetectionAlreadyEmittedByPeer"
    by (cases r) auto
  then show ?case
  proof cases
    case ok
    with step have "ec_location c \<notin> runs db" "runs db1 = insert (ec_location c) (runs db)" by auto
    with ih ok show ?thesis by (auto simp: rs emitted_def yielded_def)
  next
    case peer
    with step have "ec_location c \<in> runs db" "runs db1 = runs db" by auto
    with ih peer show ?thesis by (auto simp: rs emitted_def yielded_def)
  next
    case err
    with step have "runs db \<subseteq> runs db1" by (auto split: detect_error.split_asm)
    with ih err show ?thesis by (auto simp: rs emitted_def yielded_def)
  qed
qed

text \<open>A table of runs for concrete databases: the locations are the state.\<close>

definition runs_pg :: "string \<Rightarrow> string list pg" where
  "runs_pg sid = \<lparr>pg_acquire = \<lambda>_. None, pg_begin = \<lambda>_. None,
     pg_exec = \<lambda>q args db.
       if q = detectionInsertSQL sid then
         (case args of
            [run, loc, strategy, n] \<Rightarrow>
              if strategy \<noteq> ''regex'' then Inl ''check constraint''
              else if loc \<in> set db then Inr ([], db) else Inr ([[''1'']], loc # db)
          | _ \<Rightarrow> Inl ''arguments'')
       else if q = credentialsSQL then Inr ([[''polaris'', ''prod-polaris'', ''http://c'', ''{}'']], db)
       else Inr ([], db),
     pg_commit = \<lambda>_. None, pg_reset = \<lambda>_. None\<rparr>"

lemma scanStatement_not_insert: "scanStatement sid q \<Longrightarrow> q \<noteq> detectionInsertSQL sid'"
  by (erule scanStatement.cases)
     (auto simp: detectionInsertSQL_def detectionUpdateSQL_def layer1SQL_def layer2SQL_def setTenantSQL_def credentialsSQL_def
        cypherStatement_def)

lemma runs_pg_detection: "detection_db (runs_pg sid) sid set"
  using scanStatement_not_insert [of sid]
  by (auto simp: detection_db_def runs_pg_def insert_absorb split: list.split_asm if_split_asm)

theorem detection_emitted_once_witness:
  "\<exists>rs db'. emitAll Some (runs_pg ''t'') ''t''
     [\<lparr>ec_run = ''r1'', ec_now = 0, ec_location = ''m1'', ec_strategy = [], ec_size = 0, ec_findings = []\<rparr>,
      \<lparr>ec_run = ''r2'', ec_now = 0, ec_location = ''m1'', ec_strategy = [], ec_size = 0, ec_findings = []\<rparr>] [] = (rs, db') \<and>
     distinct (emitted rs) \<and> set (yielded rs) \<subseteq> set db'"
proof -
  obtain rs db' where e: "emitAll Some (runs_pg ''t'') ''t''
     [\<lparr>ec_run = ''r1'', ec_now = 0, ec_location = ''m1'', ec_strategy = [], ec_size = 0, ec_findings = []\<rparr>,
      \<lparr>ec_run = ''r2'', ec_now = 0, ec_location = ''m1'', ec_strategy = [], ec_size = 0, ec_findings = []\<rparr>] [] = (rs, db')"
    by (metis surj_pair)
  from detection_emitted_once [OF runs_pg_detection refl e] e show ?thesis by auto
qed

section \<open>What the scanner does\<close>

lemma credentials_runs:
  assumes "detection_db pg sid runs" and fn: "\<And>d1 d2 x. fn d1 = Inr (x, d2) \<Longrightarrow> runs d2 = runs d1"
    and "WithTenantTx pg tenant fn db = (r, db')"
  shows "runs db' = runs db"
proof -
  have keep: "runs d2 = runs d1" if "pg_exec pg q args d1 = Inr (rows, d2)" "scanStatement sid q" for q args d1 rows d2
    using detection_other [OF assms(1) _ that(2), of args d1 rows d2] that(1) by (simp add: txQuery_def)
  consider "db' = db" | tid r1 d1 r2 d2 r3 d3 x where "pg_exec pg (layer1SQL tid) [] db = Inr (r1, d1)"
      "pg_exec pg (layer2SQL tid) [] d1 = Inr (r2, d2)" "pg_exec pg setTenantSQL [tid] d2 = Inr (r3, d3)" "fn d3 = Inr (x, db')"
    using WithTenantTx_outcome [OF assms(3)] by (fastforce split: sum.split_asm)
  then show ?thesis
  proof cases
    case 2
    then show ?thesis
      using keep [OF 2(1) searchPath] keep [OF 2(2) setRole] keep [OF 2(3) setTenant] fn [OF 2(4)] by simp
  qed simp
qed

lemma GetCatalogCredentials_runs:
  assumes "detection_db pg sid runs" "GetCatalogCredentials pg tenant nick db = (r, db')"
  shows "runs db' = runs db"
proof -
  let ?fn = "\<lambda>db0. rbind (txQuery pg credentialsSQL [nick] db0) (\<lambda>(rows, db1).
          case rows of
            [] \<Rightarrow> Inl (Rejected ''no rows in result set'')
          | [kind, nick, ep, cfg] # _ \<Rightarrow>
              Inr (\<lparr>cr_kind = kind, cr_nickname = nick, cr_endpoint = ep, cr_config = cfg\<rparr>, db1)
          | _ # _ \<Rightarrow> Inl (TransportError ''scan''))"
  have fn: "runs d2 = runs d1" if fnp: "?fn d1 = Inr (x, d2)" for d1 d2 x
  proof -
    obtain rows where q: "txQuery pg credentialsSQL [nick] d1 = Inr (rows, d2)"
      using fnp by (auto elim!: rbind_InrE split: list.split_asm)
    show ?thesis using detection_other [OF assms(1) q catalogRow] .
  qed
  obtain q where "WithTenantTx pg tenant ?fn db = (q, db')"
    using assms(2) unfolding GetCatalogCredentials_def
    by (auto split: prod.split_asm sum.split_asm graph_error.split_asm)
  from credentials_runs [OF assms(1) fn this] show ?thesis .
qed

lemma name_only_below: "f \<in> set (classifyAllColumns bank fs) \<Longrightarrow> cf_confidence f < AlertThreshold"
  by (auto simp: classifyAllColumns_def Classify_iff score_def ConfidenceNameOnly_def AlertThreshold_def split: if_split_asm)

lemma postAlerts_none: "\<forall>f \<in> set fs. cf_confidence f < AlertThreshold \<Longrightarrow> postAlerts http s h run fs sent = sent"
  by (induction fs) auto

text \<open>
  The scanner classifies by column names alone, so whatever the table and the patterns are, no
  finding reaches the threshold and no alert is posted.
\<close>
theorem scan_posts_no_alert: "fst (snd (Scan deps run now up h db)) = []"
proof -
  have "postAlerts http s h run (classifyAllColumns bank fs) [] = []" for http s run bank fs
    by (rule postAlerts_none) (auto dest: name_only_below)
  then show ?thesis
    by (auto simp: Scan_def Let_def split: option.split sum.split prod.split cred_error.split detect_error.split)
qed

lemma untabled_hit_unrecorded_lemma:
  assumes "detection_db (sd_pg deps) sid runs" "sd_uuid deps (hit_tenant h) = Some sid" "hit_table h = []"
    and "Scan deps run now up h db = (r, alerts, db')"
  shows "runs db' = runs db \<and>
    (r = None \<longrightarrow> fst (GetCatalogCredentials (sd_pg deps) (Some sid) ''prod-polaris'' db) = Inl ErrCredentialsNotFound \<or>
       hit_location h \<in> runs db)"
proof -
  obtain g db1 where g: "GetCatalogCredentials (sd_pg deps) (Some sid) ''prod-polaris'' db = (g, db1)" by (metis surj_pair)
  note kept = GetCatalogCredentials_runs [OF assms(1) g]
  have sc: "scanSchema ad up h = None" for ad by (simp add: scanSchema_def assms(3))
  obtain x db2 where e: "EmitDetectionResults (sd_uuid deps) (sd_pg deps) run now (hit_tenant h) (hit_location h)
      ''regex_skipped_no_table_ref'' 0 [] db1 = (x, db2)" by (metis surj_pair)
  note emit = emit_step [OF assms(1,2) e]
  show ?thesis
    using assms(4) g kept emit e
    by (auto simp: Scan_def assms(2) sc classifyAllColumns_def Let_def
        split: sum.split_asm cred_error.split_asm detect_error.split_asm)
qed

text \<open>
  A hit without a table, which is every hit of the poller and of the object-store events, is
  recorded under a strategy that the check of migration V0062 refuses: the scan fails, or the tenant
  has no catalog row, and the table of runs is unchanged.
\<close>
theorem untabled_hit_unrecorded:
  assumes "detection_db (sd_pg deps) sid runs" "sd_uuid deps (hit_tenant h) = Some sid" "hit_table h = []"
    and "Scan deps run now up h db = (r, alerts, db')"
  shows "runs db' = runs db \<and>
    (r = None \<longrightarrow> fst (GetCatalogCredentials (sd_pg deps) (Some sid) ''prod-polaris'' db) = Inl ErrCredentialsNotFound \<or>
       hit_location h \<in> runs db)"
  using assms by (rule untabled_hit_unrecorded_lemma)

definition runs_deps :: "(string list, unit) scan_deps" where
  "runs_deps = \<lparr>sd_uuid = Some, sd_pg = runs_pg ''t'',
     sd_build = \<lambda>_. Inr \<lparr>ad_load = \<lambda>_ _. Inl ErrTableNotFound, ad_commit = \<lambda>_ _ _ up. (Inr None, up)\<rparr>,
     sd_bank = Phase1Bank, sd_http = \<lambda>_ _. Inr 200, sd_slack = \<lparr>sl_url = [], sl_tag = []\<rparr>\<rparr>"

theorem untabled_hit_unrecorded_witness:
  "set (snd (snd (Scan runs_deps ''r'' 0 () \<lparr>hit_tenant = ''t'', hit_location = ''m1'', hit_source = ''poller'',
     hit_namespace = [], hit_table = []\<rparr> [''m0'']))) = {''m0''}"
proof -
  let ?h = "\<lparr>hit_tenant = ''t'', hit_location = ''m1'', hit_source = ''poller'', hit_namespace = [], hit_table = []\<rparr>"
  have "detection_db (sd_pg runs_deps) ''t'' set" by (simp add: runs_deps_def runs_pg_detection)
  from untabled_hit_unrecorded [OF this, of ?h "''r''" 0 "()" "[''m0'']"] show ?thesis
    by (cases "Scan runs_deps ''r'' 0 () ?h [''m0'']") (simp add: runs_deps_def)
qed

section \<open>What the sample holds\<close>

lemma randomPass_from:
  "randomPass rng i fs picked path = Some f \<Longrightarrow> picked path = Some f \<or> f \<in> set fs \<and> fm_path f = path"
  by (induction fs arbitrary: i picked) (fastforce simp: Let_def split: if_split_asm)+

lemma adversarial_fold:
  "fold (\<lambda>f picked. if Q f then picked(fm_path f \<mapsto> f) else picked) fs picked path = Some f \<Longrightarrow>
   picked path = Some f \<or> f \<in> set fs \<and> fm_path f = path"
  by (induction fs arbitrary: picked) (fastforce split: if_split_asm)+

lemma adversarial_keeps:
  "(\<exists>f \<in> set fs. Q f \<and> fm_path f = path) \<or> picked path \<noteq> None \<Longrightarrow>
   fold (\<lambda>f picked. if Q f then picked(fm_path f \<mapsto> f) else picked) fs picked path \<noteq> None"
proof (induction fs arbitrary: picked)
  case (Cons g fs)
  then show ?case by (cases "Q g \<and> fm_path g = path") auto
qed simp

text \<open>
  A sample holds only files of the table, each under its own path, and the path of every file with
  a suspicious column is in it whatever the draws are.
\<close>
theorem sample_sound_and_adversarial:
  "(\<forall>path f. StratifiedSample lower rng files hints path = Some f \<longrightarrow> f \<in> set files \<and> fm_path f = path) \<and>
   (\<forall>f \<in> set files. matchesAdversarial lower f hints \<longrightarrow> fm_path f \<in> dom (StratifiedSample lower rng files hints))"
proof (intro conjI allI ballI impI)
  fix path f
  assume "StratifiedSample lower rng files hints path = Some f"
  then show "f \<in> set files" "fm_path f = path"
    using adversarial_fold [of "\<lambda>f. matchesAdversarial lower f hints" files "randomPass rng 0 files Map.empty" path f]
      randomPass_from [of rng 0 files Map.empty path f]
    by (auto simp: StratifiedSample_def split: if_split_asm)
next
  fix f
  assume "f \<in> set files" "matchesAdversarial lower f hints"
  then show "fm_path f \<in> dom (StratifiedSample lower rng files hints)"
    using adversarial_keeps [of files "\<lambda>f. matchesAdversarial lower f hints" "fm_path f"]
    by (auto simp: StratifiedSample_def domIff)
qed

text \<open>The smallest bucket is documented as scanned whole; a draw of 0.8 or more leaves its file out.\<close>

lemma tiny_rate: "adjustedRate BucketTiny = (3602879701896397, 52)"
proof -
  have "bitLength 3602879701896397 = 52" by (simp add: bitLength.simps)
  then show ?thesis by (simp add: adjustedRate_def roundSig_def)
qed

lemma tiny_file_skipped:
  assumes "fm_size f < tinyMaxBytes" "7205759403792794 \<le> rng 0" "\<not> matchesAdversarial lower f hints"
  shows "StratifiedSample lower rng [f] hints = Map.empty"
  using assms
  by (simp add: StratifiedSample_def Let_def classifyBucket_def tiny_rate atLeastOne_def drawBelow_def)

end
