(* ===== verification/Detection_Dispatch.thy ===== *)
theory Detection_Dispatch
  imports Detection
begin

text \<open>
  The dispatch of detection scans (\<open>internal/detect/dispatch\<close>): the worker pool with its map of
  seen snapshots (\<open>pool.go\<close>) and the three producers of hits, the poller (\<open>poller.go\<close>), the signed
  webhook (\<open>webhook.go\<close>) and the object-store events (\<open>s3events.go\<close>).

  The map of seen snapshots is a \<open>sync.Map\<close> whose \<open>LoadOrStore\<close> is atomic, so a run of the pool
  is a sequence of hits and sweeps in the order of their access to it, whichever worker does them.
  A cancelled context is a number of channel sends that still succeed. The UUID parser and the JSON
  decoders are parameters; HMAC-SHA256 is computed.
\<close>

unbundle bit_operations_syntax

section \<open>The pool\<close>

definition defaultWorkers :: int where "defaultWorkers = 4"

definition poolWorkers :: "string \<Rightarrow> int" where
  "poolWorkers env =
     (if env = [] then defaultWorkers
      else case atoi env of Some n \<Rightarrow> if 0 < n then n else defaultWorkers | None \<Rightarrow> defaultWorkers)"

definition seenTTL :: int where "seenTTL = 24 * 3600 * nsPerSec"

type_synonym seen = "string \<rightharpoonup> instant"

text \<open>True when the scanner is called.\<close>

definition processHit :: "instant \<Rightarrow> hit \<Rightarrow> seen \<Rightarrow> bool \<times> seen" where
  "processHit now h sn =
     (if hit_location h = [] then (False, sn)
      else case sn (hit_location h) of
        Some t \<Rightarrow> (False, sn)
      | None \<Rightarrow> (True, sn(hit_location h \<mapsto> now)))"

definition evictSeen :: "instant \<Rightarrow> seen \<Rightarrow> seen" where
  "evictSeen now sn = (\<lambda>k. case sn k of Some t \<Rightarrow> if t < now - seenTTL then None else Some t | None \<Rightarrow> None)"

record pool_state =
  po_clock :: instant
  po_seen :: seen
  po_scans :: "(instant \<times> hit) list"

inductive pool_step :: "pool_state \<Rightarrow> pool_state \<Rightarrow> bool" where
  hit: "po_clock s \<le> now \<Longrightarrow> processHit now h (po_seen s) = (scanned, sn) \<Longrightarrow>
    pool_step s \<lparr>po_clock = now, po_seen = sn, po_scans = (if scanned then (now, h) # po_scans s else po_scans s)\<rparr>"
| sweep: "po_clock s \<le> now \<Longrightarrow>
    pool_step s \<lparr>po_clock = now, po_seen = evictSeen now (po_seen s), po_scans = po_scans s\<rparr>"

section \<open>The poller\<close>

definition pollerLookbackWindow :: int where "pollerLookbackWindow = 60 * nsPerSec"
definition pollerMaxPerTenant :: nat where "pollerMaxPerTenant = 100"

definition activeTenantsSQL :: string where
  "activeTenantsSQL = ''SELECT id::text FROM public.tenants WHERE lifecycle_state = '' @ cyLit ''active''"

definition oneColumn :: "string list list \<Rightarrow> graph_error + string list" where
  "oneColumn rows = traverse (\<lambda>r. case r of [x] \<Rightarrow> Inr x | _ \<Rightarrow> Inl (TransportError ''scan'')) rows"

definition listActiveTenants :: "'db pg \<Rightarrow> 'db \<Rightarrow> (graph_error + string list) \<times> 'db" where
  "listActiveTenants pg db =
     (case txQuery pg activeTenantsSQL [] db of
        Inl e \<Rightarrow> (Inl e, db)
      | Inr (rows, db') \<Rightarrow> (oneColumn rows, db'))"

definition freshStatement :: "string \<Rightarrow> string" where
  "freshStatement since =
     ''MATCH (s:Snapshot) WHERE s.committed_at > '' @ cyLit since @ '' RETURN s.metadata_location LIMIT '' @
     itoa pollerMaxPerTenant"

definition stripQuotes :: "string \<Rightarrow> string" where
  "stripQuotes s = (if length s \<ge> 2 \<and> hd s = CHR 0x22 \<and> last s = CHR 0x22 then butlast (List.tl s) else s)"

definition pollerHits :: "string \<Rightarrow> string list \<Rightarrow> hit list" where
  "pollerHits tid locs =
     map (\<lambda>loc. \<lparr>hit_tenant = tid, hit_location = loc, hit_source = ''poller'', hit_namespace = [], hit_table = []\<rparr>)
       (filter (\<lambda>loc. loc \<noteq> []) (map stripQuotes locs))"

definition freshSnapshots :: "'db pg \<Rightarrow> string \<Rightarrow> string \<Rightarrow> 'db \<Rightarrow> (graph_error + hit list) \<times> 'db" where
  "freshSnapshots pg tid since db =
     (case MustSanitizeCypherLiteral since of
        Inl e \<Rightarrow> (Inl e, db)
      | Inr safe \<Rightarrow>
          ExecuteInTenant pg tid (\<lambda>db0.
            rbind (txQuery pg (cypherStatement (freshStatement safe) ''result ag_catalog.agtype'') [] db0) (\<lambda>(rows, db1).
            rbind (oneColumn rows) (\<lambda>locs. Inr (pollerHits tid locs, db1)))) db)"

text \<open>The hits of the tenants in turn; a tenant whose query fails is skipped.\<close>

fun pollTenants :: "'db pg \<Rightarrow> string \<Rightarrow> nat \<Rightarrow> string list \<Rightarrow> 'db \<Rightarrow> hit list \<times> 'db" where
  "pollTenants pg since room [] db = ([], db)"
| "pollTenants pg since room (tid # tids) db =
     (if room = 0 then ([], db)
      else case freshSnapshots pg tid since db of
        (Inl e, db1) \<Rightarrow> pollTenants pg since room tids db1
      | (Inr hits, db1) \<Rightarrow>
          if room < length hits then (take room hits, db1)
          else (case pollTenants pg since (room - length hits) tids db1 of (rest, db2) \<Rightarrow> (hits @ rest, db2)))"

definition pollOnce :: "'db pg \<Rightarrow> instant \<Rightarrow> nat \<Rightarrow> 'db \<Rightarrow> hit list \<times> 'db" where
  "pollOnce pg now room db =
     (case listActiveTenants pg db of
        (Inl e, db1) \<Rightarrow> ([], db1)
      | (Inr tids, db1) \<Rightarrow> pollTenants pg (FormatRFC3339Nano (now - pollerLookbackWindow)) room tids db1)"

section \<open>The webhook\<close>

definition hmacBlock :: "string \<Rightarrow> nat list" where
  "hmacBlock k =
     (let bs = (if length k > 64 then Sum256 k else map of_char k) in bs @ replicate (64 - length bs) 0)"

definition hmacSHA256 :: "string \<Rightarrow> string \<Rightarrow> nat list" where
  "hmacSHA256 secret body =
     (let k = hmacBlock secret;
          inner = Sum256 (map (\<lambda>b. char_of (b XOR 54)) k @ body) in
      Sum256 (map (\<lambda>b. char_of (b XOR 92)) k @ map char_of inner))"

definition fromHexChar :: "char \<Rightarrow> nat option" where
  "fromHexChar c =
     (let n = byte_val c in
      if 48 \<le> n \<and> n \<le> 57 then Some (n - 48)
      else if 97 \<le> n \<and> n \<le> 102 then Some (n - 87)
      else if 65 \<le> n \<and> n \<le> 70 then Some (n - 55) else None)"

fun hexDecode :: "string \<Rightarrow> nat list option" where
  "hexDecode [] = Some []"
| "hexDecode [c] = None"
| "hexDecode (c # d # s) =
     (case (fromHexChar c, fromHexChar d) of
        (Some h, Some l) \<Rightarrow> map_option (\<lambda>r. (16 * h + l) # r) (hexDecode s)
      | _ \<Rightarrow> None)"

definition verifyHMAC :: "string \<Rightarrow> string \<Rightarrow> string \<Rightarrow> bool" where
  "verifyHMAC body sig secret =
     (case hexDecode (TrimSpace sig) of None \<Rightarrow> False | Some got \<Rightarrow> hmacSHA256 secret body = got)"

definition SignBody :: "string \<Rightarrow> string \<Rightarrow> string" where
  "SignBody body secret = hexEncode (hmacSHA256 secret body)"

definition webhookSecretSQL :: "string \<Rightarrow> string" where
  "webhookSecretSQL tid =
     ''SELECT config_json->>'' @ cyLit ''webhook_secret'' @ '' AS secret FROM '' @ sanitizeIdent [SchemaName tid] @
     ''.catalog_credentials WHERE catalog_kind = '' @ cyLit ''polaris'' @ '' LIMIT 1''"

text \<open>No row and a NULL secret both give the empty text; a NULL column is read as the empty text here.\<close>

definition loadWebhookSecret :: "'db pg \<Rightarrow> string \<Rightarrow> 'db \<Rightarrow> (graph_error + string) \<times> 'db" where
  "loadWebhookSecret pg tid db =
     (case pg_acquire pg db of
        Some e \<Rightarrow> (Inl (TransportError e), db)
      | None \<Rightarrow>
         (case txQuery pg setTenantSQL [tid] db of
            Inl e \<Rightarrow> (Inl e, db)
          | Inr (_, db1) \<Rightarrow>
             (case txQuery pg (webhookSecretSQL tid) [] db1 of
                Inl e \<Rightarrow> (Inl e, db1)
              | Inr ([], db2) \<Rightarrow> (Inr [], db2)
              | Inr ([s] # _, db2) \<Rightarrow> (Inr s, db2)
              | Inr (_ # _, db2) \<Rightarrow> (Inl (TransportError ''scan''), db2))))"

record webhook_request =
  wh_method :: string
  wh_body :: "string option"
  wh_sig :: string
  wh_tenant :: string

text \<open>The signed payload; its \<open>tenant_id\<close> is decoded and not read again.\<close>

record webhook_payload =
  wp_tenant :: string
  wp_location :: string
  wp_namespace :: string
  wp_table :: string

definition maxPolarisWebhookBytes :: nat where "maxPolarisWebhookBytes = 256 * 1024"

definition webhookHit :: "string \<Rightarrow> webhook_payload \<Rightarrow> hit" where
  "webhookHit tid p =
     \<lparr>hit_tenant = tid, hit_location = wp_location p, hit_source = ''polaris-webhook'',
      hit_namespace = (if wp_namespace p = [] then [] else [wp_namespace p]), hit_table = wp_table p\<rparr>"

text \<open>The status, the hit that was queued and the database; \<open>cancelled\<close> when the request context ends first.\<close>

definition WebhookHandler ::
  "(string \<Rightarrow> string option) \<Rightarrow> (string \<Rightarrow> webhook_payload option) \<Rightarrow> 'db pg \<Rightarrow> string \<Rightarrow> bool \<Rightarrow> webhook_request \<Rightarrow> 'db \<Rightarrow>
   nat \<times> hit option \<times> 'db" where
  "WebhookHandler uuidParse decode pg enabled cancelled rq db =
     (if enabled = ''0'' then (410, None, db)
      else if wh_method rq \<noteq> ''POST'' then (405, None, db)
      else case wh_body rq of
        None \<Rightarrow> (401, None, db)
      | Some body \<Rightarrow>
          if length body > maxPolarisWebhookBytes then (401, None, db)
          else if wh_sig rq = [] \<or> wh_tenant rq = [] then (401, None, db)
          else (case uuidParse (wh_tenant rq) of
            None \<Rightarrow> (401, None, db)
          | Some tid \<Rightarrow>
             (case loadWebhookSecret pg tid db of
                (Inl e, db1) \<Rightarrow> (401, None, db1)
              | (Inr secret, db1) \<Rightarrow>
                  if secret = [] then (401, None, db1)
                  else if \<not> verifyHMAC body (wh_sig rq) secret then (401, None, db1)
                  else (case decode body of
                    None \<Rightarrow> (400, None, db1)
                  | Some p \<Rightarrow>
                      if wp_location p = [] then (400, None, db1)
                      else if cancelled then (503, None, db1)
                      else (200, Some (webhookHit tid p), db1)))))"

section \<open>Object-store events\<close>

record s3_record =
  s3_event :: string
  s3_bucket :: string
  s3_key :: string

definition s3URI :: "s3_record \<Rightarrow> string" where
  "s3URI r = ''s3://'' @ s3_bucket r @ ''/'' @ s3_key r"

definition s3Relevant :: "s3_record \<Rightarrow> bool" where
  "s3Relevant r \<longleftrightarrow>
     has_prefix (s3_event r) ''ObjectCreated:'' \<and>
     (has_suffix (s3_key r) ''metadata.json'' \<or> has_suffix (s3_key r) ''.metadata.json'')"

text \<open>The hits of the records in order; the flag says that the context ended first.\<close>

fun pushRecords :: "string \<Rightarrow> nat \<Rightarrow> s3_record list \<Rightarrow> hit list \<times> bool" where
  "pushRecords tid room [] = ([], False)"
| "pushRecords tid room (r # rs) =
     (if \<not> s3Relevant r then pushRecords tid room rs
      else if room = 0 then ([], True)
      else (case pushRecords tid (room - 1) rs of
        (hits, stopped) \<Rightarrow>
          (\<lparr>hit_tenant = tid, hit_location = s3URI r, hit_source = ''s3-event'', hit_namespace = [], hit_table = []\<rparr> # hits, stopped)))"

record sqs_message =
  ms_body :: "string option"
  ms_handle :: "string option"

text \<open>\<open>envelope\<close> reads the \<open>Message\<close> field of a body, \<open>event\<close> the records; the second result is the message to delete.\<close>

definition processSQSMessage ::
  "(string \<Rightarrow> string option) \<Rightarrow> (string \<Rightarrow> s3_record list option) \<Rightarrow> string \<Rightarrow> nat \<Rightarrow> sqs_message \<Rightarrow> hit list \<times> string option" where
  "processSQSMessage envelope event tid room msg =
     (case ms_body msg of
        None \<Rightarrow> ([], None)
      | Some body \<Rightarrow>
         (case envelope body of
            None \<Rightarrow> ([], None)
          | Some inner \<Rightarrow>
             (case event (if inner = [] then body else inner) of
                None \<Rightarrow> ([], None)
              | Some records \<Rightarrow>
                 (case pushRecords tid room records of
                    (hits, True) \<Rightarrow> (hits, None)
                  | (hits, False) \<Rightarrow> (hits, ms_handle msg)))))"

text \<open>One answer of the queue: its messages in order; the room of the context is shared.\<close>

fun consumeMessages ::
  "(string \<Rightarrow> string option) \<Rightarrow> (string \<Rightarrow> s3_record list option) \<Rightarrow> string \<Rightarrow> nat \<Rightarrow> sqs_message list \<Rightarrow> hit list \<times> string list" where
  "consumeMessages envelope event tid room [] = ([], [])"
| "consumeMessages envelope event tid room (m # ms) =
     (case processSQSMessage envelope event tid room m of
        (hits, del) \<Rightarrow>
          (case consumeMessages envelope event tid (room - length hits) ms of
             (rest, dels) \<Rightarrow> (hits @ rest, (case del of None \<Rightarrow> dels | Some r \<Rightarrow> r # dels))))"

section \<open>The pool scans a snapshot once a day\<close>

inductive_cases pool_stepE: "pool_step s s'"

text \<open>
  Every scan is remembered until it is older than the time to live, and two scans of a location lie
  further apart than that; the log is newest first.
\<close>

fun spaced :: "(instant \<times> hit) list \<Rightarrow> bool" where
  "spaced [] = True"
| "spaced ((t, h) # log) =
     ((\<forall>(t', h') \<in> set log. hit_location h' = hit_location h \<longrightarrow> t' + seenTTL < t) \<and> spaced log)"

definition pool_inv :: "pool_state \<Rightarrow> bool" where
  "pool_inv s \<longleftrightarrow> spaced (po_scans s) \<and>
     (\<forall>(t, h) \<in> set (po_scans s). hit_location h \<noteq> [] \<and>
        (po_seen s (hit_location h) = Some t \<or> t + seenTTL < po_clock s)) \<and>
     (\<forall>loc t. po_seen s loc = Some t \<longrightarrow> (\<exists>h. (t, h) \<in> set (po_scans s) \<and> hit_location h = loc))"

lemma pool_invI:
  "spaced (po_scans s) \<Longrightarrow>
   (\<And>t h. (t, h) \<in> set (po_scans s) \<Longrightarrow> hit_location h \<noteq> [] \<and>
      (po_seen s (hit_location h) = Some t \<or> t + seenTTL < po_clock s)) \<Longrightarrow>
   (\<And>loc t. po_seen s loc = Some t \<Longrightarrow> \<exists>h. (t, h) \<in> set (po_scans s) \<and> hit_location h = loc) \<Longrightarrow> pool_inv s"
  unfolding pool_inv_def by blast

lemma pool_invD:
  assumes "pool_inv s"
  shows "spaced (po_scans s)"
    "(t, h) \<in> set (po_scans s) \<Longrightarrow> hit_location h \<noteq> [] \<and>
      (po_seen s (hit_location h) = Some t \<or> t + seenTTL < po_clock s)"
    "po_seen s loc = Some t \<Longrightarrow> \<exists>h. (t, h) \<in> set (po_scans s) \<and> hit_location h = loc"
  using assms unfolding pool_inv_def by blast+

lemma pool_inv_step: "pool_step s s' \<Longrightarrow> pool_inv s \<Longrightarrow> pool_inv s'"
proof (elim pool_stepE)
  fix now h scanned sn
  assume inv: "pool_inv s" and c: "po_clock s \<le> now" and p: "processHit now h (po_seen s) = (scanned, sn)"
    and s': "s' = \<lparr>po_clock = now, po_seen = sn, po_scans = (if scanned then (now, h) # po_scans s else po_scans s)\<rparr>"
  show "pool_inv s'"
  proof (cases scanned)
    case False
    then have "sn = po_seen s" using p by (auto simp: processHit_def split: if_split_asm option.split_asm)
    moreover have "hit_location g \<noteq> [] \<and> (po_seen s (hit_location g) = Some t \<or> t + seenTTL < now)"
      if "(t, g) \<in> set (po_scans s)" for t g
      using pool_invD(2) [OF inv that] c by auto
    ultimately show ?thesis using pool_invD(1,3) [OF inv] s' False by (intro pool_invI) auto
  next
    case True
    then have new: "hit_location h \<noteq> []" "po_seen s (hit_location h) = None" "sn = (po_seen s)(hit_location h \<mapsto> now)"
      using p by (auto simp: processHit_def split: if_split_asm option.split_asm)
    have old: "t' + seenTTL < now" if "(t', h') \<in> set (po_scans s)" "hit_location h' = hit_location h" for t' h'
      using pool_invD(2) [OF inv that(1)] that(2) new(2) c by simp
    let ?s = "\<lparr>po_clock = now, po_seen = (po_seen s)(hit_location h \<mapsto> now), po_scans = (now, h) # po_scans s\<rparr>"
    have "hit_location g \<noteq> [] \<and> (po_seen ?s (hit_location g) = Some t \<or> t + seenTTL < now)"
      if "(t, g) \<in> set (po_scans ?s)" for t g
      using that pool_invD(2) [OF inv, of t g] old [of t g] new(1) c by (cases "(t, g) = (now, h)") auto
    moreover have "\<exists>g. (t, g) \<in> set (po_scans ?s) \<and> hit_location g = loc" if "po_seen ?s loc = Some t" for loc t
      using that pool_invD(3) [OF inv, of loc t] by (cases "loc = hit_location h") auto
    moreover have "spaced (po_scans ?s)" using pool_invD(1) [OF inv] old by auto
    ultimately have "pool_inv ?s" by (intro pool_invI) auto
    with s' True new(3) show ?thesis by simp
  qed
next
  fix now
  assume inv: "pool_inv s" and c: "po_clock s \<le> now"
    and s': "s' = \<lparr>po_clock = now, po_seen = evictSeen now (po_seen s), po_scans = po_scans s\<rparr>"
  have ev: "evictSeen now (po_seen s) loc = Some t \<longleftrightarrow> po_seen s loc = Some t \<and> now \<le> t + seenTTL" for loc t
    by (auto simp: evictSeen_def split: option.split)
  have "hit_location g \<noteq> [] \<and> (evictSeen now (po_seen s) (hit_location g) = Some t \<or> t + seenTTL < now)"
    if "(t, g) \<in> set (po_scans s)" for t g
    using pool_invD(2) [OF inv that] c by (auto simp: ev)
  then show "pool_inv s'" using pool_invD(1,3) [OF inv] unfolding s' by (intro pool_invI) (auto simp: ev)
qed

lemma pool_inv_start: "pool_inv \<lparr>po_clock = t, po_seen = Map.empty, po_scans = []\<rparr>"
  by (simp add: pool_inv_def)

lemma pool_inv_reachable: "pool_step\<^sup>*\<^sup>* s s' \<Longrightarrow> pool_inv s \<Longrightarrow> pool_inv s'"
  by (induction rule: rtranclp_induct) (auto intro: pool_inv_step)

lemma spaced_nth:
  assumes "spaced log" "i < j" "j < length log" "hit_location (snd (log ! i)) = hit_location (snd (log ! j))"
  shows "fst (log ! j) + seenTTL < fst (log ! i)"
  using assms
proof (induction log arbitrary: i j rule: spaced.induct)
  case (2 t h log)
  show ?case
  proof (cases i)
    case 0
    then obtain j' where "j = Suc j'" using 2(3) by (cases j) auto
    with 2 0 show ?thesis by (auto simp: case_prod_unfold dest: nth_mem)
  next
    case (Suc i')
    then obtain j' where "j = Suc j'" using 2(3) by (cases j) auto
    with 2 Suc show ?thesis by auto
  qed
qed simp

text \<open>
  C36 Whatever the workers and the eviction sweep do, two scans of the same snapshot by one process are
  more than 24 hours apart, and a hit that the pool takes is never lost: its snapshot has been
  scanned by this process, at the moment that the map of seen snapshots records.
\<close>
theorem pool_dedup:
  assumes "pool_step\<^sup>*\<^sup>* \<lparr>po_clock = t0, po_seen = Map.empty, po_scans = []\<rparr> s"
  shows "(\<forall>i j. i < j \<and> j < length (po_scans s) \<and>
        hit_location (snd (po_scans s ! i)) = hit_location (snd (po_scans s ! j)) \<longrightarrow>
        fst (po_scans s ! j) + seenTTL < fst (po_scans s ! i)) \<and>
    (\<forall>now h scanned sn. po_clock s \<le> now \<and> hit_location h \<noteq> [] \<and> processHit now h (po_seen s) = (scanned, sn) \<longrightarrow>
       (scanned \<or> (\<exists>t h'. (t, h') \<in> set (po_scans s) \<and> hit_location h' = hit_location h \<and> sn (hit_location h) = Some t)))"
proof -
  have inv: "pool_inv s" using pool_inv_reachable [OF assms pool_inv_start] .
  show ?thesis
  proof (intro conjI allI impI)
    fix i j
    assume "i < j \<and> j < length (po_scans s) \<and> hit_location (snd (po_scans s ! i)) = hit_location (snd (po_scans s ! j))"
    then show "fst (po_scans s ! j) + seenTTL < fst (po_scans s ! i)" using spaced_nth [OF pool_invD(1) [OF inv]] by blast
  next
    fix now h scanned sn
    assume "po_clock s \<le> now \<and> hit_location h \<noteq> [] \<and> processHit now h (po_seen s) = (scanned, sn)"
    then show "scanned \<or> (\<exists>t h'. (t, h') \<in> set (po_scans s) \<and> hit_location h' = hit_location h \<and> sn (hit_location h) = Some t)"
      using pool_invD(3) [OF inv, of "hit_location h"]
      by (auto simp: processHit_def split: if_split_asm option.split_asm)
  qed
qed

abbreviation demo_hit :: "string \<Rightarrow> hit" where
  "demo_hit loc \<equiv> \<lparr>hit_tenant = ''t'', hit_location = loc, hit_source = ''poller'', hit_namespace = [], hit_table = []\<rparr>"

theorem pool_dedup_witness:
  "pool_step\<^sup>*\<^sup>* \<lparr>po_clock = 0, po_seen = Map.empty, po_scans = []\<rparr>
     \<lparr>po_clock = 5, po_seen = [''m1'' \<mapsto> 5], po_scans = [(5, demo_hit ''m1'')]\<rparr> \<and>
   fst (processHit 6 (demo_hit ''m1'') [''m1'' \<mapsto> 5]) = False \<and>
   (\<exists>t h'. (t, h') \<in> set [(5, demo_hit ''m1'')] \<and> hit_location h' = ''m1'' \<and> [''m1'' \<mapsto> (5::int)] ''m1'' = Some t)"
proof -
  have r: "pool_step\<^sup>*\<^sup>* \<lparr>po_clock = 0, po_seen = Map.empty, po_scans = []\<rparr>
     \<lparr>po_clock = 5, po_seen = [''m1'' \<mapsto> 5], po_scans = [(5, demo_hit ''m1'')]\<rparr>"
    using pool_step.hit [of "\<lparr>po_clock = 0, po_seen = Map.empty, po_scans = []\<rparr>" 5 "demo_hit ''m1''" True "[''m1'' \<mapsto> 5]"]
    by (intro r_into_rtranclp) (simp add: processHit_def)
  have p: "processHit 6 (demo_hit ''m1'') [''m1'' \<mapsto> 5] = (False, [''m1'' \<mapsto> 5])" by (simp add: processHit_def)
  show ?thesis
    using pool_dedup [OF r] r p by (auto dest!: spec [of _ 6] spec [of _ "demo_hit ''m1''"])
qed

section \<open>The webhook accepts signed requests only\<close>

lemma hexDigit_bytes:
  assumes "n < 16"
  shows "fromHexChar (Sha256.hexDigit n) = Some n" "solid (Sha256.hexDigit n)"
proof -
  have "byte_val (Sha256.hexDigit n) = (if n < 10 then 48 + n else 87 + n)"
    using assms by (simp add: Sha256.hexDigit_def)
  then show "fromHexChar (Sha256.hexDigit n) = Some n" "solid (Sha256.hexDigit n)"
    using assms by (auto simp: fromHexChar_def solid_def Let_def)
qed

lemma hexDecode_encode: "\<forall>b \<in> set bs. b < 256 \<Longrightarrow> hexDecode (hexEncode bs) = Some bs"
proof (induction bs)
  case (Cons b bs)
  have "b div 16 < 16" using Cons.prems by (intro less_mult_imp_div_less) simp
  with Cons show ?case by (simp add: hexEncode_def hexDigit_bytes)
qed (simp add: hexEncode_def)

lemma hexEncode_solid: "\<forall>b \<in> set bs. b < 256 \<Longrightarrow> list_all solid (hexEncode bs)"
  by (induction bs) (auto simp: hexEncode_def hexDigit_bytes less_mult_imp_div_less)

text \<open>
  A signature that \<open>SignBody\<close> makes verifies, and a body verifies under a signature exactly when
  the signature, without the space around it, decodes to the HMAC of the body under the secret.
\<close>
theorem webhook_signature_roundtrip:
  "verifyHMAC body (SignBody body secret) secret \<and>
   (verifyHMAC body sig secret \<longleftrightarrow> hexDecode (TrimSpace sig) = Some (hmacSHA256 secret body))"
proof -
  have b: "\<forall>x \<in> set (hmacSHA256 secret body). x < 256" by (simp add: hmacSHA256_def Let_def Sum256_bytes)
  have "TrimSpace (SignBody body secret) = SignBody body secret"
  proof (cases "SignBody body secret = []")
    case False
    then show ?thesis
      using hexEncode_solid [OF b] by (intro TrimSpace_solid) (auto simp: SignBody_def list_all_iff)
  qed simp
  then show ?thesis by (auto simp: verifyHMAC_def SignBody_def hexDecode_encode [OF b] split: option.split)
qed

text \<open>
  An authentic request: a POST to the enabled handler within the size limit whose signature is the
  HMAC of the body under the non-empty secret of the tenant that the header names; \<open>db'\<close> is the
  database after the lookup of the secret. A usable payload decodes and names a metadata file.
\<close>

definition webhookSigned ::
  "(string \<Rightarrow> string option) \<Rightarrow> 'db pg \<Rightarrow> string \<Rightarrow> webhook_request \<Rightarrow> 'db \<Rightarrow> 'db \<Rightarrow> bool" where
  "webhookSigned uuidParse pg enabled rq db db' \<longleftrightarrow>
     enabled \<noteq> ''0'' \<and> wh_method rq = ''POST'' \<and> wh_sig rq \<noteq> [] \<and> wh_tenant rq \<noteq> [] \<and>
     (\<exists>body tid secret. wh_body rq = Some body \<and> length body \<le> maxPolarisWebhookBytes \<and>
        uuidParse (wh_tenant rq) = Some tid \<and> loadWebhookSecret pg tid db = (Inr secret, db') \<and> secret \<noteq> [] \<and>
        hexDecode (TrimSpace (wh_sig rq)) = Some (hmacSHA256 secret body))"

definition payloadUsable :: "(string \<Rightarrow> webhook_payload option) \<Rightarrow> webhook_request \<Rightarrow> bool" where
  "payloadUsable decode rq \<longleftrightarrow> (\<exists>body p. wh_body rq = Some body \<and> decode body = Some p \<and> wp_location p \<noteq> [])"

text \<open>
  C24 The answers of the webhook, each exactly: 200 for an authentic request with a usable payload, and
  then one hit is queued, for the tenant of the header and with the file and table of the payload;
  400 for an authentic request without a usable payload; 503 for one whose context ends before the
  hit is queued; and 401, 405 or 410 for every request that is not authentic, one that names its
  tenant only in the payload included. Nothing is queued with any other answer than 200.
\<close>
theorem webhook_authenticated:
  "case WebhookHandler uuidParse decode pg enabled cancelled rq db of
     (status, queued, db') \<Rightarrow>
       (status = 200 \<longleftrightarrow> webhookSigned uuidParse pg enabled rq db db' \<and> payloadUsable decode rq \<and> \<not> cancelled) \<and>
       (status = 503 \<longleftrightarrow> webhookSigned uuidParse pg enabled rq db db' \<and> payloadUsable decode rq \<and> cancelled) \<and>
       (status = 400 \<longleftrightarrow> webhookSigned uuidParse pg enabled rq db db' \<and> \<not> payloadUsable decode rq) \<and>
       (status \<in> {401, 405, 410} \<longleftrightarrow> \<not> webhookSigned uuidParse pg enabled rq db db') \<and>
       (case queued of
          None \<Rightarrow> status \<noteq> 200
        | Some h \<Rightarrow> status = 200 \<and> uuidParse (wh_tenant rq) = Some (hit_tenant h) \<and> hit_location h \<noteq> [] \<and>
            (\<exists>body p. wh_body rq = Some body \<and> decode body = Some p \<and> h = webhookHit (hit_tenant h) p))"
proof -
  have v: "verifyHMAC body sig secret \<longleftrightarrow> hexDecode (TrimSpace sig) = Some (hmacSHA256 secret body)" for body sig secret
    by (auto simp: verifyHMAC_def split: option.split)
  show ?thesis
    unfolding WebhookHandler_def v webhookSigned_def payloadUsable_def
    by (auto simp: webhookHit_def split: option.split prod.split sum.split)
qed

section \<open>Object-store events\<close>

lemma pushRecords_all:
  "length (filter s3Relevant rs) \<le> room \<Longrightarrow>
   pushRecords tid room rs = (map (\<lambda>r. \<lparr>hit_tenant = tid, hit_location = s3URI r, hit_source = ''s3-event'',
      hit_namespace = [], hit_table = []\<rparr>) (filter s3Relevant rs), False)"
  by (induction rs arbitrary: room) auto

lemma pushRecords_stopped: "room < length (filter s3Relevant rs) \<Longrightarrow> snd (pushRecords tid room rs)"
proof (induction rs arbitrary: room)
  case (Cons r rs)
  from Cons.IH [of "room - 1"] Cons.IH [of room] Cons.prems show ?case
    by (cases "s3Relevant r"; cases "room = 0") (auto simp: case_prod_unfold)
qed simp

text \<open>
  A message is deleted only after every metadata file of its records was queued in order, and a
  message that does not decode is left on the queue.
\<close>
theorem sqs_at_least_once:
  "case processSQSMessage envelope event tid room msg of
     (hits, deleted) \<Rightarrow>
       (deleted \<noteq> None \<longrightarrow> deleted = ms_handle msg \<and> (\<exists>body inner records. ms_body msg = Some body \<and>
          envelope body = Some inner \<and> event (if inner = [] then body else inner) = Some records \<and>
          map hit_location hits = map s3URI (filter s3Relevant records) \<and>
          (\<forall>h \<in> set hits. hit_tenant h = tid \<and> hit_table h = []))) \<and>
       (hits = [] \<or> (\<exists>body. ms_body msg = Some body \<and> envelope body \<noteq> None))"
proof -
  have p: "map hit_location hits = map s3URI (filter s3Relevant rs) \<and> (\<forall>h \<in> set hits. hit_tenant h = tid \<and> hit_table h = [])"
    if "pushRecords tid room rs = (hits, False)" for hits rs
    using that pushRecords_all [of rs room tid] pushRecords_stopped [of room rs tid]
    by (cases "length (filter s3Relevant rs) \<le> room") (auto simp: not_le)
  show ?thesis
    by (auto simp: processSQSMessage_def split: option.split prod.split bool.split dest!: p)
qed

theorem sqs_at_least_once_witness:
  "fst (processSQSMessage (\<lambda>_. Some ''e'') (\<lambda>_. Some [\<lparr>s3_event = ''ObjectCreated:Put'', s3_bucket = ''b'', s3_key = ''1.metadata.json''\<rparr>])
     ''t'' 5 \<lparr>ms_body = Some ''x'', ms_handle = Some ''r1''\<rparr>) \<noteq> [] \<and>
   snd (processSQSMessage (\<lambda>_. Some ''e'') (\<lambda>_. Some [\<lparr>s3_event = ''ObjectCreated:Put'', s3_bucket = ''b'', s3_key = ''1.metadata.json''\<rparr>])
     ''t'' 5 \<lparr>ms_body = Some ''x'', ms_handle = Some ''r1''\<rparr>) = Some ''r1''"
proof -
  have gen: "fst (processSQSMessage (\<lambda>_. Some e) (\<lambda>_. Some [r]) t 5 \<lparr>ms_body = Some x, ms_handle = Some k\<rparr>) \<noteq> [] \<and>
      snd (processSQSMessage (\<lambda>_. Some e) (\<lambda>_. Some [r]) t 5 \<lparr>ms_body = Some x, ms_handle = Some k\<rparr>) = Some k"
    (is "fst ?p \<noteq> [] \<and> snd ?p = _") if rel: "s3Relevant r" for r e t x k
  proof -
    have d: "snd ?p = Some k" by (simp add: processSQSMessage_def rel)
    obtain hits del where p: "?p = (hits, del)" by (cases ?p)
    have del: "del = Some k" using d unfolding p by simp
    have "map hit_location hits = map s3URI (filter s3Relevant [r])"
      using sqs_at_least_once [where envelope = "\<lambda>_. Some e" and event = "\<lambda>_. Some [r]" and tid = t and room = 5
        and msg = "\<lparr>ms_body = Some x, ms_handle = Some k\<rparr>"] del
      unfolding p prod.case by blast
    then have "hits \<noteq> []" by (auto simp: rel)
    then show ?thesis unfolding p using del by simp
  qed
  have "s3Relevant \<lparr>s3_event = ''ObjectCreated:Put'', s3_bucket = ''b'', s3_key = ''1.metadata.json''\<rparr>"
    by (simp add: s3Relevant_def has_prefix_def has_suffix_def)
  then show ?thesis by (rule gen)
qed

section \<open>A hit without a table hides its snapshot\<close>

text \<open>The pool with its scanner: the outcome of a scan is logged and otherwise ignored.\<close>

fun poolRun :: "('db, 'up) scan_deps \<Rightarrow> 'up \<Rightarrow> (instant \<times> string \<times> hit) list \<Rightarrow> seen \<times> 'db \<Rightarrow> seen \<times> 'db" where
  "poolRun deps up [] st = st"
| "poolRun deps up ((now, run, h) # hs) (sn, db) =
     (case processHit now h sn of
        (False, sn1) \<Rightarrow> poolRun deps up hs (sn1, db)
      | (True, sn1) \<Rightarrow> (case Scan deps run now up h db of (r, alerts, db1) \<Rightarrow> poolRun deps up hs (sn1, db1)))"

lemma Scan_runs:
  assumes "detection_db (sd_pg deps) sid runs" "sd_uuid deps (hit_tenant h) = Some sid" "Scan deps run now up h db = (r, alerts, db')"
  shows "runs db' \<subseteq> insert (hit_location h) (runs db)"
proof -
  obtain g db1 where g: "GetCatalogCredentials (sd_pg deps) (Some sid) ''prod-polaris'' db = (g, db1)" by (metis surj_pair)
  note kept = GetCatalogCredentials_runs [OF assms(1) g]
  have emit: "runs db2 \<subseteq> insert (hit_location h) (runs db1)"
    if "EmitDetectionResults (sd_uuid deps) (sd_pg deps) run now (hit_tenant h) (hit_location h) st n fs db1 = (x, db2)" for st n fs x db2
    using emit_step [OF assms(1,2) that] by (auto split: sum.split_asm detect_error.split_asm)
  show ?thesis
    using assms(3) g kept unfolding Scan_def
    by (auto simp: assms(2) Let_def dest!: emit split: sum.split_asm cred_error.split_asm detect_error.split_asm prod.split_asm)
qed

lemma poolRun_hidden:
  assumes d: "detection_db (sd_pg deps) sid runs"
  shows "\<forall>(now, run, h) \<in> set hs. sd_uuid deps (hit_tenant h) = Some sid \<Longrightarrow> sn loc \<noteq> None \<Longrightarrow> loc \<notin> runs db \<Longrightarrow>
    poolRun deps up hs (sn, db) = (sn', db') \<Longrightarrow> loc \<notin> runs db'"
proof (induction hs arbitrary: sn db)
  case (Cons x hs)
  obtain now run h where x: "x = (now, run, h)" by (cases x)
  have t: "sd_uuid deps (hit_tenant h) = Some sid" using Cons.prems(1) x by auto
  show ?case
  proof (cases "processHit now h sn")
    case (Pair scanned sn1)
    have sn1: "sn1 loc \<noteq> None" using Pair Cons.prems(2) by (auto simp: processHit_def split: if_split_asm option.split_asm)
    show ?thesis
    proof (cases scanned)
      case False
      then show ?thesis using Cons Pair x sn1 by auto
    next
      case True
      then have "hit_location h \<noteq> loc" using Pair Cons.prems(2) by (auto simp: processHit_def split: if_split_asm option.split_asm)
      moreover obtain r al db1 where s: "Scan deps run now up h db = (r, al, db1)" by (metis prod_cases3)
      ultimately have "loc \<notin> runs db1" using Scan_runs [OF d t s] Cons.prems(3) by auto
      then show ?thesis using Cons.IH [of sn1 db1] Cons.prems Pair True x s sn1 by auto
    qed
  qed
qed simp

text \<open>
  When the first hit of a new snapshot carries no table, as a hit of the poller does, its scan fails
  on the check of the strategy and the snapshot counts as seen; no later hit of that process, such
  as the webhook that names the table, records it until the entry is swept a day later.
\<close>
theorem poller_hit_hides_snapshot:
  assumes "detection_db (sd_pg deps) sid runs" "sd_uuid deps (hit_tenant h) = Some sid"
    and "\<forall>(now, run, g) \<in> set hs. sd_uuid deps (hit_tenant g) = Some sid"
    and "hit_table h = []" "hit_location h \<noteq> []" "sn (hit_location h) = None" "hit_location h \<notin> runs db"
    and "poolRun deps up ((now, run, h) # hs) (sn, db) = (sn', db')"
  shows "hit_location h \<notin> runs db'"
proof -
  obtain r al db1 where s: "Scan deps run now up h db = (r, al, db1)" by (metis prod_cases3)
  have "hit_location h \<notin> runs db1" using untabled_hit_unrecorded_lemma [OF assms(1,2,4) s] assms(7) by simp
  moreover have "poolRun deps up hs (sn(hit_location h \<mapsto> now), db1) = (sn', db')"
    using assms(5,6,8) s by (simp add: processHit_def)
  ultimately show ?thesis
    using poolRun_hidden [OF assms(1,3), of "sn(hit_location h \<mapsto> now)" "hit_location h" db1 up sn' db'] by simp
qed

theorem poller_hit_hides_snapshot_witness:
  "''m1'' \<notin> set (snd (poolRun runs_deps () [(0, ''r1'', demo_hit ''m1''),
     (1, ''r2'', (demo_hit ''m1'')\<lparr>hit_source := ''polaris-webhook'', hit_table := ''orders''\<rparr>)] (Map.empty, [''m0''])))"
proof -
  let ?hs = "[(1, ''r2'', (demo_hit ''m1'')\<lparr>hit_source := ''polaris-webhook'', hit_table := ''orders''\<rparr>)]"
  have d: "detection_db (sd_pg runs_deps) ''t'' set" by (simp add: runs_deps_def runs_pg_detection)
  have u: "sd_uuid runs_deps x = Some x" for x by (simp add: runs_deps_def)
  obtain sn' db' where r: "poolRun runs_deps () ((0, ''r1'', demo_hit ''m1'') # ?hs) (Map.empty, [''m0'']) = (sn', db')" by (metis surj_pair)
  from poller_hit_hides_snapshot [OF d _ _ _ _ _ _ r] r show ?thesis by (simp add: u)
qed

section \<open>The window of the poller\<close>

text \<open>
  The poller compares times as texts. The layout drops trailing zeros of the fraction, so a whole
  second sorts after every instant inside it: a snapshot of the first second of the window is
  missed when the window opens on a whole second.
\<close>

lemma nano_text_order:
  assumes "t mod nsPerSec = 0" "0 < k" "k < nsPerSec"
  shows "FormatRFC3339Nano (t + k) < FormatRFC3339Nano t"
proof -
  have k: "(t + k) div nsPerSec = t div nsPerSec" "(t + k) mod nsPerSec = k"
  proof -
    obtain q where "t = nsPerSec * q" using assms(1) by auto
    then show "(t + k) div nsPerSec = t div nsPerSec" "(t + k) mod nsPerSec = k"
      using assms(2,3) by (simp_all add: nsPerSec_def)
  qed
  have "FormatRFC3339 (t + k) = FormatRFC3339 t" unfolding FormatRFC3339_def dateOf_def k(1) ..
  moreover have "CHR ''.'' < CHR ''Z''" by (simp add: less_char_def)
  ultimately show ?thesis using assms(1,2) by (simp add: FormatRFC3339Nano_def Let_def k)
qed

end
