(* ===== verification/Catalog_Adapters.thy ===== *)
theory Catalog_Adapters
  imports Credential_Vending
begin

text \<open>
  The adapters of the four catalogs (\<open>internal/iceberg/polaris\<close>, \<open>nessie\<close>, \<open>unity\<close>, \<open>glue\<close>) and
  their construction from a credential row (\<open>internal/gateway/iceberg/forwarder.go\<close>).

  The REST client of \<open>iceberg-go\<close> is a parameter: what listing, loading and committing a table
  answer on the state of the catalog, given the headers that the transport of the adapter adds.
  The four packages hold the same code but for the error texts they look for, the transport and
  the capabilities; the shared code is written once over the record \<open>catalog_code\<close>, and each
  adapter is its instance.
\<close>

section \<open>The REST client\<close>

record up_error =
  ue_no_table :: bool
  ue_text :: string

record up_field =
  uf_id :: int
  uf_name :: string
  uf_type :: "string option"
  uf_required :: bool
  uf_doc :: string

record up_partition =
  up_source :: int
  up_transform :: "string option"
  up_pname :: string

record up_snapshot =
  us_id :: int
  us_parent :: "int option"
  us_timestamp :: int
  us_summary :: "(string \<times> (string \<times> string) list) option"

record up_meta =
  um_uuid :: string
  um_schema :: "up_field list option"
  um_spec_id :: int
  um_spec :: "up_partition list"
  um_current :: "up_snapshot option"
  um_snapshots :: "up_snapshot list"
  um_properties :: "(string \<times> string) list"

record up_table =
  ut_location :: string
  ut_meta :: "up_meta option"
  ut_properties :: "(string \<times> string) list"

datatype up_update = RemoveSnapshots "int list"

type_synonym headers = "(string \<times> string) list"

record 'up rest_catalog =
  rc_list :: "headers \<Rightarrow> string list \<Rightarrow> 'up \<Rightarrow> (up_error + string list) list"
  rc_load :: "headers \<Rightarrow> string list \<Rightarrow> 'up \<Rightarrow> up_error + up_table option"
  rc_commit :: "headers \<Rightarrow> string list \<Rightarrow> up_update list \<Rightarrow> 'up \<Rightarrow> (up_error + (up_meta option \<times> string)) \<times> 'up"

section \<open>Projection\<close>

definition toIdentifier :: "table_ref \<Rightarrow> string list" where
  "toIdentifier ref = tr_namespace ref @ [tr_name ref]"

definition convertSchema :: "up_field list option \<Rightarrow> schema_field list" where
  "convertSchema sc =
     (case sc of
        None \<Rightarrow> []
      | Some fs \<Rightarrow> map (\<lambda>f. \<lparr>sf_id = uf_id f, sf_name = uf_name f, sf_type = (case uf_type f of None \<Rightarrow> [] | Some t \<Rightarrow> t),
          sf_required = uf_required f, sf_doc = uf_doc f\<rparr>) fs)"

definition convertPartitionSpec :: "int \<Rightarrow> up_partition list \<Rightarrow> partition_spec" where
  "convertPartitionSpec sid fs =
     \<lparr>ps_id = sid, ps_fields = map (\<lambda>f. \<lparr>pf_source = up_source f,
        pf_transform = (case up_transform f of None \<Rightarrow> [] | Some t \<Rightarrow> t), pf_name = up_pname f\<rparr>) fs\<rparr>"

definition convertSnapshots :: "up_snapshot list \<Rightarrow> string \<Rightarrow> snapshot list" where
  "convertSnapshots ss loc =
     map (\<lambda>s. \<lparr>sn_id = us_id s, sn_parent = (case us_parent s of None \<Rightarrow> 0 | Some p \<Rightarrow> p), sn_timestamp = us_timestamp s,
        sn_operation = (case us_summary s of None \<Rightarrow> [] | Some (oper, _) \<Rightarrow> oper), sn_manifests = [],
        sn_summary = (case us_summary s of None \<Rightarrow> [] | Some (_, props) \<Rightarrow> props), sn_location = loc\<rparr>) ss"

definition convertTable :: "up_table option \<Rightarrow> table_metadata option" where
  "convertTable tbl =
     (case tbl of
        None \<Rightarrow> None
      | Some t \<Rightarrow> Some (case ut_meta t of
          None \<Rightarrow> \<lparr>tm_uuid = [], tm_schema = [], tm_spec = \<lparr>ps_id = 0, ps_fields = []\<rparr>, tm_current = 0,
            tm_location = ut_location t, tm_snapshots = [], tm_properties = []\<rparr>
        | Some m \<Rightarrow> \<lparr>tm_uuid = um_uuid m, tm_schema = convertSchema (um_schema m),
            tm_spec = convertPartitionSpec (um_spec_id m) (um_spec m),
            tm_current = (case um_current m of None \<Rightarrow> 0 | Some s \<Rightarrow> us_id s), tm_location = ut_location t,
            tm_snapshots = convertSnapshots (um_snapshots m) (ut_location t), tm_properties = um_properties m\<rparr>))"

section \<open>Errors\<close>

datatype catalog_fault =
    FaultTableNotFound
  | FaultCredentialsExpired
  | FaultLakeFormationDenied
  | FaultConflict
  | FaultStub
  | FaultConversion nat
  | FaultPolicy policy_error
  | FaultCreds string
  | FaultGuard string
  | FaultOther string

definition wordByte :: "char \<Rightarrow> bool" where
  "wordByte c \<longleftrightarrow> isIdentStart c \<or> is_digit c"

text \<open>
  The expression \<open>authErrRE\<close>: one of the words between two boundaries. The first argument is the
  byte before the rest of the text.
\<close>

fun wordSearch :: "string list \<Rightarrow> char option \<Rightarrow> string \<Rightarrow> bool" where
  "wordSearch ws before [] = False"
| "wordSearch ws before (c # s) =
     ((case before of None \<Rightarrow> True | Some b \<Rightarrow> \<not> wordByte b) \<and>
        list_ex (\<lambda>w. has_prefix (c # s) w \<and> (case drop (length w) (c # s) of [] \<Rightarrow> True | d # _ \<Rightarrow> \<not> wordByte d)) ws
      \<or> wordSearch ws (Some c) s)"

definition authWords :: "string list" where
  "authWords = [''401'', ''403'', ''Unauthorized'', ''Forbidden'']"

definition authErrRE :: "string \<Rightarrow> bool" where
  "authErrRE s = wordSearch authWords None s"

definition polaris_translateError :: "up_error \<Rightarrow> catalog_fault" where
  "polaris_translateError e =
     (if ue_no_table e then FaultTableNotFound
      else if authErrRE (ue_text e) then FaultCredentialsExpired
      else FaultOther (ue_text e))"

definition nessie_translateError :: "up_error \<Rightarrow> catalog_fault" where
  "nessie_translateError e =
     (if ue_no_table e then FaultTableNotFound
      else if list_ex (str_contains (ue_text e)) authWords then FaultCredentialsExpired
      else FaultOther (ue_text e))"

definition unity_translateError :: "up_error \<Rightarrow> catalog_fault" where
  "unity_translateError e =
     (if ue_no_table e then FaultTableNotFound
      else if authErrRE (ue_text e) then FaultCredentialsExpired
      else FaultOther (ue_text e))"

definition glue_translateError :: "up_error \<Rightarrow> catalog_fault" where
  "glue_translateError e =
     (if ue_no_table e then FaultTableNotFound
      else if authErrRE (ue_text e) then FaultCredentialsExpired
      else if str_contains (ue_text e) ''AccessDeniedException'' then FaultLakeFormationDenied
      else FaultOther (ue_text e))"

definition IsCommitConflict :: "up_error \<Rightarrow> bool" where
  "IsCommitConflict e =
     list_ex (str_contains (ue_text e)) [''409'', ''CommitFailedException'', ''commit conflict'', ''Conflict'']"

definition nessie_isCommitConflict :: "up_error \<Rightarrow> bool" where
  "nessie_isCommitConflict e =
     list_ex (str_contains (ue_text e))
       [''409'', ''CommitFailedException'', ''commit conflict'', ''Conflict'', ''ReferenceConflictException'']"

section \<open>Operations\<close>

record catalog_code =
  cc_translate :: "up_error \<Rightarrow> catalog_fault"
  cc_conflict :: "up_error \<Rightarrow> bool"
  cc_headers :: headers

fun collectRefs :: "(up_error \<Rightarrow> catalog_fault) \<Rightarrow> (up_error + string list) list \<Rightarrow> catalog_fault + table_ref list" where
  "collectRefs tr [] = Inr []"
| "collectRefs tr (Inl e # xs) = Inl (tr e)"
| "collectRefs tr (Inr ident # xs) =
     (if ident = [] then collectRefs tr xs
      else rbind (collectRefs tr xs) (\<lambda>refs. Inr (\<lparr>tr_namespace = butlast ident, tr_name = last ident\<rparr> # refs)))"

definition ListTables :: "catalog_code \<Rightarrow> 'up rest_catalog \<Rightarrow> string \<Rightarrow> 'up \<Rightarrow> catalog_fault + table_ref list" where
  "ListTables code cat ns up = collectRefs (cc_translate code) (rc_list cat (cc_headers code) [ns] up)"

definition LoadTable :: "catalog_code \<Rightarrow> 'up rest_catalog \<Rightarrow> table_ref \<Rightarrow> 'up \<Rightarrow> catalog_fault + table_metadata option" where
  "LoadTable code cat ref up =
     (case rc_load cat (cc_headers code) (toIdentifier ref) up of
        Inl e \<Rightarrow> Inl (cc_translate code e)
      | Inr tbl \<Rightarrow> Inr (convertTable tbl))"

definition convertRequirements :: "(string \<times> go_any) list list \<Rightarrow> catalog_fault + unit" where
  "convertRequirements rs = (if rs = [] then Inr () else Inl (FaultConversion (length rs)))"

definition convertUpdates :: "(string \<times> go_any) list list \<Rightarrow> catalog_fault + up_update list" where
  "convertUpdates us = (if us = [] then Inr [] else Inl (FaultConversion (length us)))"

text \<open>The clock is read when the commit was accepted.\<close>

definition CommitTable ::
  "catalog_code \<Rightarrow> 'up rest_catalog \<Rightarrow> string \<Rightarrow> table_ref \<Rightarrow> commit_request \<Rightarrow> 'up \<Rightarrow> (catalog_fault + commit_result option) \<times> 'up" where
  "CommitTable code cat now ref req up =
     (case convertRequirements (cm_requirements req) of
        Inl e \<Rightarrow> (Inl e, up)
      | Inr _ \<Rightarrow>
         (case convertUpdates (cm_updates req) of
            Inl e \<Rightarrow> (Inl e, up)
          | Inr updates \<Rightarrow>
             (case rc_commit cat (cc_headers code) (toIdentifier ref) updates up of
                (Inl e, up') \<Rightarrow> (Inl (if cc_conflict code e then FaultConflict else cc_translate code e), up')
              | (Inr (meta, loc), up') \<Rightarrow>
                  (Inr (Some \<lparr>res_accepted = now, res_location = loc,
                     res_snapshot = (case meta of Some m \<Rightarrow> (case um_current m of Some s \<Rightarrow> us_id s | None \<Rightarrow> 0) | None \<Rightarrow> 0)\<rparr>), up'))))"

text \<open>\<open>fmt.Sscanf(s, "%d", &id)\<close>: blanks, a sign and digits, within 64 bits; the rest of the text is not read.\<close>

definition scanD :: "string \<Rightarrow> int option" where
  "scanD s0 =
     (let s = dropWhile (\<lambda>c. c = CHR '' '' \<or> c = CHR 0x09 \<or> c = CHR 0x0D) s0;
          (neg, r) = (case s of c # r \<Rightarrow> if c = CHR ''-'' then (True, r) else if c = CHR ''+'' then (False, r) else (False, s)
                      | [] \<Rightarrow> (False, []));
          ds = takeWhile is_digit r;
          n = foldl (\<lambda>n c. 10 * n + digit_val c) 0 ds;
          v = (if neg then - n else n) in
      if ds = [] \<or> v < - (2 ^ 63) \<or> v \<ge> 2 ^ 63 then None else Some v)"

text \<open>The compaction coordinator of another edition: the candidates it allows and those it blocks.\<close>

type_synonym guard = "table_ref \<Rightarrow> string list \<Rightarrow> string + (string list \<times> string list)"

definition removeSnapshots ::
  "catalog_code \<Rightarrow> 'up rest_catalog \<Rightarrow> table_ref \<Rightarrow> int list \<Rightarrow> 'up \<Rightarrow> catalog_fault option \<times> 'up" where
  "removeSnapshots code cat ref doomed up =
     (case rc_commit cat (cc_headers code) (toIdentifier ref) [RemoveSnapshots doomed] up of
        (Inl e, up') \<Rightarrow> (Some (if cc_conflict code e then FaultConflict else cc_translate code e), up')
      | (Inr _, up') \<Rightarrow> (None, up'))"

text \<open>The client answers a table with its metadata; a nil table would be a nil dereference here.\<close>

definition doomedIDs :: "int \<Rightarrow> up_table option \<Rightarrow> int list" where
  "doomedIDs cutoffMs tbl =
     (case tbl of
        Some t \<Rightarrow> (case ut_meta t of Some m \<Rightarrow> map us_id (filter (\<lambda>s. us_timestamp s < cutoffMs) (um_snapshots m)) | None \<Rightarrow> [])
      | None \<Rightarrow> [])"

definition ExpireSnapshots ::
  "catalog_code \<Rightarrow> guard option \<Rightarrow> 'up rest_catalog \<Rightarrow> table_ref \<Rightarrow> int \<Rightarrow> 'up \<Rightarrow> catalog_fault option \<times> 'up" where
  "ExpireSnapshots code guard cat ref cutoffMs up =
     (case rc_load cat (cc_headers code) (toIdentifier ref) up of
        Inl e \<Rightarrow> (Some (cc_translate code e), up)
      | Inr tbl \<Rightarrow>
          let doomed = doomedIDs cutoffMs tbl in
          if doomed = [] then (None, up)
          else (case guard of
            None \<Rightarrow> removeSnapshots code cat ref doomed up
          | Some g \<Rightarrow>
             (case g ref (map itoaInt doomed) of
                Inl e \<Rightarrow> (Some (FaultGuard e), up)
              | Inr (allowed, blocked) \<Rightarrow>
                  if allowed = [] then (None, up)
                  else removeSnapshots code cat ref (List.map_filter scanD allowed) up)))"

section \<open>Configurations\<close>

datatype config_error = ErrInvalidConfig string | ErrConfigUnmarshal | ErrCatalogKindUnsupported string | CatalogFailed string

record polaris_config =
  pc_endpoint :: string
  pc_warehouse :: string
  pc_client :: string
  pc_secret :: string
  pc_scope :: string
  pc_mode :: string

definition polaris_Validate :: "polaris_config \<Rightarrow> config_error option" where
  "polaris_Validate c =
     (if pc_endpoint c = [] then Some (ErrInvalidConfig ''Endpoint required'')
      else if pc_client c = [] then Some (ErrInvalidConfig ''ClientID required'')
      else if pc_secret c = [] then Some (ErrInvalidConfig ''ClientSecret required'')
      else if pc_warehouse c = [] then Some (ErrInvalidConfig ''Warehouse required'')
      else if str_contains (pc_client c) '':'' then Some (ErrInvalidConfig ''ClientID must not contain a colon'')
      else if str_contains (pc_secret c) '':'' then Some (ErrInvalidConfig ''ClientSecret must not contain a colon'')
      else None)"

definition polaris_withDefaults :: "polaris_config \<Rightarrow> polaris_config" where
  "polaris_withDefaults c =
     c\<lparr>pc_scope := (if pc_scope c = [] then ''PRINCIPAL_ROLE:ALL'' else pc_scope c),
       pc_mode := (if pc_mode c = [] then ''passthrough'' else pc_mode c)\<rparr>"

definition polaris_credential :: "polaris_config \<Rightarrow> string" where
  "polaris_credential c = pc_client c @ '':'' @ pc_secret c"

definition polaris_props :: "polaris_config \<Rightarrow> headers" where
  "polaris_props c =
     [(''uri'', pc_endpoint c), (''warehouse'', pc_warehouse c), (''oauth2-server-uri'', pc_endpoint c @ ''/v1/oauth/tokens''),
      (''scope'', pc_scope c), (''header.X-Iceberg-Access-Delegation'', pc_mode c)]"

record nessie_config =
  nc_endpoint :: string
  nc_branch :: string
  nc_auth :: string
  nc_bearer :: string

definition nessie_withDefaults :: "nessie_config \<Rightarrow> nessie_config" where
  "nessie_withDefaults c =
     c\<lparr>nc_branch := (if nc_branch c = [] then ''main'' else nc_branch c), nc_auth := (if nc_auth c = [] then ''none'' else nc_auth c)\<rparr>"

definition nessie_Validate :: "nessie_config \<Rightarrow> config_error option" where
  "nessie_Validate c =
     (if nc_endpoint c = [] then Some (ErrInvalidConfig ''Endpoint required'')
      else if nc_auth c = ''bearer'' \<and> nc_bearer c = [] then Some (ErrInvalidConfig ''BearerToken required'')
      else if nc_auth c = ''aws-iam'' then Some (ErrInvalidConfig ''AuthMode=aws-iam deferred'')
      else if nc_auth c \<noteq> ''none'' \<and> nc_auth c \<noteq> ''bearer'' then Some (ErrInvalidConfig ''AuthMode not supported'')
      else if nc_branch c = [] then Some (ErrInvalidConfig ''DefaultBranch required'')
      else None)"

definition nessie_props :: "nessie_config \<Rightarrow> headers" where
  "nessie_props c =
     [(''uri'', nc_endpoint c), (''warehouse'', ''warehouse''), (''nessie.commit.ref'', nc_branch c), (''prefix'', nc_branch c)] @
     (if nc_auth c = ''bearer'' then [(''token'', nc_bearer c)] else [])"

record unity_config =
  uc_host :: string
  uc_workspace :: string
  uc_client :: string
  uc_secret :: string
  uc_catalog :: string
  uc_mode :: string

definition unity_Validate :: "unity_config \<Rightarrow> config_error option" where
  "unity_Validate c =
     (if uc_host c = [] then Some (ErrInvalidConfig ''WorkspaceHost required'')
      else if uc_workspace c = [] then Some (ErrInvalidConfig ''WorkspaceID required'')
      else if uc_client c = [] then Some (ErrInvalidConfig ''OAuthClientID required'')
      else if uc_secret c = [] then Some (ErrInvalidConfig ''OAuthClientSecret required'')
      else if uc_catalog c = [] then Some (ErrInvalidConfig ''CatalogName required'')
      else if str_contains (uc_client c) '':'' then Some (ErrInvalidConfig ''OAuthClientID must not contain a colon'')
      else if str_contains (uc_secret c) '':'' then Some (ErrInvalidConfig ''OAuthClientSecret must not contain a colon'')
      else None)"

definition unity_withDefaults :: "unity_config \<Rightarrow> unity_config" where
  "unity_withDefaults c = c\<lparr>uc_mode := (if uc_mode c = [] then ''vended-credentials'' else uc_mode c)\<rparr>"

definition unity_props :: "unity_config \<Rightarrow> headers" where
  "unity_props c =
     [(''uri'', uc_host c @ ''/api/2.1/unity-catalog/iceberg''), (''warehouse'', uc_catalog c),
      (''oauth2-server-uri'', uc_host c @ ''/oidc/v1/token''), (''scope'', ''all-apis''),
      (''header.X-Iceberg-Access-Delegation'', uc_mode c)]"

record glue_config =
  gc_region :: string
  gc_role :: string
  gc_catalog :: string
  gc_mode :: string

definition glue_Validate :: "glue_config \<Rightarrow> config_error option" where
  "glue_Validate c =
     (if gc_region c = [] then Some (ErrInvalidConfig ''Region required'')
      else if gc_catalog c = [] then Some (ErrInvalidConfig ''CatalogID required'')
      else None)"

definition glue_withDefaults :: "glue_config \<Rightarrow> glue_config" where
  "glue_withDefaults c = c\<lparr>gc_mode := (if gc_mode c = [] then ''vended-credentials'' else gc_mode c)\<rparr>"

definition glue_props :: "glue_config \<Rightarrow> headers" where
  "glue_props c =
     [(''uri'', ''https://glue.'' @ gc_region c @ ''.amazonaws.com/iceberg''), (''warehouse'', gc_catalog c),
      (''rest.sigv4-enabled'', ''true''), (''rest.signing-name'', ''glue''), (''header.X-Iceberg-Access-Delegation'', gc_mode c)]"

section \<open>Vended credentials\<close>

text \<open>Every layout of the list reads what RFC 3339 reads; a positive number counts milliseconds.\<close>

definition parseExpiry :: "string \<Rightarrow> instant option" where
  "parseExpiry s =
     (if s = [] then Some zeroTime
      else case parseInstant s of
        Some t \<Rightarrow> Some t
      | None \<Rightarrow> (case atoi s of Some ms \<Rightarrow> if ms > 0 then Some (ms * 1000000) else None | None \<Rightarrow> None))"

definition propOf :: "(string \<times> string) list \<Rightarrow> string \<Rightarrow> string" where
  "propOf props k = (case map_of props k of Some v \<Rightarrow> v | None \<Rightarrow> [])"

definition parseVendedCreds :: "(string \<times> string) list \<Rightarrow> string + sts_credentials" where
  "parseVendedCreds props =
     (let acc = propOf props ''s3.access-key-id''; sec = propOf props ''s3.secret-access-key'';
          tok = propOf props ''s3.session-token'' in
      if acc = [] then Inl ''s3.access-key-id''
      else if sec = [] then Inl ''s3.secret-access-key''
      else if tok = [] then Inl ''s3.session-token''
      else case parseExpiry (propOf props ''s3.session-expiration'') of
        None \<Rightarrow> Inl ''s3.session-expiration''
      | Some t \<Rightarrow> Inr \<lparr>sc_access = acc, sc_secret = sec, sc_token = tok, sc_expiry = t, sc_zone = 0, sc_region = []\<rparr>)"

text \<open>The header of \<open>sessionPolicyTransport\<close>, and of \<open>databricksContextTransport\<close>.\<close>

definition sessionPolicyHeaders :: "string option \<Rightarrow> headers" where
  "sessionPolicyHeaders policy =
     (case policy of Some x \<Rightarrow> if x = [] then [] else [(''X-Iceberg-Session-Policy'', x)] | None \<Rightarrow> [])"

definition databricksHeaders :: "string \<Rightarrow> headers" where
  "databricksHeaders wid = [(''X-Databricks-Workspace-Id'', wid)]"

definition polaris_IssueScopedSTSCredentials ::
  "polaris_config \<Rightarrow> 'up rest_catalog \<Rightarrow> 'up \<Rightarrow> table_ref \<Rightarrow> string \<Rightarrow> catalog_fault + sts_credentials" where
  "polaris_IssueScopedSTSCredentials cfg cat up ref region =
     (case Build ref region (pc_warehouse cfg) of
        Inl e \<Rightarrow> Inl (FaultPolicy e)
      | Inr policy \<Rightarrow>
         (case rc_load cat (sessionPolicyHeaders (Some policy)) (toIdentifier ref) up of
            Inl e \<Rightarrow> Inl (polaris_translateError e)
          | Inr tbl \<Rightarrow>
             (case parseVendedCreds (case tbl of Some t \<Rightarrow> ut_properties t | None \<Rightarrow> []) of
                Inl m \<Rightarrow> Inl (FaultCreds m)
              | Inr creds \<Rightarrow> Inr (creds\<lparr>sc_region := region\<rparr>))))"

text \<open>\<open>refreshOn401Transport\<close>: one retry after a 401; the answer is a status or a transport error.\<close>

definition refreshRoundTrip :: "('s \<Rightarrow> (string + nat) \<times> 's) \<Rightarrow> 's \<Rightarrow> (string + nat) \<times> 's" where
  "refreshRoundTrip next st =
     (case next st of
        (Inl e, st1) \<Rightarrow> (Inl e, st1)
      | (Inr status, st1) \<Rightarrow> if status \<noteq> 401 then (Inr status, st1) else next st1)"

lemma refresh_once: "snd (refreshRoundTrip next st) \<in> {snd (next st), snd (next (snd (next st)))}"
  by (auto simp: refreshRoundTrip_def split: prod.split sum.split)

section \<open>The clients\<close>

record capabilities =
  cap_name :: string
  cap_branches :: bool
  cap_credvend :: bool
  cap_webhooks :: bool
  cap_depth :: nat

record 'up catalog_client =
  cl_caps :: capabilities
  cl_list :: "string \<Rightarrow> 'up \<Rightarrow> catalog_fault + table_ref list"
  cl_load :: "table_ref \<Rightarrow> 'up \<Rightarrow> catalog_fault + table_metadata option"
  cl_commit :: "string \<Rightarrow> table_ref \<Rightarrow> commit_request \<Rightarrow> 'up \<Rightarrow> (catalog_fault + commit_result option) \<times> 'up"
  cl_expire :: "table_ref \<Rightarrow> int \<Rightarrow> 'up \<Rightarrow> catalog_fault option \<times> 'up"
  cl_issue :: "'up \<Rightarrow> table_ref \<Rightarrow> string \<Rightarrow> catalog_fault + sts_credentials"

definition codeClient ::
  "catalog_code \<Rightarrow> guard option \<Rightarrow> 'up rest_catalog \<Rightarrow> capabilities \<Rightarrow> ('up \<Rightarrow> table_ref \<Rightarrow> string \<Rightarrow> catalog_fault + sts_credentials) \<Rightarrow>
   'up catalog_client" where
  "codeClient code guard cat caps issue =
     \<lparr>cl_caps = caps, cl_list = ListTables code cat, cl_load = LoadTable code cat, cl_commit = CommitTable code cat,
      cl_expire = ExpireSnapshots code guard cat, cl_issue = issue\<rparr>"

definition polaris_client :: "guard option \<Rightarrow> polaris_config \<Rightarrow> 'up rest_catalog \<Rightarrow> 'up catalog_client" where
  "polaris_client guard cfg cat =
     codeClient \<lparr>cc_translate = polaris_translateError, cc_conflict = IsCommitConflict, cc_headers = []\<rparr> guard cat
       \<lparr>cap_name = ''polaris'', cap_branches = False, cap_credvend = True, cap_webhooks = True, cap_depth = 100\<rparr>
       (polaris_IssueScopedSTSCredentials cfg cat)"

definition nessie_client :: "'up rest_catalog \<Rightarrow> 'up catalog_client" where
  "nessie_client cat =
     codeClient \<lparr>cc_translate = nessie_translateError, cc_conflict = nessie_isCommitConflict, cc_headers = []\<rparr> None cat
       \<lparr>cap_name = ''nessie'', cap_branches = True, cap_credvend = False, cap_webhooks = False, cap_depth = 1\<rparr>
       (\<lambda>_ _ _. Inl FaultStub)"

definition unity_client :: "unity_config \<Rightarrow> 'up rest_catalog \<Rightarrow> 'up catalog_client" where
  "unity_client cfg cat =
     codeClient \<lparr>cc_translate = unity_translateError, cc_conflict = IsCommitConflict, cc_headers = databricksHeaders (uc_workspace cfg)\<rparr>
       None cat \<lparr>cap_name = ''unity'', cap_branches = False, cap_credvend = True, cap_webhooks = True, cap_depth = 1\<rparr>
       (\<lambda>_ _ _. Inl FaultStub)"

definition glue_client :: "'up rest_catalog \<Rightarrow> 'up catalog_client" where
  "glue_client cat =
     codeClient \<lparr>cc_translate = glue_translateError, cc_conflict = IsCommitConflict, cc_headers = []\<rparr> None cat
       \<lparr>cap_name = ''glue'', cap_branches = False, cap_credvend = True, cap_webhooks = False, cap_depth = 2\<rparr>
       (\<lambda>_ _ _. Inl FaultStub)"

text \<open>
  \<open>connect\<close> stands for \<open>rest.NewCatalog\<close> with the properties and, where the catalog takes one, the
  credential; \<open>decode\<close> for the JSON of the row, whose endpoint is a column of its own.
\<close>

record 'up builder =
  bd_polaris :: "string \<Rightarrow> polaris_config option"
  bd_nessie :: "string \<Rightarrow> nessie_config option"
  bd_unity :: "string \<Rightarrow> unity_config option"
  bd_glue :: "string \<Rightarrow> glue_config option"
  bd_connect :: "string \<Rightarrow> headers \<Rightarrow> string option \<Rightarrow> string + 'up rest_catalog"

definition polaris_New :: "'up builder \<Rightarrow> guard option \<Rightarrow> polaris_config \<Rightarrow> config_error + 'up catalog_client" where
  "polaris_New b guard cfg0 =
     (case polaris_Validate cfg0 of
        Some e \<Rightarrow> Inl e
      | None \<Rightarrow>
          let cfg = polaris_withDefaults cfg0 in
          (case bd_connect b ''polaris'' (polaris_props cfg) (Some (polaris_credential cfg)) of
             Inl e \<Rightarrow> Inl (CatalogFailed e)
           | Inr cat \<Rightarrow> Inr (polaris_client guard cfg cat)))"

definition nessie_New :: "'up builder \<Rightarrow> nessie_config \<Rightarrow> config_error + 'up catalog_client" where
  "nessie_New b cfg0 =
     (let cfg = nessie_withDefaults cfg0 in
      case nessie_Validate cfg of
        Some e \<Rightarrow> Inl e
      | None \<Rightarrow>
         (case bd_connect b ''nessie'' (nessie_props cfg) None of
            Inl e \<Rightarrow> Inl (CatalogFailed e)
          | Inr cat \<Rightarrow> Inr (nessie_client cat)))"

definition unity_New :: "'up builder \<Rightarrow> unity_config \<Rightarrow> config_error + 'up catalog_client" where
  "unity_New b cfg0 =
     (case unity_Validate cfg0 of
        Some e \<Rightarrow> Inl e
      | None \<Rightarrow>
          let cfg = unity_withDefaults cfg0 in
          (case bd_connect b ''unity'' (unity_props cfg) (Some (uc_client cfg @ '':'' @ uc_secret cfg)) of
             Inl e \<Rightarrow> Inl (CatalogFailed e)
           | Inr cat \<Rightarrow> Inr (unity_client cfg cat)))"

definition glue_New :: "'up builder \<Rightarrow> glue_config \<Rightarrow> config_error + 'up catalog_client" where
  "glue_New b cfg0 =
     (case glue_Validate cfg0 of
        Some e \<Rightarrow> Inl e
      | None \<Rightarrow>
          let cfg = glue_withDefaults cfg0 in
          (case bd_connect b ''glue'' (glue_props cfg) None of
             Inl e \<Rightarrow> Inl (CatalogFailed e)
           | Inr cat \<Rightarrow> Inr (glue_client cat)))"

definition BuildAdapter :: "'up builder \<Rightarrow> credentials \<Rightarrow> config_error + 'up catalog_client" where
  "BuildAdapter b cr =
     (if cr_kind cr = ''polaris'' then
        (case bd_polaris b (cr_config cr) of
           None \<Rightarrow> Inl ErrConfigUnmarshal
         | Some pc \<Rightarrow> polaris_New b None (pc\<lparr>pc_endpoint := cr_endpoint cr\<rparr>))
      else if cr_kind cr = ''nessie'' then
        (case bd_nessie b (cr_config cr) of
           None \<Rightarrow> Inl ErrConfigUnmarshal
         | Some nc \<Rightarrow> nessie_New b (nc\<lparr>nc_endpoint := cr_endpoint cr\<rparr>))
      else if cr_kind cr = ''glue'' then
        (case bd_glue b (cr_config cr) of None \<Rightarrow> Inl ErrConfigUnmarshal | Some gc \<Rightarrow> glue_New b (gc\<lparr>gc_mode := []\<rparr>))
      else if cr_kind cr = ''unity'' then
        (case bd_unity b (cr_config cr) of None \<Rightarrow> Inl ErrConfigUnmarshal | Some uc \<Rightarrow> unity_New b uc)
      else Inl (ErrCatalogKindUnsupported (cr_kind cr)))"

section \<open>The clients behind the gateway and the vending service\<close>

fun faultText :: "catalog_fault \<Rightarrow> string" where
  "faultText FaultTableNotFound = ''table not found''"
| "faultText FaultCredentialsExpired = ''credentials expired''"
| "faultText FaultLakeFormationDenied = ''glue: Lake Formation access denied''"
| "faultText FaultConflict = ''commit conflict''"
| "faultText FaultStub = ''adapter stub''"
| "faultText (FaultConversion n) = ''untyped map conversion not implemented: '' @ itoa n"
| "faultText (FaultPolicy e) = ''session policy malformed''"
| "faultText (FaultCreds m) = m"
| "faultText (FaultGuard m) = m"
| "faultText (FaultOther m) = m"

definition gatewayAdapter :: "string \<Rightarrow> 'up catalog_client \<Rightarrow> 'up adapter" where
  "gatewayAdapter now cl =
     \<lparr>ad_load = \<lambda>ref up. (case cl_load cl ref up of
        Inl FaultTableNotFound \<Rightarrow> Inl ErrTableNotFound
      | Inl FaultCredentialsExpired \<Rightarrow> Inl ErrLoadCredentialsExpired
      | Inl f \<Rightarrow> Inl (LoadFailed (faultText f))
      | Inr t \<Rightarrow> Inr t),
      ad_commit = \<lambda>conflict ref req up. (case cl_commit cl now ref req up of
        (Inl FaultConflict, up') \<Rightarrow> (Inl ErrCommitConflict, up')
      | (Inl f, up') \<Rightarrow> (Inl (CommitFailed (faultText f)), up')
      | (Inr r, up') \<Rightarrow> (Inr r, up'))\<rparr>"

definition vendingAdapter :: "'up \<Rightarrow> 'up catalog_client \<Rightarrow> vending_adapter" where
  "vendingAdapter up cl =
     \<lparr>va_name = cap_name (cl_caps cl), va_vends = cap_credvend (cl_caps cl),
      va_issue = \<lambda>ref region. (case cl_issue cl up ref region of
        Inl FaultStub \<Rightarrow> Inl (AdapterStub (faultText FaultStub))
      | Inl f \<Rightarrow> Inl (AdapterFailed (faultText f))
      | Inr creds \<Rightarrow> Inr creds)\<rparr>"

section \<open>Commits through the adapters\<close>

text \<open>A client that runs the shared code.\<close>

definition shared_client :: "'up catalog_client \<Rightarrow> bool" where
  "shared_client cl \<longleftrightarrow> (\<exists>code g cat caps issue. cl = codeClient code g cat caps issue)"

lemma shared_codeClient [intro, simp]: "shared_client (codeClient code g cat caps issue)"
  unfolding shared_client_def by blast

lemma shared_clients [simp]:
  "shared_client (polaris_client g pc cat)" "shared_client (nessie_client cat)"
  "shared_client (unity_client uc cat)" "shared_client (glue_client cat)"
  by (simp_all add: polaris_client_def nessie_client_def unity_client_def glue_client_def)

lemma New_shared:
  "polaris_New b g pc = Inr cl \<Longrightarrow> shared_client cl" "nessie_New b nc = Inr cl \<Longrightarrow> shared_client cl"
  "unity_New b uc = Inr cl \<Longrightarrow> shared_client cl" "glue_New b gc = Inr cl \<Longrightarrow> shared_client cl"
  by (auto simp: polaris_New_def nessie_New_def unity_New_def glue_New_def Let_def split: option.split_asm sum.split_asm)

lemma BuildAdapter_shared: "BuildAdapter b cr = Inr cl \<Longrightarrow> shared_client cl"
  unfolding BuildAdapter_def by (auto split: if_split_asm option.split_asm dest: New_shared)

lemma gateway_commit_refused:
  assumes "BuildAdapter b cr = Inr cl" "cm_requirements req \<noteq> [] \<or> cm_updates req \<noteq> []"
  shows "\<exists>m. ad_commit (gatewayAdapter now cl) conflict ref req up = (Inl (CommitFailed m), up)"
proof -
  obtain code g cat caps issue where "cl = codeClient code g cat caps issue" using BuildAdapter_shared [OF assms(1)] unfolding shared_client_def by blast
  with assms(2) show ?thesis
    by (auto simp: gatewayAdapter_def codeClient_def CommitTable_def convertRequirements_def convertUpdates_def)
qed

lemma policyGate_up: "policyGate deps tenant ref commit meta prin psrc h w = (r, w') \<Longrightarrow> w_up w' = w_up w \<and> r \<noteq> Some (Reply 200)"
  by (auto simp: policyGate_def Let_def split: prod.split_asm sum.split_asm gate_verdict.split_asm graph_error.split_asm)

lemma coordinate_up:
  "coordinate deps agent ref meta w = (x, w') \<Longrightarrow> w_up w' = w_up w \<and> x \<noteq> Inl (Reply 200)"
  by (auto simp: coordinate_def split: if_split_asm sum.split_asm coordinator_error.split_asm)

lemma refused_pipeline:
  assumes fwd: "\<And>conflict w2. forward conflict w2 = (Some (Reply 502), w2)"
    and rest: "(case coordinate deps agent ref meta w0 of
        (Inl r1, w1) \<Rightarrow> (r1, w1)
      | (Inr conflict, w1) \<Rightarrow>
         (case policyGate deps tenant ref commit meta prin psrc h w1 of
            (Some r2, w2) \<Rightarrow> (r2, w2)
          | (None, w2) \<Rightarrow>
             (case forward conflict w2 of
                (Some r3, w3) \<Rightarrow> (r3, w3)
              | (None, w3) \<Rightarrow> (Reply 200, w3)))) = (r, w')"
  shows "w_up w' = w_up w0 \<and> r \<noteq> Reply 200"
proof -
  obtain x w1 where co: "coordinate deps agent ref meta w0 = (x, w1)" by (metis surj_pair)
  note up1 = coordinate_up [OF co]
  show ?thesis
  proof (cases x)
    case (Inl r1)
    with rest co up1 show ?thesis by auto
  next
    case (Inr conflict)
    obtain v w2 where pg: "policyGate deps tenant ref commit meta prin psrc h w1 = (v, w2)" by (metis surj_pair)
    note up2 = policyGate_up [OF pg]
    show ?thesis using rest co Inr pg up1 up2 fwd by (cases v) auto
  qed
qed

text \<open>
  C37 Behind the gateway, with the adapter that \<open>BuildAdapter\<close> makes for any catalog row, a commit that
  carries a requirement or an update never reaches the catalog and is never answered 200: the
  conversion of untyped requirements and updates always fails.
\<close>
theorem nonempty_commit_never_forwarded:
  assumes adapter: "gd_adapter deps = (\<lambda>cr. case BuildAdapter b cr of Inl e \<Rightarrow> Inl (text_of e) | Inr cl \<Rightarrow> Inr (gatewayAdapter now cl))"
    and body: "rq_body rq = Some body" "gd_decode deps body = Some commit"
    and nonempty: "cm_requirements commit \<noteq> [] \<or> cm_updates commit \<noteq> []"
    and run: "CommitHandler deps tenant rq w = (r, w')"
  shows "w_up w' = w_up w \<and> r \<noteq> Reply 200"
proof (rule ccontr)
  assume "\<not> (w_up w' = w_up w \<and> r \<noteq> Reply 200)"
  then have eff: "w_up w' \<noteq> w_up w \<or> r = Reply 200" by blast
  then have eff': "w_up w' \<noteq> w_up w \<or> r = Reply 200 \<or> r = Reply 403" by blast
  obtain tid prin psrc body' commit' ad db1 meta where
    o: "openRequest deps tenant rq [rq_prefix rq, rq_namespace rq, rq_table rq] = Inr (tid, prin, psrc, body')"
    and d: "gd_decode deps body' = Some commit'"
    and a: "openAdapter deps tenant (rq_prefix rq) (w_db w) = (Inr ad, db1)"
    and rest: "(case coordinate deps (rq_agent rq) (commitRef rq) meta (w\<lparr>w_db := db1\<rparr>) of
        (Inl r1, w1) \<Rightarrow> (r1, w1)
      | (Inr conflict, w1) \<Rightarrow>
         (case policyGate deps tenant (commitRef rq) commit' meta prin psrc (hashCommitBody body') w1 of
            (Some r2, w2) \<Rightarrow> (r2, w2)
          | (None, w2) \<Rightarrow>
             (case forwardCommit True deps ad conflict tid (commitRef rq) commit' prin psrc (hashCommitBody body') w2 of
                (Some r3, w3) \<Rightarrow> (r3, w3)
              | (None, w3) \<Rightarrow> (Reply 200, w3)))) = (r, w')"
    by (rule CommitHandler_reaches [OF run eff'])
  have c: "commit' = commit" using openRequest_ok [OF o] body d by simp
  obtain cr cl where cl: "BuildAdapter b cr = Inr cl" "ad = gatewayAdapter now cl"
    using a unfolding openAdapter_def adapter
    by (auto split: prod.split_asm sum.split_asm cred_error.split_asm)
  have fwd: "forwardCommit True deps ad conflict tid (commitRef rq) commit prin psrc h w2 = (Some (Reply 502), w2)"
    for conflict h w2
    using gateway_commit_refused [OF cl(1) nonempty, of now conflict "commitRef rq" "w_up w2"] cl(2)
    by (auto simp: forwardCommit_def)
  have up0: "w_up (w\<lparr>w_db := db1\<rparr>) = w_up w" by simp
  show False using refused_pipeline [OF fwd rest [unfolded c]] up0 eff by argo
qed

section \<open>Expiry\<close>

lemma scanD_itoaInt:
  assumes "- (2 ^ 63) \<le> n" "n < 2 ^ 63"
  shows "scanD (itoaInt n) = Some n"
proof -
  have dig: "list_all is_digit (itoa k)" "itoa k \<noteq> []" for k using itoa_digits by auto
  have tk: "takeWhile is_digit (itoa k) = itoa k" for k using dig(1) [of k] by (simp add: takeWhile_eq_all_conv list_all_iff)
  have hd_plain: "\<exists>c r. itoa k = c # r \<and> c \<notin> {CHR '' '', CHR 0x09, CHR 0x0D, CHR ''-'', CHR ''+''}" for k
    using dig [of k] by (cases "itoa k") (auto simp: is_digit_def)
  show ?thesis
  proof (cases "n < 0")
    case True
    then show ?thesis using assms by (simp add: scanD_def itoaInt_def itoa_value tk dig(2) Let_def)
  next
    case False
    obtain c r where c: "itoa (nat n) = c # r" "c \<notin> {CHR '' '', CHR 0x09, CHR 0x0D, CHR ''-'', CHR ''+''}" using hd_plain by blast
    have "dropWhile (\<lambda>c. c = CHR '' '' \<or> c = CHR 0x09 \<or> c = CHR 0x0D) (itoa (nat n)) = itoa (nat n)" using c by simp
    moreover have "(case itoa (nat n) of c # r \<Rightarrow> if c = CHR ''-'' then (True, r) else if c = CHR ''+'' then (False, r) else (False, itoa (nat n))
                      | [] \<Rightarrow> (False, [])) = (False, itoa (nat n))" using c by simp
    ultimately show ?thesis using assms False by (simp add: scanD_def itoaInt_def itoa_value tk dig(2) Let_def)
  qed
qed

text \<open>
  Expiring snapshots changes the catalog by at most one commit, which removes only snapshots older
  than the cutoff, all of them when no coordinator is wired, and otherwise exactly those that the
  coordinator allowed; when the coordinator fails or allows none, nothing is removed.
\<close>
theorem expire_guarded:
  assumes "ExpireSnapshots code guard cat ref cutoffMs up = (r, up')" "up' \<noteq> up"
    and "\<forall>tbl. rc_load cat (cc_headers code) (toIdentifier ref) up = Inr tbl \<longrightarrow> (\<forall>i \<in> set (doomedIDs cutoffMs tbl). - (2 ^ 63) \<le> i \<and> i < 2 ^ 63)"
    and "\<forall>g ids allowed blocked. guard = Some g \<and> g ref ids = Inr (allowed, blocked) \<longrightarrow> set allowed \<subseteq> set ids"
  shows "\<exists>tbl ids. rc_load cat (cc_headers code) (toIdentifier ref) up = Inr tbl \<and>
    up' = snd (rc_commit cat (cc_headers code) (toIdentifier ref) [RemoveSnapshots ids] up) \<and>
    ids \<noteq> [] \<and> set ids \<subseteq> set (doomedIDs cutoffMs tbl) \<and>
    (case guard of
       None \<Rightarrow> ids = doomedIDs cutoffMs tbl
     | Some g \<Rightarrow> \<exists>allowed blocked. g ref (map itoaInt (doomedIDs cutoffMs tbl)) = Inr (allowed, blocked) \<and> allowed = map itoaInt ids)"
proof -
  obtain tbl where l: "rc_load cat (cc_headers code) (toIdentifier ref) up = Inr tbl"
    using assms(1,2) by (cases "rc_load cat (cc_headers code) (toIdentifier ref) up") (auto simp: ExpireSnapshots_def)
  let ?d = "doomedIDs cutoffMs tbl"
  have d: "?d \<noteq> []" using assms(1,2) l by (auto simp: ExpireSnapshots_def Let_def)
  have rm: "up' = snd (rc_commit cat (cc_headers code) (toIdentifier ref) [RemoveSnapshots ids] up)"
    if "removeSnapshots code cat ref ids up = (r, up')" for ids
    using that by (auto simp: removeSnapshots_def split: prod.split_asm sum.split_asm)
  show ?thesis
  proof (cases guard)
    case None
    then show ?thesis using assms(1) l d rm [of ?d] by (auto simp: ExpireSnapshots_def Let_def)
  next
    case (Some g)
    then obtain allowed blocked where g: "g ref (map itoaInt ?d) = Inr (allowed, blocked)"
      using assms(1,2) l d by (cases "g ref (map itoaInt ?d)") (auto simp: ExpireSnapshots_def Let_def)
    have ne: "allowed \<noteq> []" using assms(1,2) l d g Some by (auto simp: ExpireSnapshots_def Let_def)
    have sub: "set allowed \<subseteq> itoaInt ` set ?d" using assms(4) Some g by fastforce
    then have all: "\<forall>x \<in> set allowed. \<exists>n \<in> set ?d. x = itoaInt n \<and> scanD x = Some n"
    proof (intro ballI)
      fix x
      assume "x \<in> set allowed"
      then obtain n where n: "n \<in> set ?d" "x = itoaInt n" using sub by blast
      then show "\<exists>n \<in> set ?d. x = itoaInt n \<and> scanD x = Some n"
        using scanD_itoaInt [of n] assms(3) l by (intro bexI [of _ n]) auto
    qed
    define ids where "ids = List.map_filter scanD allowed"
    have "allowed = map itoaInt ids \<and> set ids \<subseteq> set ?d"
      using all unfolding ids_def by (induction allowed) (auto simp: List.map_filter_simps)
    moreover from this ne have "ids \<noteq> []" by auto
    moreover have "up' = snd (rc_commit cat (cc_headers code) (toIdentifier ref) [RemoveSnapshots ids] up)"
      using assms(1) l d g ne Some by (intro rm) (simp add: ExpireSnapshots_def Let_def ids_def)
    ultimately show ?thesis using l g Some by auto
  qed
qed

text \<open>Nothing spares the current snapshot of a table.\<close>

lemma current_snapshot_doomed:
  "ut_meta t = Some m \<Longrightarrow> um_current m = Some s \<Longrightarrow> s \<in> set (um_snapshots m) \<Longrightarrow> us_timestamp s < cutoffMs \<Longrightarrow>
   us_id s \<in> set (doomedIDs cutoffMs (Some t))"
  by (auto simp: doomedIDs_def)

text \<open>A catalog with one table that counts its commits, behind the four adapters.\<close>

definition demo_table :: up_table where
  "demo_table = \<lparr>ut_location = ''s3://b/m1'', ut_meta = Some \<lparr>um_uuid = ''u'', um_schema = None, um_spec_id = 0, um_spec = [],
     um_current = Some \<lparr>us_id = 7, us_parent = None, us_timestamp = 10, us_summary = None\<rparr>,
     um_snapshots = [\<lparr>us_id = 7, us_parent = None, us_timestamp = 10, us_summary = None\<rparr>], um_properties = []\<rparr>,
     ut_properties = [(''s3.access-key-id'', ''AK''), (''s3.secret-access-key'', ''SK''), (''s3.session-token'', ''ST'')]\<rparr>"

definition demo_catalog :: "nat rest_catalog" where
  "demo_catalog = \<lparr>rc_list = \<lambda>_ _ _. [], rc_load = \<lambda>_ _ _. Inr (Some demo_table),
     rc_commit = \<lambda>_ _ _ n. (Inr (None, ''s3://b/m2''), Suc n)\<rparr>"

definition demo_builder :: "nat builder" where
  "demo_builder = \<lparr>bd_polaris = \<lambda>_. Some \<lparr>pc_endpoint = [], pc_warehouse = ''s3://lake/wh'', pc_client = ''id'', pc_secret = ''x'',
      pc_scope = [], pc_mode = []\<rparr>,
     bd_nessie = \<lambda>_. None, bd_unity = \<lambda>_. None, bd_glue = \<lambda>_. None, bd_connect = \<lambda>_ _ _. Inr demo_catalog\<rparr>"

definition demo_update_deps :: "((string \<times> string list) list, nat, string, string) gw_deps" where
  "demo_update_deps = demo_deps\<lparr>gd_decode := \<lambda>_. Some \<lparr>cm_requirements = [], cm_updates = [[]]\<rparr>,
     gd_adapter := \<lambda>cr. case BuildAdapter demo_builder cr of Inl e \<Rightarrow> Inl ''e'' | Inr cl \<Rightarrow> Inr (gatewayAdapter ''now'' cl)\<rparr>"

theorem nonempty_commit_never_forwarded_witness:
  "w_up (snd (CommitHandler demo_update_deps (Some uuid_a) (demo_request ''Bearer alice'') demo_world)) = w_up demo_world"
proof -
  obtain r w' where run: "CommitHandler demo_update_deps (Some uuid_a) (demo_request ''Bearer alice'') demo_world = (r, w')"
    by (metis surj_pair)
  have a: "gd_adapter demo_update_deps =
      (\<lambda>cr. case BuildAdapter demo_builder cr of Inl e \<Rightarrow> Inl ''e'' | Inr cl \<Rightarrow> Inr (gatewayAdapter ''now'' cl))"
    by (simp add: demo_update_deps_def)
  have d: "gd_decode demo_update_deps ''{}'' = Some \<lparr>cm_requirements = [], cm_updates = [[]]\<rparr>"
    by (simp add: demo_update_deps_def)
  from nonempty_commit_never_forwarded [OF a _ d _ run] run show ?thesis by simp
qed

theorem expire_guarded_witness:
  "ExpireSnapshots \<lparr>cc_translate = polaris_translateError, cc_conflict = IsCommitConflict, cc_headers = []\<rparr>
     (Some (\<lambda>_ ids. Inr (ids, []))) demo_catalog \<lparr>tr_namespace = [''sales''], tr_name = ''orders''\<rparr> 99 3 = (None, 4) \<and>
   (\<exists>tbl ids. ids \<noteq> [] \<and> set ids \<subseteq> set (doomedIDs 99 tbl) \<and> tbl = Some demo_table)"
proof -
  let ?code = "\<lparr>cc_translate = polaris_translateError, cc_conflict = IsCommitConflict, cc_headers = []\<rparr>"
  let ?g = "\<lambda>_ ids. Inr (ids, [])"
  let ?ref = "\<lparr>tr_namespace = [''sales''], tr_name = ''orders''\<rparr>"
  have cat: "rc_load demo_catalog h i n = Inr (Some demo_table)" "rc_commit demo_catalog h i u n = (Inr (None, ''s3://b/m2''), Suc n)" for h i u n
    by (simp_all add: demo_catalog_def)
  have dm: "doomedIDs 99 (Some demo_table) = [7]" by (simp add: doomedIDs_def demo_table_def)
  have run: "ExpireSnapshots ?code (Some ?g) demo_catalog ?ref 99 3 = (None, 4)"
    by (simp add: ExpireSnapshots_def removeSnapshots_def cat dm)
  have b: "\<forall>tbl. rc_load demo_catalog (cc_headers ?code) (toIdentifier ?ref) 3 = Inr tbl \<longrightarrow>
      (\<forall>i \<in> set (doomedIDs 99 tbl). - (2 ^ 63) \<le> i \<and> i < 2 ^ 63)"
    by (simp add: cat dm)
  have "\<exists>tbl ids. rc_load demo_catalog (cc_headers ?code) (toIdentifier ?ref) 3 = Inr tbl \<and> ids \<noteq> [] \<and> set ids \<subseteq> set (doomedIDs 99 tbl)"
    using expire_guarded [OF run _ b] by auto
  then show ?thesis using run by (simp add: cat)
qed

section \<open>Credentials\<close>

lemma str_contains_char: "str_contains s [c] \<longleftrightarrow> c \<in> set s"
  by (induction s) (auto simp: has_prefix_def)

text \<open>
  The credential that is sent to a catalog names one client: two valid configurations with the same
  credential text have the same client and the same secret.
\<close>
theorem polaris_credential_unambiguous:
  assumes "polaris_Validate c = None" "polaris_Validate c' = None" "polaris_credential c = polaris_credential c'"
  shows "pc_client c = pc_client c' \<and> pc_secret c = pc_secret c' \<and> pc_client c \<noteq> [] \<and> pc_secret c \<noteq> []"
  using assms
  by (auto simp: polaris_Validate_def polaris_credential_def str_contains_char append_sep_eq split: if_split_asm)

theorem polaris_credential_unambiguous_witness:
  "polaris_Validate \<lparr>pc_endpoint = ''e'', pc_warehouse = ''w'', pc_client = ''id'', pc_secret = ''x'', pc_scope = [], pc_mode = []\<rparr> = None \<and>
   ''id'' \<noteq> [] \<and> ''x'' \<noteq> []"
proof -
  let ?c = "\<lparr>pc_endpoint = ''e'', pc_warehouse = ''w'', pc_client = ''id'', pc_secret = ''x'', pc_scope = [], pc_mode = []\<rparr>"
  have v: "polaris_Validate ?c = None" by (simp add: polaris_Validate_def has_prefix_def)
  from polaris_credential_unambiguous [OF v v refl] v show ?thesis by simp
qed

lemma stub_clients [simp]:
  "cl_issue (nessie_client cat) up ref region = Inl FaultStub" "cl_issue (unity_client uc cat) up ref region = Inl FaultStub"
  "cl_issue (glue_client cat) up ref region = Inl FaultStub"
  by (simp_all add: nessie_client_def unity_client_def glue_client_def codeClient_def)

lemma New_issue:
  "nessie_New b nc = Inr cl \<Longrightarrow> cl_issue cl up ref region = Inl FaultStub"
  "unity_New b uc = Inr cl \<Longrightarrow> cl_issue cl up ref region = Inl FaultStub"
  "glue_New b gc = Inr cl \<Longrightarrow> cl_issue cl up ref region = Inl FaultStub"
  by (auto simp: nessie_New_def unity_New_def glue_New_def Let_def split: option.split_asm sum.split_asm)

lemma Build_nonempty: "Build ref region wh = Inr x \<Longrightarrow> x \<noteq> []"
  by (auto simp: Build_def docJSON_def elim!: rbind_InrE)

lemma polaris_issue:
  assumes "cl_issue (polaris_client g cfg cat) up ref region = Inr creds"
  shows "\<exists>policy tbl. Build ref region (pc_warehouse cfg) = Inr policy \<and>
    rc_load cat [(''X-Iceberg-Session-Policy'', policy)] (toIdentifier ref) up = Inr tbl \<and>
    sc_region creds = region \<and> sc_access creds \<noteq> [] \<and> sc_secret creds \<noteq> [] \<and> sc_token creds \<noteq> []"
proof -
  obtain policy where b: "Build ref region (pc_warehouse cfg) = Inr policy"
    using assms by (auto simp: polaris_client_def codeClient_def polaris_IssueScopedSTSCredentials_def split: sum.split_asm)
  have "sessionPolicyHeaders (Some policy) = [(''X-Iceberg-Session-Policy'', policy)]"
    using Build_nonempty [OF b] by (simp add: sessionPolicyHeaders_def)
  with assms b show ?thesis
    by (auto simp: polaris_client_def codeClient_def polaris_IssueScopedSTSCredentials_def parseVendedCreds_def Let_def
        split: sum.split_asm option.split_asm if_split_asm)
qed

text \<open>
  The vending service, asked for credentials that it does not hold, gets them only from a Polaris
  catalog whose configuration is valid, for a load of that very table under the session policy of the
  table and the region; on every other kind it refuses as not supported.
\<close>
theorem vended_under_policy:
  fixes up :: 'up
  assumes "BuildAdapter b cr = Inr cl" "fst (cacheGet t1 (stsKey tid (Credential_Vending.joinNamespace ref) (tr_name ref) region) c) = None"
    and "Issue add t1 t2 tid (vendingAdapter up cl) ref region c = (r, c')"
  shows "(cr_kind cr \<noteq> ''polaris'' \<longrightarrow> r = Inl ErrEngineNotSupported) \<and>
    (\<forall>creds. r = Inr creds \<longrightarrow> (\<exists>cfg (cat :: 'up rest_catalog) policy tbl. polaris_Validate cfg = None \<and>
       bd_connect b ''polaris'' (polaris_props cfg) (Some (polaris_credential cfg)) = Inr cat \<and>
       Build ref region (pc_warehouse cfg) = Inr policy \<and>
       rc_load cat [(''X-Iceberg-Session-Policy'', policy)] (toIdentifier ref) up = Inr tbl \<and>
       sc_region creds = region \<and> sc_access creds \<noteq> [] \<and> sc_secret creds \<noteq> [] \<and> sc_token creds \<noteq> []))"
proof (cases "cr_kind cr = ''polaris''")
  case True
  then obtain pc where "polaris_New b None (pc\<lparr>pc_endpoint := cr_endpoint cr\<rparr>) = Inr cl"
    using assms(1) by (auto simp: BuildAdapter_def split: option.split_asm)
  then obtain cfg0 cat where v: "polaris_Validate cfg0 = None" and cl: "cl = polaris_client None (polaris_withDefaults cfg0) cat"
      and conn: "bd_connect b ''polaris'' (polaris_props (polaris_withDefaults cfg0)) (Some (polaris_credential (polaris_withDefaults cfg0))) = Inr cat"
    by (auto simp: polaris_New_def Let_def split: option.split_asm sum.split_asm)
  have v': "polaris_Validate (polaris_withDefaults cfg0) = None" using v by (simp add: polaris_Validate_def polaris_withDefaults_def split: if_split_asm)
  have "\<exists>cfg (cat :: 'up rest_catalog) policy tbl. polaris_Validate cfg = None \<and>
       bd_connect b ''polaris'' (polaris_props cfg) (Some (polaris_credential cfg)) = Inr cat \<and>
       Build ref region (pc_warehouse cfg) = Inr policy \<and>
       rc_load cat [(''X-Iceberg-Session-Policy'', policy)] (toIdentifier ref) up = Inr tbl \<and>
       sc_region creds = region \<and> sc_access creds \<noteq> [] \<and> sc_secret creds \<noteq> [] \<and> sc_token creds \<noteq> []" if r: "r = Inr creds" for creds
  proof -
    have "va_issue (vendingAdapter up cl) ref region = Inr creds"
      using assms(2,3) r by (auto simp: Issue_def Let_def split: prod.split_asm option.split_asm if_split_asm sum.split_asm adapter_error.split_asm)
    then have "cl_issue (polaris_client None (polaris_withDefaults cfg0) cat) up ref region = Inr creds"
      unfolding cl by (auto simp: vendingAdapter_def split: sum.split_asm catalog_fault.split_asm)
    from polaris_issue [OF this] v' conn show ?thesis by blast
  qed
  then show ?thesis using True by simp
next
  case False
  then have "cl_issue cl up ref region = Inl FaultStub"
    using assms(1) by (auto simp: BuildAdapter_def split: if_split_asm option.split_asm dest: New_issue)
  then have "va_issue (vendingAdapter up cl) ref region = Inl (AdapterStub (faultText FaultStub))"
    by (simp add: vendingAdapter_def)
  then have "r = Inl ErrEngineNotSupported"
    using assms(2,3) by (auto simp: Issue_def Let_def split: prod.split_asm option.split_asm if_split_asm)
  then show ?thesis by simp
qed

theorem vended_under_policy_witness:
  "\<exists>cl creds c'. BuildAdapter demo_builder \<lparr>cr_kind = ''polaris'', cr_nickname = ''p'', cr_endpoint = ''http://c'', cr_config = ''{}''\<rparr> = Inr cl \<and>
     Issue keep_all 1 2 ''t1'' (vendingAdapter 0 cl) \<lparr>tr_namespace = [''sales''], tr_name = ''orders''\<rparr> ''eu'' Map.empty = (Inr creds, c') \<and>
     sc_region creds = ''eu''"
proof -
  let ?cr = "\<lparr>cr_kind = ''polaris'', cr_nickname = ''p'', cr_endpoint = ''http://c'', cr_config = ''{}''\<rparr>"
  let ?ref = "\<lparr>tr_namespace = [''sales''], tr_name = ''orders''\<rparr>"
  let ?cfg = "\<lparr>pc_endpoint = ''http://c'', pc_warehouse = ''s3://lake/wh'', pc_client = ''id'', pc_secret = ''x'',
      pc_scope = ''PRINCIPAL_ROLE:ALL'', pc_mode = ''passthrough''\<rparr>"
  obtain cl where b: "BuildAdapter demo_builder ?cr = Inr cl" and cl: "cl = polaris_client None ?cfg demo_catalog"
    by (auto simp: BuildAdapter_def demo_builder_def polaris_New_def polaris_Validate_def polaris_withDefaults_def has_prefix_def)
  have bucket: "\<exists>x. Build ?ref ''eu'' ''s3://lake/wh'' = Inr x"
    by (auto simp: Build_def extractBucketFromWarehouse_def cutPrefix_def)
  have "\<exists>creds. cl_issue cl 0 ?ref ''eu'' = Inr creds"
    using cl bucket
    by (auto simp: polaris_client_def codeClient_def polaris_IssueScopedSTSCredentials_def demo_catalog_def demo_table_def
        parseVendedCreds_def propOf_def parseExpiry_def)
  then obtain creds where "va_issue (vendingAdapter 0 cl) ?ref ''eu'' = Inr creds" "va_vends (vendingAdapter 0 cl)"
    using cl by (auto simp: vendingAdapter_def polaris_client_def codeClient_def)
  then have run: "\<exists>c'. Issue keep_all 1 2 ''t1'' (vendingAdapter 0 cl) ?ref ''eu'' Map.empty = (Inr creds, c')"
    by (simp add: Issue_def cacheGet_def Let_def)
  then obtain c' where i: "Issue keep_all 1 2 ''t1'' (vendingAdapter 0 cl) ?ref ''eu'' Map.empty = (Inr creds, c')" by blast
  have "fst (cacheGet 1 (stsKey ''t1'' (Credential_Vending.joinNamespace ?ref) (tr_name ?ref) ''eu'') Map.empty) = None"
    by (simp add: cacheGet_def)
  from vended_under_policy [OF b this i] b i show ?thesis by blast
qed

end
