(* ===== verification/Glue_Signing.thy ===== *)
theory Glue_Signing
  imports Sha256 Neksur_Prelude
begin

text \<open>
  Request signing for the Glue catalog, \<open>internal/iceberg/glue/sigv4_transport.go\<close>. The credentials
  provider, the SigV4 signer and the next transport are parameters; reading the body can fail.
\<close>

record http_request =
  rq_body :: "(string + string) option"
  rq_contentLength :: int
  rq_headers :: "(string \<times> string) list"

text \<open>A body is read to an error (\<open>Inl\<close>) or to its bytes; reading replaces it and its length by what was read.\<close>

definition emptyPayloadHash :: string where
  "emptyPayloadHash = ''e3b0c44298fc1c149afbf4c8996fb92427ae41e4649b934ca495991b7852b855''"

definition computeBodyHash :: "http_request \<Rightarrow> (string + string) \<times> http_request" where
  "computeBodyHash rq =
     (case rq_body rq of
        None \<Rightarrow> (Inr emptyPayloadHash, rq)
      | Some body \<Rightarrow>
          if rq_contentLength rq = 0 then (Inr emptyPayloadHash, rq)
          else (case body of
            Inl e \<Rightarrow> (Inl (''read body: '' @ e), rq)
          | Inr bytes \<Rightarrow>
              (Inr (if bytes = [] then emptyPayloadHash else sha256Hex bytes),
               rq\<lparr>rq_body := Some (Inr bytes), rq_contentLength := int (length bytes)\<rparr>)))"

definition RoundTrip ::
  "(unit \<Rightarrow> string + 'c) \<Rightarrow> ('c \<Rightarrow> string \<Rightarrow> string \<Rightarrow> string \<Rightarrow> http_request \<Rightarrow> string + http_request) \<Rightarrow>
   (http_request \<Rightarrow> string + 'r) \<Rightarrow> string \<Rightarrow> http_request \<Rightarrow> string + 'r" where
  "RoundTrip retrieve signHTTP next region rq =
     (case retrieve () of
        Inl e \<Rightarrow> Inl (''glue: sigv4: retrieve credentials: '' @ e)
      | Inr creds \<Rightarrow>
         (case computeBodyHash rq of
            (Inl e, _) \<Rightarrow> Inl (''glue: sigv4: compute body hash: '' @ e)
          | (Inr payloadHash, rq') \<Rightarrow>
             (case signHTTP creds payloadHash ''glue'' region rq' of
                Inl e \<Rightarrow> Inl (''glue: sigv4: sign: '' @ e)
              | Inr rq2 \<Rightarrow> next rq2)))"

section \<open>Access denied\<close>

text \<open>\<open>contains\<close> compares the substring at every offset.\<close>

definition contains :: "string \<Rightarrow> string \<Rightarrow> bool" where
  "contains s sub \<longleftrightarrow> (if sub = [] then True else list_ex (\<lambda>i. take (length sub) (drop i s) = sub) [0..<length s + 1 - length sub])"

definition logAccessDeniedException :: "string option \<Rightarrow> string option" where
  "logAccessDeniedException err =
     (case err of
        None \<Rightarrow> None
      | Some msg \<Rightarrow>
          if msg = [] then None
          else if list_ex (contains msg) [''AccessDeniedException'', ''Access denied'', ''LakeFormation''] then Some msg else None)"

section \<open>What is signed\<close>

lemma ex_le_Suc: "(\<exists>i \<le> Suc n. P i) \<longleftrightarrow> P 0 \<or> (\<exists>i \<le> n. P (Suc i))"
  by (metis Suc_le_mono le0 not0_implies_Suc)

lemma str_contains_drop: "str_contains s p \<longleftrightarrow> (\<exists>i \<le> length s. take (length p) (drop i s) = p)"
proof (induction s)
  case (Cons c s)
  have "(\<exists>i \<le> length (c # s). take (length p) (drop i (c # s)) = p) \<longleftrightarrow>
      take (length p) (c # s) = p \<or> (\<exists>i \<le> length s. take (length p) (drop i s) = p)"
    unfolding list.size(4) add.right_neutral add_Suc_right ex_le_Suc by simp
  then show ?case using Cons by (simp add: has_prefix_def)
qed auto

text \<open>The hand-written search is the substring test.\<close>

lemma contains_str_contains: "contains s sub = str_contains s sub"
proof -
  have fits: "i + length sub \<le> length s" if "take (length sub) (drop i s) = sub" "sub \<noteq> []" for i
  proof -
    have "min (length s - i) (length sub) = length sub" using arg_cong [OF that(1), of length] by simp
    then show ?thesis using that(2) by (cases sub) auto
  qed
  show ?thesis
  proof (cases "sub = []")
    case False
    have "i < length s + 1 - length sub" "i \<le> length s" if "take (length sub) (drop i s) = sub" for i
      using fits [OF that False] by auto
    then have "str_contains s sub \<longleftrightarrow> (\<exists>i. i < length s + 1 - length sub \<and> take (length sub) (drop i s) = sub)"
      unfolding str_contains_drop by blast
    then show ?thesis using False by (auto simp: contains_def list_ex_iff)
  qed (auto simp: contains_def str_contains_drop)
qed

text \<open>
  The request that the next transport gets carries the body of the caller, and the signer saw the
  hash of exactly that body whenever the caller stated its length; a body of unstated length is
  sent under the hash of the empty one.
\<close>

lemma signed_payload:
  assumes "computeBodyHash rq = (Inr h, rq')"
  shows "rq_body rq' = rq_body rq \<and> rq_headers rq' = rq_headers rq \<and>
    (case rq_body rq of
       Some (Inr bytes) \<Rightarrow> h = (if rq_contentLength rq = 0 \<or> bytes = [] then emptyPayloadHash else sha256Hex bytes)
     | _ \<Rightarrow> h = emptyPayloadHash)"
  using assms by (auto simp: computeBodyHash_def split: option.splits sum.splits if_splits)

end
