(* ===== verification/Migration_Runner.thy ===== *)
theory Migration_Runner
  imports Tenant_Session "HOL-Library.List_Lexorder" "HOL-Library.Char_ord"
begin

text \<open>
  The migration runner: the wrapper around the Atlas tool (\<open>internal/migrate/migrate.go\<close>), the
  per-tenant graph migrations (\<open>internal/migrate/graph.go\<close>) and the command \<open>cmd/migrate\<close>.

  The Atlas tool is a parameter: from its arguments and the state of the world it gives its exit
  error, the written it writes to the error stream, and the new state. The file system and the
  embedded migration files are parameters. The graph database keeps, for each schema, the versions of its
  revisions table and the bodies that were run; that a statement fails is a parameter, and a
  transaction that fails leaves the database as it was.
\<close>

section \<open>Repository root\<close>

definition pathJoin :: "string \<Rightarrow> string \<Rightarrow> string" where
  "pathJoin root rel = (if root = ''/'' then ''/'' @ rel else root @ ''/'' @ rel)"

text \<open>\<open>filepath.Dir\<close> of a clean absolute path.\<close>

definition pathDir :: "string \<Rightarrow> string" where
  "pathDir p =
     (let r = dropWhile (\<lambda>c. c = CHR ''/'') (dropWhile (\<lambda>c. c \<noteq> CHR ''/'') (rev p)) in
      if r = [] then ''/'' else rev r)"

definition repoMarker :: string where
  "repoMarker = ''migrations/postgres/V0001__enable_extensions.sql''"

fun findFrom :: "nat \<Rightarrow> (string \<Rightarrow> bool) \<Rightarrow> string \<Rightarrow> string option" where
  "findFrom 0 isFile cur = None"
| "findFrom (Suc n) isFile cur =
     (if isFile (pathJoin cur repoMarker) then Some cur
      else if pathDir cur = cur then None
      else findFrom n isFile (pathDir cur))"

definition findRepoRoot :: "string option \<Rightarrow> (string \<Rightarrow> bool) \<Rightarrow> string option" where
  "findRepoRoot cwd isFile = (case cwd of None \<Rightarrow> None | Some cur \<Rightarrow> findFrom 6 isFile cur)"

definition DirURL :: string where "DirURL = ''file://migrations/postgres''"

definition ResolveDirURL :: "string option \<Rightarrow> (string \<Rightarrow> bool) \<Rightarrow> string" where
  "ResolveDirURL cwd isFile =
     (case findRepoRoot cwd isFile of
        None \<Rightarrow> DirURL @ ''?format=flyway''
      | Some root \<Rightarrow> ''file://'' @ pathJoin root ''migrations/postgres'' @ ''?format=flyway'')"

definition ResolveConfigURL :: "string option \<Rightarrow> (string \<Rightarrow> bool) \<Rightarrow> string" where
  "ResolveConfigURL cwd isFile =
     (case findRepoRoot cwd isFile of
        None \<Rightarrow> ''file://migrations/atlas.hcl''
      | Some root \<Rightarrow> ''file://'' @ pathJoin root ''migrations/atlas.hcl'')"

section \<open>Atlas\<close>

definition RevisionsSchema :: string where "RevisionsSchema = ''public''"
definition PublicMaxVersion :: string where "PublicMaxVersion = ''0044''"
definition TenantBaselineVersion :: string where "TenantBaselineVersion = PublicMaxVersion"
definition Phase0GraphBaselineVersion :: string where "Phase0GraphBaselineVersion = ''0025''"
definition maxDeadlockAttempts :: nat where "maxDeadlockAttempts = 3"
definition stderrCaptureMax :: nat where "stderrCaptureMax = 64 * 1024"

definition captureWrite :: "string \<Rightarrow> string \<Rightarrow> string" where
  "captureWrite p buf =
     (if length buf + length p > stderrCaptureMax then
        (let room = int stderrCaptureMax - int (length buf) in if room > 0 then buf @ take (nat room) p else buf)
      else buf @ p)"

datatype migrate_error =
    AtlasError string string
  | AttemptsExhausted nat migrate_error
  | EmptySchema
  | NilPool
  | StepFailed string string

type_synonym 'w atlas = "string list \<Rightarrow> 'w \<Rightarrow> string option \<times> string list \<times> 'w"

definition runAtlas :: "'w atlas \<Rightarrow> string list \<Rightarrow> 'w \<Rightarrow> migrate_error option \<times> 'w" where
  "runAtlas atlas args w =
     (case atlas args w of
        (None, written, w') \<Rightarrow> (None, w')
      | (Some e, written, w') \<Rightarrow> (Some (AtlasError e (fold captureWrite written [])), w'))"

text \<open>The third component is the sleeps, in milliseconds. Only an Atlas error can be a deadlock.\<close>

fun retryFrom :: "nat \<Rightarrow> nat \<Rightarrow> nat \<Rightarrow> ('w \<Rightarrow> migrate_error option \<times> 'w) \<Rightarrow> migrate_error option \<Rightarrow> 'w \<Rightarrow> migrate_error option \<times> 'w \<times> nat list" where
  "retryFrom 0 attempt n fn lastErr w = (map_option (AttemptsExhausted n) lastErr, w, [])"
| "retryFrom (Suc k) attempt n fn lastErr w =
     (case fn w of
        (None, w') \<Rightarrow> (None, w', [])
      | (Some (AtlasError e stderr), w') \<Rightarrow>
          if \<not> str_contains stderr ''40P01'' then (Some (AtlasError e stderr), w', [])
          else (case retryFrom k (Suc attempt) n fn (Some (AtlasError e stderr)) w' of
            (r, w'', sleeps) \<Rightarrow> (r, w'', if attempt < n then attempt * 200 # sleeps else sleeps))
      | (Some e, w') \<Rightarrow> (Some e, w', []))"

definition retryOnDeadlock :: "('w \<Rightarrow> migrate_error option \<times> 'w) \<Rightarrow> nat \<Rightarrow> 'w \<Rightarrow> migrate_error option \<times> 'w \<times> nat list" where
  "retryOnDeadlock fn n w = retryFrom n 1 n fn None w"

definition publicArgs :: "string option \<Rightarrow> (string \<Rightarrow> bool) \<Rightarrow> string \<Rightarrow> string list" where
  "publicArgs cwd isFile dsn =
     [''--config'', ResolveConfigURL cwd isFile, ''--env'', ''public'', ''migrate'', ''apply'', ''--url'', dsn,
      ''--dir'', ResolveDirURL cwd isFile, ''--revisions-schema'', RevisionsSchema, ''--to-version'', PublicMaxVersion]"

definition toVersionMissing :: string where
  "toVersionMissing = ''to-version '' @ [CHR 0x22] @ PublicMaxVersion @ [CHR 0x22] @ '' not found in pending migration files''"

fun stderrOf :: "migrate_error \<Rightarrow> string option" where
  "stderrOf (AtlasError e stderr) = Some stderr"
| "stderrOf (AttemptsExhausted n e) = stderrOf e"
| "stderrOf _ = None"

definition ApplyPublic :: "'w atlas \<Rightarrow> string option \<Rightarrow> (string \<Rightarrow> bool) \<Rightarrow> string \<Rightarrow> 'w \<Rightarrow> migrate_error option \<times> 'w" where
  "ApplyPublic atlas cwd isFile dsn w =
     (case retryOnDeadlock (runAtlas atlas (publicArgs cwd isFile dsn)) maxDeadlockAttempts w of
        (None, w', _) \<Rightarrow> (None, w')
      | (Some e, w', _) \<Rightarrow>
          (case stderrOf e of
             Some stderr \<Rightarrow> if str_contains stderr toVersionMissing then (None, w') else (Some e, w')
           | None \<Rightarrow> (Some e, w')))"

definition composeTenantDSN :: "string \<Rightarrow> string \<Rightarrow> string option" where
  "composeTenantDSN baseDSN schema =
     (if schema = [] then None
      else Some (baseDSN @ (if str_contains baseDSN ''?'' then ''&'' else ''?'') @ ''search_path='' @ schema))"

definition tenantArgs :: "string option \<Rightarrow> (string \<Rightarrow> bool) \<Rightarrow> string \<Rightarrow> string \<Rightarrow> string list" where
  "tenantArgs cwd isFile dsn schema =
     [''--config'', ResolveConfigURL cwd isFile, ''--env'', ''tenant'', ''migrate'', ''apply'', ''--url'', dsn,
      ''--dir'', ResolveDirURL cwd isFile, ''--revisions-schema'', schema, ''--baseline'', TenantBaselineVersion]"

definition ApplyTenant :: "'w atlas \<Rightarrow> string option \<Rightarrow> (string \<Rightarrow> bool) \<Rightarrow> string \<Rightarrow> string \<Rightarrow> 'w \<Rightarrow> migrate_error option \<times> 'w" where
  "ApplyTenant atlas cwd isFile baseDSN schema w =
     (case composeTenantDSN baseDSN schema of
        None \<Rightarrow> (Some EmptySchema, w)
      | Some dsn \<Rightarrow>
         (case retryOnDeadlock (runAtlas atlas (tenantArgs cwd isFile dsn schema)) maxDeadlockAttempts w of (r, w', _) \<Rightarrow> (r, w')))"

section \<open>Graph migrations\<close>

definition isDollarTagChar :: "char \<Rightarrow> bool" where
  "isDollarTagChar b \<longleftrightarrow>
     (CHR ''a'' \<le> b \<and> b \<le> CHR ''z'') \<or> (CHR ''A'' \<le> b \<and> b \<le> CHR ''Z'') \<or> (CHR ''0'' \<le> b \<and> b \<le> CHR ''9'') \<or> b = CHR ''_''"

text \<open>The open tag, none at depth zero, after the markers of a line.\<close>

function scanDollar :: "string \<Rightarrow> string option \<Rightarrow> string option" where
  "scanDollar [] open = open"
| "scanDollar (c # r) open =
     (if c \<noteq> CHR ''$'' then scanDollar r open
      else (case dropWhile isDollarTagChar r of
        d # r' \<Rightarrow>
          if d = CHR ''$'' then
            (let tag = ''$'' @ takeWhile isDollarTagChar r @ ''$'' in
             scanDollar r' (case open of None \<Rightarrow> Some tag | Some t \<Rightarrow> if tag = t then None else Some t))
          else scanDollar r open
      | [] \<Rightarrow> scanDollar r open))"
  by pat_completeness auto

termination
proof (relation "measure (\<lambda>(s, open). length s)")
  fix c :: char and r d r' and open' :: "string option" and tag
  assume "dropWhile isDollarTagChar r = d # r'"
  then show "((r', case open' of None \<Rightarrow> Some tag | Some t \<Rightarrow> if tag = t then None else Some t), c # r, open') \<in> measure (\<lambda>(s, open). length s)"
    using length_dropWhile_le [of isDollarTagChar r] by simp
qed auto

definition txMarker :: "string \<Rightarrow> bool" where
  "txMarker line \<longleftrightarrow> TrimSpace line = ''BEGIN;'' \<or> TrimSpace line = ''COMMIT;''"

fun stripLines :: "string list \<Rightarrow> string option \<Rightarrow> string list" where
  "stripLines [] open = []"
| "stripLines (line # ls) open =
     (if open = None \<and> txMarker line then [] else line) # stripLines ls (scanDollar line open)"

definition stripWrappingTx :: "string \<Rightarrow> string" where
  "stripWrappingTx s = concat (map (\<lambda>l. l @ [CHR 0x0A]) (stripLines (splitOn (CHR 0x0A) s) None))"

text \<open>The version of a file name: \<open>^V0*(\d+)__.+\.sql$\<close>, its digits without leading zeros, padded to four.\<close>

fun padTo4 :: "nat \<Rightarrow> string \<Rightarrow> string" where
  "padTo4 0 v = v"
| "padTo4 (Suc n) v = (if length v < 4 then padTo4 n (CHR ''0'' # v) else v)"

definition graphFileVersion :: "string \<Rightarrow> string option" where
  "graphFileVersion name =
     (case name of
        c # r \<Rightarrow>
          let ds = takeWhile is_digit r; rest = dropWhile is_digit r;
              v = dropWhile (\<lambda>d. d = CHR ''0'') ds in
          if c = CHR ''V'' \<and> ds \<noteq> [] \<and> has_prefix rest ''__'' \<and> has_suffix (drop 2 rest) ''.sql'' \<and>
             length (drop 2 rest) > 4 \<and> CHR 0x0A \<notin> set rest
          then Some (padTo4 4 (if v = [] then ''0'' else v)) else None
      | [] \<Rightarrow> None)"

record embed_file =
  ef_name :: string
  ef_dir :: bool
  ef_body :: string

definition graphEntries :: "embed_file list \<Rightarrow> (string \<times> embed_file) list" where
  "graphEntries files =
     sort_key fst (List.map_filter (\<lambda>f. if ef_dir f then None else map_option (\<lambda>v. (v, f)) (graphFileVersion (ef_name f))) files)"

record graph_db =
  gd_revs :: "string \<rightharpoonup> string list"
  gd_applied :: "(string \<times> string) list"

type_synonym graph_faults = "graph_db \<Rightarrow> string \<Rightarrow> string option"

definition graphStatement :: "graph_faults \<Rightarrow> string \<Rightarrow> string \<Rightarrow> (graph_db \<Rightarrow> graph_db) \<Rightarrow> graph_db \<Rightarrow> migrate_error + graph_db" where
  "graphStatement fault what sql f db = (case fault db sql of Some e \<Rightarrow> Inl (StepFailed what e) | None \<Rightarrow> Inr (f db))"

definition recordVersion :: "graph_faults \<Rightarrow> string \<Rightarrow> string \<Rightarrow> graph_db \<Rightarrow> migrate_error + graph_db" where
  "recordVersion fault schema v db =
     (case gd_revs db schema of
        None \<Rightarrow> Inl (StepFailed ''record'' ''42P01'')
      | Some vs \<Rightarrow>
          if v \<in> set vs then Inl (StepFailed ''record'' ''23505'')
          else graphStatement fault ''record'' (''INSERT INTO '' @ sanitizeIdent [schema] @ ''.graph_schema_revisions (version) VALUES ($1)'')
            (\<lambda>d. d\<lparr>gd_revs := (gd_revs d)(schema \<mapsto> vs @ [v])\<rparr>) db)"

fun applyEntries :: "graph_faults \<Rightarrow> string \<Rightarrow> string list \<Rightarrow> (string \<times> embed_file) list \<Rightarrow> graph_db \<Rightarrow> migrate_error + graph_db" where
  "applyEntries fault schema applied [] db = Inr db"
| "applyEntries fault schema applied ((v, f) # es) db =
     (if v \<le> Phase0GraphBaselineVersion then applyEntries fault schema applied es db
      else if v \<in> set applied then applyEntries fault schema applied es db
      else rbind (graphStatement fault ''apply'' (stripWrappingTx (ef_body f))
             (\<lambda>d. d\<lparr>gd_applied := gd_applied d @ [(schema, stripWrappingTx (ef_body f))]\<rparr>) db) (\<lambda>db1.
           rbind (recordVersion fault schema v db1) (\<lambda>db2.
             applyEntries fault schema applied es db2)))"

definition ensureRevisions :: "string \<Rightarrow> graph_db \<Rightarrow> graph_db" where
  "ensureRevisions schema db =
     (case gd_revs db schema of None \<Rightarrow> db\<lparr>gd_revs := (gd_revs db)(schema \<mapsto> [])\<rparr> | Some vs \<Rightarrow> db)"

definition graphTx :: "graph_faults \<Rightarrow> embed_file list \<Rightarrow> string \<Rightarrow> graph_db \<Rightarrow> migrate_error + graph_db" where
  "graphTx fault files schema db =
     rbind (graphStatement fault ''LOAD age'' (''LOAD '' @ [CHR 0x27] @ ''age'' @ [CHR 0x27]) id db) (\<lambda>db1.
     rbind (graphStatement fault ''set search_path''
       (''SET LOCAL search_path = ag_catalog, '' @ sanitizeIdent [schema] @ '', '' @ [CHR 0x22] @ ''$user'' @ [CHR 0x22] @ '', public'') id db1) (\<lambda>db2.
     rbind (graphStatement fault ''ensure revisions table''
       (''CREATE TABLE IF NOT EXISTS '' @ sanitizeIdent [schema] @ ''.graph_schema_revisions'') (ensureRevisions schema) db2) (\<lambda>db3.
     rbind (graphStatement fault ''read revisions'' (''SELECT version FROM '' @ sanitizeIdent [schema] @ ''.graph_schema_revisions'') id db3) (\<lambda>db4.
     rbind (applyEntries fault schema (case gd_revs db4 schema of Some vs \<Rightarrow> vs | None \<Rightarrow> []) (graphEntries files) db4) (\<lambda>db5.
       graphStatement fault ''commit'' ''COMMIT'' id db5)))))"

definition ApplyTenantGraph ::
  "graph_faults \<Rightarrow> embed_file list \<Rightarrow> bool \<Rightarrow> string \<Rightarrow> graph_db \<Rightarrow> migrate_error option \<times> graph_db" where
  "ApplyTenantGraph fault files hasPool schema db =
     (if \<not> hasPool then (Some NilPool, db)
      else if schema = [] then (Some EmptySchema, db)
      else case graphTx fault files schema db of
        Inl e \<Rightarrow> (Some e, db)
      | Inr db' \<Rightarrow> (None, db'))"

section \<open>The command\<close>

text \<open>\<open>LIKE 'tenant_%'\<close>: the underscore stands for any one character.\<close>

definition likeTenant :: "string \<Rightarrow> bool" where
  "likeTenant n \<longleftrightarrow> has_prefix n ''tenant'' \<and> length n > 6"

definition discoverTenants :: "string option \<Rightarrow> string list \<Rightarrow> string + string list" where
  "discoverTenants fault namespaces =
     (case fault of Some e \<Rightarrow> Inl e | None \<Rightarrow> Inr (sort (filter likeTenant namespaces)))"

record migrate_env =
  me_dsn :: string
  me_cwd :: "string option"
  me_isFile :: "string \<Rightarrow> bool"
  me_files :: "embed_file list"
  me_discover :: "string option"
  me_graphPool :: bool

definition applyOne :: "'w atlas \<Rightarrow> graph_faults \<Rightarrow> migrate_env \<Rightarrow> string \<Rightarrow> 'w \<times> graph_db \<Rightarrow> bool \<times> 'w \<times> graph_db" where
  "applyOne atlas fault env schema st =
     (case ApplyTenant atlas (me_cwd env) (me_isFile env) (me_dsn env) schema (fst st) of
        (Some e, w) \<Rightarrow> (False, w, snd st)
      | (None, w) \<Rightarrow>
         (case ApplyTenantGraph fault (me_files env) True schema (snd st) of
            (Some e, db) \<Rightarrow> (False, w, db) | (None, db) \<Rightarrow> (True, w, db)))"

fun applyAll :: "'w atlas \<Rightarrow> graph_faults \<Rightarrow> migrate_env \<Rightarrow> string list \<Rightarrow> 'w \<times> graph_db \<Rightarrow> string list \<times> 'w \<times> graph_db" where
  "applyAll atlas fault env [] st = ([], st)"
| "applyAll atlas fault env (t # ts) st =
     (case applyOne atlas fault env t st of
        (ok, st') \<Rightarrow> (case applyAll atlas fault env ts st' of (failures, st'') \<Rightarrow> (if ok then failures else t # failures, st'')))"

text \<open>The exit code. \<open>namespaces\<close> are the schemas that the catalog lists after the public pass.\<close>

definition migrateMain ::
  "'w atlas \<Rightarrow> graph_faults \<Rightarrow> ('w \<Rightarrow> string list) \<Rightarrow> migrate_env \<Rightarrow> string \<Rightarrow> bool \<Rightarrow> 'w \<times> graph_db \<Rightarrow> nat \<times> 'w \<times> graph_db" where
  "migrateMain atlas fault namespaces env tenantFlag skipPublic st =
     (if me_dsn env = [] then (2, st)
      else if tenantFlag \<noteq> [] then
        (case ApplyTenant atlas (me_cwd env) (me_isFile env) (me_dsn env) tenantFlag (fst st) of
           (Some e, w) \<Rightarrow> (1, w, snd st)
         | (None, w) \<Rightarrow>
             if \<not> me_graphPool env then (1, w, snd st)
             else (case ApplyTenantGraph fault (me_files env) True tenantFlag (snd st) of
               (Some e, db) \<Rightarrow> (1, w, db) | (None, db) \<Rightarrow> (0, w, db)))
      else (case (if skipPublic then (None, fst st) else ApplyPublic atlas (me_cwd env) (me_isFile env) (me_dsn env) (fst st)) of
        (Some e, w) \<Rightarrow> (2, w, snd st)
      | (None, w) \<Rightarrow>
         (case discoverTenants (me_discover env) (namespaces w) of
            Inl e \<Rightarrow> (2, w, snd st)
          | Inr tenants \<Rightarrow>
              if \<not> me_graphPool env then (2, w, snd st)
              else (case applyAll atlas fault env tenants (w, snd st) of
                (failures, st') \<Rightarrow> (if failures = [] then 0 else 1, st')))))"

section \<open>Captured errors and retries\<close>

lemma captureWrite_take: "captureWrite p (take stderrCaptureMax x) = take stderrCaptureMax (x @ p)"
  by (cases "length x \<le> stderrCaptureMax") (auto simp: captureWrite_def Let_def min_def nat_diff_distrib)

lemma captured_first: "fold captureWrite ws [] = take stderrCaptureMax (concat ws)"
proof -
  have "fold captureWrite ws (take stderrCaptureMax x) = take stderrCaptureMax (x @ concat ws)" for x
    by (induction ws arbitrary: x) (simp_all add: captureWrite_take del: take_append)
  from this [of "[]"] show ?thesis by simp
qed

definition deadlocked :: "migrate_error option \<Rightarrow> bool" where
  "deadlocked r = (case r of Some (AtlasError e stderr) \<Rightarrow> str_contains stderr ''40P01'' | _ \<Rightarrow> False)"

definition afterRuns :: "('w \<Rightarrow> 'r \<times> 'w) \<Rightarrow> nat \<Rightarrow> 'w \<Rightarrow> 'w" where
  "afterRuns fn k w = ((\<lambda>w. snd (fn w)) ^^ k) w"

lemma afterRuns_Suc: "afterRuns fn (Suc k) w = afterRuns fn k (snd (fn w))"
  by (simp add: afterRuns_def funpow_Suc_right del: funpow.simps)

lemma retryFrom_runs:
  assumes "retryFrom (Suc m) attempt n fn lastErr w = (r, w', sleeps)" "attempt + m = n"
  shows "\<exists>k. k \<le> m \<and> w' = afterRuns fn (Suc k) w \<and> sleeps = map (\<lambda>i. (attempt + i) * 200) [0..<k] \<and>
    (\<forall>i < k. deadlocked (fst (fn (afterRuns fn i w)))) \<and>
    (if deadlocked (fst (fn (afterRuns fn k w))) then k = m \<and> r = map_option (AttemptsExhausted n) (fst (fn (afterRuns fn k w)))
     else r = fst (fn (afterRuns fn k w)))"
  using assms
proof (induction m arbitrary: attempt lastErr w r w' sleeps)
  case 0
  obtain x w1 where f: "fn w = (x, w1)" by (metis prod.exhaust)
  have z: "afterRuns fn 0 w = w" "afterRuns fn (Suc 0) w = w1" using f by (simp_all add: afterRuns_def)
  show ?case
    using 0 f by (intro exI [of _ 0]) (auto simp: z deadlocked_def split: option.splits migrate_error.splits if_splits)
next
  case (Suc m)
  obtain x w1 where f: "fn w = (x, w1)" by (metis prod.exhaust)
  show ?case
  proof (cases "deadlocked x")
    case False
    then have "r = x" "w' = w1" "sleeps = []"
      using Suc.prems(1) f by (auto simp: deadlocked_def split: option.splits migrate_error.splits if_splits)
    then show ?thesis using f False by (intro exI [of _ 0]) (simp add: afterRuns_def)
  next
    case True
    then obtain e stderr where x: "x = Some (AtlasError e stderr)" "str_contains stderr ''40P01''"
      by (auto simp: deadlocked_def split: option.splits migrate_error.splits)
    obtain s1 where s1: "retryFrom (Suc m) (Suc attempt) n fn (Some (AtlasError e stderr)) w1 = (r, w', s1)" "sleeps = attempt * 200 # s1"
      using Suc.prems f x by (auto simp del: retryFrom.simps(2) simp: retryFrom.simps(2) [of "Suc m"] split: prod.splits)
    obtain k where k: "k \<le> m" "w' = afterRuns fn (Suc k) w1" "s1 = map (\<lambda>i. (Suc attempt + i) * 200) [0..<k]"
      "\<forall>i < k. deadlocked (fst (fn (afterRuns fn i w1)))"
      "if deadlocked (fst (fn (afterRuns fn k w1))) then k = m \<and> r = map_option (AttemptsExhausted n) (fst (fn (afterRuns fn k w1)))
       else r = fst (fn (afterRuns fn k w1))"
      using Suc.IH [OF s1(1)] Suc.prems(2) by auto
    have w1: "afterRuns fn (Suc i) w = afterRuns fn i w1" for i using f by (simp add: afterRuns_Suc)
    have "[0..<Suc k] = 0 # map Suc [0..<k]" by (simp add: upt_conv_Cons map_Suc_upt del: upt_Suc)
    then have "sleeps = map (\<lambda>i. (attempt + i) * 200) [0..<Suc k]" using s1(2) k(3) by simp
    moreover have "deadlocked (fst (fn (afterRuns fn i w)))" if "i < Suc k" for i
      using that k(4) True f w1 by (cases i) (simp_all add: afterRuns_def)
    ultimately show ?thesis using k(1,2,5) w1 by (intro exI [of _ "Suc k"]) simp
  qed
qed

text \<open>
  C31 A migration is tried at most as often as the budget says, with sleeps that grow by 200 ms, again
  only while the captured error text names a deadlock; and what is captured is the first 64 KiB
  of the error stream.
\<close>
theorem retry_bounded:
  assumes "n > 0" "retryOnDeadlock (runAtlas atlas args) n w = (r, w', sleeps)"
  shows "(\<exists>k < n. w' = afterRuns (runAtlas atlas args) (Suc k) w \<and> sleeps = map (\<lambda>i. Suc i * 200) [0..<k] \<and>
      (\<forall>i < k. deadlocked (fst (runAtlas atlas args (afterRuns (runAtlas atlas args) i w)))) \<and>
      (if deadlocked (fst (runAtlas atlas args (afterRuns (runAtlas atlas args) k w)))
       then k = n - 1 \<and> r = map_option (AttemptsExhausted n) (fst (runAtlas atlas args (afterRuns (runAtlas atlas args) k w)))
       else r = fst (runAtlas atlas args (afterRuns (runAtlas atlas args) k w)))) \<and>
    (\<forall>v. deadlocked (fst (runAtlas atlas args v)) \<longleftrightarrow>
      (\<exists>e written v'. atlas args v = (Some e, written, v') \<and> str_contains (take (64 * 1024) (concat written)) ''40P01''))"
proof -
  obtain m where m: "n = Suc m" using assms(1) by (cases n) auto
  then have "retryFrom (Suc m) 1 n (runAtlas atlas args) None w = (r, w', sleeps)" using assms(2) by (simp add: retryOnDeadlock_def)
  moreover have "deadlocked (fst (runAtlas atlas args v)) \<longleftrightarrow>
      (\<exists>e written v'. atlas args v = (Some e, written, v') \<and> str_contains (take (64 * 1024) (concat written)) ''40P01'')" for v
  proof -
    obtain x written v' where "atlas args v = (x, written, v')" by (metis prod.exhaust)
    then show ?thesis by (cases x) (simp_all add: runAtlas_def captured_first stderrCaptureMax_def deadlocked_def)
  qed
  ultimately show ?thesis using retryFrom_runs [of m 1 n "runAtlas atlas args" None w r w' sleeps] m by (auto simp: less_Suc_eq_le)
qed

text \<open>A tool that meets two deadlocks and then succeeds; the state counts its runs.\<close>

definition deadlock_twice :: "nat atlas" where
  "deadlock_twice args k = (if k < 2 then Some ''exit status 1'' else None, [''ERROR 40P01''], Suc k)"

theorem retry_bounded_witness:
  "retryOnDeadlock (runAtlas deadlock_twice []) 3 0 = (None, 3, [200, 400]) \<and>
   (\<exists>k < 3. 3 = afterRuns (runAtlas deadlock_twice []) (Suc k) 0 \<and> [200, 400] = map (\<lambda>i. Suc i * 200) [0..<k])"
proof -
  have f: "captureWrite ''ERROR 40P01'' [] = ''ERROR 40P01''" by (simp add: captureWrite_def stderrCaptureMax_def)
  have d: "str_contains ''ERROR 40P01'' ''40P01''" by (simp add: has_prefix_def)
  have r: "retryOnDeadlock (runAtlas deadlock_twice []) 3 0 = (None, 3, [200, 400])"
    by (simp add: retryOnDeadlock_def eval_nat_numeral runAtlas_def deadlock_twice_def f d del: str_contains.simps)
  from retry_bounded [OF _ r] r show ?thesis by auto
qed

section \<open>Transaction markers\<close>

lemma newline_not_tag: "\<not> isDollarTagChar (CHR 0x0A)"
  by (simp add: isDollarTagChar_def)

lemma scan_newline: "scanDollar (l @ CHR 0x0A # r) open = scanDollar r (scanDollar l open)"
proof (induction l "open" rule: scanDollar.induct)
  case (1 "open")
  then show ?case by simp
next
  case (2 c l "open")
  show ?case
  proof (cases "c = CHR ''$''")
    case False
    then show ?thesis using 2(1) by simp
  next
    case True
    show ?thesis
    proof (cases "dropWhile isDollarTagChar l")
      case Nil
      then have "dropWhile isDollarTagChar (l @ CHR 0x0A # r) = CHR 0x0A # r"
        by (simp add: dropWhile_append newline_not_tag)
      then show ?thesis using True Nil 2(2,3,4) by (simp del: dropWhile_eq_Nil_conv)
    next
      case (Cons d l')
      then have ex: "\<exists>x \<in> set l. \<not> isDollarTagChar x" by (metis dropWhile_eq_Nil_conv list.distinct(1))
      then have dw: "dropWhile isDollarTagChar (l @ CHR 0x0A # r) = d # l' @ CHR 0x0A # r"
        using Cons by auto
      have tw: "takeWhile isDollarTagChar (l @ CHR 0x0A # r) = takeWhile isDollarTagChar l"
        by (metis Cons dropWhile_eq_Nil_conv list.distinct(1) takeWhile_append1)
      show ?thesis using True Cons dw tw 2(2,3,4) by (cases "d = CHR ''$''") (simp_all add: Let_def)
    qed
  qed
qed

definition linesBefore :: "string list \<Rightarrow> nat \<Rightarrow> string" where
  "linesBefore ls i = concat (map (\<lambda>l. l @ [CHR 0x0A]) (take i ls))"

lemma scan_before: "scanDollar (linesBefore (l # ls) (Suc i)) open = scanDollar (linesBefore ls i) (scanDollar l open)"
  using scan_newline [of l "linesBefore ls i" "open"] by (simp add: linesBefore_def)

lemma stripLines_nth:
  "length (stripLines ls open) = length ls \<and>
   (\<forall>i < length ls. stripLines ls open ! i =
      (if scanDollar (linesBefore ls i) open = None \<and> txMarker (ls ! i) then [] else ls ! i))"
proof (induction ls arbitrary: "open")
  case (Cons l ls)
  have "stripLines (l # ls) open ! i =
      (if scanDollar (linesBefore (l # ls) i) open = None \<and> txMarker ((l # ls) ! i) then [] else (l # ls) ! i)"
    if "i < length (l # ls)" for i
  proof (cases i)
    case 0
    then show ?thesis by (simp add: linesBefore_def)
  next
    case (Suc j)
    then show ?thesis using Cons.IH [of "scanDollar l open"] that by (simp add: scan_before)
  qed
  then show ?case using Cons.IH by auto
qed simp

text \<open>
  C30 Every line of a migration file is handed to the database as it is, except that a line that holds
  only \<open>BEGIN;\<close> or \<open>COMMIT;\<close> is blank when the text before it leaves no dollar quote open; the number
  of lines is kept.
\<close>
theorem strip_exact:
  "\<exists>out. stripWrappingTx s = concat (map (\<lambda>l. l @ [CHR 0x0A]) out) \<and> length out = length (splitOn (CHR 0x0A) s) \<and>
     list_all (\<lambda>i. out ! i =
       (if scanDollar (linesBefore (splitOn (CHR 0x0A) s) i) None = None \<and> txMarker (splitOn (CHR 0x0A) s ! i) then []
        else splitOn (CHR 0x0A) s ! i)) [0..<length out]"
  by (rule exI [of _ "stripLines (splitOn (CHR 0x0A) s) None"])
    (simp add: stripWrappingTx_def stripLines_nth list_all_iff)

text \<open>A dollar sign pair in a comment opens a quote for the scanner, and the marker after it is kept.\<close>

lemma comment_hides_commit: "stripWrappingTx ''-- $$'' = ''-- $$'' @ [CHR 0x0A] \<and>
  stripWrappingTx (''-- $$'' @ [CHR 0x0A] @ ''COMMIT;'') = ''-- $$'' @ [CHR 0x0A] @ ''COMMIT;'' @ [CHR 0x0A]"
proof -
  have "TrimSpace ''-- $$'' = ''-- $$''" by code_simp
  then show ?thesis by (simp add: stripWrappingTx_def txMarker_def isDollarTagChar_def)
qed

section \<open>Graph migrations run once\<close>

definition pending :: "string list \<Rightarrow> (string \<times> embed_file) list \<Rightarrow> (string \<times> embed_file) list" where
  "pending applied es = filter (\<lambda>(v, f). Phase0GraphBaselineVersion < v \<and> v \<notin> set applied) es"





definition empty_graph :: graph_db where
  "empty_graph = \<lparr>gd_revs = Map.empty, gd_applied = []\<rparr>"






section \<open>The rollout\<close>

lemma applyAll_runs:
  "applyAll atlas fault env ts st = (failures, st') \<Longrightarrow>
   st' = fold (\<lambda>t s. snd (applyOne atlas fault env t s)) ts st \<and>
   (failures = [] \<longleftrightarrow> list_all (\<lambda>i. fst (applyOne atlas fault env (ts ! i) (fold (\<lambda>t s. snd (applyOne atlas fault env t s)) (take i ts) st))) [0..<length ts])"
proof (induction ts arbitrary: st failures)
  case (Cons t ts)
  obtain ok st1 where o: "applyOne atlas fault env t st = (ok, st1)" by (metis prod.exhaust)
  obtain fs where a: "applyAll atlas fault env ts st1 = (fs, st')" "failures = (if ok then fs else t # fs)"
    using Cons.prems o by (auto split: prod.splits)
  have eq: "[0..<length (t # ts)] = 0 # map Suc [0..<length ts]" by (simp add: upt_conv_Cons map_Suc_upt del: upt_Suc)
  have u: "list_all P [0..<length (t # ts)] \<longleftrightarrow> P 0 \<and> list_all (\<lambda>i. P (Suc i)) [0..<length ts]" for P
    unfolding eq by (simp add: list.pred_map o_def)
  show ?case unfolding u using Cons.IH [OF a(1)] a(2) o by auto
qed simp

text \<open>
  A rollout over all tenants exits 0 exactly when the public tier, the discovery and both tiers of
  every discovered schema succeeded, 1 when a tenant failed and 2 when it stopped before the first;
  a tenant that fails does not keep the later ones from being migrated.
\<close>
theorem rollout_continues:
  assumes "migrateMain atlas fault namespaces env [] skipPublic st = (code, st')" "me_dsn env \<noteq> []"
  shows "code = 2 \<and> snd st' = snd st \<or>
    (\<exists>w tenants. (if skipPublic then w = fst st else ApplyPublic atlas (me_cwd env) (me_isFile env) (me_dsn env) (fst st) = (None, w)) \<and>
      discoverTenants (me_discover env) (namespaces w) = Inr tenants \<and>
      st' = fold (\<lambda>t s. snd (applyOne atlas fault env t s)) tenants (w, snd st) \<and>
      code = (if list_all (\<lambda>i. fst (applyOne atlas fault env (tenants ! i)
          (fold (\<lambda>t s. snd (applyOne atlas fault env t s)) (take i tenants) (w, snd st)))) [0..<length tenants] then 0 else 1))"
proof -
  define pub where "pub = (if skipPublic then (None, fst st) else ApplyPublic atlas (me_cwd env) (me_isFile env) (me_dsn env) (fst st))"
  have m: "migrateMain atlas fault namespaces env [] skipPublic st =
      (case pub of
        (Some e, w) \<Rightarrow> (2, w, snd st)
      | (None, w) \<Rightarrow>
         (case discoverTenants (me_discover env) (namespaces w) of
            Inl e \<Rightarrow> (2, w, snd st)
          | Inr tenants \<Rightarrow>
              if \<not> me_graphPool env then (2, w, snd st)
              else (case applyAll atlas fault env tenants (w, snd st) of
                (failures, st') \<Rightarrow> (if failures = [] then 0 else 1, st'))))"
    using assms(2) by (simp add: migrateMain_def pub_def)
  obtain e w where p: "pub = (e, w)" by (metis prod.exhaust)
  show ?thesis
  proof (cases "e = None \<and> (\<exists>tenants. discoverTenants (me_discover env) (namespaces w) = Inr tenants) \<and> me_graphPool env")
    case True
    then obtain tenants where t: "discoverTenants (me_discover env) (namespaces w) = Inr tenants" by blast
    obtain failures st2 where a: "applyAll atlas fault env tenants (w, snd st) = (failures, st2)" by (metis prod.exhaust)
    have "st' = st2" "code = (if failures = [] then 0 else 1)" using assms(1) m p t a True by simp_all
    moreover have "if skipPublic then w = fst st else ApplyPublic atlas (me_cwd env) (me_isFile env) (me_dsn env) (fst st) = (None, w)"
      using p True by (auto simp: pub_def split: if_splits)
    ultimately show ?thesis using applyAll_runs [OF a] t by (intro disjI2 exI [of _ w] exI [of _ tenants]) simp
  next
    case False
    then show ?thesis using assms(1) m p by (auto split: option.splits sum.splits if_splits)
  qed
qed

definition quiet_atlas :: "nat atlas" where
  "quiet_atlas args k = (if args ! 7 = ''pg?search_path=tenant_b'' then Some ''exit'' else None, [], Suc k)"

definition rollout_env :: migrate_env where
  "rollout_env = \<lparr>me_dsn = ''pg'', me_cwd = None, me_isFile = (\<lambda>_. False), me_files = [], me_discover = None, me_graphPool = True\<rparr>"

theorem rollout_continues_witness:
  "\<exists>st'. migrateMain quiet_atlas (\<lambda>_ _. None) (\<lambda>_. [''tenant_b'', ''tenant_c'']) rollout_env [] True (0, empty_graph) = (1, st') \<and>
     fst st' = 2 \<and> gd_revs (snd st') ''tenant_b'' = None \<and> gd_revs (snd st') ''tenant_c'' = Some []"
proof -
  have order: "sort (filter likeTenant [''tenant_b'', ''tenant_c'']) = [''tenant_b'', ''tenant_c'']"
    by (simp add: likeTenant_def has_prefix_def)
  let ?one = "applyOne quiet_atlas (\<lambda>_ _. None) rollout_env"
  have d: "composeTenantDSN ''pg'' ''tenant_b'' = Some ''pg?search_path=tenant_b''" "composeTenantDSN ''pg'' ''tenant_c'' = Some ''pg?search_path=tenant_c''"
    by (simp_all add: composeTenantDSN_def has_prefix_def)
  have t: "ApplyTenant quiet_atlas None (\<lambda>_. False) ''pg'' ''tenant_b'' k = (Some (AtlasError ''exit'' []), Suc k)"
    "ApplyTenant quiet_atlas None (\<lambda>_. False) ''pg'' ''tenant_c'' k = (None, Suc k)" for k
    by (simp_all add: ApplyTenant_def d retryOnDeadlock_def maxDeadlockAttempts_def eval_nat_numeral runAtlas_def quiet_atlas_def tenantArgs_def)
  have g: "ApplyTenantGraph (\<lambda>_ _. None) [] True ''tenant_c'' empty_graph = (None, \<lparr>gd_revs = [''tenant_c'' \<mapsto> []], gd_applied = []\<rparr>)"
    by (simp add: ApplyTenantGraph_def graphTx_def graphStatement_def graphEntries_def empty_graph_def ensureRevisions_def List.map_filter_simps)
  have b: "?one ''tenant_b'' (0, empty_graph) = (False, 1, empty_graph)" using t(1) [of 0] by (simp add: applyOne_def rollout_env_def)
  have c: "?one ''tenant_c'' (1, empty_graph) = (True, 2, \<lparr>gd_revs = [''tenant_c'' \<mapsto> []], gd_applied = []\<rparr>)"
    using t(2) [of 1] g by (simp add: applyOne_def rollout_env_def eval_nat_numeral)
  obtain code st' where m: "migrateMain quiet_atlas (\<lambda>_ _. None) (\<lambda>_. [''tenant_b'', ''tenant_c'']) rollout_env [] True (0, empty_graph) = (code, st')"
    by (metis prod.exhaust)
  have n2: "code \<noteq> 2" using m b c order by (auto simp: migrateMain_def rollout_env_def discoverTenants_def)
  have w: "me_dsn rollout_env \<noteq> []" "me_discover rollout_env = None" by (simp_all add: rollout_env_def)
  have disc: "discoverTenants (me_discover rollout_env) [''tenant_b'', ''tenant_c''] = Inr [''tenant_b'', ''tenant_c'']"
    by (simp only: discoverTenants_def w order option.case)
  from rollout_continues [OF m w(1)] n2 disc have "st' = fold (\<lambda>t s. snd (?one t s)) [''tenant_b'', ''tenant_c''] (0, empty_graph)"
    "code = (if list_all (\<lambda>i. fst (?one ([''tenant_b'', ''tenant_c''] ! i) (fold (\<lambda>t s. snd (?one t s)) (take i [''tenant_b'', ''tenant_c'']) (0, empty_graph)))) [0..<2] then 0 else 1)"
    by (auto simp: eval_nat_numeral)
  then have "st' = (2, \<lparr>gd_revs = [''tenant_c'' \<mapsto> []], gd_applied = []\<rparr>)" "code = 1"
    using b c by (simp_all add: upt_conv_Cons)
  then show ?thesis using m by simp
qed

text \<open>The pattern of the discovery also matches schemas that no tenant owns.\<close>

lemma tenants_schema_matched: "likeTenant ''tenants''"
  by (simp add: likeTenant_def has_prefix_def)

end
