(* ===== verification/Session_Auth.thy ===== *)
theory Session_Auth
  imports Tenant_Registry Artifact_Codec "HOL-Library.Word"
begin

unbundle bit_operations_syntax

text \<open>
  WorkOS sessions: \<open>internal/auth/workos\<close> (\<open>client.go\<close>, \<open>middleware.go\<close>, \<open>webhook.go\<close>) and the
  \<open>/callback\<close> handler of \<open>cmd/neksur-server/main.go\<close>.

  A client holds the keys of the last JWKS answer and its time; its state also keeps the requests
  that it made to the JWKS endpoint with their times, so that the answer of the endpoint, a
  parameter, may depend on how many came before. \<open>jwt.Parse\<close> is a parameter that gets the key function;
  \<open>jwt_contract\<close> states the order in which the JWT library reads a token, asks for the key, checks the signature
  and checks the registered claims. The clock is read once per call.
\<close>

section \<open>Keys\<close>

record jwk =
  jwk_kty :: string
  jwk_kid :: string
  jwk_n :: string
  jwk_e :: string

record rsa_key =
  rsa_n :: nat
  rsa_e :: "64 word"

text \<open>\<open>base64.RawURLEncoding\<close>: the URL alphabet, no padding, line ends skipped.\<close>

definition urlVal :: "char \<Rightarrow> nat option" where
  "urlVal c =
     (if c = CHR ''-'' then Some 62 else if c = CHR ''_'' then Some 63
      else if c = CHR ''+'' \<or> c = CHR ''/'' then None else b64val c)"

fun urlQuanta :: "string \<Rightarrow> nat list option" where
  "urlQuanta [] = Some []"
| "urlQuanta [a] = None"
| "urlQuanta [a, b] =
     (case (urlVal a, urlVal b) of (Some x, Some y) \<Rightarrow> Some [x * 4 + y div 16] | _ \<Rightarrow> None)"
| "urlQuanta [a, b, c] =
     (case (urlVal a, urlVal b, urlVal c) of
        (Some x, Some y, Some z) \<Rightarrow> Some [x * 4 + y div 16, y mod 16 * 16 + z div 4]
      | _ \<Rightarrow> None)"
| "urlQuanta (a # b # c # d # r) =
     (case (urlVal a, urlVal b, urlVal c, urlVal d) of
        (Some x, Some y, Some z, Some w) \<Rightarrow>
          map_option (\<lambda>out. [x * 4 + y div 16, y mod 16 * 16 + z div 4, z mod 4 * 64 + w] @ out) (urlQuanta r)
      | _ \<Rightarrow> None)"

definition urlDecode :: "string \<Rightarrow> nat list option" where
  "urlDecode s = urlQuanta (filter (\<lambda>c. c \<noteq> CHR 0x0A \<and> c \<noteq> CHR 0x0D) s)"

definition bigInt :: "nat list \<Rightarrow> nat" where
  "bigInt bs = foldl (\<lambda>n b. 256 * n + b) 0 bs"

text \<open>The exponent is an \<open>int\<close>, shifted left by eight bits for every byte: it wraps at 64 bits.\<close>

definition exponent :: "nat list \<Rightarrow> 64 word" where
  "exponent bs = foldl (\<lambda>e b. push_bit 8 e OR word_of_nat b) 0 bs"

definition jwkToRSA :: "string \<Rightarrow> string \<Rightarrow> rsa_key option" where
  "jwkToRSA n64 e64 =
     (case urlDecode n64 of
        None \<Rightarrow> None
      | Some ns \<Rightarrow>
         (case urlDecode e64 of
            None \<Rightarrow> None
          | Some es \<Rightarrow> Some \<lparr>rsa_n = bigInt ns, rsa_e = exponent es\<rparr>))"

text \<open>The key map of an answer: RSA entries that decode, the last one for a key id.\<close>

definition addKey :: "jwk \<Rightarrow> (string \<rightharpoonup> rsa_key) \<Rightarrow> (string \<rightharpoonup> rsa_key)" where
  "addKey k keys =
     (if jwk_kty k \<noteq> ''RSA'' then keys
      else case jwkToRSA (jwk_n k) (jwk_e k) of None \<Rightarrow> keys | Some pub \<Rightarrow> keys(jwk_kid k \<mapsto> pub))"

definition keySet :: "jwk list \<Rightarrow> (string \<rightharpoonup> rsa_key)" where
  "keySet ks = fold addKey ks Map.empty"

section \<open>Client\<close>

definition jwksTTL :: int where "jwksTTL = 3600 * nsPerSec"
definition defaultEndpoint :: string where "defaultEndpoint = ''https://api.workos.com''"
definition CookieName :: string where "CookieName = ''neksur_session''"

record client =
  cl_apiKey :: string
  cl_clientID :: string
  cl_cookieDomain :: string
  cl_endpoint :: string
  cl_keys :: "string \<rightharpoonup> rsa_key"
  cl_fetched :: instant
  cl_requests :: "(string \<times> instant) list"

datatype client_error = EmptyAPIKey | EmptyClientID

definition NewClientWithEndpoint :: "string \<Rightarrow> string \<Rightarrow> string \<Rightarrow> string \<Rightarrow> client_error + client" where
  "NewClientWithEndpoint apiKey clientID cookieDomain endpoint =
     (if apiKey = [] then Inl EmptyAPIKey
      else if clientID = [] then Inl EmptyClientID
      else Inr \<lparr>cl_apiKey = apiKey, cl_clientID = clientID, cl_cookieDomain = cookieDomain,
        cl_endpoint = rev (dropWhile (\<lambda>c. c = CHR ''/'') (rev (if endpoint = [] then defaultEndpoint else endpoint))),
        cl_keys = Map.empty, cl_fetched = zeroTime, cl_requests = []\<rparr>)"

definition NewClient :: "string \<Rightarrow> string \<Rightarrow> string \<Rightarrow> client_error + client" where
  "NewClient apiKey clientID cookieDomain = NewClientWithEndpoint apiKey clientID cookieDomain defaultEndpoint"

text \<open>A failed request, or an answer with its status, its body and what the body decodes to.\<close>

datatype jwks_reply = FetchFailed string | FetchReply nat string "jwk list option"

type_synonym jwks_endpoint = "string \<Rightarrow> nat \<Rightarrow> jwks_reply"

definition jwksURL :: "client \<Rightarrow> string" where
  "jwksURL c = cl_endpoint c @ ''/sso/jwks/'' @ cl_clientID c"

definition refreshJWKS :: "jwks_endpoint \<Rightarrow> instant \<Rightarrow> client \<Rightarrow> (string + unit) \<times> client" where
  "refreshJWKS fetch now c =
     (let c1 = c\<lparr>cl_requests := cl_requests c @ [(jwksURL c, now)]\<rparr> in
      case fetch (jwksURL c) (length (cl_requests c)) of
        FetchFailed e \<Rightarrow> (Inl e, c1)
      | FetchReply code body decoded \<Rightarrow>
          if code \<noteq> 200 then (Inl (''jwks HTTP '' @ itoa code @ '': '' @ take 1024 body), c1)
          else (case decoded of
            None \<Rightarrow> (Inl ''decode jwks'', c1)
          | Some ks \<Rightarrow> (Inr (), c1\<lparr>cl_keys := keySet ks, cl_fetched := now\<rparr>)))"

text \<open>The header of a token: whether its method is an RSA PKCS 1 one, and the string under \<open>kid\<close>.\<close>

record jwt_header =
  jh_rsa :: bool
  jh_alg :: string
  jh_kid :: string

type_synonym keyfunc = "jwt_header \<Rightarrow> client \<Rightarrow> (string + rsa_key) \<times> client"

definition makeKeyfunc :: "jwks_endpoint \<Rightarrow> instant \<Rightarrow> bool \<Rightarrow> keyfunc" where
  "makeKeyfunc fetch now forceRefresh h c =
     (if \<not> jh_rsa h then (Inl (''workos: unexpected signing method: '' @ jh_alg h), c)
      else if jh_kid h = [] then (Inl ''workos: jwt header missing kid'', c)
      else case (if now - cl_fetched c < jwksTTL \<and> \<not> forceRefresh then cl_keys c (jh_kid h) else None) of
        Some key \<Rightarrow> (Inr key, c)
      | None \<Rightarrow>
          (case refreshJWKS fetch now c of
            (Inl e, c') \<Rightarrow> (Inl (''workos: refresh jwks: '' @ e), c')
          | (Inr _, c') \<Rightarrow> (case cl_keys c' (jh_kid h) of
              Some key \<Rightarrow> (Inr key, c')
            | None \<Rightarrow> (Inl (''workos: no key for kid='' @ jh_kid h @ '' after refresh''), c'))))"

section \<open>Claims\<close>

text \<open>A value of a claims map: a string, a number truncated towards zero, anything else.\<close>

datatype claim_val = ClaimString string | ClaimNumber int | ClaimOther

type_synonym map_claims = "string \<rightharpoonup> claim_val"

record session_claims =
  sc_sub :: string
  sc_sid :: string
  sc_exp :: int
  sc_org :: string

definition claimString :: "map_claims \<Rightarrow> string \<Rightarrow> string" where
  "claimString mc k = (case mc k of Some (ClaimString v) \<Rightarrow> v | _ \<Rightarrow> [])"

definition extractClaims :: "map_claims \<Rightarrow> session_claims" where
  "extractClaims mc =
     \<lparr>sc_sub = claimString mc ''sub'', sc_sid = claimString mc ''sid'',
      sc_exp = (case mc ''exp'' of Some (ClaimNumber n) \<Rightarrow> n | _ \<Rightarrow> 0),
      sc_org = claimString mc ''org_id''\<rparr>"

text \<open>An error of \<open>jwt.Parse\<close>: whether it wraps a signature sentinel, and its text.\<close>

record jwt_error =
  je_signature :: bool
  je_text :: string

type_synonym jwt_parser = "instant \<Rightarrow> string \<Rightarrow> keyfunc \<Rightarrow> client \<Rightarrow> (jwt_error + map_claims) \<times> client"

definition isSignatureError :: "jwt_error \<Rightarrow> bool" where
  "isSignatureError e = je_signature e"

definition isKeyNotFoundError :: "jwt_error \<Rightarrow> bool" where
  "isKeyNotFoundError e \<longleftrightarrow> str_contains (je_text e) ''no key for kid'' \<or> str_contains (je_text e) ''missing kid''"

definition ValidateSession ::
  "jwt_parser \<Rightarrow> jwks_endpoint \<Rightarrow> instant \<Rightarrow> string \<Rightarrow> client \<Rightarrow> session_claims option \<times> client" where
  "ValidateSession parse fetch now tok c =
     (case parse now tok (makeKeyfunc fetch now False) c of
        (Inr mc, c1) \<Rightarrow> (Some (extractClaims mc), c1)
      | (Inl e, c1) \<Rightarrow>
          if isSignatureError e \<or> isKeyNotFoundError e
          then (case parse now tok (makeKeyfunc fetch now True) c1 of
              (Inr mc, c2) \<Rightarrow> (Some (extractClaims mc), c2)
            | (Inl e2, c2) \<Rightarrow> (None, c2))
          else (None, c1))"

section \<open>Sessions\<close>

record session =
  ss_access :: string
  ss_refresh :: string
  ss_org :: string
  ss_user :: string
  ss_expires :: instant

definition LoadSession ::
  "jwt_parser \<Rightarrow> jwks_endpoint \<Rightarrow> instant \<Rightarrow> string option \<Rightarrow> client \<Rightarrow> session option \<times> client" where
  "LoadSession parse fetch now cookie c =
     (case cookie of
        None \<Rightarrow> (None, c)
      | Some v \<Rightarrow>
          if v = [] then (None, c)
          else (case ValidateSession parse fetch now v c of
            (None, c') \<Rightarrow> (None, c')
          | (Some cs, c') \<Rightarrow>
              (Some \<lparr>ss_access = v, ss_refresh = [], ss_org = sc_org cs, ss_user = sc_sub cs,
                 ss_expires = sc_exp cs * nsPerSec\<rparr>, c')))"

text \<open>The answer of the code exchange: the two tokens, the organization and the user.\<close>

record auth_response =
  ar_access :: string
  ar_refresh :: string
  ar_org :: string
  ar_user :: string

definition parseClaimsUnverified :: "(string \<Rightarrow> map_claims option) \<Rightarrow> string \<Rightarrow> session_claims option" where
  "parseClaimsUnverified unverified tok = map_option extractClaims (unverified tok)"

definition AuthenticateWithCode ::
  "(string \<Rightarrow> string \<Rightarrow> auth_response option) \<Rightarrow> (string \<Rightarrow> map_claims option) \<Rightarrow> instant \<Rightarrow> string \<Rightarrow> client \<Rightarrow> session option" where
  "AuthenticateWithCode exchange unverified now code c =
     (case exchange (cl_clientID c) code of
        None \<Rightarrow> None
      | Some r \<Rightarrow>
          Some \<lparr>ss_access = ar_access r, ss_refresh = ar_refresh r, ss_org = ar_org r, ss_user = ar_user r,
            ss_expires = (case parseClaimsUnverified unverified (ar_access r) of
                Some cs \<Rightarrow> if sc_exp cs > 0 then sc_exp cs * nsPerSec else now + 3600 * nsPerSec
              | None \<Rightarrow> now + 3600 * nsPerSec)\<rparr>)"

record cookie =
  ck_name :: string
  ck_value :: string
  ck_httpOnly :: bool
  ck_secure :: bool
  ck_sameSiteLax :: bool
  ck_domain :: string
  ck_path :: string
  ck_maxAge :: int

definition callbackHandler ::
  "(string \<Rightarrow> string \<Rightarrow> auth_response option) \<Rightarrow> (string \<Rightarrow> map_claims option) \<Rightarrow> instant \<Rightarrow> string \<Rightarrow> client \<Rightarrow> nat \<times> cookie option" where
  "callbackHandler exchange unverified now code c =
     (if code = [] then (400, None)
      else case AuthenticateWithCode exchange unverified now code c of
        None \<Rightarrow> (401, None)
      | Some s \<Rightarrow>
          (302, Some \<lparr>ck_name = CookieName, ck_value = ss_access s, ck_httpOnly = True, ck_secure = True,
             ck_sameSiteLax = True, ck_domain = cl_cookieDomain c, ck_path = ''/'', ck_maxAge = 7 * 24 * 3600\<rparr>))"

section \<open>Tenant middleware\<close>

datatype 'a outcome = Status nat | Next 'a

definition TenantMiddleware ::
  "jwt_parser \<Rightarrow> jwks_endpoint \<Rightarrow> faults \<Rightarrow> instant \<Rightarrow> string option \<Rightarrow> registry \<Rightarrow> client \<Rightarrow> string outcome \<times> client" where
  "TenantMiddleware parse fetch fault now cookie rg c =
     (case LoadSession parse fetch now cookie c of
        (None, c') \<Rightarrow> (Status 401, c')
      | (Some s, c') \<Rightarrow>
          if ss_org s = [] then (Status 401, c')
          else (case ByWorkOSOrgID fault (ss_org s) rg of
            Inl ErrTenantNotFound \<Rightarrow> (Status 404, c')
          | Inl e \<Rightarrow> (Status 500, c')
          | Inr tid \<Rightarrow> (Next tid, c')))"

section \<open>Webhook\<close>

definition maxWebhookBytes :: nat where "maxWebhookBytes = 256 * 1024"

text \<open>
  \<open>validate\<close> is the signature check of the SDK, \<open>eventType\<close> the event type that the decoder reads;
  no event type does anything yet.
\<close>

definition HandleWebhook ::
  "(string \<Rightarrow> string \<Rightarrow> string \<Rightarrow> bool) \<Rightarrow> (string \<Rightarrow> string option) \<Rightarrow> string \<Rightarrow> string \<Rightarrow> string option \<Rightarrow> string \<Rightarrow> nat" where
  "HandleWebhook validate eventType secret scimEnabled body sig =
     (case body of
        None \<Rightarrow> 400
      | Some b \<Rightarrow>
          if length b > maxWebhookBytes then 400
          else if \<not> validate secret sig b then 400
          else if scimEnabled \<noteq> ''true'' then 200
          else (case eventType b of None \<Rightarrow> 400 | Some ev \<Rightarrow> 200))"

section \<open>Key material\<close>

lemma bigInt_append: "bigInt (bs @ [b]) = 256 * bigInt bs + b"
  by (simp add: bigInt_def)

lemma byte_bits: "b < 256 \<Longrightarrow> 8 \<le> n \<Longrightarrow> \<not> bit (b :: nat) n"
proof -
  assume "b < 256" "8 \<le> n"
  then have "b < 2 ^ n" using power_increasing [of 8 n "2 :: nat"] by simp
  then show ?thesis by (simp add: bit_iff_odd)
qed

lemma push_or_add: "b < 256 \<Longrightarrow> push_bit 8 (e :: 64 word) OR word_of_nat b = 256 * e + word_of_nat b"
proof -
  assume b: "b < 256"
  have "push_bit 8 e AND (word_of_nat b :: 64 word) = 0"
    by (rule bit_eqI) (use byte_bits [OF b] in \<open>auto simp: bit_and_iff bit_push_bit_iff bit_of_nat_iff\<close>)
  then show ?thesis by (simp add: disjunctive_add_eq_or [symmetric] push_bit_eq_mult)
qed

lemma exponent_value: "list_all (\<lambda>b. b < 256) bs \<Longrightarrow> exponent bs = word_of_nat (bigInt bs)"
proof (induction bs rule: rev_induct)
  case Nil
  then show ?case by (simp add: exponent_def bigInt_def)
next
  case (snoc b bs)
  then show ?case by (simp add: bigInt_append push_or_add exponent_def)
qed

lemma urlVal_less: "urlVal c = Some x \<Longrightarrow> x < 64"
proof -
  have "indexOf i c ds = Some x \<Longrightarrow> x < i + length ds" for i ds
    by (induction i c ds rule: indexOf.induct) (auto split: if_splits)
  from this [of 0 b64alphabet] show "urlVal c = Some x \<Longrightarrow> x < 64"
    by (auto simp: urlVal_def b64val_def b64alphabet_def split: if_splits)
qed

lemma urlQuanta_bytes: "urlQuanta s = Some bs \<Longrightarrow> list_all (\<lambda>b. b < 256) bs"
proof (induction s arbitrary: bs rule: urlQuanta.induct)
  case (3 a b)
  then show ?case by (auto split: option.splits dest!: urlVal_less)
next
  case (4 a b c)
  then show ?case by (auto split: option.splits dest!: urlVal_less)
next
  case (5 a b c d r)
  then show ?case by (auto split: option.splits dest!: urlVal_less)
qed auto

text \<open>
  C38 A key of a JWKS entry has the modulus that the entry encodes and its exponent modulo
  \<open>2^64\<close>: an exponent of more than eight bytes loses its high ones.
\<close>
theorem jwk_exponent_wraps:
  assumes "jwkToRSA n64 e64 = Some k"
  shows "\<exists>ns es. urlDecode n64 = Some ns \<and> urlDecode e64 = Some es \<and>
    rsa_n k = bigInt ns \<and> unat (rsa_e k) = bigInt es mod 2 ^ 64"
proof -
  from assms obtain ns es where e: "urlDecode n64 = Some ns" "urlDecode e64 = Some es" "k = \<lparr>rsa_n = bigInt ns, rsa_e = exponent es\<rparr>"
    by (auto simp: jwkToRSA_def split: option.splits)
  then have "exponent es = word_of_nat (bigInt es)"
    using urlQuanta_bytes by (simp add: urlDecode_def exponent_value)
  then have "unat (rsa_e k) = bigInt es mod 2 ^ 64" using e by (simp add: unat_of_nat)
  then show ?thesis using e by simp
qed

theorem jwk_exponent_wraps_witness:
  "(\<exists>ns es. urlDecode ''AQ'' = Some ns \<and> urlDecode ''AQAAAAAAAQAB'' = Some es \<and> (65537 :: nat) = bigInt es mod 2 ^ 64 \<and> bigInt es > 2 ^ 64) \<and>
   jwkToRSA ''AQ'' ''AQAAAAAAAQAB'' = jwkToRSA ''AQ'' ''AQAB''"
proof -
  have d: "urlDecode ''AQ'' = Some [1]" "urlDecode ''AQAB'' = Some [1, 0, 1]"
    "urlDecode ''AQAAAAAAAQAB'' = Some [1, 0, 0, 0, 0, 0, 1, 0, 1]"
    by code_simp+
  have b: "bigInt [1, 0, 1] = 65537" "bigInt [1, 0, 0, 0, 0, 0, 1, 0, 1] = 2 ^ 64 + 65537" by (simp_all add: bigInt_def)
  have e: "exponent [1, 0, 0, 0, 0, 0, 1, 0, 1] = exponent [1, 0, 1]"
    using b by (simp add: exponent_value)
  obtain k where k: "jwkToRSA ''AQ'' ''AQAAAAAAAQAB'' = Some k" using d by (simp add: jwkToRSA_def)
  from jwk_exponent_wraps [OF k] d b have "unat (rsa_e k) = 65537" by simp
  then show ?thesis using d b e by (simp add: jwkToRSA_def)
qed

section \<open>Sessions are signed by published keys\<close>

text \<open>
  What the JWT library documents: a token without a usable header fails before the key is asked
  for, an error of the key function is wrapped with its text, then the signature is checked, then
  the registered claims at the time of the call.
\<close>

record jwt_lib =
  jl_header :: "string \<Rightarrow> jwt_header option"
  jl_signed :: "string \<Rightarrow> rsa_key \<Rightarrow> bool"
  jl_current :: "instant \<Rightarrow> string \<Rightarrow> bool"
  jl_claims :: "string \<Rightarrow> map_claims"

definition jwt_contract :: "jwt_lib \<Rightarrow> jwt_parser \<Rightarrow> bool" where
  "jwt_contract lib parse \<longleftrightarrow> (\<forall>now tok kf c.
     case jl_header lib tok of
       None \<Rightarrow> \<exists>e. \<not> je_signature e \<and> parse now tok kf c = (Inl e, c)
     | Some h \<Rightarrow>
        (case kf h c of
           (Inl msg, c') \<Rightarrow> \<exists>e pre post. \<not> je_signature e \<and> je_text e = pre @ msg @ post \<and> parse now tok kf c = (Inl e, c')
         | (Inr key, c') \<Rightarrow>
             if \<not> jl_signed lib tok key then \<exists>e. je_signature e \<and> parse now tok kf c = (Inl e, c')
             else if \<not> jl_current lib now tok then \<exists>e. \<not> je_signature e \<and> parse now tok kf c = (Inl e, c')
             else parse now tok kf c = (Inr (jl_claims lib tok), c')))"

lemma jwt_accepts:
  assumes "jwt_contract lib parse" "parse now tok kf c = (Inr mc, c')"
  shows "\<exists>h key. jl_header lib tok = Some h \<and> kf h c = (Inr key, c') \<and> jl_signed lib tok key \<and>
    jl_current lib now tok \<and> mc = jl_claims lib tok"
  using assms(1) [unfolded jwt_contract_def, rule_format, of now tok kf c] assms(2)
  by (auto split: option.splits prod.splits sum.splits if_splits)

lemma jwt_state:
  assumes "jwt_contract lib parse" "parse now tok kf c = (r, c')"
  shows "c' = c \<or> (\<exists>h x. jl_header lib tok = Some h \<and> kf h c = (x, c'))"
  using assms(1) [unfolded jwt_contract_def, rule_format, of now tok kf c] assms(2)
  by (auto split: option.splits prod.splits sum.splits if_splits)

text \<open>The key that the endpoint published for a key id in its answer to a request of the log.\<close>

definition published :: "jwks_endpoint \<Rightarrow> (string \<times> instant) list \<Rightarrow> nat \<Rightarrow> string \<Rightarrow> rsa_key \<Rightarrow> bool" where
  "published fetch log n kid key \<longleftrightarrow> n < length log \<and>
     (\<exists>body ks. fetch (fst (log ! n)) n = FetchReply 200 body (Some ks) \<and> keySet ks kid = Some key)"

definition client_inv :: "jwks_endpoint \<Rightarrow> client \<Rightarrow> bool" where
  "client_inv fetch c \<longleftrightarrow> (\<forall>kid key. cl_keys c kid = Some key \<longrightarrow>
     (\<exists>n. published fetch (cl_requests c) n kid key \<and> snd (cl_requests c ! n) = cl_fetched c))"

inductive client_history :: "jwt_parser \<Rightarrow> jwks_endpoint \<Rightarrow> client \<Rightarrow> bool" for parse fetch where
  built: "NewClientWithEndpoint apiKey clientID cdom ep = Inr c \<Longrightarrow> client_history parse fetch c"
| validated: "client_history parse fetch c \<Longrightarrow> client_history parse fetch (snd (ValidateSession parse fetch now tok c))"

lemma published_append: "published fetch log n kid key \<Longrightarrow> published fetch (log @ ys) n kid key \<and> (log @ ys) ! n = log ! n"
  by (auto simp: published_def nth_append)

lemma refresh_cases:
  "refreshJWKS fetch now c = (r, c') \<Longrightarrow>
   cl_requests c' = cl_requests c @ [(jwksURL c, now)] \<and>
   (r = Inr () \<and> (\<exists>body ks. fetch (jwksURL c) (length (cl_requests c)) = FetchReply 200 body (Some ks) \<and>
       cl_keys c' = keySet ks \<and> cl_fetched c' = now) \<or>
    r \<noteq> Inr () \<and> cl_keys c' = cl_keys c \<and> cl_fetched c' = cl_fetched c)"
  by (auto simp: refreshJWKS_def Let_def split: jwks_reply.splits option.splits if_splits)

lemma refresh_inv:
  assumes "client_inv fetch c" "refreshJWKS fetch now c = (r, c')"
  shows "client_inv fetch c'"
  using refresh_cases [OF assms(2)]
proof (elim conjE disjE exE)
  fix body ks
  assume "cl_requests c' = cl_requests c @ [(jwksURL c, now)]" "cl_keys c' = keySet ks" "cl_fetched c' = now"
    "fetch (jwksURL c) (length (cl_requests c)) = FetchReply 200 body (Some ks)"
  then show ?thesis
    by (auto simp: client_inv_def published_def nth_append intro!: exI [of _ "length (cl_requests c)"])
next
  assume "cl_requests c' = cl_requests c @ [(jwksURL c, now)]" "cl_keys c' = cl_keys c" "cl_fetched c' = cl_fetched c"
  then show ?thesis using assms(1) published_append unfolding client_inv_def by metis
qed

lemma keyfunc_cases:
  assumes "makeKeyfunc fetch now force h c = (r, c')"
  shows "c' = c \<and> (\<forall>key. r = Inr key \<longrightarrow> jh_rsa h \<and> jh_kid h \<noteq> [] \<and> now - cl_fetched c < jwksTTL \<and> cl_keys c (jh_kid h) = Some key) \<or>
    (\<exists>x. refreshJWKS fetch now c = (x, c') \<and>
       (\<forall>key. r = Inr key \<longrightarrow> x = Inr () \<and> jh_rsa h \<and> jh_kid h \<noteq> [] \<and> cl_keys c' (jh_kid h) = Some key))"
  using assms
  by (auto simp: makeKeyfunc_def split: if_splits option.splits prod.splits sum.splits)

lemma keyfunc_inv: "client_inv fetch c \<Longrightarrow> makeKeyfunc fetch now force h c = (r, c') \<Longrightarrow> client_inv fetch c'"
  using keyfunc_cases refresh_inv by metis

lemma keyfunc_key:
  assumes "client_inv fetch c" "makeKeyfunc fetch now force h c = (Inr key, c')"
  shows "jh_rsa h \<and> jh_kid h \<noteq> [] \<and>
    (\<exists>n. published fetch (cl_requests c') n (jh_kid h) key \<and> now - snd (cl_requests c' ! n) < jwksTTL)"
  using keyfunc_cases [OF assms(2)]
proof (elim disjE conjE exE)
  assume "c' = c" and k: "\<forall>k. Inr key = Inr k \<longrightarrow> jh_rsa h \<and> jh_kid h \<noteq> [] \<and> now - cl_fetched c < jwksTTL \<and> cl_keys c (jh_kid h) = Some k"
  then show ?thesis using assms(1) unfolding client_inv_def by metis
next
  fix x
  assume r: "refreshJWKS fetch now c = (x, c')"
    and k: "\<forall>k. Inr key = Inr k \<longrightarrow> x = Inr () \<and> jh_rsa h \<and> jh_kid h \<noteq> [] \<and> cl_keys c' (jh_kid h) = Some k"
  have "client_inv fetch c'" by (rule refresh_inv [OF assms(1) r])
  moreover have "cl_fetched c' = now" using refresh_cases [OF r] k by auto
  ultimately show ?thesis using k unfolding client_inv_def by (metis diff_self jwksTTL_def nsPerSec_def mult_pos_pos zero_less_numeral zero_less_power)
qed

lemma parse_inv:
  assumes "jwt_contract lib parse" "client_inv fetch c" "parse now tok (makeKeyfunc fetch now force) c = (r, c')"
  shows "client_inv fetch c'"
  using jwt_state [OF assms(1,3)] assms(2) keyfunc_inv by metis

lemma validate_inv:
  assumes "jwt_contract lib parse" "client_inv fetch c"
  shows "client_inv fetch (snd (ValidateSession parse fetch now tok c))"
proof -
  obtain r1 c1 where p1: "parse now tok (makeKeyfunc fetch now False) c = (r1, c1)" by (metis prod.exhaust)
  obtain r2 c2 where p2: "parse now tok (makeKeyfunc fetch now True) c1 = (r2, c2)" by (metis prod.exhaust)
  have i: "client_inv fetch c1" by (rule parse_inv [OF assms(1,2) p1])
  have "client_inv fetch c2" by (rule parse_inv [OF assms(1) i p2])
  with i show ?thesis by (auto simp: ValidateSession_def p1 p2 split: sum.split)
qed

lemma history_inv: "client_history parse fetch c \<Longrightarrow> jwt_contract lib parse \<Longrightarrow> client_inv fetch c"
proof (induction rule: client_history.induct)
  case (built apiKey clientID cdom ep c)
  then show ?case by (auto simp: NewClientWithEndpoint_def client_inv_def split: if_splits)
next
  case (validated c now tok)
  then show ?case by (simp add: validate_inv)
qed

lemma validate_accepts:
  assumes "ValidateSession parse fetch now tok c = (Some cs, c')"
  shows "\<exists>mc force c1. (c1 = c \<or> (\<exists>x. parse now tok (makeKeyfunc fetch now False) c = (x, c1))) \<and>
    parse now tok (makeKeyfunc fetch now force) c1 = (Inr mc, c') \<and> cs = extractClaims mc"
  using assms by (auto simp: ValidateSession_def split: prod.splits sum.splits if_splits)

text \<open>
  C12 Over any history of a client, a session that validates was signed by a key that the JWKS
  endpoint published under the token's key id in an answer less than an hour old, with an RSA
  method, and its registered claims hold at the time; the claims are those of the token.
\<close>
theorem session_authentic:
  assumes jwt: "jwt_contract lib parse" and hist: "client_history parse fetch c"
    and ok: "ValidateSession parse fetch now tok c = (Some cs, c')"
  shows "\<exists>h key n. jl_header lib tok = Some h \<and> jh_rsa h \<and> jh_kid h \<noteq> [] \<and>
    published fetch (cl_requests c') n (jh_kid h) key \<and> now - snd (cl_requests c' ! n) < jwksTTL \<and>
    jl_signed lib tok key \<and> jl_current lib now tok \<and> cs = extractClaims (jl_claims lib tok)"
proof -
  obtain mc force c1 where v: "c1 = c \<or> (\<exists>x. parse now tok (makeKeyfunc fetch now False) c = (x, c1))"
    "parse now tok (makeKeyfunc fetch now force) c1 = (Inr mc, c')" "cs = extractClaims mc"
    using validate_accepts [OF ok] by blast
  have "client_inv fetch c" by (rule history_inv [OF hist jwt])
  then have i: "client_inv fetch c1" using v(1) parse_inv [OF jwt] by metis
  obtain h key where k: "jl_header lib tok = Some h" "makeKeyfunc fetch now force h c1 = (Inr key, c')" "jl_signed lib tok key"
    "jl_current lib now tok" "mc = jl_claims lib tok"
    using jwt_accepts [OF jwt v(2)] by blast
  from keyfunc_key [OF i k(2)] k v(3) show ?thesis by blast
qed

text \<open>
  C13 A rotated key is accepted: when the endpoint publishes, from now on, a key under the token's
  key id with which the token is signed, the session validates, whatever keys the client holds.
\<close>
theorem rotated_key_accepted:
  assumes jwt: "jwt_contract lib parse" and h: "jl_header lib tok = Some h" "jh_rsa h" "jh_kid h \<noteq> []"
    and pub: "\<And>n. n \<ge> length (cl_requests c) \<Longrightarrow> \<exists>body ks. fetch (jwksURL c) n = FetchReply 200 body (Some ks) \<and> keySet ks (jh_kid h) = Some key"
    and tok: "jl_signed lib tok key" "jl_current lib now tok"
  shows "\<exists>c'. ValidateSession parse fetch now tok c = (Some (extractClaims (jl_claims lib tok)), c') \<and>
    length (cl_requests c') \<le> length (cl_requests c) + 1"
proof -
  note contract = jwt [unfolded jwt_contract_def, rule_format, of now tok]
  have ref: "\<exists>c'. makeKeyfunc fetch now force h c = (Inr key, c') \<and> length (cl_requests c') = Suc (length (cl_requests c))"
    if "force \<or> \<not> (now - cl_fetched c < jwksTTL) \<or> cl_keys c (jh_kid h) = None" for force
    using that pub [of "length (cl_requests c)"] h(2,3) by (auto simp: makeKeyfunc_def refreshJWKS_def Let_def)
  show ?thesis
  proof (cases "now - cl_fetched c < jwksTTL \<and> cl_keys c (jh_kid h) \<noteq> None")
    case False
    then obtain c' where "makeKeyfunc fetch now False h c = (Inr key, c')" "length (cl_requests c') = Suc (length (cl_requests c))"
      using ref [of False] by blast
    with contract [of "makeKeyfunc fetch now False" c] h(1) tok show ?thesis by (simp add: ValidateSession_def)
  next
    case True
    then obtain k0 where k0: "makeKeyfunc fetch now False h c = (Inr k0, c)" using h(2,3) by (auto simp: makeKeyfunc_def)
    show ?thesis
    proof (cases "jl_signed lib tok k0")
      case True
      with contract [of "makeKeyfunc fetch now False" c] h(1) tok k0 show ?thesis by (simp add: ValidateSession_def)
    next
      case False
      with contract [of "makeKeyfunc fetch now False" c] h(1) k0 obtain e where
        e: "je_signature e" "parse now tok (makeKeyfunc fetch now False) c = (Inl e, c)" by auto
      obtain c' where "makeKeyfunc fetch now True h c = (Inr key, c')" "length (cl_requests c') = Suc (length (cl_requests c))"
        using ref [of True] by blast
      with contract [of "makeKeyfunc fetch now True" c] h(1) tok e show ?thesis by (simp add: ValidateSession_def isSignatureError_def)
    qed
  qed
qed

lemma keyfunc_requests:
  "makeKeyfunc fetch now force h c = (r, c') \<Longrightarrow> length (cl_requests c') \<le> Suc (length (cl_requests c))"
  using keyfunc_cases [of fetch now force h c r c'] refresh_cases by (metis length_append_singleton le_refl le_SucI)

lemma str_contains_infix: "str_contains (pre @ s @ post) s"
proof (induction pre)
  case Nil
  have "has_prefix (s @ post) s" by simp
  then show ?case by (cases "s @ post") auto
qed simp

text \<open>
  A validation makes at most two requests to the JWKS endpoint, and exactly two for a token
  whose key id the endpoint does not publish, each time it is presented.
\<close>
theorem unknown_kid_two_requests:
  assumes jwt: "jwt_contract lib parse"
  shows "length (cl_requests (snd (ValidateSession parse fetch now tok c))) \<le> length (cl_requests c) + 2 \<and>
    (jl_header lib tok = Some h \<and> jh_rsa h \<and> jh_kid h \<noteq> [] \<and> cl_keys c (jh_kid h) = None \<and>
     (\<forall>n. \<exists>body ks. fetch (jwksURL c) n = FetchReply 200 body (Some ks) \<and> keySet ks (jh_kid h) = None) \<longrightarrow>
     fst (ValidateSession parse fetch now tok c) = None \<and>
     length (cl_requests (snd (ValidateSession parse fetch now tok c))) = length (cl_requests c) + 2)"
proof -
  note contract = jwt [unfolded jwt_contract_def, rule_format, of now tok]
  have one: "length (cl_requests c2) \<le> Suc (length (cl_requests c1))" if "parse now tok (makeKeyfunc fetch now force) c1 = (r, c2)" for force c1 r c2
    using jwt_state [OF jwt that] keyfunc_requests by auto
  obtain r1 c1 where p1: "parse now tok (makeKeyfunc fetch now False) c = (r1, c1)" by (metis prod.exhaust)
  obtain r2 c2 where p2: "parse now tok (makeKeyfunc fetch now True) c1 = (r2, c2)" by (metis prod.exhaust)
  have a: "length (cl_requests (snd (ValidateSession parse fetch now tok c))) \<le> length (cl_requests c) + 2"
    using one [OF p1] one [OF p2] by (auto simp: ValidateSession_def p1 p2 split: sum.split)
  have b: "fst (ValidateSession parse fetch now tok c) = None \<and>
      length (cl_requests (snd (ValidateSession parse fetch now tok c))) = length (cl_requests c) + 2"
    if u: "jl_header lib tok = Some h" "jh_rsa h" "jh_kid h \<noteq> []" "cl_keys c (jh_kid h) = None"
      and pub: "\<forall>n. \<exists>body ks. fetch (jwksURL c) n = FetchReply 200 body (Some ks) \<and> keySet ks (jh_kid h) = None"
  proof -
    have kf: "\<exists>c'. makeKeyfunc fetch now force h d = (Inl (''workos: no key for kid='' @ jh_kid h @ '' after refresh''), c') \<and>
        length (cl_requests c') = Suc (length (cl_requests d)) \<and> jwksURL c' = jwksURL c"
      if "cl_keys d (jh_kid h) = None \<or> force" "jwksURL d = jwksURL c" for force d
      using that pub [rule_format, of "length (cl_requests d)"] u(2,3) by (auto simp: makeKeyfunc_def refreshJWKS_def jwksURL_def Let_def)
    obtain d1 where d1: "makeKeyfunc fetch now False h c = (Inl (''workos: no key for kid='' @ jh_kid h @ '' after refresh''), d1)"
      "length (cl_requests d1) = Suc (length (cl_requests c))" "jwksURL d1 = jwksURL c" using kf [of c False] u(4) by blast
    obtain d2 where d2: "makeKeyfunc fetch now True h d1 = (Inl (''workos: no key for kid='' @ jh_kid h @ '' after refresh''), d2)"
      "length (cl_requests d2) = Suc (length (cl_requests d1))" using kf [of d1 True] d1(3) by blast
    obtain e pre post where e: "parse now tok (makeKeyfunc fetch now False) c = (Inl e, d1)"
      "je_text e = pre @ (''workos: no key for kid='' @ jh_kid h @ '' after refresh'') @ post"
      using contract [of "makeKeyfunc fetch now False" c] u(1) d1(1) by auto
    have "je_text e = (pre @ ''workos: '') @ ''no key for kid'' @ (''='' @ jh_kid h @ '' after refresh'' @ post)" using e(2) by simp
    then have "isKeyNotFoundError e" unfolding isKeyNotFoundError_def by (simp only: str_contains_infix simp_thms)
    moreover obtain e2 where "parse now tok (makeKeyfunc fetch now True) d1 = (Inl e2, d2)"
      using contract [of "makeKeyfunc fetch now True" d1] u(1) d2(1) by auto
    ultimately show ?thesis using e(1) d1(2) d2(2) by (simp add: ValidateSession_def)
  qed
  from a b show ?thesis by blast
qed

section \<open>Requests\<close>

text \<open>
  The tenant middleware runs the next handler with a tenant id exactly when the cookie holds a
  session that validates, with an organization of which the registry holds an active or suspended
  tenant of that id. A request without a session that names an organization is answered 401, one
  of an unknown organization 404, a failed lookup 500.
\<close>
theorem middleware_admits:
  "case TenantMiddleware parse fetch fault now cookie rg c of
     (out, c') \<Rightarrow>
       (case out of
          Next tid \<Rightarrow> \<exists>tok cs t. cookie = Some tok \<and> tok \<noteq> [] \<and> ValidateSession parse fetch now tok c = (Some cs, c') \<and>
            sc_org cs \<noteq> [] \<and> t \<in> set (rg_tenants rg) \<and> tn_org t = sc_org cs \<and> tn_id t = tid \<and> tn_state t \<in> {''active'', ''suspended''}
        | Status s \<Rightarrow> s =
            (if (case cookie of None \<Rightarrow> True | Some tok \<Rightarrow> tok = [] \<or>
                   (case fst (ValidateSession parse fetch now tok c) of None \<Rightarrow> True | Some cs \<Rightarrow> sc_org cs = []))
             then 401 else if fault ''lookup'' = None then 404 else 500))"
proof (cases cookie)
  case None
  then show ?thesis by (simp add: TenantMiddleware_def LoadSession_def)
next
  case (Some tok)
  obtain r c' where v: "ValidateSession parse fetch now tok c = (r, c')" by (metis prod.exhaust)
  show ?thesis
  proof (cases "tok = [] \<or> r = None \<or> (\<exists>cs. r = Some cs \<and> sc_org cs = [])")
    case True
    then show ?thesis using Some v by (auto simp: TenantMiddleware_def LoadSession_def split: option.splits)
  next
    case False
    then obtain cs where cs: "r = Some cs" "sc_org cs \<noteq> []" "tok \<noteq> []" by auto
    have mw: "TenantMiddleware parse fetch fault now cookie rg c =
        (case ByWorkOSOrgID fault (sc_org cs) rg of
           Inl ErrTenantNotFound \<Rightarrow> (Status 404, c') | Inl e \<Rightarrow> (Status 500, c') | Inr tid \<Rightarrow> (Next tid, c'))"
      using Some v cs by (simp add: TenantMiddleware_def LoadSession_def)
    consider (found) t where "fault ''lookup'' = None" "t \<in> set (rg_tenants rg)" "tn_org t = sc_org cs"
        "tn_state t \<in> {''active'', ''suspended''}" "ByWorkOSOrgID fault (sc_org cs) rg = Inr (tn_id t)"
      | (missing) "fault ''lookup'' = None" "ByWorkOSOrgID fault (sc_org cs) rg = Inl ErrTenantNotFound"
      | (failed) e where "fault ''lookup'' = Some e" "ByWorkOSOrgID fault (sc_org cs) rg = Inl (DbError e)"
    proof (cases "fault ''lookup''")
      case None
      show ?thesis
      proof (cases "List.find (\<lambda>t. tn_org t = sc_org cs \<and> tn_state t \<in> {''active'', ''suspended''}) (rg_tenants rg)")
        case None
        then show ?thesis using missing \<open>fault ''lookup'' = None\<close> by (simp add: ByWorkOSOrgID_def)
      next
        case (Some t)
        then have "t \<in> set (rg_tenants rg) \<and> tn_org t = sc_org cs \<and> tn_state t \<in> {''active'', ''suspended''}"
          unfolding find_Some_iff using nth_mem by blast
        then show ?thesis using found [of t] Some \<open>fault ''lookup'' = None\<close> by (simp add: ByWorkOSOrgID_def)
      qed
    next
      case (Some e)
      then show ?thesis using failed by (simp add: ByWorkOSOrgID_def)
    qed
    then show ?thesis
    proof cases
      case (found t)
      then show ?thesis using Some v cs mw by auto
    next
      case missing
      then show ?thesis using Some v cs mw by simp
    next
      case (failed e)
      then show ?thesis using Some v cs mw by simp
    qed
  qed
qed

text \<open>
  A token whose claims hold no numeric \<open>exp\<close> yields a session that expired in 1970, and the
  middleware admits it: nothing compares the expiry of a session.
\<close>

lemma session_without_expiry:
  assumes "ValidateSession parse fetch now tok c = (Some (extractClaims mc), c')" "tok \<noteq> []" "mc ''exp'' = None"
  shows "\<exists>s. LoadSession parse fetch now (Some tok) c = (Some s, c') \<and> ss_expires s = 0"
  using assms by (simp add: LoadSession_def extractClaims_def)

lemma webhook_verified_first:
  "HandleWebhook validate eventType secret scim body sig = 200 \<longleftrightarrow>
     (\<exists>b. body = Some b \<and> length b \<le> maxWebhookBytes \<and> validate secret sig b \<and> (scim = ''true'' \<longrightarrow> eventType b \<noteq> None))"
  by (auto simp: HandleWebhook_def split: option.split)

lemma callback_cookie:
  "callbackHandler exchange unverified now code c = (status, ck) \<Longrightarrow>
   (case ck of
      None \<Rightarrow> status \<in> {400, 401}
    | Some k \<Rightarrow> status = 302 \<and> ck_name k = CookieName \<and> ck_httpOnly k \<and> ck_secure k \<and> ck_sameSiteLax k \<and>
        ck_domain k = cl_cookieDomain c \<and> (\<exists>r. exchange (cl_clientID c) code = Some r \<and> ck_value k = ar_access r))"
  by (auto simp: callbackHandler_def AuthenticateWithCode_def split: if_splits option.splits)

section \<open>Samples\<close>

text \<open>A parser that follows the contract for any library, and a library with one key.\<close>

definition sample_parse :: "jwt_lib \<Rightarrow> jwt_parser" where
  "sample_parse lib now tok kf c =
     (case jl_header lib tok of
        None \<Rightarrow> (Inl \<lparr>je_signature = False, je_text = ''malformed''\<rparr>, c)
      | Some h \<Rightarrow>
         (case kf h c of
            (Inl msg, c') \<Rightarrow> (Inl \<lparr>je_signature = False, je_text = msg\<rparr>, c')
          | (Inr key, c') \<Rightarrow>
              if \<not> jl_signed lib tok key then (Inl \<lparr>je_signature = True, je_text = ''signature''\<rparr>, c')
              else if \<not> jl_current lib now tok then (Inl \<lparr>je_signature = False, je_text = ''expired''\<rparr>, c')
              else (Inr (jl_claims lib tok), c')))"

lemma sample_parse_contract: "jwt_contract lib (sample_parse lib)"
  unfolding jwt_contract_def sample_parse_def
  by (auto split: option.split prod.split sum.split intro!: exI [of _ "[]"])

definition sample_lib :: "string \<Rightarrow> jwt_lib" where
  "sample_lib kid =
     \<lparr>jl_header = (\<lambda>_. Some \<lparr>jh_rsa = True, jh_alg = ''RS256'', jh_kid = kid\<rparr>), jl_signed = (\<lambda>_ k. rsa_n k = 1),
      jl_current = (\<lambda>now _. now < 100), jl_claims = (\<lambda>_. [''org_id'' \<mapsto> ClaimString ''org_1''])\<rparr>"

definition sample_endpoint :: jwks_endpoint where
  "sample_endpoint url n = FetchReply 200 [] (Some [\<lparr>jwk_kty = ''RSA'', jwk_kid = ''k1'', jwk_n = ''AQ'', jwk_e = ''AQAB''\<rparr>])"

definition sample_client :: client where
  "sample_client =
     \<lparr>cl_apiKey = ''key'', cl_clientID = ''id'', cl_cookieDomain = ''.neksur.com'', cl_endpoint = defaultEndpoint,
      cl_keys = Map.empty, cl_fetched = zeroTime, cl_requests = []\<rparr>"

lemma sample_keys: "keySet [\<lparr>jwk_kty = ''RSA'', jwk_kid = ''k1'', jwk_n = ''AQ'', jwk_e = ''AQAB''\<rparr>] =
  [''k1'' \<mapsto> \<lparr>rsa_n = 1, rsa_e = 65537\<rparr>]"
proof -
  have "jwkToRSA ''AQ'' ''AQAB'' = Some \<lparr>rsa_n = 1, rsa_e = 65537\<rparr>"
    by (simp add: jwkToRSA_def urlDecode_def urlVal_def b64val_def b64alphabet_def bigInt_def exponent_value)
  then show ?thesis by (simp add: keySet_def addKey_def)
qed

lemma sample_history: "client_history parse fetch sample_client"
  by (rule client_history.built [of "''key''" "''id''" "''.neksur.com''" defaultEndpoint])
    (simp add: NewClientWithEndpoint_def sample_client_def defaultEndpoint_def)

theorem rotated_key_accepted_witness:
  "\<exists>c'. ValidateSession (sample_parse (sample_lib ''k1'')) sample_endpoint 5 ''tok'' sample_client =
      (Some (extractClaims [''org_id'' \<mapsto> ClaimString ''org_1'']), c') \<and>
    length (cl_requests c') \<le> length (cl_requests sample_client) + 1"
  using rotated_key_accepted [OF sample_parse_contract, of "sample_lib ''k1''" "''tok''" "\<lparr>jh_rsa = True, jh_alg = ''RS256'', jh_kid = ''k1''\<rparr>"
      sample_client sample_endpoint "\<lparr>rsa_n = 1, rsa_e = 65537\<rparr>" 5]
  by (simp add: sample_lib_def sample_endpoint_def sample_keys)

theorem session_authentic_witness:
  "\<exists>cs c' key n. ValidateSession (sample_parse (sample_lib ''k1'')) sample_endpoint 5 ''tok'' sample_client = (Some cs, c') \<and>
    published sample_endpoint (cl_requests c') n ''k1'' key \<and> 5 - snd (cl_requests c' ! n) < jwksTTL"
proof -
  have "\<exists>cs c'. ValidateSession (sample_parse (sample_lib ''k1'')) sample_endpoint 5 ''tok'' sample_client = (Some cs, c')"
    by (simp add: ValidateSession_def sample_parse_def sample_lib_def makeKeyfunc_def refreshJWKS_def sample_endpoint_def
        sample_client_def sample_keys Let_def)
  then obtain cs c' where v: "ValidateSession (sample_parse (sample_lib ''k1'')) sample_endpoint 5 ''tok'' sample_client = (Some cs, c')"
    by blast
  from session_authentic [OF sample_parse_contract sample_history v] v show ?thesis
    by (auto simp: sample_lib_def)
qed

theorem unknown_kid_two_requests_witness:
  "fst (ValidateSession (sample_parse (sample_lib ''k2'')) sample_endpoint 5 ''tok'' sample_client) = None \<and>
   length (cl_requests (snd (ValidateSession (sample_parse (sample_lib ''k2'')) sample_endpoint 5 ''tok'' sample_client))) = 2"
  using unknown_kid_two_requests [OF sample_parse_contract, of "sample_lib ''k2''" sample_endpoint 5 "''tok''" sample_client
      "\<lparr>jh_rsa = True, jh_alg = ''RS256'', jh_kid = ''k2''\<rparr>"]
  by (simp add: sample_lib_def sample_endpoint_def sample_keys sample_client_def)

end
