(* ===== verification/Admin_Surface.thy ===== *)
theory Admin_Surface
  imports Session_Auth "HOL-Library.Product_Lexorder"
begin

text \<open>
  The operator surface: the admin handlers (\<open>internal/admin/handlers.go\<close>) behind the organization
  gate, and the billing stub (\<open>internal/billing\<close>) with its webhook.

  The rows of \<open>public.system_audit_log\<close> are a list; the two SELECT statements have the meaning that
  their SQL states, a row comparison being the lexicographic order on pairs. That a database call
  fails is a parameter. The HTML templates are not modelled, an answer carries the rows that they show.
\<close>

section \<open>Gate\<close>

definition LoadSessionOrgID ::
  "jwt_parser \<Rightarrow> jwks_endpoint \<Rightarrow> instant \<Rightarrow> string option \<Rightarrow> client \<Rightarrow> string option \<times> client" where
  "LoadSessionOrgID parse fetch now cookie c =
     (case LoadSession parse fetch now cookie c of (None, c') \<Rightarrow> (None, c') | (Some s, c') \<Rightarrow> (Some (ss_org s), c'))"

definition AdminOrgGate ::
  "jwt_parser \<Rightarrow> jwks_endpoint \<Rightarrow> instant \<Rightarrow> string option \<Rightarrow> string \<Rightarrow> client \<Rightarrow> unit outcome \<times> client" where
  "AdminOrgGate parse fetch now cookie internalAdminOrgID c =
     (if internalAdminOrgID = [] then (Status 500, c)
      else case LoadSessionOrgID parse fetch now cookie c of
        (None, c') \<Rightarrow> (Status 401, c')
      | (Some org, c') \<Rightarrow> if org \<noteq> internalAdminOrgID then (Status 403, c') else (Next (), c'))"

section \<open>Tenant list\<close>

definition wantsJSON :: "string \<Rightarrow> bool" where
  "wantsJSON accept = str_contains accept ''application/json''"

datatype 'r admin_reply = AdminStatus nat | AdminJSON "'r list" | AdminHTML "'r list"

definition readTenantsAdmin :: "faults \<Rightarrow> nat \<Rightarrow> registry \<Rightarrow> string + tenant_row list" where
  "readTenantsAdmin fault limit rg =
     (case fault ''admin'' of
        Some e \<Rightarrow> Inl e
      | None \<Rightarrow> Inr (take limit (sort_key (\<lambda>t. - tn_onboarded t) (rg_tenants rg))))"

definition ListTenants :: "faults \<Rightarrow> string \<Rightarrow> registry \<Rightarrow> tenant_row admin_reply" where
  "ListTenants fault accept rg =
     (case readTenantsAdmin fault 100 rg of
        Inl e \<Rightarrow> AdminStatus 500
      | Inr rows \<Rightarrow> if wantsJSON accept then AdminJSON rows else AdminHTML rows)"

section \<open>Audit log\<close>








section \<open>Billing\<close>

datatype billing_error = ErrBillingDisabled | ErrInvalidSignature | AwaitingM7 string

record billing_config =
  bc_enabled :: bool
  bc_apiKey :: string
  bc_webhookSecret :: string

datatype billing = NoopBilling string | StripeBilling billing_config

definition NewBilling :: "billing_config \<Rightarrow> billing" where
  "NewBilling cfg = (if \<not> bc_enabled cfg then NoopBilling (bc_webhookSecret cfg) else StripeBilling cfg)"

fun CreateSubscription :: "billing \<Rightarrow> string \<Rightarrow> string \<Rightarrow> int \<Rightarrow> billing_error + string" where
  "CreateSubscription (NoopBilling s) tenant price quantity = Inl ErrBillingDisabled"
| "CreateSubscription (StripeBilling cfg) tenant price quantity = Inl (AwaitingM7 ''CreateSubscription'')"

fun CancelSubscription :: "billing \<Rightarrow> string \<Rightarrow> billing_error option" where
  "CancelSubscription (NoopBilling s) sub = Some ErrBillingDisabled"
| "CancelSubscription (StripeBilling cfg) sub = Some (AwaitingM7 ''CancelSubscription'')"

fun RecordUsage :: "billing \<Rightarrow> string \<Rightarrow> string \<Rightarrow> int \<Rightarrow> instant \<Rightarrow> billing_error option" where
  "RecordUsage (NoopBilling s) sub meter qty ts = Some ErrBillingDisabled"
| "RecordUsage (StripeBilling cfg) sub meter qty ts = Some (AwaitingM7 ''RecordUsage'')"

text \<open>\<open>construct\<close> is the SDK's check of a body against a header and a secret, with the event type.\<close>

fun BillingHandleWebhook :: "(string \<Rightarrow> string \<Rightarrow> string \<Rightarrow> string option) \<Rightarrow> billing \<Rightarrow> string \<Rightarrow> string \<Rightarrow> billing_error option" where
  "BillingHandleWebhook construct (NoopBilling secret) body sig =
     (case construct body sig secret of None \<Rightarrow> Some ErrInvalidSignature | Some ev \<Rightarrow> None)"
| "BillingHandleWebhook construct (StripeBilling cfg) body sig =
     (case construct body sig (bc_webhookSecret cfg) of None \<Rightarrow> Some ErrInvalidSignature | Some ev \<Rightarrow> None)"

definition BillingWebhookHandler ::
  "(string \<Rightarrow> string \<Rightarrow> string \<Rightarrow> string option) \<Rightarrow> billing \<Rightarrow> string option \<Rightarrow> string \<Rightarrow> nat" where
  "BillingWebhookHandler construct b body sig =
     (case body of
        None \<Rightarrow> 400
      | Some raw \<Rightarrow>
          if length raw > maxWebhookBytes then 400
          else (case BillingHandleWebhook construct b raw sig of Some e \<Rightarrow> 400 | None \<Rightarrow> 200))"

section \<open>The gate\<close>

text \<open>
  The admin handlers run exactly for a session that validates and belongs to the configured
  internal organization; without a configured organization every request is answered 500, also
  one without a session.
\<close>
theorem admin_gate:
  "case AdminOrgGate parse fetch now cookie adminOrg c of
     (out, c') \<Rightarrow>
       (out = Next () \<longleftrightarrow> adminOrg \<noteq> [] \<and> (\<exists>tok cs. cookie = Some tok \<and> tok \<noteq> [] \<and>
          ValidateSession parse fetch now tok c = (Some cs, c') \<and> sc_org cs = adminOrg)) \<and>
       (out \<in> {Next (), Status 401, Status 403, Status 500}) \<and> (out = Status 500 \<longleftrightarrow> adminOrg = [])"
proof (cases cookie)
  case None
  then show ?thesis by (simp add: AdminOrgGate_def LoadSessionOrgID_def LoadSession_def)
next
  case (Some tok)
  obtain r c' where "ValidateSession parse fetch now tok c = (r, c')" by (metis prod.exhaust)
  then show ?thesis using Some by (auto simp: AdminOrgGate_def LoadSessionOrgID_def LoadSession_def split: option.split)
qed

section \<open>Paging\<close>

















section \<open>Billing\<close>

text \<open>
  A billing webhook is acknowledged exactly when its raw body is within the limit and carries a
  signature under the configured secret, whether billing is enabled or not; and no billing call
  succeeds.
\<close>
theorem billing_verifies_when_disabled:
  "(BillingWebhookHandler construct (NewBilling cfg) body sig = 200 \<longleftrightarrow>
     (\<exists>raw. body = Some raw \<and> length raw \<le> maxWebhookBytes \<and> construct raw sig (bc_webhookSecret cfg) \<noteq> None)) \<and>
   BillingWebhookHandler construct (NewBilling cfg) body sig \<in> {200, 400} \<and>
   (\<exists>e. CreateSubscription (NewBilling cfg) tenant price qty = Inl e) \<and>
   CancelSubscription (NewBilling cfg) sub \<noteq> None \<and> RecordUsage (NewBilling cfg) sub meter qty ts \<noteq> None"
  by (auto simp: BillingWebhookHandler_def NewBilling_def split: option.split)

end
