(* ===== verification/Cert_Watcher.thy ===== *)
theory Cert_Watcher
  imports Hot_Reload
begin

text \<open>
  The certificate watcher of the SQL proxy (\<open>internal/sqlproxy/cert_watcher.go\<close>). Loading a pair of
  files is a parameter, as is which path can be watched in a situation. The state is the served
  certificate and the paths that the file watcher holds.
\<close>

record 'c cert_watcher =
  cw_certPath :: string
  cw_keyPath :: string
  cw_cert :: "'c option"
  cw_watched :: "string set"

text \<open>A situation of the file system: what the pair loads to, and which paths can be watched.\<close>

record 'c cert_fs =
  cf_pair :: "string \<Rightarrow> string \<Rightarrow> 'c option"
  cf_exists :: "string \<Rightarrow> bool"

definition NewCertWatcher :: "'c cert_fs \<Rightarrow> string \<Rightarrow> string \<Rightarrow> 'c cert_watcher option" where
  "NewCertWatcher fs certPath keyPath =
     (if certPath = [] \<or> keyPath = [] then None
      else case cf_pair fs certPath keyPath of
        None \<Rightarrow> None
      | Some cert \<Rightarrow> Some \<lparr>cw_certPath = certPath, cw_keyPath = keyPath, cw_cert = Some cert, cw_watched = {}\<rparr>)"

definition GetCertificate :: "'c cert_watcher \<Rightarrow> 'c option" where
  "GetCertificate w = cw_cert w"

definition loadPair :: "'c cert_watcher \<Rightarrow> 'c cert_fs \<Rightarrow> 'c option" where
  "loadPair w fs = cf_pair fs (cw_certPath w) (cw_keyPath w)"

definition reloadCert :: "string \<Rightarrow> string \<Rightarrow> 'c cert_fs \<Rightarrow> 'c option \<Rightarrow> 'c option" where
  "reloadCert certPath keyPath fs current =
     (case cf_pair fs certPath keyPath of None \<Rightarrow> current | Some new \<Rightarrow> Some new)"

text \<open>The two \<open>Add\<close> calls before the loop; the loop does not start when one fails.\<close>

definition startWatch :: "'c cert_fs \<Rightarrow> 'c cert_watcher \<Rightarrow> 'c cert_watcher option" where
  "startWatch fs w =
     (if cf_exists fs (cw_certPath w) \<and> cf_exists fs (cw_keyPath w)
      then Some (w\<lparr>cw_watched := {cw_certPath w, cw_keyPath w}\<rparr>) else None)"

text \<open>After a rename or a removal both watches are dropped and added again where the path exists.\<close>

definition rewatch :: "'c cert_fs \<Rightarrow> 'c cert_watcher \<Rightarrow> 'c cert_watcher" where
  "rewatch fs w =
     w\<lparr>cw_watched := (cw_watched w - {cw_certPath w, cw_keyPath w}) \<union>
        {p \<in> {cw_certPath w, cw_keyPath w}. cf_exists fs p}\<rparr>"

definition reloaded :: "'c cert_fs \<Rightarrow> 'c cert_watcher \<Rightarrow> 'c cert_watcher" where
  "reloaded fs w = w\<lparr>cw_cert := reloadCert (cw_certPath w) (cw_keyPath w) fs (cw_cert w)\<rparr>"

definition certTurn :: "'c cert_fs \<times> watch_event \<Rightarrow> 'c cert_watcher \<Rightarrow> 'c cert_watcher" where
  "certTurn turn w =
     (case turn of
        (fs, Tick) \<Rightarrow> reloaded fs w
      | (fs, FileEvent ops) \<Rightarrow>
          if \<not> interesting ops then w
          else reloaded fs (if list_ex (\<lambda>op. op = OpRename \<or> op = OpRemove) ops then rewatch fs w else w)
      | (fs, WatchError) \<Rightarrow> w)"

interpretation cert_pair: hot_reload "\<lambda>fs. cf_pair fs certPath keyPath" "reloadCert certPath keyPath" for certPath keyPath
  by unfold_locales (auto simp: reloadCert_def)

lemma certTurn_reload:
  "cw_cert (certTurn t w) = reloadTurn (reloadCert (cw_certPath w) (cw_keyPath w)) t (cw_cert w) \<and>
   cw_certPath (certTurn t w) = cw_certPath w \<and> cw_keyPath (certTurn t w) = cw_keyPath w"
  by (auto simp: certTurn_def reloadTurn_def reloaded_def rewatch_def split: prod.split watch_event.split)

lemma fold_certTurn:
  "cw_cert (fold certTurn ts w) = fold (reloadTurn (reloadCert (cw_certPath w) (cw_keyPath w))) ts (cw_cert w) \<and>
   cw_certPath (fold certTurn ts w) = cw_certPath w \<and> cw_keyPath (fold certTurn ts w) = cw_keyPath w"
proof (induction ts arbitrary: w)
  case (Cons t ts)
  then show ?case using certTurn_reload [of t w] by simp
qed simp

text \<open>
  Once built, the watcher always serves a certificate, and what it serves is the first pair or one
  that the files held at some event since: a half-written pair or a lost watch never takes the
  certificate away. A tick at which the pair loads brings the served certificate up to date,
  whatever was missed before, and as long as the files keep holding that pair nothing changes it.
\<close>
theorem cert_never_lost:
  assumes "NewCertWatcher fs0 certPath keyPath = Some w0" "startWatch fs1 w0 = Some w"
  shows "(\<exists>cert. GetCertificate (fold certTurn ts w) = Some cert \<and>
      (cf_pair fs0 certPath keyPath = Some cert \<or> (\<exists>t \<in> set ts. cf_pair (fst t) certPath keyPath = Some cert))) \<and>
    (\<forall>fs new later. cf_pair fs certPath keyPath = Some new \<longrightarrow> (\<forall>t \<in> set later. cf_pair (fst t) certPath keyPath = Some new) \<longrightarrow>
       GetCertificate (fold certTurn (ts @ [(fs, Tick)] @ later) w) = Some new)"
proof -
  obtain c0 where w: "cw_certPath w = certPath" "cw_keyPath w = keyPath" "cw_cert w = Some c0" "cf_pair fs0 certPath keyPath = Some c0"
    using assms by (auto simp: NewCertWatcher_def startWatch_def split: if_splits option.splits)
  note run = fold_certTurn [of _ w, unfolded w, THEN conjunct1]
  have "\<exists>cert. GetCertificate (fold certTurn ts w) = Some cert \<and>
      (cf_pair fs0 certPath keyPath = Some cert \<or> (\<exists>t \<in> set ts. cf_pair (fst t) certPath keyPath = Some cert))"
    using cert_pair.served_loaded [of certPath keyPath ts "Some c0"] w(4) by (auto simp: GetCertificate_def run)
  moreover have "GetCertificate (fold certTurn (ts @ [(fs, Tick)] @ later) w) = Some new"
    if "cf_pair fs certPath keyPath = Some new" "\<forall>t \<in> set later. cf_pair (fst t) certPath keyPath = Some new" for fs new later
  proof -
    have "fold (reloadTurn (reloadCert certPath keyPath)) (ts @ [(fs, Tick)]) (Some c0) = Some new"
      by (rule cert_pair.tick_catches_up) (rule that(1))
    then show ?thesis using cert_pair.stable_after [OF that(2)] run [of "ts @ [(fs, Tick)] @ later"] by (simp add: GetCertificate_def)
  qed
  ultimately show ?thesis by blast
qed

definition pair_fs :: "nat option \<Rightarrow> bool \<Rightarrow> nat cert_fs" where
  "pair_fs v there = \<lparr>cf_pair = (\<lambda>c k. v), cf_exists = (\<lambda>p. there)\<rparr>"

theorem cert_never_lost_witness:
  "\<exists>w0 w. NewCertWatcher (pair_fs (Some 1) True) ''tls.crt'' ''tls.key'' = Some w0 \<and> startWatch (pair_fs (Some 1) True) w0 = Some w \<and>
     cw_watched (fold certTurn [(pair_fs None False, FileEvent [OpRemove])] w) = {} \<and>
     GetCertificate (fold certTurn [(pair_fs None False, FileEvent [OpRemove])] w) = Some 1 \<and>
     GetCertificate (fold certTurn ([(pair_fs None False, FileEvent [OpRemove])] @ [(pair_fs (Some 2) True, Tick)] @ []) w) = Some 2"
proof -
  obtain w0 w where w: "NewCertWatcher (pair_fs (Some 1) True) ''tls.crt'' ''tls.key'' = Some w0" "startWatch (pair_fs (Some 1) True) w0 = Some w"
    and e: "w = \<lparr>cw_certPath = ''tls.crt'', cw_keyPath = ''tls.key'', cw_cert = Some 1, cw_watched = {''tls.crt'', ''tls.key''}\<rparr>"
    by (simp add: NewCertWatcher_def startWatch_def pair_fs_def)
  note r = cert_never_lost [OF w, of "[(pair_fs None False, FileEvent [OpRemove])]"]
  have "cw_watched (fold certTurn [(pair_fs None False, FileEvent [OpRemove])] w) = {}"
    by (simp add: certTurn_def interesting_def reloaded_def rewatch_def e pair_fs_def)
  moreover have "GetCertificate (fold certTurn [(pair_fs None False, FileEvent [OpRemove])] w) = Some 1"
    using r [THEN conjunct1] by (auto simp: pair_fs_def)
  moreover have "GetCertificate (fold certTurn ([(pair_fs None False, FileEvent [OpRemove])] @ [(pair_fs (Some 2) True, Tick)] @ []) w) = Some 2"
    using r [THEN conjunct2, rule_format, of "pair_fs (Some 2) True" 2 "[]"] by (simp add: pair_fs_def)
  ultimately show ?thesis using w by blast
qed

end
