(* ===== verification/Data_Keys.thy ===== *)
theory Data_Keys
  imports Go_Time
begin

text \<open>
  Data encryption keys: the KMS wrapper and the per-batch cache of \<open>internal/crypto/kms\<close>.

  The KMS call is a parameter with a state of its own; the LRU is a map whose \<open>Add\<close>, a parameter,
  may drop entries. The package comment of \<open>batch_cache.go\<close> says that the constructor of the LRU fails for a size of zero or less.
  \<open>GetOrGenerate\<close> is given twice: as a function for one caller, and as a step relation in which
  callers interleave between the unlocked check, the removal of an expired entry, the lock, the
  second check and the generation; every call of the key service is recorded with its result.
\<close>

section \<open>Client\<close>

record data_key_input =
  dk_keyId :: string
  dk_keySpec :: string
  dk_context :: "string \<rightharpoonup> string"

datatype kms_error = KmsFailed string | EmptyPlaintext | EmptyCiphertext | GenerateFailed kms_error

type_synonym 'k kms_api = "data_key_input \<Rightarrow> 'k \<Rightarrow> (string + nat list \<times> nat list) \<times> 'k"

definition dataKeyInput :: "string \<Rightarrow> string \<Rightarrow> string \<Rightarrow> data_key_input" where
  "dataKeyInput cmkArn tenantID columnName =
     \<lparr>dk_keyId = cmkArn, dk_keySpec = ''AES_256'',
      dk_context = [''neksur:tenant'' \<mapsto> tenantID, ''neksur:column'' \<mapsto> columnName]\<rparr>"

definition GenerateDataKey ::
  "'k kms_api \<Rightarrow> string \<Rightarrow> string \<Rightarrow> string \<Rightarrow> 'k \<Rightarrow> (kms_error + nat list \<times> nat list) \<times> 'k" where
  "GenerateDataKey api cmkArn tenantID columnName k =
     (case api (dataKeyInput cmkArn tenantID columnName) k of
        (Inl e, k') \<Rightarrow> (Inl (KmsFailed e), k')
      | (Inr (plain, cipher), k') \<Rightarrow>
          if plain = [] then (Inl EmptyPlaintext, k')
          else if cipher = [] then (Inl EmptyCiphertext, k')
          else (Inr (plain, cipher), k'))"

section \<open>Batch cache\<close>

record dek_key =
  bk_tenant :: string
  bk_column :: string
  bk_batch :: string

record cached_dek =
  cd_plaintext :: "nat list"
  cd_expires :: instant

type_synonym dek_cache = "dek_key \<rightharpoonup> cached_dek"

record batch_cache =
  bc_cache :: dek_cache
  bc_ttl :: int

definition NewBatchCache :: "(int \<Rightarrow> dek_cache option) \<Rightarrow> int \<Rightarrow> int \<Rightarrow> batch_cache option" where
  "NewBatchCache newLRU cacheSize ttl = map_option (\<lambda>c. \<lparr>bc_cache = c, bc_ttl = ttl\<rparr>) (newLRU cacheSize)"

definition dekGet :: "instant \<Rightarrow> dek_key \<Rightarrow> dek_cache \<Rightarrow> nat list option \<times> dek_cache" where
  "dekGet now key c =
     (case c key of
        None \<Rightarrow> (None, c)
      | Some entry \<Rightarrow> if now > cd_expires entry then (None, c(key := None)) else (Some (cd_plaintext entry), c))"

definition dekSet ::
  "(dek_key \<Rightarrow> cached_dek \<Rightarrow> dek_cache \<Rightarrow> dek_cache) \<Rightarrow> int \<Rightarrow> instant \<Rightarrow> dek_key \<Rightarrow> nat list \<Rightarrow> dek_cache \<Rightarrow> dek_cache" where
  "dekSet add ttl now key plaintext c =
     (if plaintext = [] then c else add key \<lparr>cd_plaintext = plaintext, cd_expires = now + ttl\<rparr> c)"

definition GetOrGenerate ::
  "(dek_key \<Rightarrow> cached_dek \<Rightarrow> dek_cache \<Rightarrow> dek_cache) \<Rightarrow> (string \<Rightarrow> string \<Rightarrow> 'k \<Rightarrow> (kms_error + nat list) \<times> 'k) \<Rightarrow>
   instant \<Rightarrow> dek_key \<Rightarrow> batch_cache \<Rightarrow> 'k \<Rightarrow> (kms_error + nat list) \<times> batch_cache \<times> 'k" where
  "GetOrGenerate add generate now key b k =
     (case dekGet now key (bc_cache b) of
        (Some dek, c1) \<Rightarrow> (Inr dek, b\<lparr>bc_cache := c1\<rparr>, k)
      | (None, c1) \<Rightarrow>
         (case dekGet now key c1 of
            (Some dek, c2) \<Rightarrow> (Inr dek, b\<lparr>bc_cache := c2\<rparr>, k)
          | (None, c2) \<Rightarrow>
             (case generate (bk_tenant key) (bk_column key) k of
                (Inl e, k') \<Rightarrow> (Inl (GenerateFailed e), b\<lparr>bc_cache := c2\<rparr>, k')
              | (Inr plaintext, k') \<Rightarrow>
                  (Inr plaintext, b\<lparr>bc_cache := dekSet add (bc_ttl b) now key plaintext c2\<rparr>, k'))))"

text \<open>The generator that the package names: the plaintext of a data key under a master key.\<close>

definition kmsGenerate :: "'k kms_api \<Rightarrow> string \<Rightarrow> string \<Rightarrow> string \<Rightarrow> 'k \<Rightarrow> (kms_error + nat list) \<times> 'k" where
  "kmsGenerate api cmkArn tenantID columnName k =
     (case GenerateDataKey api cmkArn tenantID columnName k of
        (Inl e, k') \<Rightarrow> (Inl e, k') | (Inr (plain, cipher), k') \<Rightarrow> (Inr plain, k'))"

section \<open>Interleaved callers\<close>

text \<open>
  Where a caller is: before the unlocked check, between finding an expired entry and removing it,
  waiting for the mutex, inside it before the second check or about to remove an expired entry,
  calling the key service, and done with an answer.
\<close>

datatype dek_pc =
    Start (pc_key: dek_key)
  | Stale (pc_key: dek_key)
  | Waiting (pc_key: dek_key)
  | Locked (pc_key: dek_key)
  | LockedStale (pc_key: dek_key)
  | Generating (pc_key: dek_key)
  | Done (pc_key: dek_key) "kms_error + nat list"

record dek_state =
  ds_cache :: dek_cache
  ds_lock :: "nat option"
  ds_pc :: "nat \<rightharpoonup> dek_pc"
  ds_calls :: "(dek_key \<times> (kms_error + nat list)) list"

text \<open>
  One step of one caller at time \<open>now\<close>, for callers that ask for keys of \<open>keys\<close>. The key service may
  answer anything; what it answers is logged, whether it failed or not.
\<close>

inductive dek_step ::
  "dek_key set \<Rightarrow> (dek_key \<Rightarrow> cached_dek \<Rightarrow> dek_cache \<Rightarrow> dek_cache) \<Rightarrow> int \<Rightarrow> instant \<Rightarrow> dek_state \<Rightarrow> dek_state \<Rightarrow> bool"
  for keys add ttl now where
  call: "ds_pc s t = None \<Longrightarrow> key \<in> keys \<Longrightarrow>
    dek_step keys add ttl now s (s\<lparr>ds_pc := (ds_pc s)(t \<mapsto> Start key)\<rparr>)"
| fast_hit: "ds_pc s t = Some (Start key) \<Longrightarrow> ds_cache s key = Some e \<Longrightarrow> now \<le> cd_expires e \<Longrightarrow>
    dek_step keys add ttl now s (s\<lparr>ds_pc := (ds_pc s)(t \<mapsto> Done key (Inr (cd_plaintext e)))\<rparr>)"
| fast_miss: "ds_pc s t = Some (Start key) \<Longrightarrow> ds_cache s key = None \<Longrightarrow>
    dek_step keys add ttl now s (s\<lparr>ds_pc := (ds_pc s)(t \<mapsto> Waiting key)\<rparr>)"
| fast_stale: "ds_pc s t = Some (Start key) \<Longrightarrow> ds_cache s key = Some e \<Longrightarrow> cd_expires e < now \<Longrightarrow>
    dek_step keys add ttl now s (s\<lparr>ds_pc := (ds_pc s)(t \<mapsto> Stale key)\<rparr>)"
| fast_remove: "ds_pc s t = Some (Stale key) \<Longrightarrow>
    dek_step keys add ttl now s (s\<lparr>ds_cache := (ds_cache s)(key := None), ds_pc := (ds_pc s)(t \<mapsto> Waiting key)\<rparr>)"
| lock: "ds_pc s t = Some (Waiting key) \<Longrightarrow> ds_lock s = None \<Longrightarrow>
    dek_step keys add ttl now s (s\<lparr>ds_lock := Some t, ds_pc := (ds_pc s)(t \<mapsto> Locked key)\<rparr>)"
| recheck_hit: "ds_pc s t = Some (Locked key) \<Longrightarrow> ds_cache s key = Some e \<Longrightarrow> now \<le> cd_expires e \<Longrightarrow>
    dek_step keys add ttl now s (s\<lparr>ds_lock := None, ds_pc := (ds_pc s)(t \<mapsto> Done key (Inr (cd_plaintext e)))\<rparr>)"
| recheck_miss: "ds_pc s t = Some (Locked key) \<Longrightarrow> ds_cache s key = None \<Longrightarrow>
    dek_step keys add ttl now s (s\<lparr>ds_pc := (ds_pc s)(t \<mapsto> Generating key)\<rparr>)"
| recheck_stale: "ds_pc s t = Some (Locked key) \<Longrightarrow> ds_cache s key = Some e \<Longrightarrow> cd_expires e < now \<Longrightarrow>
    dek_step keys add ttl now s (s\<lparr>ds_pc := (ds_pc s)(t \<mapsto> LockedStale key)\<rparr>)"
| recheck_remove: "ds_pc s t = Some (LockedStale key) \<Longrightarrow>
    dek_step keys add ttl now s (s\<lparr>ds_cache := (ds_cache s)(key := None), ds_pc := (ds_pc s)(t \<mapsto> Generating key)\<rparr>)"
| generated: "ds_pc s t = Some (Generating key) \<Longrightarrow>
    dek_step keys add ttl now s (s\<lparr>
      ds_cache := (case r of Inl e \<Rightarrow> ds_cache s | Inr plaintext \<Rightarrow> dekSet add ttl now key plaintext (ds_cache s)),
      ds_lock := None,
      ds_pc := (ds_pc s)(t \<mapsto> Done key (case r of Inl e \<Rightarrow> Inl (GenerateFailed e) | Inr plaintext \<Rightarrow> Inr plaintext)),
      ds_calls := ds_calls s @ [(key, r)]\<rparr>)"

definition dek_start :: dek_state where
  "dek_start = \<lparr>ds_cache = Map.empty, ds_lock = None, ds_pc = Map.empty, ds_calls = []\<rparr>"

text \<open>The states reached by steps at times from \<open>lo\<close> to \<open>hi\<close>.\<close>

inductive dek_run ::
  "dek_key set \<Rightarrow> (dek_key \<Rightarrow> cached_dek \<Rightarrow> dek_cache \<Rightarrow> dek_cache) \<Rightarrow> int \<Rightarrow> instant \<Rightarrow> instant \<Rightarrow> dek_state \<Rightarrow> bool"
  for keys add ttl lo hi where
  init: "dek_run keys add ttl lo hi dek_start"
| step: "dek_run keys add ttl lo hi s \<Longrightarrow> lo \<le> now \<Longrightarrow> now \<le> hi \<Longrightarrow> dek_step keys add ttl now s s' \<Longrightarrow>
    dek_run keys add ttl lo hi s'"

section \<open>One key per batch\<close>

text \<open>What the LRU promises: adding evicts only when the entries would exceed its size.\<close>

definition lru_capacity :: "nat \<Rightarrow> (dek_key \<Rightarrow> cached_dek \<Rightarrow> dek_cache \<Rightarrow> dek_cache) \<Rightarrow> bool" where
  "lru_capacity cap add \<longleftrightarrow>
     (\<forall>k v c. finite (dom c) \<and> card (insert k (dom c)) \<le> cap \<longrightarrow> add k v c = c(k \<mapsto> v))"

definition holds_lock :: "dek_pc \<Rightarrow> bool" where
  "holds_lock pc = (case pc of Locked k \<Rightarrow> True | LockedStale k \<Rightarrow> True | Generating k \<Rightarrow> True | _ \<Rightarrow> False)"

text \<open>The key service delivered a key, which \<open>Set\<close> stores; an empty one is not stored.\<close>

definition delivered :: "kms_error + nat list \<Rightarrow> bool" where
  "delivered r = (case r of Inl e \<Rightarrow> False | Inr plaintext \<Rightarrow> plaintext \<noteq> [])"

definition once :: "(dek_key \<times> (kms_error + nat list)) list \<Rightarrow> bool" where
  "once calls \<longleftrightarrow> (\<forall>i j. i < j \<and> j < length calls \<and> fst (calls ! i) = fst (calls ! j) \<longrightarrow> \<not> delivered (snd (calls ! i)))"

definition cached_as :: "dek_state \<Rightarrow> dek_key \<Rightarrow> nat list \<Rightarrow> bool" where
  "cached_as s key p \<longleftrightarrow> (\<exists>e. ds_cache s key = Some e \<and> cd_plaintext e = p)"

definition lock_inv :: "dek_state \<Rightarrow> bool" where
  "lock_inv s \<longleftrightarrow> (\<forall>t pc. ds_pc s t = Some pc \<longrightarrow> holds_lock pc \<longrightarrow> ds_lock s = Some t)"

text \<open>What a caller at \<open>pc\<close> knows while no entry expires.\<close>

definition pc_ok :: "dek_key set \<Rightarrow> dek_state \<Rightarrow> dek_pc \<Rightarrow> bool" where
  "pc_ok keys s pc \<longleftrightarrow> pc_key pc \<in> keys \<and>
     (case pc of
        Stale k \<Rightarrow> False
      | LockedStale k \<Rightarrow> False
      | Generating k \<Rightarrow> ds_cache s k = None
      | Done k (Inr p) \<Rightarrow> p \<noteq> [] \<longrightarrow> cached_as s k p
      | _ \<Rightarrow> True)"

definition dek_inv :: "dek_key set \<Rightarrow> int \<Rightarrow> instant \<Rightarrow> dek_state \<Rightarrow> bool" where
  "dek_inv keys ttl lo s \<longleftrightarrow>
     lock_inv s \<and> once (ds_calls s) \<and> dom (ds_cache s) \<subseteq> keys \<and>
     (\<forall>k e. ds_cache s k = Some e \<longrightarrow> lo + ttl \<le> cd_expires e) \<and>
     (\<forall>k p. (k, Inr p) \<in> set (ds_calls s) \<longrightarrow> p \<noteq> [] \<longrightarrow> cached_as s k p) \<and>
     (\<forall>t pc. ds_pc s t = Some pc \<longrightarrow> pc_ok keys s pc)"

lemma once_append:
  assumes "once calls" "\<And>r. (key, r) \<in> set calls \<Longrightarrow> \<not> delivered r"
  shows "once (calls @ [(key, r)])"
  unfolding once_def
proof (intro allI impI)
  fix i j
  assume ij: "i < j \<and> j < length (calls @ [(key, r)]) \<and> fst ((calls @ [(key, r)]) ! i) = fst ((calls @ [(key, r)]) ! j)"
  show "\<not> delivered (snd ((calls @ [(key, r)]) ! i))"
  proof (cases "j < length calls")
    case True
    then have "(calls @ [(key, r)]) ! i = calls ! i" "(calls @ [(key, r)]) ! j = calls ! j"
      using ij by (simp_all add: nth_append)
    then show ?thesis using ij True assms(1) [unfolded once_def, rule_format, of i j] by metis
  next
    case False
    then have "calls ! i \<in> set calls" "fst (calls ! i) = key" using ij by (auto simp: nth_append)
    then show ?thesis using ij False assms(2) [of "snd (calls ! i)"] by (auto simp: nth_append)
  qed
qed

lemma holds_lock_simps [simp]:
  "\<not> holds_lock (Start k)" "\<not> holds_lock (Stale k)" "\<not> holds_lock (Waiting k)" "holds_lock (Locked k)"
  "holds_lock (LockedStale k)" "holds_lock (Generating k)" "\<not> holds_lock (Done k r)"
  by (simp_all add: holds_lock_def)

text \<open>A caller takes, keeps or gives up the mutex.\<close>

lemma lock_inv_move:
  assumes "lock_inv s" "holds_lock pc \<Longrightarrow> l = Some t" "ds_lock s = None \<or> ds_lock s = Some t \<or> l = ds_lock s"
    and "ds_lock s' = l" "ds_pc s' = (ds_pc s)(t \<mapsto> pc)"
  shows "lock_inv s'"
  unfolding lock_inv_def
proof (intro allI impI)
  fix u q
  assume "ds_pc s' u = Some q" "holds_lock q"
  then show "ds_lock s' = Some u" using assms by (cases "u = t") (auto simp: lock_inv_def)
qed

lemma owner: "lock_inv s \<Longrightarrow> ds_pc s t = Some pc \<Longrightarrow> holds_lock pc \<Longrightarrow> ds_lock s = Some t"
  by (simp add: lock_inv_def)

lemma lock_inv_step:
  assumes "dek_step keys add ttl now s s'" "lock_inv s"
  shows "lock_inv s'"
  using assms(1)
proof (cases rule: dek_step.cases)
  case (lock t key)
  then show ?thesis using assms(2) by - (rule lock_inv_move [of s "Locked key" "Some t" t], auto)
next
  case (generated t key r)
  then have "ds_lock s = Some t" using assms(2) by (intro owner [of s t "Generating key"]) auto
  then show ?thesis using generated assms(2) by - (rule lock_inv_move [of s "Done key (case r of Inl e \<Rightarrow> Inl (GenerateFailed e) | Inr p \<Rightarrow> Inr p)" None t], auto)
next
  case (recheck_hit t key e)
  then have "ds_lock s = Some t" using assms(2) by (intro owner [of s t "Locked key"]) auto
  then show ?thesis using recheck_hit assms(2) by - (rule lock_inv_move [of s "Done key (Inr (cd_plaintext e))" None t], auto)
next
  case (recheck_miss t key)
  then have "ds_lock s = Some t" using assms(2) by (intro owner [of s t "Locked key"]) auto
  then show ?thesis using recheck_miss assms(2) by - (rule lock_inv_move [of s "Generating key" "Some t" t], auto)
next
  case (recheck_stale t key e)
  then have "ds_lock s = Some t" using assms(2) by (intro owner [of s t "Locked key"]) auto
  then show ?thesis using recheck_stale assms(2) by - (rule lock_inv_move [of s "LockedStale key" "Some t" t], auto)
next
  case (recheck_remove t key)
  then have "ds_lock s = Some t" using assms(2) by (intro owner [of s t "LockedStale key"]) auto
  then show ?thesis using recheck_remove assms(2) by - (rule lock_inv_move [of s "Generating key" "Some t" t], auto)
qed (use assms(2) in \<open>auto simp: lock_inv_def\<close>)

lemma pc_ok_cong: "ds_cache s' = ds_cache s \<Longrightarrow> pc_ok keys s' = pc_ok keys s"
  by (auto simp: pc_ok_def cached_as_def fun_eq_iff split: dek_pc.splits sum.splits)

text \<open>A step that leaves the cache and the log as they are.\<close>

lemma dek_inv_move:
  assumes "dek_inv keys ttl lo s" "lock_inv s'" "pc_ok keys s pc"
    and "ds_cache s' = ds_cache s" "ds_calls s' = ds_calls s" "ds_pc s' = (ds_pc s)(t \<mapsto> pc)"
  shows "dek_inv keys ttl lo s'"
  using assms unfolding dek_inv_def pc_ok_cong [OF assms(4)] by (auto simp: cached_as_def)

text \<open>The mutex makes the caller of the key service the only one inside, so no other one is generating.\<close>

lemma dek_inv_generated:
  assumes inv: "dek_inv keys ttl lo s" and pc: "ds_pc s t = Some (Generating key)" and "lo \<le> now"
    and add: "lru_capacity cap add" "finite keys" "card keys \<le> cap" and l: "lock_inv s'"
    and s': "ds_cache s' = (case r of Inl e \<Rightarrow> ds_cache s | Inr p \<Rightarrow> dekSet add ttl now key p (ds_cache s))"
      "ds_calls s' = ds_calls s @ [(key, r)]" "ds_lock s' = None"
      "ds_pc s' = (ds_pc s)(t \<mapsto> Done key (case r of Inl e \<Rightarrow> Inl (GenerateFailed e) | Inr p \<Rightarrow> Inr p))"
  shows "dek_inv keys ttl lo s'"
proof -
  have "pc_ok keys s (Generating key)" using inv pc by (simp add: dek_inv_def)
  then have key: "key \<in> keys" "ds_cache s key = None" by (simp_all add: pc_ok_def)
  have dom: "dom (ds_cache s) \<subseteq> keys" using inv by (simp add: dek_inv_def)
  have "insert key (dom (ds_cache s)) \<subseteq> keys" using dom key(1) by simp
  then have "card (insert key (dom (ds_cache s))) \<le> cap" using card_mono [OF add(2)] add(3) le_trans by metis
  then have put: "add key v (ds_cache s) = (ds_cache s)(key \<mapsto> v)" for v
    using add(1) finite_subset [OF dom add(2)] unfolding lru_capacity_def by blast
  have cache: "ds_cache s' = (if delivered r then (ds_cache s)(key \<mapsto> \<lparr>cd_plaintext = projr r, cd_expires = now + ttl\<rparr>) else ds_cache s)"
    unfolding s'(1) dekSet_def delivered_def put by (cases r) simp_all
  have keep: "cached_as s' k p" if "cached_as s k p" for k p
    using that key(2) by (auto simp: cached_as_def cache)
  have new: "cached_as s' key p" if "r = Inr p" "p \<noteq> []" for p
    using that by (simp add: cached_as_def cache delivered_def)
  have none: "\<not> delivered q" if "(key, q) \<in> set (ds_calls s)" for q
    using inv that key(2) by (cases q) (fastforce simp: dek_inv_def cached_as_def delivered_def)+
  have free: "\<not> holds_lock pc" if "ds_pc s' u = Some pc" for u pc
    using l that s'(3) by (auto simp: lock_inv_def)
  have "pc_ok keys s' pc" if "ds_pc s' u = Some pc" for u pc
  proof (cases "u = t")
    case True
    then show ?thesis using that s'(4) key(1) new by (auto simp: pc_ok_def split: sum.splits)
  next
    case False
    then have "pc_ok keys s pc" using that s'(4) inv by (auto simp: dek_inv_def)
    then show ?thesis using free [OF that] keep by (auto simp: pc_ok_def split: dek_pc.splits sum.splits)
  qed
  moreover have "dom (ds_cache s') \<subseteq> keys" using dom key(1) by (auto simp: cache)
  moreover have "lo + ttl \<le> cd_expires e" if "ds_cache s' k = Some e" for k e
    using that inv \<open>lo \<le> now\<close> by (auto simp: cache dek_inv_def split: if_splits)
  moreover have "cached_as s' k p" if "(k, Inr p) \<in> set (ds_calls s')" "p \<noteq> []" for k p
    using that s'(2) inv keep new by (auto simp: dek_inv_def)
  moreover have "once (ds_calls s')" using inv none s'(2) once_append by (simp add: dek_inv_def)
  ultimately show ?thesis using l unfolding dek_inv_def by blast
qed

lemma dek_inv_step:
  assumes inv: "dek_inv keys ttl lo s" and "dek_step keys add ttl now s s'" and "lo \<le> now" "now \<le> lo + ttl"
    and add: "lru_capacity cap add" "finite keys" "card keys \<le> cap"
  shows "dek_inv keys ttl lo s'"
proof -
  have l: "lock_inv s'" using lock_inv_step [OF assms(2)] inv by (simp add: dek_inv_def)
  have ok: "pc_ok keys s pc" if "ds_pc s t = Some pc" for t pc using inv that by (simp add: dek_inv_def)
  have fresh: "\<not> cd_expires e < now" if "ds_cache s k = Some e" for k e using inv that assms(4) by (fastforce simp: dek_inv_def)
  note move = dek_inv_move [OF inv l]
  from assms(2) show ?thesis
  proof (cases rule: dek_step.cases)
    case (call t key)
    then show ?thesis by (intro move [of "Start key" t]) (auto simp: pc_ok_def)
  next
    case (fast_hit t key e)
    then show ?thesis using ok [of t] by (intro move [of "Done key (Inr (cd_plaintext e))" t]) (auto simp: pc_ok_def cached_as_def)
  next
    case (fast_miss t key)
    then show ?thesis using ok [of t] by (intro move [of "Waiting key" t]) (auto simp: pc_ok_def)
  next
    case (lock t key)
    then show ?thesis using ok [of t] by (intro move [of "Locked key" t]) (auto simp: pc_ok_def)
  next
    case (recheck_hit t key e)
    then show ?thesis using ok [of t] by (intro move [of "Done key (Inr (cd_plaintext e))" t]) (auto simp: pc_ok_def cached_as_def)
  next
    case (recheck_miss t key)
    then show ?thesis using ok [of t] by (intro move [of "Generating key" t]) (auto simp: pc_ok_def)
  next
    case (generated t key r)
    then show ?thesis by (intro dek_inv_generated [OF inv generated(2) assms(3) add l]) auto
  qed (use ok fresh in \<open>force simp: pc_ok_def\<close>)+
qed

lemma dek_run_inv:
  "dek_run keys add ttl lo hi s \<Longrightarrow> lru_capacity cap add \<Longrightarrow> finite keys \<Longrightarrow> card keys \<le> cap \<Longrightarrow> hi \<le> lo + ttl \<Longrightarrow>
   dek_inv keys ttl lo s"
proof (induction rule: dek_run.induct)
  case init
  then show ?case by (simp add: dek_inv_def dek_start_def lock_inv_def once_def)
next
  case (step s now s')
  then show ?case using dek_inv_step [of keys ttl lo s add now s' cap] by simp
qed

text \<open>
  C28 One data key per tenant, column and batch. However callers interleave, while no entry outlives its
  life time and the callers ask for no more keys than the LRU holds, the key service is not asked
  again for a key it has delivered: of the calls for one tenant, column and batch all but the last
  failed or delivered nothing. All callers that are answered with a key get the same one, and at
  most one caller is inside the locked section.
\<close>
theorem dek_generated_once:
  assumes "dek_run keys add ttl lo hi s" "lru_capacity cap add" "finite keys" "card keys \<le> cap" "hi \<le> lo + ttl"
  shows "(\<forall>i j. i < j \<and> j < length (ds_calls s) \<and> fst (ds_calls s ! i) = fst (ds_calls s ! j) \<longrightarrow>
      \<not> delivered (snd (ds_calls s ! i))) \<and>
    (\<forall>t u key p q. ds_pc s t = Some (Done key (Inr p)) \<and> ds_pc s u = Some (Done key (Inr q)) \<and> p \<noteq> [] \<and> q \<noteq> [] \<longrightarrow> p = q) \<and>
    (\<forall>t u pc pc'. ds_pc s t = Some pc \<and> ds_pc s u = Some pc' \<and> holds_lock pc \<and> holds_lock pc' \<longrightarrow> t = u)"
proof (intro conjI allI impI)
  have inv: "dek_inv keys ttl lo s" by (rule dek_run_inv [OF assms])
  have ok: "pc_ok keys s pc" if "ds_pc s t = Some pc" for t pc using inv that by (simp add: dek_inv_def)
  show "\<not> delivered (snd (ds_calls s ! i))"
    if "i < j \<and> j < length (ds_calls s) \<and> fst (ds_calls s ! i) = fst (ds_calls s ! j)" for i j
    using inv that unfolding dek_inv_def once_def by blast
  show "p = q" if "ds_pc s t = Some (Done key (Inr p)) \<and> ds_pc s u = Some (Done key (Inr q)) \<and> p \<noteq> [] \<and> q \<noteq> []" for t u key p q
    using ok [of t "Done key (Inr p)"] ok [of u "Done key (Inr q)"] that by (auto simp: pc_ok_def cached_as_def)
  show "t = u" if "ds_pc s t = Some pc \<and> ds_pc s u = Some pc' \<and> holds_lock pc \<and> holds_lock pc'" for t u pc pc'
    using owner [of s t pc] owner [of s u pc'] inv that by (simp add: dek_inv_def)
qed

text \<open>
  Two callers of one batch: both miss, the first call of the key service fails, the second caller
  generates a key, and a third finds it.
\<close>

abbreviation batch_a :: dek_key where "batch_a \<equiv> \<lparr>bk_tenant = ''t'', bk_column = ''ssn'', bk_batch = ''b1''\<rparr>"

abbreviation cached_a :: dek_cache where "cached_a \<equiv> [batch_a \<mapsto> \<lparr>cd_plaintext = [7], cd_expires = 10\<rparr>]"

definition three_callers :: dek_state where
  "three_callers = \<lparr>ds_cache = cached_a, ds_lock = None,
     ds_pc = [0 \<mapsto> Done batch_a (Inl (GenerateFailed (KmsFailed ''throttled''))), 1 \<mapsto> Done batch_a (Inr [7]), 2 \<mapsto> Done batch_a (Inr [7])],
     ds_calls = [(batch_a, Inl (KmsFailed ''throttled'')), (batch_a, Inr [7])]\<rparr>"

definition put :: "dek_key \<Rightarrow> cached_dek \<Rightarrow> dek_cache \<Rightarrow> dek_cache" where
  "put k v c = c(k \<mapsto> v)"

lemma three_callers_run: "dek_run {batch_a} put 10 0 10 three_callers"
proof -
  let ?run = "\<lambda>c l pc g. dek_run {batch_a} put 10 0 10 \<lparr>ds_cache = c, ds_lock = l, ds_pc = pc, ds_calls = g\<rparr>"
  let ?fail = "(batch_a, Inl (KmsFailed ''throttled''))"
  have go: "dek_run {batch_a} put 10 0 10 s'" if "dek_run {batch_a} put 10 0 10 s" "dek_step {batch_a} put 10 0 s u" "u = s'" for s s' u
    using dek_run.step [OF that(1) _ _ that(2)] that(3) by simp
  have "?run Map.empty None Map.empty []" using dek_run.init by (simp add: dek_start_def)
  then have "?run Map.empty None [0 \<mapsto> Start batch_a] []" by (rule go [OF _ call [of _ 0 batch_a]]) simp_all
  then have "?run Map.empty None [0 \<mapsto> Start batch_a, 1 \<mapsto> Start batch_a] []" by (rule go [OF _ call [of _ 1 batch_a]]) simp_all
  then have "?run Map.empty None [0 \<mapsto> Waiting batch_a, 1 \<mapsto> Start batch_a] []"
    by (rule go [OF _ fast_miss [of _ 0 batch_a]]) (simp_all add: fun_upd_twist)
  then have "?run Map.empty None [0 \<mapsto> Waiting batch_a, 1 \<mapsto> Waiting batch_a] []"
    by (rule go [OF _ fast_miss [of _ 1 batch_a]]) simp_all
  then have "?run Map.empty (Some 0) [0 \<mapsto> Locked batch_a, 1 \<mapsto> Waiting batch_a] []"
    by (rule go [OF _ lock [of _ 0 batch_a]]) (simp_all add: fun_upd_twist)
  then have "?run Map.empty (Some 0) [0 \<mapsto> Generating batch_a, 1 \<mapsto> Waiting batch_a] []"
    by (rule go [OF _ recheck_miss [of _ 0 batch_a]]) (simp_all add: fun_upd_twist)
  then have "?run Map.empty None [0 \<mapsto> Done batch_a (Inl (GenerateFailed (KmsFailed ''throttled''))), 1 \<mapsto> Waiting batch_a] [?fail]"
    by (rule go [OF _ generated [of _ 0 batch_a _ _ _ _ "Inl (KmsFailed ''throttled'')"]]) (simp_all add: fun_upd_twist)
  then have "?run Map.empty (Some 1) [0 \<mapsto> Done batch_a (Inl (GenerateFailed (KmsFailed ''throttled''))), 1 \<mapsto> Locked batch_a] [?fail]"
    by (rule go [OF _ lock [of _ 1 batch_a]]) simp_all
  then have "?run Map.empty (Some 1) [0 \<mapsto> Done batch_a (Inl (GenerateFailed (KmsFailed ''throttled''))), 1 \<mapsto> Generating batch_a] [?fail]"
    by (rule go [OF _ recheck_miss [of _ 1 batch_a]]) simp_all
  then have "?run cached_a None [0 \<mapsto> Done batch_a (Inl (GenerateFailed (KmsFailed ''throttled''))), 1 \<mapsto> Done batch_a (Inr [7])] [?fail, (batch_a, Inr [7])]"
    by (rule go [OF _ generated [of _ 1 batch_a _ _ _ _ "Inr [7]"]]) (simp_all add: dekSet_def put_def)
  then have "?run cached_a None [0 \<mapsto> Done batch_a (Inl (GenerateFailed (KmsFailed ''throttled''))), 1 \<mapsto> Done batch_a (Inr [7]), 2 \<mapsto> Start batch_a]
      [?fail, (batch_a, Inr [7])]" by (rule go [OF _ call [of _ 2 batch_a]]) simp_all
  then show ?thesis unfolding three_callers_def
    by (rule go [OF _ fast_hit [of _ 2 batch_a "\<lparr>cd_plaintext = [7], cd_expires = 10\<rparr>"]]) simp_all
qed

theorem dek_generated_once_witness:
  "dek_run {batch_a} put 10 0 10 three_callers \<and> length (ds_calls three_callers) = 2 \<and>
   \<not> delivered (snd (ds_calls three_callers ! 0)) \<and> delivered (snd (ds_calls three_callers ! 1))"
proof -
  have c: "lru_capacity 1 put" by (simp add: lru_capacity_def put_def)
  from dek_generated_once [OF three_callers_run c, THEN conjunct1, rule_format, of 0 1]
  have "\<not> delivered (snd (ds_calls three_callers ! 0))" by (simp add: three_callers_def)
  then show ?thesis using three_callers_run by (simp add: three_callers_def delivered_def)
qed

section \<open>What a cached key was generated for\<close>

record dek_call =
  dc_key :: dek_key
  dc_time :: instant
  dc_plain :: "nat list"

text \<open>
  A history of calls, each with its answer: the log holds the keys that the key service made, with
  the call that asked for them.
\<close>

inductive dek_history ::
  "(dek_key \<Rightarrow> cached_dek \<Rightarrow> dek_cache \<Rightarrow> dek_cache) \<Rightarrow> 'k kms_api \<Rightarrow> string \<Rightarrow> batch_cache \<Rightarrow> 'k \<Rightarrow> dek_call list \<Rightarrow> bool"
  for add api cmk where
  fresh: "dek_history add api cmk \<lparr>bc_cache = Map.empty, bc_ttl = ttl\<rparr> k []"
| hit: "dek_history add api cmk b k log \<Longrightarrow> GetOrGenerate add (kmsGenerate api cmk) now key b k = (r, b', k) \<Longrightarrow>
    fst (dekGet now key (bc_cache b)) \<noteq> None \<Longrightarrow> dek_history add api cmk b' k log"
| miss: "dek_history add api cmk b k log \<Longrightarrow> GetOrGenerate add (kmsGenerate api cmk) now key b k = (r, b', k') \<Longrightarrow>
    fst (dekGet now key (bc_cache b)) = None \<Longrightarrow>
    dek_history add api cmk b' k' (case r of Inl e \<Rightarrow> log | Inr plain \<Rightarrow> \<lparr>dc_key = key, dc_time = now, dc_plain = plain\<rparr> # log)"

definition dek_from :: "int \<Rightarrow> dek_call list \<Rightarrow> dek_key \<Rightarrow> cached_dek \<Rightarrow> bool" where
  "dek_from ttl log key e \<longleftrightarrow> (\<exists>d \<in> set log. dc_key d = key \<and> dc_plain d = cd_plaintext e \<and> cd_expires e = dc_time d + ttl)"

lemma get_sound: "cache_sound I c \<Longrightarrow> dekGet now key c = (r, c') \<Longrightarrow> cache_sound I c' \<and>
    (\<forall>dek. r = Some dek \<longrightarrow> (\<exists>e. I key e \<and> dek = cd_plaintext e \<and> now \<le> cd_expires e))"
  by (auto simp: dekGet_def cache_sound_def not_less split: option.splits if_splits)

lemma from_mono: "cache_sound (dek_from ttl log) c \<Longrightarrow> cache_sound (dek_from ttl (d # log)) c"
  by (auto simp: cache_sound_def dek_from_def)

lemma get_again: "dekGet now key c = (None, c') \<Longrightarrow> dekGet now key c' = (None, c')"
  by (auto simp: dekGet_def split: option.splits if_splits)

lemma dek_history_sound: "dek_history add api cmk b k log \<Longrightarrow> lru_add add \<Longrightarrow> cache_sound (dek_from (bc_ttl b) log) (bc_cache b)"
proof (induction rule: dek_history.induct)
  case (fresh ttl k)
  then show ?case by (simp add: cache_sound_def)
next
  case (hit b k log now key r b')
  then obtain dek c1 where g: "dekGet now key (bc_cache b) = (Some dek, c1)" by (metis not_Some_eq prod.collapse)
  then have "b' = b\<lparr>bc_cache := c1\<rparr>" using hit by (simp add: GetOrGenerate_def)
  then show ?case using get_sound [OF hit.IH [OF hit.prems] g] by simp
next
  case (miss b k log now key r b' k')
  then obtain c1 where g: "dekGet now key (bc_cache b) = (None, c1)" by (metis prod.collapse)
  have s: "cache_sound (dek_from (bc_ttl b) log) c1" using get_sound [OF miss.IH [OF miss.prems] g] by simp
  show ?case
  proof (cases "fst (kmsGenerate api cmk (bk_tenant key) (bk_column key) k)")
    case (Inl e)
    then have "r = Inl (GenerateFailed e)" "b' = b\<lparr>bc_cache := c1\<rparr>"
      using miss(2) by (auto simp: GetOrGenerate_def g get_again [OF g] split: prod.splits)
    then show ?thesis using s by simp
  next
    case (Inr plain)
    then have r: "r = Inr plain" "b' = b\<lparr>bc_cache := dekSet add (bc_ttl b) now key plain c1\<rparr>"
      using miss(2) by (auto simp: GetOrGenerate_def g get_again [OF g] split: prod.splits)
    have "dek_from (bc_ttl b) (\<lparr>dc_key = key, dc_time = now, dc_plain = plain\<rparr> # log) key \<lparr>cd_plaintext = plain, cd_expires = now + bc_ttl b\<rparr>"
      by (simp add: dek_from_def)
    then show ?thesis using r lru_add_sound [OF miss.prems from_mono [OF s]] from_mono [OF s] by (simp add: dekSet_def)
  qed
qed

text \<open>
  Over any history of calls, a key that the cache answers for a tenant, column and batch was made
  by the key service for that tenant and column in a call of the same batch, at most the life time
  ago; and a key that is not in the cache is made under the encryption context of the tenant and
  column that asked.
\<close>
theorem dek_isolated:
  assumes "dek_history add api cmk b k log" "lru_add add"
    and "GetOrGenerate add (kmsGenerate api cmk) now key b k = (Inr dek, b', k')"
  shows "(\<exists>d \<in> set log. dc_key d = key \<and> dc_plain d = dek \<and> now \<le> dc_time d + bc_ttl b) \<or>
    (\<exists>input cipher. api input k = (Inr (dek, cipher), k') \<and> dek \<noteq> [] \<and> cipher \<noteq> [] \<and> dk_keyId input = cmk \<and>
       dk_context input ''neksur:tenant'' = Some (bk_tenant key) \<and> dk_context input ''neksur:column'' = Some (bk_column key))"
proof -
  obtain r c1 where g: "dekGet now key (bc_cache b) = (r, c1)" by (metis prod.exhaust)
  show ?thesis
  proof (cases r)
    case (Some x)
    then have "dek = x" using assms(3) g by (simp add: GetOrGenerate_def)
    then show ?thesis using get_sound [OF dek_history_sound [OF assms(1,2)] g] Some by (auto simp: dek_from_def)
  next
    case None
    then have "kmsGenerate api cmk (bk_tenant key) (bk_column key) k = (Inr dek, k')"
      using assms(3) g get_again [of now key "bc_cache b" c1] by (auto simp: GetOrGenerate_def split: prod.splits sum.splits)
    then obtain cipher where "api (dataKeyInput cmk (bk_tenant key) (bk_column key)) k = (Inr (dek, cipher), k')" "dek \<noteq> []" "cipher \<noteq> []"
      by (auto simp: kmsGenerate_def GenerateDataKey_def split: prod.splits sum.splits if_splits)
    then show ?thesis by (intro disjI2 exI [of _ "dataKeyInput cmk (bk_tenant key) (bk_column key)"]) (auto simp: dataKeyInput_def)
  qed
qed

definition counting_kms :: "nat kms_api" where
  "counting_kms input n = (Inr ([n], [1]), Suc n)"

theorem dek_isolated_witness:
  "\<exists>b' log. dek_history put counting_kms ''cmk'' b' 1 log \<and>
    GetOrGenerate put (kmsGenerate counting_kms ''cmk'') 5 batch_a b' 1 = (Inr [0], b', 1) \<and>
    (\<exists>d \<in> set log. dc_key d = batch_a \<and> dc_plain d = [0] \<and> 5 \<le> dc_time d + bc_ttl b')"
proof -
  let ?b = "\<lparr>bc_cache = Map.empty, bc_ttl = 10\<rparr>" and ?b1 = "\<lparr>bc_cache = [batch_a \<mapsto> \<lparr>cd_plaintext = [0], cd_expires = 10\<rparr>], bc_ttl = 10\<rparr>"
  have h0: "dek_history put counting_kms ''cmk'' ?b 0 []" by (rule dek_history.fresh)
  have c: "GetOrGenerate put (kmsGenerate counting_kms ''cmk'') 0 batch_a ?b 0 = (Inr [0], ?b1, 1)"
    by (simp add: GetOrGenerate_def dekGet_def kmsGenerate_def GenerateDataKey_def counting_kms_def dekSet_def put_def)
  have h: "dek_history put counting_kms ''cmk'' ?b1 1 [\<lparr>dc_key = batch_a, dc_time = 0, dc_plain = [0]\<rparr>]"
    using dek_history.miss [OF h0 c] by (simp add: dekGet_def)
  have l: "lru_add put" by (simp add: lru_add_def put_def)
  have g: "GetOrGenerate put (kmsGenerate counting_kms ''cmk'') 5 batch_a ?b1 1 = (Inr [0], ?b1, 1)"
    by (simp add: GetOrGenerate_def dekGet_def)
  from dek_isolated [OF h l g] show ?thesis
    using h g by (intro exI [of _ ?b1] exI [of _ "[\<lparr>dc_key = batch_a, dc_time = 0, dc_plain = [0]\<rparr>]"]) (auto simp: counting_kms_def)
qed

end
