(* ===== verification/Server_Boot.thy ===== *)
theory Server_Boot
  imports Admin_Surface Cert_Watcher Data_Keys License SQL_Proxy Tenant_Registry
begin

text \<open>
  The server process: \<open>cmd/neksur-server\<close> (\<open>main.go\<close> and the three build variants \<open>main_core.go\<close>,
  \<open>main_commercial.go\<close>, \<open>main_enterprise.go\<close>), the TLS configuration and constructor of the SQL proxy.

  The boot is a chain of fallible steps in the order of \<open>runWithSaasAuth\<close>. What can fail outside the
  repository (the pool, the graph client, the CEL environment, the listener) is a parameter that
  names the step; \<open>lruNew\<close> says for which sizes the LRU library builds a cache. The modules of the
  commercial repositories are not in the source; what is modelled is which store each one would set
  and on which copy of the dependencies.
\<close>

section \<open>License gate\<close>

datatype build = Core | Commercial | Enterprise

definition requiresLicense :: "build \<Rightarrow> bool" where
  "requiresLicense b = (case b of Core \<Rightarrow> False | Commercial \<Rightarrow> True | Enterprise \<Rightarrow> True)"

definition requiredLicenseTier :: "build \<Rightarrow> string" where
  "requiredLicenseTier b = (case b of Core \<Rightarrow> [] | Commercial \<Rightarrow> ''commercial'' | Enterprise \<Rightarrow> ''enterprise'')"

definition tierCovers :: "string \<Rightarrow> string \<Rightarrow> bool" where
  "tierCovers licTier required =
     (if required = ''enterprise'' then licTier = ''enterprise''
      else if required = ''commercial'' then licTier = ''commercial'' \<or> licTier = ''enterprise''
      else True)"

datatype boot_error = OsExit nat string | BootFailed string string

definition licensePath :: "(string \<Rightarrow> string) \<Rightarrow> string" where
  "licensePath env = (if env ''NEKSUR_LICENSE_PATH'' = [] then ''/etc/neksur/license.json'' else env ''NEKSUR_LICENSE_PATH'')"

definition bootLicense ::
  "'pk license_env \<Rightarrow> instant \<Rightarrow> (string \<Rightarrow> string option) \<Rightarrow> (string \<Rightarrow> string) \<Rightarrow> build \<Rightarrow> boot_error + manifest option" where
  "bootLicense lenv now readFile env b =
     (if \<not> requiresLicense b then Inr None
      else case readFile (licensePath env) of
        None \<Rightarrow> Inl (OsExit 1 ''license: cannot read license file'')
      | Some bytes \<Rightarrow>
         (case VerifyLicense lenv now bytes of
            Inl e \<Rightarrow> Inl (OsExit 1 ''license: verification failed'')
          | Inr m \<Rightarrow>
              if \<not> tierCovers (lm_tier m) (requiredLicenseTier b) then Inl (OsExit 1 ''license: tier mismatch'')
              else Inr (Some m)))"

section \<open>Commercial modules\<close>

text \<open>
  Which optional stores the gateway dependencies hold. The dependencies are passed by value: each
  function works on its own copy, the first component of its answer, and the caller keeps its own.
\<close>

record gateway_deps =
  gd_writeConflictStore :: bool
  gd_partitionSpecStore :: bool

definition initCommercialModules :: "build \<Rightarrow> (string \<Rightarrow> bool) \<Rightarrow> gateway_deps \<Rightarrow> gateway_deps \<times> string list" where
  "initCommercialModules b allowed deps =
     (if b = Core then (deps, [])
      else (if allowed ''write_conflict'' then deps\<lparr>gd_writeConflictStore := True\<rparr> else deps,
        filter allowed [''schema_cache_broadcaster'', ''write_conflict'', ''continuous_verifier'']))"

definition initEnterpriseModules :: "build \<Rightarrow> (string \<Rightarrow> bool) \<Rightarrow> gateway_deps \<Rightarrow> gateway_deps \<times> string list" where
  "initEnterpriseModules b allowed deps =
     (if b \<noteq> Enterprise then (deps, [])
      else (if allowed ''partition_spec_versioning'' then deps\<lparr>gd_partitionSpecStore := True\<rparr> else deps,
        filter allowed [''partition_spec_versioning'', ''compaction_coordination'']))"

section \<open>SQL proxy listener\<close>

record tls_config =
  tc_minVersion13 :: bool
  tc_requireClientCert :: bool
  tc_clientCAs :: string

definition NewTLSConfig :: "(string \<Rightarrow> string option) \<Rightarrow> (string \<Rightarrow> bool) \<Rightarrow> bool \<Rightarrow> string \<Rightarrow> string + tls_config" where
  "NewTLSConfig readFile usablePEM hasWatcher caBundlePath =
     (if \<not> hasWatcher then Inl ''certWatcher is required''
      else if caBundlePath = [] then Inl ''caBundlePath is required''
      else case readFile caBundlePath of
        None \<Rightarrow> Inl ''read CA bundle''
      | Some pem \<Rightarrow>
          if \<not> usablePEM pem then Inl ''contained no usable certificates''
          else Inr \<lparr>tc_minVersion13 = True, tc_requireClientCert = True, tc_clientCAs = pem\<rparr>)"

record 'c boot_world =
  bw_fault :: "string \<Rightarrow> string option"
  bw_readFile :: "string \<Rightarrow> string option"
  bw_usablePEM :: "string \<Rightarrow> bool"
  bw_certs :: "'c cert_fs"
  bw_lruNew :: "int \<Rightarrow> bool"

definition require :: "'c boot_world \<Rightarrow> string \<Rightarrow> boot_error + unit" where
  "require w what = (case bw_fault w what of Some e \<Rightarrow> Inl (BootFailed what e) | None \<Rightarrow> Inr ())"

definition newCache :: "'c boot_world \<Rightarrow> string \<Rightarrow> int \<Rightarrow> boot_error + unit" where
  "newCache w what n = (if bw_lruNew w n then Inr () else Inl (BootFailed what ''must provide a positive size''))"

definition orDefault :: "int \<Rightarrow> int" where
  "orDefault n = (if n \<le> 0 then 4096 else n)"

definition NewServer :: "bool \<Rightarrow> tls_config option \<Rightarrow> string + tls_config" where
  "NewServer hasInjectors tls =
     (if \<not> hasInjectors then Inl ''Deps.Injectors is required''
      else case tls of None \<Rightarrow> Inl ''Deps.TLSConfig is required'' | Some t \<Rightarrow> Inr t)"

text \<open>The listener address and its TLS configuration, none when a path is not set.\<close>

definition bootSqlProxy :: "'c boot_world \<Rightarrow> (string \<Rightarrow> string) \<Rightarrow> boot_error + (string \<times> tls_config) option" where
  "bootSqlProxy w env =
     rbind (newCache w ''sqlproxy cache'' 4096) (\<lambda>_.
     rbind (case BuildInjector ''trino'' of Inl _ \<Rightarrow> Inl (BootFailed ''sqlproxy build trino'' []) | Inr _ \<Rightarrow> Inr ()) (\<lambda>_.
     rbind (case BuildInjector ''spark'' of Inl _ \<Rightarrow> Inl (BootFailed ''sqlproxy build spark'' []) | Inr _ \<Rightarrow> Inr ()) (\<lambda>_.
     rbind (case BuildInjector ''dremio'' of Inl _ \<Rightarrow> Inl (BootFailed ''sqlproxy build dremio'' []) | Inr _ \<Rightarrow> Inr ()) (\<lambda>_.
       let certPath = env ''NEKSUR_TLS_CERT_PATH''; keyPath = env ''NEKSUR_TLS_KEY_PATH'';
           caBundlePath = env ''NEKSUR_CA_BUNDLE_PATH'';
           addr = (if env ''NEKSUR_SQLPROXY_ADDR'' = [] then '':8443'' else env ''NEKSUR_SQLPROXY_ADDR'') in
       if certPath = [] \<or> keyPath = [] \<or> caBundlePath = [] then Inr None
       else (case NewCertWatcher (bw_certs w) certPath keyPath of
          None \<Rightarrow> Inl (BootFailed ''sqlproxy cert watcher'' [])
        | Some watcher \<Rightarrow>
           (case NewTLSConfig (bw_readFile w) (bw_usablePEM w) True caBundlePath of
              Inl e \<Rightarrow> Inl (BootFailed ''sqlproxy tls config'' e)
            | Inr tls \<Rightarrow>
               (case NewServer True (Some tls) of
                  Inl e \<Rightarrow> Inl (BootFailed ''sqlproxy.NewServer'' e)
                | Inr t \<Rightarrow> Inr (Some (addr, t)))))))))"

section \<open>Boot\<close>

definition dispatchBuffer :: "string \<Rightarrow> int" where
  "dispatchBuffer raw = (if raw = [] then 1024 else case atoi raw of Some n \<Rightarrow> if n > 0 then n else 1024 | None \<Rightarrow> 1024)"

definition bootS3 :: "'c boot_world \<Rightarrow> (string \<Rightarrow> string) \<Rightarrow> boot_error + (string \<times> string) option" where
  "bootS3 w env =
     (if env ''NEKSUR_S3_EVENTS_QUEUE_URL'' = [] then Inr None
      else if env ''NEKSUR_S3_EVENTS_TENANT_ID'' = [] then Inr None
      else rbind (require w ''aws config'') (\<lambda>_. Inr (Some (env ''NEKSUR_S3_EVENTS_QUEUE_URL'', env ''NEKSUR_S3_EVENTS_TENANT_ID''))))"

record server =
  sv_addr :: string
  sv_manifest :: "manifest option"
  sv_deps :: gateway_deps
  sv_modules :: "string list"
  sv_sqlProxy :: "(string \<times> tls_config) option"
  sv_dispatchBuffer :: int
  sv_s3 :: "(string \<times> string) option"
  sv_billing :: billing
  sv_adminOrg :: string
  sv_pagerduty :: string

text \<open>The steps between the environment and the router; the caller keeps \<open>deps\<close> whatever the modules do.\<close>

definition bootStores ::
  "'c boot_world \<Rightarrow> (string \<Rightarrow> string) \<Rightarrow> build \<Rightarrow> (string \<Rightarrow> bool) \<Rightarrow> boot_error + gateway_deps \<times> string list" where
  "bootStores w env b allowed =
     rbind (require w ''pgxpool.ParseConfig'') (\<lambda>_.
     rbind (require w ''pgxpool.NewWithConfig'') (\<lambda>_.
     rbind (case NewClient (env ''WORKOS_API_KEY'') (env ''WORKOS_CLIENT_ID'') ''.neksur.com'' of
        Inl _ \<Rightarrow> Inl (BootFailed ''workos.NewClient'' []) | Inr c \<Rightarrow> Inr ()) (\<lambda>_.
     rbind (require w ''graph.NewGraphClient'') (\<lambda>_.
     rbind (require w ''cel.NewEnv'') (\<lambda>_.
     rbind (newCache w ''cel.NewCompiler'' (orDefault 0)) (\<lambda>_.
       let deps = \<lparr>gd_writeConflictStore = False, gd_partitionSpecStore = False\<rparr>;
           commercial = initCommercialModules b allowed deps;
           enterprise = initEnterpriseModules b allowed deps in
     rbind (newCache w ''compiler.NewCompiler'' (orDefault 0)) (\<lambda>_.
       Inr (deps, snd commercial @ snd enterprise))))))))"

definition runWithSaasAuth ::
  "'pk license_env \<Rightarrow> 'c boot_world \<Rightarrow> instant \<Rightarrow> (string \<Rightarrow> string) \<Rightarrow> build \<Rightarrow> boot_error + server" where
  "runWithSaasAuth lenv w now env b =
     rbind (bootLicense lenv now (bw_readFile w) env b) (\<lambda>manifest.
     if env ''DATABASE_URL'' = [] then Inl (BootFailed ''DATABASE_URL must be set'' [])
     else if env ''WORKOS_API_KEY'' = [] \<or> env ''WORKOS_CLIENT_ID'' = [] \<or> env ''WORKOS_WEBHOOK_SECRET'' = []
     then Inl (BootFailed ''WORKOS_API_KEY + WORKOS_CLIENT_ID + WORKOS_WEBHOOK_SECRET required'' [])
     else
     rbind (bootStores w env b (IsFeatureAllowed manifest now)) (\<lambda>(deps, modules).
     rbind (bootSqlProxy w env) (\<lambda>proxy.
     rbind (newCache w ''credvend cache'' (orDefault 0)) (\<lambda>_.
     rbind (case NewBatchCache (\<lambda>n. if bw_lruNew w n then Some Map.empty else None) 0 (10 * 60 * nsPerSec) of
        None \<Rightarrow> Inl (BootFailed ''kms batch cache'' ''must provide a positive size'') | Some c \<Rightarrow> Inr c) (\<lambda>_.
     rbind (bootS3 w env) (\<lambda>s3.
     rbind (require w ''listen'') (\<lambda>_.
       Inr \<lparr>sv_addr = (if env ''NEKSUR_LISTEN_ADDR'' = [] then '':8080'' else env ''NEKSUR_LISTEN_ADDR''),
         sv_manifest = manifest, sv_deps = deps, sv_modules = modules, sv_sqlProxy = proxy,
         sv_dispatchBuffer = dispatchBuffer (env ''NEKSUR_L3_DISPATCH_BUFFER''), sv_s3 = s3,
         sv_billing = NewBilling \<lparr>bc_enabled = (env ''BILLING_ENABLED'' = ''true''), bc_apiKey = env ''STRIPE_API_KEY'',
           bc_webhookSecret = env ''STRIPE_WEBHOOK_SECRET''\<rparr>,
         sv_adminOrg = env ''WORKOS_INTERNAL_ADMIN_ORG_ID'',
         sv_pagerduty = (if env ''PAGERDUTY_SERVICE_ID'' = [] then ''P000000'' else env ''PAGERDUTY_SERVICE_ID'')\<rparr>)))))))"

section \<open>Process\<close>

text \<open>
  The metrics server runs until the process is told to stop or its server fails. \<open>stopped\<close> is the
  end of the context; the trace of a run says in which order the two modes came.
\<close>

datatype observability_end = Cancelled | MetricsFailed string | ExporterFailed string

datatype process_event = UsageStdout | UsageStderr | ServesMetrics | ContextDone | SaasBoot | ServesApi

definition runWithObservability :: "observability_end \<Rightarrow> process_event list \<times> string option" where
  "runWithObservability fate =
     (case fate of
        ExporterFailed e \<Rightarrow> ([], Some e)
      | Cancelled \<Rightarrow> ([ServesMetrics, ContextDone], None)
      | MetricsFailed e \<Rightarrow> ([ServesMetrics], Some e))"

definition mainProcess ::
  "'pk license_env \<Rightarrow> 'c boot_world \<Rightarrow> instant \<Rightarrow> (string \<Rightarrow> string) \<Rightarrow> build \<Rightarrow> observability_end \<Rightarrow> string list \<Rightarrow> process_event list \<times> nat" where
  "mainProcess lenv w now env b fate args =
     (if list_ex (\<lambda>a. a \<in> {''--help'', ''-h'', ''help''}) args then ([UsageStdout], 0)
      else
       let observability = (env ''NEKSUR_OBSERVABILITY'' = ''1''); saasAuth = (env ''NEKSUR_SAAS_AUTH'' = ''1'') in
       if \<not> observability \<and> \<not> saasAuth then ([UsageStderr], 0)
       else (case (if observability then runWithObservability fate else ([], None)) of
          (tr, Some e) \<Rightarrow> (tr, 1)
        | (tr, None) \<Rightarrow>
            if \<not> saasAuth then (tr, 0)
            else (case runWithSaasAuth lenv w now env b of
              Inl (OsExit code msg) \<Rightarrow> (tr @ [SaasBoot], code)
            | Inl (BootFailed what e) \<Rightarrow> (tr @ [SaasBoot], 1)
            | Inr sv \<Rightarrow> (tr @ [SaasBoot, ServesApi], 0))))"

section \<open>Adapters of the trigger\<close>

definition TenantExists :: "faults \<Rightarrow> string \<Rightarrow> registry \<Rightarrow> string + bool" where
  "TenantExists fault tid rg =
     (case fault ''tenant exists'' of
        Some e \<Rightarrow> Inl e
      | None \<Rightarrow> Inr (list_ex (\<lambda>t. tn_id t = tid \<and> tn_state t = ''active'') (rg_tenants rg)))"

definition LoadPolicyForCompile :: "string \<Rightarrow> string + unit" where
  "LoadPolicyForCompile policyID = Inl ''policy loader: not yet wired (Plan 02-05)''"

section \<open>Router\<close>

datatype route_guard = TenantGuard | AdminGuard | NoGuard

datatype segment = Exact string | Wildcard

record route =
  rt_method :: "string option"
  rt_segments :: "segment list"
  rt_subtree :: bool
  rt_guard :: route_guard
  rt_handler :: string

definition mk_route :: "string option \<Rightarrow> segment list \<Rightarrow> bool \<Rightarrow> route_guard \<Rightarrow> string \<Rightarrow> route" where
  "mk_route m s sub g h = \<lparr>rt_method = m, rt_segments = s, rt_subtree = sub, rt_guard = g, rt_handler = h\<rparr>"

definition saasRoutes :: "route list" where
  "saasRoutes =
     [mk_route None [Exact ''api''] True TenantGuard ''api'',
      mk_route (Some ''POST'') [Exact ''v1'', Exact ''iceberg'', Wildcard, Exact ''namespaces'', Wildcard, Exact ''tables'', Wildcard] False TenantGuard ''commit'',
      mk_route (Some ''POST'') [Exact ''v1'', Exact ''iceberg'', Wildcard, Exact ''transactions'', Exact ''commit''] False TenantGuard ''multi-commit'',
      mk_route (Some ''POST'') [Exact ''v1'', Exact ''lineage''] False TenantGuard ''lineage'',
      mk_route (Some ''POST'') [Exact ''v1'', Exact ''credvend'', Exact ''sts''] False TenantGuard ''sts'',
      mk_route (Some ''POST'') [Exact ''v1'', Exact ''webhooks'', Exact ''polaris''] False NoGuard ''polaris-webhook'',
      mk_route None [Exact ''callback''] False NoGuard ''callback'',
      mk_route None [Exact ''webhooks'', Exact ''workos''] False NoGuard ''workos-webhook'',
      mk_route None [Exact ''webhooks'', Exact ''stripe''] False NoGuard ''stripe-webhook'',
      mk_route None [Exact ''admin''] True AdminGuard ''admin'']"

text \<open>A clean path without its leading slash, as its segments; a pattern that ends in a slash matches the subtree.\<close>

fun matchSegments :: "segment list \<Rightarrow> bool \<Rightarrow> string list \<Rightarrow> bool" where
  "matchSegments [] subtree segs = (if subtree then segs \<noteq> [] else segs = [])"
| "matchSegments (Exact s # ps) subtree (x # xs) = (x = s \<and> matchSegments ps subtree xs)"
| "matchSegments (Wildcard # ps) subtree (x # xs) = (x \<noteq> [] \<and> matchSegments ps subtree xs)"
| "matchSegments (p # ps) subtree [] = False"

definition pathMatches :: "string list \<Rightarrow> route \<Rightarrow> bool" where
  "pathMatches segs r = matchSegments (rt_segments r) (rt_subtree r) segs"

datatype served = Refused nat | Handler string "string option"

text \<open>The inner router of the admin pages.\<close>

definition adminServe :: "string list \<Rightarrow> served" where
  "adminServe segs =
     (if segs = [''admin'', ''tenants''] then Handler ''admin-tenants'' None
      else if segs = [''admin'', ''tenants'', ''audit''] then Handler ''admin-audit'' None
      else if segs = [''admin'', ''incidents''] then Handler ''admin-incidents'' None
      else Refused 404)"

text \<open>The root of a subtree without its slash is redirected to it.\<close>

definition redirected :: "string list \<Rightarrow> bool" where
  "redirected segs \<longleftrightarrow> list_ex (\<lambda>r. rt_subtree r \<and> matchSegments (rt_segments r) False segs) saasRoutes"

definition guarded ::
  "jwt_parser \<Rightarrow> jwks_endpoint \<Rightarrow> faults \<Rightarrow> instant \<Rightarrow> string \<Rightarrow> registry \<Rightarrow> string list \<Rightarrow> string option \<Rightarrow> client \<Rightarrow> route \<Rightarrow> served \<times> client" where
  "guarded parse fetch fault now adminOrg rg segs cookie c r =
     (case rt_guard r of
        NoGuard \<Rightarrow> (Handler (rt_handler r) None, c)
      | TenantGuard \<Rightarrow>
         (case TenantMiddleware parse fetch fault now cookie rg c of
            (Status s, c') \<Rightarrow> (Refused s, c') | (Next tid, c') \<Rightarrow> (Handler (rt_handler r) (Some tid), c'))
      | AdminGuard \<Rightarrow>
         (case AdminOrgGate parse fetch now cookie adminOrg c of
            (Status s, c') \<Rightarrow> (Refused s, c') | (Next _, c') \<Rightarrow> (adminServe segs, c')))"

definition serve ::
  "jwt_parser \<Rightarrow> jwks_endpoint \<Rightarrow> faults \<Rightarrow> instant \<Rightarrow> string \<Rightarrow> registry \<Rightarrow> string \<Rightarrow> string list \<Rightarrow> string option \<Rightarrow> client \<Rightarrow> served \<times> client" where
  "serve parse fetch fault now adminOrg rg verb segs cookie c =
     (let rs = filter (pathMatches segs) saasRoutes in
      if rs = [] then (Refused (if redirected segs then 301 else 404), c)
      else case List.find (\<lambda>r. rt_method r = None \<or> rt_method r = Some verb) rs of
        None \<Rightarrow> (Refused 405, c)
      | Some r \<Rightarrow> guarded parse fetch fault now adminOrg rg segs cookie c r)"

section \<open>Boot\<close>

lemma bootLicense_held:
  "b \<noteq> Core \<Longrightarrow> bootLicense lenv now readFile env b = Inr held \<longleftrightarrow>
     (\<exists>m bytes. held = Some m \<and> readFile (licensePath env) = Some bytes \<and> VerifyLicense lenv now bytes = Inr m \<and>
        tierCovers (lm_tier m) (requiredLicenseTier b))"
  by (auto simp: bootLicense_def requiresLicense_def split: build.splits option.splits sum.splits if_splits)

lemma within_grace: "\<not> beyondGrace now m \<longleftrightarrow> now - lm_expiry m \<le> gracePeriod"
  by (auto simp: beyondGrace_def gracePeriod_def nsPerSec_def)

lemma covers_build:
  "b \<noteq> Core \<Longrightarrow> tierCovers tier (requiredLicenseTier b) \<longleftrightarrow> tier = ''enterprise'' \<or> tier = ''commercial'' \<and> b = Commercial"
  by (cases b) (auto simp: tierCovers_def requiredLicenseTier_def)

text \<open>
  The license gate: a core build starts without a license; the commercial and the enterprise builds
  start exactly with a readable file that holds a verified manifest at most seven days past its
  expiry whose tier covers the build, and an enterprise manifest covers both.
\<close>
theorem boot_license_gate:
  "bootLicense lenv now readFile env b = Inr held \<longleftrightarrow>
     (case held of
        None \<Rightarrow> b = Core
      | Some m \<Rightarrow> b \<noteq> Core \<and> (\<exists>bytes. readFile (licensePath env) = Some bytes \<and> le_decode lenv bytes = Some m) \<and>
          verifiedBy lenv m \<and> now - lm_expiry m \<le> gracePeriod \<and>
          (lm_tier m = ''enterprise'' \<or> lm_tier m = ''commercial'' \<and> b = Commercial))"
proof (cases "b = Core")
  case True
  then show ?thesis by (auto simp: bootLicense_def requiresLicense_def split: option.split)
next
  case False
  then show ?thesis
    unfolding bootLicense_held [OF False] VerifyLicense_iff within_grace covers_build [OF False]
    by (auto split: option.split)
qed

lemma rbind_stuck: "(\<And>x. \<exists>e. f x = Inl e) \<Longrightarrow> \<exists>e. rbind m f = Inl e"
  by (cases m) auto

lemma kms_cache_refused:
  assumes "\<And>n. bw_lruNew w n \<longleftrightarrow> n > 0"
  shows "\<exists>e. runWithSaasAuth lenv w now env b = Inl e"
proof -
  have kms: "NewBatchCache (\<lambda>n. if bw_lruNew w n then Some Map.empty else None) 0 ttl = None" for ttl
    by (simp add: NewBatchCache_def assms)
  show ?thesis
    unfolding runWithSaasAuth_def kms option.case rbind.simps case_prod_beta
    by (rule rbind_stuck) (auto intro!: rbind_stuck)
qed

text \<open>
  C39 The KMS batch cache is built with size zero, a size that the LRU library refuses: with the
  documented behaviour of its constructor the SaaS mode never serves a request, in any build and
  any environment: whenever the process reaches that boot, it ends with an error.
\<close>
theorem saas_boot_never_serves:
  assumes "\<And>n. bw_lruNew w n \<longleftrightarrow> n > 0"
  shows "(\<exists>e. runWithSaasAuth lenv w now env b = Inl e) \<and> ServesApi \<notin> set (fst (mainProcess lenv w now env b fate args))"
proof -
  obtain e where e: "runWithSaasAuth lenv w now env b = Inl e"
    using kms_cache_refused [OF assms] by blast
  then show ?thesis
    by (auto simp: mainProcess_def runWithObservability_def Let_def split: boot_error.splits observability_end.splits prod.splits if_splits)
qed

text \<open>
  A world in which every step but that one succeeds, and the same world with a library that takes
  size zero: the first stops at the batch cache, the second serves.
\<close>

definition sample_world :: "(int \<Rightarrow> bool) \<Rightarrow> unit boot_world" where
  "sample_world lruNew = \<lparr>bw_fault = (\<lambda>_. None), bw_readFile = (\<lambda>_. None), bw_usablePEM = (\<lambda>_. False),
     bw_certs = \<lparr>cf_pair = (\<lambda>_ _. None), cf_exists = (\<lambda>_. False)\<rparr>, bw_lruNew = lruNew\<rparr>"

definition sample_getenv :: "string \<Rightarrow> string" where
  "sample_getenv k =
     (if k \<in> {''DATABASE_URL'', ''WORKOS_API_KEY'', ''WORKOS_CLIENT_ID'', ''WORKOS_WEBHOOK_SECRET''} then ''set''
      else if k = ''NEKSUR_SAAS_AUTH'' then ''1'' else [])"

lemma sample_boot:
  "runWithSaasAuth lenv (sample_world (\<lambda>n. n > 0)) now sample_getenv Core =
     Inl (BootFailed ''kms batch cache'' ''must provide a positive size'')"
  "\<exists>sv. runWithSaasAuth lenv (sample_world (\<lambda>n. n \<ge> 0)) now sample_getenv Core = Inr sv"
  by (simp_all add: runWithSaasAuth_def bootLicense_def requiresLicense_def sample_getenv_def sample_world_def bootStores_def
      require_def NewClient_def NewClientWithEndpoint_def newCache_def orDefault_def Let_def bootSqlProxy_def BuildInjector_def
      NewBatchCache_def bootS3_def)

theorem saas_boot_never_serves_witness:
  "ServesApi \<notin> set (fst (mainProcess (toy_env license_a) (sample_world (\<lambda>n. n > 0)) 0 sample_getenv Core Cancelled []))"
  by (rule saas_boot_never_serves [THEN conjunct2]) (simp add: sample_world_def)

text \<open>
  With both modes on, nothing of the SaaS mode happens before the metrics server was told to stop:
  the two modes never run at the same time.
\<close>

lemma modes_in_sequence:
  assumes "env ''NEKSUR_OBSERVABILITY'' = ''1''" "mainProcess lenv w now env b fate args = (tr, code)" "SaasBoot \<in> set tr"
  shows "\<exists>rest. tr = [ServesMetrics, ContextDone, SaasBoot] @ rest \<and> set rest \<subseteq> {ServesApi}"
  using assms(2,3)
  by (auto simp: mainProcess_def runWithObservability_def assms(1) Let_def
      split: if_splits observability_end.splits sum.splits boot_error.splits)

text \<open>
  The stores that the commercial modules set are set on a copy: whatever the build and the license,
  the dependencies that the gateway routes hold carry neither, while the modules are started.
\<close>

lemma stores_stay_unset:
  "runWithSaasAuth lenv w now env b = Inr sv \<Longrightarrow>
     \<not> gd_writeConflictStore (sv_deps sv) \<and> \<not> gd_partitionSpecStore (sv_deps sv)"
  by (auto simp: runWithSaasAuth_def bootStores_def Let_def elim!: rbind_InrE split: if_splits)

lemma copy_set:
  "allowed ''write_conflict'' \<Longrightarrow> gd_writeConflictStore (fst (initCommercialModules Commercial allowed deps)) \<and>
     ''write_conflict'' \<in> set (snd (initCommercialModules Commercial allowed deps))"
  by (simp add: initCommercialModules_def)

section \<open>Requests\<close>

lemma middleware_next:
  assumes "TenantMiddleware parse fetch fault now cookie rg c = (Next tid, c')"
  shows "\<exists>tok cs t. cookie = Some tok \<and> tok \<noteq> [] \<and> ValidateSession parse fetch now tok c = (Some cs, c') \<and> sc_org cs \<noteq> [] \<and>
    t \<in> set (rg_tenants rg) \<and> tn_org t = sc_org cs \<and> tn_id t = tid \<and> tn_state t \<in> {''active'', ''suspended''}"
proof -
  obtain tok cs where v: "cookie = Some tok" "tok \<noteq> []" "ValidateSession parse fetch now tok c = (Some cs, c')" "sc_org cs \<noteq> []"
    and l: "ByWorkOSOrgID fault (sc_org cs) rg = Inr tid"
    using assms by (auto simp: TenantMiddleware_def LoadSession_def split: option.splits prod.splits if_splits sum.splits tenant_error.splits)
  from l obtain t where "List.find (\<lambda>t. tn_org t = sc_org cs \<and> tn_state t \<in> {''active'', ''suspended''}) (rg_tenants rg) = Some t" "tn_id t = tid"
    by (auto simp: ByWorkOSOrgID_def split: option.splits)
  then have "t \<in> set (rg_tenants rg) \<and> tn_org t = sc_org cs \<and> tn_id t = tid \<and> tn_state t \<in> {''active'', ''suspended''}"
    unfolding find_Some_iff using nth_mem by blast
  with v show ?thesis by blast
qed

lemma gate_next:
  assumes "AdminOrgGate parse fetch now cookie org c = (Next u, c')"
  shows "org \<noteq> [] \<and> (\<exists>tok cs. cookie = Some tok \<and> tok \<noteq> [] \<and> ValidateSession parse fetch now tok c = (Some cs, c') \<and> sc_org cs = org)"
  using assms by (auto simp: AdminOrgGate_def LoadSessionOrgID_def LoadSession_def split: option.splits prod.splits if_splits)

definition openHandlers :: "string list" where
  "openHandlers = [''polaris-webhook'', ''callback'', ''workos-webhook'', ''stripe-webhook'']"

lemma routes_guarded:
  "list_all (\<lambda>r. rt_guard r = NoGuard \<longrightarrow> rt_handler r \<in> set openHandlers) saasRoutes"
  by (simp add: saasRoutes_def mk_route_def openHandlers_def)

lemma serve_route:
  assumes "serve parse fetch fault now org rg verb segs cookie c = (Handler h t, c')"
  obtains r where "r \<in> set saasRoutes" "guarded parse fetch fault now org rg segs cookie c r = (Handler h t, c')"
proof -
  let ?rs = "filter (pathMatches segs) saasRoutes" and ?ok = "\<lambda>r. rt_method r = None \<or> rt_method r = Some verb"
  have "?rs \<noteq> []" using assms by (auto simp: serve_def)
  then obtain r where r: "List.find ?ok ?rs = Some r" "guarded parse fetch fault now org rg segs cookie c r = (Handler h t, c')"
    using assms by (auto simp: serve_def Let_def split: option.splits)
  from r(1) have "r \<in> set ?rs" unfolding find_Some_iff using nth_mem by blast
  then show thesis using that r(2) by auto
qed

text \<open>
  C11 Every handler behind the router is reached by an authenticated caller or is one of the four that
  authenticate themselves. A request that reaches a tenant handler carries a session that
  validates, and the handler runs with the id of an active or suspended tenant of the session's
  organization; one that reaches an admin page carries a session of the internal organization.
\<close>
theorem handlers_authenticated:
  "case serve parse fetch fault now org rg verb segs cookie c of
     (Refused s, c') \<Rightarrow> True
   | (Handler h t, c') \<Rightarrow> h \<in> set openHandlers \<and> t = None \<and> c' = c \<or>
       (\<exists>tok cs. cookie = Some tok \<and> tok \<noteq> [] \<and> ValidateSession parse fetch now tok c = (Some cs, c') \<and>
          (case t of
             None \<Rightarrow> h \<in> {''admin-tenants'', ''admin-audit'', ''admin-incidents''} \<and> org \<noteq> [] \<and> sc_org cs = org
           | Some tid \<Rightarrow> \<exists>row \<in> set (rg_tenants rg). tn_id row = tid \<and> tn_org row = sc_org cs \<and> tn_state row \<in> {''active'', ''suspended''}))"
proof (cases "serve parse fetch fault now org rg verb segs cookie c")
  case (Pair out c')
  show ?thesis
  proof (cases out)
    case (Handler h t)
    from serve_route [OF Pair [unfolded Handler]] obtain r where r: "r \<in> set saasRoutes"
      and g: "guarded parse fetch fault now org rg segs cookie c r = (Handler h t, c')" .
    show ?thesis
    proof (cases "rt_guard r")
      case NoGuard
      then show ?thesis using g r routes_guarded Pair Handler by (auto simp: list_all_iff guarded_def)
    next
      case TenantGuard
      then obtain tid where "TenantMiddleware parse fetch fault now cookie rg c = (Next tid, c')" "t = Some tid"
        using g by (auto simp: guarded_def split: prod.splits outcome.splits)
      then show ?thesis using middleware_next [of parse fetch fault now cookie rg c tid c'] Pair Handler by fastforce
    next
      case AdminGuard
      then obtain u where "AdminOrgGate parse fetch now cookie org c = (Next u, c')" "adminServe segs = Handler h t"
        using g by (auto simp: guarded_def split: prod.splits outcome.splits)
      moreover from this(2) have "t = None" "h \<in> {''admin-tenants'', ''admin-audit'', ''admin-incidents''}"
        by (auto simp: adminServe_def split: if_splits)
      ultimately show ?thesis using gate_next [of parse fetch now cookie org c u c'] Pair Handler by auto
    qed
  qed (use Pair in simp)
qed

section \<open>Lifecycle and requests\<close>

definition commitPath :: "string list" where
  "commitPath = [''v1'', ''iceberg'', ''wh'', ''namespaces'', ''db'', ''tables'', ''orders'']"

lemma serve_commit:
  "serve parse fetch fault now org rg ''POST'' commitPath cookie c =
     (case TenantMiddleware parse fetch fault now cookie rg c of
        (Status s, c') \<Rightarrow> (Refused s, c') | (Next tid, c') \<Rightarrow> (Handler ''commit'' (Some tid), c'))"
proof -
  have "filter (pathMatches commitPath) saasRoutes =
      [mk_route (Some ''POST'') [Exact ''v1'', Exact ''iceberg'', Wildcard, Exact ''namespaces'', Wildcard, Exact ''tables'', Wildcard] False TenantGuard ''commit'']"
    by (simp add: saasRoutes_def pathMatches_def mk_route_def commitPath_def)
  then show ?thesis by (simp add: serve_def guarded_def mk_route_def split: prod.split outcome.split)
qed

lemma lookup_after_transition:
  assumes t: "transitionLifecycle fault now tid new from event actor rg = (Inr (), rg')"
    and row: "row \<in> set (rg_tenants rg)" "tn_id row = tid" and u: "distinct (map tn_id (rg_tenants rg))" "distinct (map tn_org (rg_tenants rg))"
    and f: "fault' ''lookup'' = None"
  shows "ByWorkOSOrgID fault' (tn_org row) rg' = (if new \<in> {''active'', ''suspended''} then Inr tid else Inl ErrTenantNotFound)"
proof -
  let ?P = "\<lambda>t. tn_id t = tid \<and> tn_state t \<in> set from" and ?f = "\<lambda>t. t\<lparr>tn_state := new, tn_updated := now\<rparr>"
  note rows = transition_rows [OF t]
  have inj: "inj_on tn_id (set (rg_tenants rg))" "inj_on tn_org (set (rg_tenants rg))" using u by (simp_all add: distinct_map)
  obtain t' where t': "t' \<in> set (rg_tenants rg)" "tn_id t' = tid" "tn_state t' \<in> set from"
    using rows(3) by (auto simp: matches_def list_ex_iff)
  then have P: "?P row" using inj_onD [OF inj(1), of t' row] row by simp
  have org: "tn_org x = tn_org row \<Longrightarrow> x \<in> set (rg_tenants rg) \<Longrightarrow> x = row" for x
    using inj_onD [OF inj(2), of x row] row(1) by simp
  have only: "x \<in> set (rg_tenants rg') \<Longrightarrow> tn_org x = tn_org row \<Longrightarrow> x = ?f row" for x
    unfolding rows(1) updateWhere_def using org P by (force split: if_splits)
  have mem: "?f row \<in> set (rg_tenants rg')" unfolding rows(1) updateWhere_def using row(1) P by (auto simp: image_iff intro!: bexI [of _ row])
  show ?thesis
  proof (cases "new \<in> {''active'', ''suspended''}")
    case True
    let ?Q = "\<lambda>t. tn_org t = tn_org row \<and> tn_state t \<in> {''active'', ''suspended''}"
    have "?Q (?f row)" using True by simp
    with mem have "List.find ?Q (rg_tenants rg') \<noteq> None" unfolding find_None_iff by blast
    then obtain x where "List.find ?Q (rg_tenants rg') = Some x" by blast
    moreover from this have "x = ?f row" using only unfolding find_Some_iff by (metis nth_mem)
    ultimately show ?thesis using True f row(2) by (simp add: ByWorkOSOrgID_def)
  next
    case False
    then have "List.find (\<lambda>t. tn_org t = tn_org row \<and> tn_state t \<in> {''active'', ''suspended''}) (rg_tenants rg') = None"
      unfolding find_None_iff using only by fastforce
    then show ?thesis using False f by (simp add: ByWorkOSOrgID_def)
  qed
qed

text \<open>
  C40 What the router answers to a commit of a tenant after an operator suspended it, and after an operator wound it
  down: the suspended tenant still reaches the commit handler with its own id, the one in
  wind-down is answered 404.
\<close>
theorem suspended_tenant_commits:
  assumes "Suspend fault now tid actor rg = (Inr (), rgS)" "WindDown fault now tid actor rg = (Inr (), rgW)"
    and "row \<in> set (rg_tenants rg)" "tn_id row = tid" "distinct (map tn_id (rg_tenants rg))" "distinct (map tn_org (rg_tenants rg))"
    and "ValidateSession parse fetch at tok c = (Some cs, c')" "tok \<noteq> []" "sc_org cs = tn_org row" "tn_org row \<noteq> []" "fault' ''lookup'' = None"
  shows "serve parse fetch fault' at org rgS ''POST'' commitPath (Some tok) c = (Handler ''commit'' (Some tid), c') \<and>
    serve parse fetch fault' at org rgW ''POST'' commitPath (Some tok) c = (Refused 404, c')"
proof -
  have "ByWorkOSOrgID fault' (tn_org row) rgS = Inr tid"
    using lookup_after_transition [OF assms(1) [unfolded Suspend_def] assms(3-6), of fault'] assms(11) by simp
  moreover have "ByWorkOSOrgID fault' (tn_org row) rgW = Inl ErrTenantNotFound"
    using lookup_after_transition [OF assms(2) [unfolded WindDown_def] assms(3-6), of fault'] assms(11) by simp
  ultimately show ?thesis
    unfolding serve_commit using assms(7-10) by (simp add: TenantMiddleware_def LoadSession_def)
qed

definition sample_row :: tenant_row where
  "sample_row = \<lparr>tn_id = ''t1'', tn_org = ''org_1'', tn_state = ''active'', tn_pool = ''A'', tn_dsn = None, tn_onboarded = 0,
     tn_updated = 0, tn_last_audit = None\<rparr>"

definition sample_registry :: registry where
  "sample_registry = \<lparr>rg_tenants = [sample_row], rg_audit = [], rg_schemas = []\<rparr>"

theorem suspended_tenant_commits_witness:
  "fst (serve (sample_parse (sample_lib ''k1'')) sample_endpoint (\<lambda>_. None) 5 ''org_admin''
      (snd (Suspend (\<lambda>_. None) 4 ''t1'' ''ops'' sample_registry)) ''POST'' commitPath (Some ''tok'') sample_client) = Handler ''commit'' (Some ''t1'')"
proof -
  have v: "\<exists>c'. ValidateSession (sample_parse (sample_lib ''k1'')) sample_endpoint 5 ''tok'' sample_client =
      (Some (extractClaims [''org_id'' \<mapsto> ClaimString ''org_1'']), c')"
    by (simp add: ValidateSession_def sample_parse_def sample_lib_def makeKeyfunc_def refreshJWKS_def sample_endpoint_def
        sample_client_def sample_keys Let_def)
  then obtain c' where v: "ValidateSession (sample_parse (sample_lib ''k1'')) sample_endpoint 5 ''tok'' sample_client =
      (Some (extractClaims [''org_id'' \<mapsto> ClaimString ''org_1'']), c')" by blast
  have ok: "Suspend (\<lambda>_. None) 4 ''t1'' ''ops'' sample_registry = (Inr (), snd (Suspend (\<lambda>_. None) 4 ''t1'' ''ops'' sample_registry))"
    "WindDown (\<lambda>_. None) 4 ''t1'' ''ops'' sample_registry = (Inr (), snd (WindDown (\<lambda>_. None) 4 ''t1'' ''ops'' sample_registry))"
    by (simp_all add: Suspend_def WindDown_def transitionLifecycle_def Let_def matches_def sample_registry_def sample_row_def)
  from suspended_tenant_commits [OF ok, of sample_row, OF _ _ _ _ v, of "\<lambda>_. None" "''org_admin''"] show ?thesis
    by (simp add: sample_registry_def sample_row_def extractClaims_def claimString_def)
qed

end
