(* ===== verification/Operator_CLI.thy ===== *)
theory Operator_CLI
  imports Tenant_Registry Tenant_Provision Detection_Dispatch CEL_Policy
begin

text \<open>
  The operator's command line, \<open>cmd/neksur-cli\<close>: the dispatch on noun and verb, the flags, and one
  function per verb over the components it drives.

  A command answers its exit code, what it printed for its caller and the world after it. The world
  holds side by side the parts of the database that the components describe: the registry, the
  catalogue of schemas, roles and privileges, and the tenant data behind \<open>pg\<close>. Whether a pool or a
  graph client opens, the command-line tools, the random bytes, the parser of UUIDs and the HTTP post
  are parameters. Warnings and usage texts on the error stream are not modelled.
\<close>

section \<open>Flags\<close>

datatype flag_kind = BoolFlag | StringFlag

type_synonym flag_values = "string \<rightharpoonup> string"

definition parseBool :: "string \<Rightarrow> string option" where
  "parseBool v =
     (if v \<in> {''1'', ''t'', ''T'', ''true'', ''TRUE'', ''True''} then Some ''true''
      else if v \<in> {''0'', ''f'', ''F'', ''false'', ''FALSE'', ''False''} then Some ''false'' else None)"

text \<open>A flag without its dashes: the name, and the value after the first equals sign that is not the first character.\<close>

definition splitFlag :: "string \<Rightarrow> string \<times> string option" where
  "splitFlag s =
     (let n = hd s # takeWhile (\<lambda>c. c \<noteq> CHR ''='') (tl s); r = drop (length n) s in
      (n, if r = [] then None else Some (tl r)))"

text \<open>
  \<open>flag.FlagSet.Parse\<close>: the values set and the rest of the arguments, or no answer for a bad, an
  unknown or an incomplete flag and for a request of help.
\<close>

fun parseFlags :: "(string \<times> flag_kind) list \<Rightarrow> flag_values \<Rightarrow> string list \<Rightarrow> (flag_values \<times> string list) option" where
  "parseFlags formal m [] = Some (m, [])"
| "parseFlags formal m (a # rest) =
     (if length a < 2 \<or> hd a \<noteq> CHR ''-'' then Some (m, a # rest)
      else if a = ''--'' then Some (m, rest)
      else
       let s = (if a ! 1 = CHR ''-'' then drop 2 a else drop 1 a) in
       if s = [] \<or> hd s = CHR ''-'' \<or> hd s = CHR ''='' then None
       else (case splitFlag s of (n, v) \<Rightarrow>
         (case map_of formal n of
            None \<Rightarrow> None
          | Some BoolFlag \<Rightarrow>
             (case v of
                None \<Rightarrow> parseFlags formal (m(n \<mapsto> ''true'')) rest
              | Some x \<Rightarrow> (case parseBool x of None \<Rightarrow> None | Some b \<Rightarrow> parseFlags formal (m(n \<mapsto> b)) rest))
          | Some StringFlag \<Rightarrow>
             (case v of
                Some x \<Rightarrow> parseFlags formal (m(n \<mapsto> x)) rest
              | None \<Rightarrow> (case rest of [] \<Rightarrow> None | x # rest' \<Rightarrow> parseFlags formal (m(n \<mapsto> x)) rest')))))"

definition flagStr :: "flag_values \<Rightarrow> string \<Rightarrow> string" where
  "flagStr fl n = (case fl n of None \<Rightarrow> [] | Some v \<Rightarrow> v)"

definition flagBool :: "flag_values \<Rightarrow> string \<Rightarrow> bool" where
  "flagBool fl n \<longleftrightarrow> fl n = Some ''true''"

definition orElse :: "string \<Rightarrow> string \<Rightarrow> string" where
  "orElse v d = (if v = [] then d else v)"

section \<open>World\<close>

record 'db op_world =
  ow_registry :: registry
  ow_catalogue :: catalogue
  ow_db :: 'db
  ow_unlinked :: "string list"

record 'db op_env =
  oe_env :: "string \<Rightarrow> string"
  oe_uuid :: "string \<Rightarrow> string option"
  oe_pool :: "string \<Rightarrow> bool"
  oe_graph :: "string \<Rightarrow> bool"
  oe_now :: instant
  oe_fault :: faults
  oe_sql :: sql_faults
  oe_atlas :: "string \<Rightarrow> string \<Rightarrow> catalogue \<Rightarrow> string option \<times> catalogue"
  oe_terraform :: "string list \<Rightarrow> string option"
  oe_outputs :: "string list \<Rightarrow> string + (string \<rightharpoonup> peering_result)"
  oe_aws :: "string list \<Rightarrow> string + string"
  oe_tools :: migration_tools
  oe_pg :: "'db pg"
  oe_read :: "string \<Rightarrow> probe_error option"
  oe_auditInsert :: "string \<Rightarrow> string \<Rightarrow> 'db \<Rightarrow> string + 'db"
  oe_random :: "nat list option"
  oe_post :: "string \<Rightarrow> (string \<times> string list) list \<Rightarrow> string + nat"
  oe_remove :: "string \<Rightarrow> bool"

datatype printed =
    Confirmed string | Noop string | Secret string string | PeerStatus string | CustomerModule string
  | UpstreamWarning | MockPeering string | Peered peering_result | Certificate string | Migrated migration_result

type_synonym 'db cli_result = "nat \<times> printed list \<times> 'db op_world"

section \<open>Tenant verbs\<close>

definition runTenantCreate :: "'db op_env \<Rightarrow> string list \<Rightarrow> 'db op_world \<Rightarrow> 'db cli_result" where
  "runTenantCreate e args w =
     (case parseFlags [(''tenant-uuid'', StringFlag), (''workos-org'', StringFlag)] Map.empty args of
        None \<Rightarrow> (2, [], w)
      | Some (fl, _) \<Rightarrow>
         let u = flagStr fl ''tenant-uuid''; org = flagStr fl ''workos-org''; dsn = oe_env e ''DATABASE_URL'' in
         if u = [] \<or> org = [] then (2, [], w)
         else if \<not> ValidateUUIDv4 u then (2, [], w)
         else if \<not> ValidateWorkOSOrgID org then (2, [], w)
         else if dsn = [] then (2, [], w)
         else (case oe_uuid e u of
           None \<Rightarrow> (2, [], w)
         | Some tid \<Rightarrow>
            if \<not> oe_pool e dsn then (1, [], w)
            else if \<not> oe_graph e dsn then (1, [], w)
            else (case Create (oe_fault e) (oe_now e) None
                   \<lparr>tn_id = tid, tn_org = org, tn_state = ''active'', tn_pool = ''A'', tn_dsn = None, tn_onboarded = zeroTime,
                    tn_updated = zeroTime, tn_last_audit = None\<rparr> (ow_registry w) of
              (Inl _, rg) \<Rightarrow> (1, [], w\<lparr>ow_registry := rg\<rparr>)
            | (Inr _, rg) \<Rightarrow>
               (case CreateGraph True (oe_sql e) tid (ow_catalogue w) of
                  (Inl _, c) \<Rightarrow> (1, [], w\<lparr>ow_registry := rg, ow_catalogue := c\<rparr>)
                | (Inr _, c) \<Rightarrow>
                   (case CreateRole True (oe_sql e) tid c of
                      (Inl _, c') \<Rightarrow> (1, [], w\<lparr>ow_registry := rg, ow_catalogue := c'\<rparr>)
                    | (Inr _, c') \<Rightarrow> (0, [Confirmed tid], w\<lparr>ow_registry := rg, ow_catalogue := c'\<rparr>))))))"

definition runTenantMigrate :: "'db op_env \<Rightarrow> string list \<Rightarrow> 'db op_world \<Rightarrow> 'db cli_result" where
  "runTenantMigrate e args w =
     (case parseFlags [(''tenant-uuid'', StringFlag), (''step'', StringFlag)] Map.empty args of
        None \<Rightarrow> (2, [], w)
      | Some (fl, _) \<Rightarrow>
         let u = flagStr fl ''tenant-uuid''; step = flagStr fl ''step''; dsn = oe_env e ''DATABASE_URL'' in
         if u = [] \<or> step = [] then (2, [], w)
         else if \<not> ValidateUUIDv4 u then (2, [], w)
         else if step \<noteq> ''bootstrap-schema'' \<and> step \<noteq> ''apply-versioned'' then (2, [], w)
         else if dsn = [] then (2, [], w)
         else (case oe_uuid e u of
           None \<Rightarrow> (2, [], w)
         | Some tid \<Rightarrow>
            if \<not> oe_pool e dsn then (1, [], w)
            else if \<not> oe_graph e dsn then (1, [], w)
            else if step = ''bootstrap-schema'' then
              (case CreateGraph True (oe_sql e) tid (ow_catalogue w) of
                 (Inl _, c) \<Rightarrow> (1, [], w\<lparr>ow_catalogue := c\<rparr>)
               | (Inr _, c) \<Rightarrow>
                  (case CreateRole True (oe_sql e) tid c of
                     (Inl _, c') \<Rightarrow> (1, [], w\<lparr>ow_catalogue := c'\<rparr>)
                   | (Inr _, c') \<Rightarrow> (0, [Confirmed tid], w\<lparr>ow_catalogue := c'\<rparr>)))
            else
              (case ApplyTenantMigrations (oe_atlas e) dsn tid (ow_catalogue w) of
                 (Inl _, c) \<Rightarrow> (1, [], w\<lparr>ow_catalogue := c\<rparr>)
               | (Inr _, c) \<Rightarrow>
                  (case RevokeAuditLogWrites True (oe_sql e) tid c of
                     (Inl _, c') \<Rightarrow> (1, [], w\<lparr>ow_catalogue := c'\<rparr>)
                   | (Inr _, c') \<Rightarrow> (0, [Confirmed tid], w\<lparr>ow_catalogue := c'\<rparr>)))))"

definition lifecycleVerb ::
  "string \<Rightarrow> (faults \<Rightarrow> instant \<Rightarrow> string \<Rightarrow> string \<Rightarrow> registry \<Rightarrow> (tenant_error + unit) \<times> registry) \<Rightarrow>
   'db op_env \<Rightarrow> string list \<Rightarrow> 'db op_world \<Rightarrow> 'db cli_result" where
  "lifecycleVerb defaultActor transition e args w =
     (case parseFlags [(''tenant-uuid'', StringFlag), (''actor'', StringFlag)] Map.empty args of
        None \<Rightarrow> (2, [], w)
      | Some (fl, _) \<Rightarrow>
         let u = flagStr fl ''tenant-uuid''; actor = orElse (flagStr fl ''actor'') defaultActor; dsn = oe_env e ''DATABASE_URL'' in
         if u = [] then (2, [], w)
         else if \<not> ValidateUUIDv4 u then (2, [], w)
         else (case oe_uuid e u of
           None \<Rightarrow> (2, [], w)
         | Some tid \<Rightarrow>
            if dsn = [] then (2, [], w)
            else if \<not> oe_pool e dsn then (1, [], w)
            else (case transition (oe_fault e) (oe_now e) tid actor (ow_registry w) of
              (Inl ErrTenantNotFound, rg) \<Rightarrow> (0, [Noop tid], w\<lparr>ow_registry := rg\<rparr>)
            | (Inl _, rg) \<Rightarrow> (1, [], w\<lparr>ow_registry := rg\<rparr>)
            | (Inr _, rg) \<Rightarrow> (0, [Confirmed tid], w\<lparr>ow_registry := rg\<rparr>))))"

definition runTenantSuspend :: "'db op_env \<Rightarrow> string list \<Rightarrow> 'db op_world \<Rightarrow> 'db cli_result" where
  "runTenantSuspend = lifecycleVerb ''suspend@neksur.com'' Suspend"

definition runTenantWindDown :: "'db op_env \<Rightarrow> string list \<Rightarrow> 'db op_world \<Rightarrow> 'db cli_result" where
  "runTenantWindDown = lifecycleVerb ''winddown@neksur.com'' WindDown"

definition destroyArgs :: "string \<Rightarrow> string \<Rightarrow> string list" where
  "destroyArgs tfDir tid =
     [''-chdir='' @ tfDir, ''destroy'', ''-target=module.customer_peering['' @ [CHR 0x22] @ tid @ [CHR 0x22] @ '']'', ''-auto-approve'']"

text \<open>A failed destroy of the peering is a warning: the exit code stays zero.\<close>

definition runTenantDelete :: "'db op_env \<Rightarrow> string list \<Rightarrow> 'db op_world \<Rightarrow> 'db cli_result" where
  "runTenantDelete e args w =
     (case parseFlags [(''tenant-uuid'', StringFlag), (''yes'', BoolFlag), (''actor'', StringFlag), (''skip-terraform'', BoolFlag)] Map.empty args of
        None \<Rightarrow> (2, [], w)
      | Some (fl, _) \<Rightarrow>
         let u = flagStr fl ''tenant-uuid''; actor = orElse (flagStr fl ''actor'') ''delete@neksur.com'';
             dsn = oe_env e ''DATABASE_URL''; tfDir = oe_env e ''TF_DIR'' in
         if u = [] then (2, [], w)
         else if \<not> ValidateUUIDv4 u then (2, [], w)
         else if \<not> flagBool fl ''yes'' then (2, [], w)
         else (case oe_uuid e u of
           None \<Rightarrow> (2, [], w)
         | Some tid \<Rightarrow>
            if dsn = [] then (2, [], w)
            else if \<not> oe_pool e dsn then (1, [], w)
            else (case Delete (oe_fault e) (oe_now e) tid actor True (ow_registry w) of
              (Inl _, rg) \<Rightarrow> (1, [], w\<lparr>ow_registry := rg\<rparr>)
            | (Inr _, rg) \<Rightarrow>
                let w' = w\<lparr>ow_registry := rg\<rparr> in
                if flagBool fl ''skip-terraform'' then (0, [Confirmed tid], w')
                else if tfDir = [] then (0, [Confirmed tid], w')
                else (case oe_terraform e (destroyArgs tfDir tid) of
                  Some _ \<Rightarrow> (0, [Confirmed tid], w')
                | None \<Rightarrow> (0, [Confirmed tid, Confirmed tid], w')))))"

text \<open>
  Any value of \<open>--instance-class\<close> is accepted and only printed. The source pool is the one of the
  environment, the target is the given DSN or one composed of the endpoint and two variables.
\<close>

definition composedDSN :: "string \<Rightarrow> string \<Rightarrow> string \<Rightarrow> string" where
  "composedDSN user pass endpoint = ''postgres://'' @ user @ '':'' @ pass @ ''@'' @ endpoint @ ''/neksur''"

definition runTenantMigrateToPoolB :: "'db op_env \<Rightarrow> string list \<Rightarrow> 'db op_world \<Rightarrow> 'db cli_result" where
  "runTenantMigrateToPoolB e args w =
     (case parseFlags [(''tenant-uuid'', StringFlag), (''pool-b-endpoint'', StringFlag), (''pool-b-dsn'', StringFlag),
         (''kms-key-arn'', StringFlag), (''instance-class'', StringFlag), (''dump-path'', StringFlag), (''actor'', StringFlag),
         (''yes'', BoolFlag), (''keep-dump'', BoolFlag)] Map.empty args of
        None \<Rightarrow> (2, [], w)
      | Some (fl, _) \<Rightarrow>
         let u = flagStr fl ''tenant-uuid''; endpoint = flagStr fl ''pool-b-endpoint''; dsn = oe_env e ''DATABASE_URL'';
             user = oe_env e ''POOL_B_ADMIN_USER''; pass = oe_env e ''POOL_B_ADMIN_PASSWORD'' in
         if u = [] \<or> endpoint = [] \<or> flagStr fl ''kms-key-arn'' = [] then (2, [], w)
         else if \<not> flagBool fl ''yes'' then (2, [], w)
         else if \<not> ValidateUUIDv4 u then (2, [], w)
         else (case oe_uuid e u of
           None \<Rightarrow> (2, [], w)
         | Some tid \<Rightarrow>
            if dsn = [] then (2, [], w)
            else if flagStr fl ''pool-b-dsn'' = [] \<and> (user = [] \<or> pass = []) then (2, [], w)
            else if \<not> oe_pool e dsn then (1, [], w)
            else (case MigratePoolAToB (oe_fault e) (oe_tools e) (oe_now e)
                   \<lparr>mo_tenant = tid, mo_source = dsn, mo_target = orElse (flagStr fl ''pool-b-dsn'') (composedDSN user pass endpoint),
                    mo_dump = flagStr fl ''dump-path'', mo_actor = flagStr fl ''actor''\<rparr> (ow_registry w) of
              (Inl _, rg) \<Rightarrow> (1, [], w\<lparr>ow_registry := rg\<rparr>)
            | (Inr r, rg) \<Rightarrow>
                (0, [Migrated r], w\<lparr>ow_registry := rg,
                   ow_unlinked := (if flagBool fl ''keep-dump'' \<or> \<not> oe_remove e (mr_dump r) then ow_unlinked w
                     else ow_unlinked w @ [mr_dump r])\<rparr>))))"

definition runTenantPeer :: "'db op_env \<Rightarrow> string list \<Rightarrow> 'db op_world \<Rightarrow> 'db cli_result" where
  "runTenantPeer e args w =
     (case parseFlags [(''tenant-uuid'', StringFlag), (''customer-vpc'', StringFlag), (''customer-region'', StringFlag),
         (''customer-account'', StringFlag), (''status'', BoolFlag), (''show-customer-module'', BoolFlag)] Map.empty args of
        None \<Rightarrow> (2, [], w)
      | Some (fl, _) \<Rightarrow>
         let u = flagStr fl ''tenant-uuid''; vpc = flagStr fl ''customer-vpc''; region = flagStr fl ''customer-region'';
             dsn = oe_env e ''DATABASE_URL''; tfDir = oe_env e ''TF_DIR'' in
         if u = [] then (2, [], w)
         else if \<not> ValidateUUIDv4 u then (2, [], w)
         else if flagBool fl ''show-customer-module'' then (0, [CustomerModule u], w)
         else if flagBool fl ''status'' then (0, [PeerStatus (orElse (oe_env e ''NEKSUR_FAKE_PEER_STATUS'') ''pending-acceptance'')], w)
         else if vpc = [] \<or> region = [] then (2, [], w)
         else if \<not> ValidateCustomerVPCID vpc then (2, [], w)
         else if \<not> ValidateAWSRegion region then (2, [], w)
         else (case oe_uuid e u of
           None \<Rightarrow> (2, [], w)
         | Some tid \<Rightarrow>
            if oe_env e ''PROVISION_MOCK_TERRAFORM'' = ''1'' then (0, [MockPeering tid], w)
            else if dsn = [] then (2, [], w)
            else if tfDir = [] then (2, [], w)
            else if \<not> oe_pool e dsn then (1, [], w)
            else (case InitiatePeering (oe_terraform e) (oe_outputs e) tfDir
                   \<lparr>po_tenant = tid, po_vpc = vpc, po_region = region, po_account = flagStr fl ''customer-account''\<rparr> of
              Inl _ \<Rightarrow> (1, [], w)
            | Inr r \<Rightarrow> (0, [Peered r], w))))"

definition runTenantSmoke :: "'db op_env \<Rightarrow> string list \<Rightarrow> 'db op_world \<Rightarrow> 'db cli_result" where
  "runTenantSmoke e args w =
     (case parseFlags [(''tenant-uuid'', StringFlag), (''probe-tenant-uuid'', StringFlag)] Map.empty args of
        None \<Rightarrow> (2, [], w)
      | Some (fl, _) \<Rightarrow>
         let u = flagStr fl ''tenant-uuid''; dsn = oe_env e ''DATABASE_URL'';
             probeStr = orElse (flagStr fl ''probe-tenant-uuid'') (oe_env e ''NEKSUR_SMOKE_PROBE_TENANT'') in
         if u = [] then (2, [], w)
         else if \<not> ValidateUUIDv4 u then (2, [], w)
         else if dsn = [] then (2, [], w)
         else (case oe_uuid e u of
           None \<Rightarrow> (2, [], w)
         | Some tid \<Rightarrow>
            if probeStr \<noteq> [] \<and> (\<not> ValidateUUIDv4 probeStr \<or> oe_uuid e probeStr = None) then (2, [], w)
            else if \<not> oe_pool e dsn then (1, [], w)
            else if \<not> oe_graph e dsn then (1, [], w)
            else (case RunSmoke True (oe_pg e) (CrossTenantProbe (oe_sql e) (oe_read e) tid) (oe_auditInsert e) tid
                   (if probeStr = [] then None else oe_uuid e probeStr) (ow_db w) of
              (Inl _, db) \<Rightarrow> (1, [], w\<lparr>ow_db := db\<rparr>)
            | (Inr _, db) \<Rightarrow> (0, [Confirmed tid], w\<lparr>ow_db := db\<rparr>))))"

definition runTenantCertIssue :: "'db op_env \<Rightarrow> string list \<Rightarrow> 'db op_world \<Rightarrow> 'db cli_result" where
  "runTenantCertIssue e args w =
     (case parseFlags [(''tenant-uuid'', StringFlag)] Map.empty args of
        None \<Rightarrow> (2, [], w)
      | Some (fl, _) \<Rightarrow>
         let u = flagStr fl ''tenant-uuid'' in
         if u = [] then (2, [], w)
         else if \<not> ValidateUUIDv4 u then (2, [], w)
         else (case oe_uuid e u of
           None \<Rightarrow> (2, [], w)
         | Some tid \<Rightarrow>
            (case IssueClientCert (oe_aws e) (oe_env e ''PRIVATE_CA_ARN'') tid of
               Inl _ \<Rightarrow> (1, [], w)
             | Inr b \<Rightarrow> (0, [Certificate (cb_certificate b @ cb_chain b)], w))))"

section \<open>Webhook registration\<close>

definition generateWebhookSecret :: "'db op_env \<Rightarrow> string option" where
  "generateWebhookSecret e = map_option hexEncode (oe_random e)"

definition storeSecretSQL :: "string \<Rightarrow> string" where
  "storeSecretSQL tid =
     ''UPDATE '' @ sanitizeIdent [SchemaName tid] @ ''.catalog_credentials SET config_json = config_json || jsonb_build_object('' @
     cyLit ''webhook_secret'' @ '', $1::text) WHERE catalog_kind = '' @ cyLit ''polaris''"

text \<open>An update answers one row for every row it changed; the two statements are not in a transaction.\<close>

definition storeWebhookSecret :: "'db op_env \<Rightarrow> string \<Rightarrow> string \<Rightarrow> 'db \<Rightarrow> bool \<times> 'db" where
  "storeWebhookSecret e tenantID secret db =
     (case oe_uuid e tenantID of
        None \<Rightarrow> (False, db)
      | Some tid \<Rightarrow>
         (case pg_acquire (oe_pg e) db of
            Some _ \<Rightarrow> (False, db)
          | None \<Rightarrow>
             (case pg_exec (oe_pg e) setTenantSQL [tenantID] db of
                Inl _ \<Rightarrow> (False, db)
              | Inr (_, db1) \<Rightarrow>
                 (case pg_exec (oe_pg e) (storeSecretSQL tid) [secret] db1 of
                    Inl _ \<Rightarrow> (False, db1)
                  | Inr (changed, db2) \<Rightarrow> (changed \<noteq> [], db2)))))"

definition registerWithPolaris :: "'db op_env \<Rightarrow> string \<Rightarrow> string \<Rightarrow> string \<Rightarrow> bool" where
  "registerWithPolaris e endpoint webhookURL secret =
     (case oe_post e (rev (dropWhile (\<lambda>c. c = CHR ''/'') (rev endpoint)) @ ''/v1/webhook-subscriptions'')
         [(''url'', [webhookURL]), (''secret'', [secret]), (''events'', [''snapshot.committed''])] of
        Inl _ \<Rightarrow> False
      | Inr status \<Rightarrow> 200 \<le> status \<and> status < 300)"

text \<open>The upstream registration is a best effort: its failure is a warning.\<close>

definition runPolarisWebhookRegister :: "'db op_env \<Rightarrow> string list \<Rightarrow> 'db op_world \<Rightarrow> 'db cli_result" where
  "runPolarisWebhookRegister e args w =
     (case parseFlags [(''tenant'', StringFlag), (''polaris-endpoint'', StringFlag), (''neksur-webhook'', StringFlag),
         (''skip-upstream'', BoolFlag)] Map.empty args of
        None \<Rightarrow> (2, [], w)
      | Some (fl, _) \<Rightarrow>
         let t = flagStr fl ''tenant''; webhook = flagStr fl ''neksur-webhook''; dsn = oe_env e ''DATABASE_URL'' in
         if t = [] \<or> webhook = [] then (2, [], w)
         else if \<not> flagBool fl ''skip-upstream'' \<and> flagStr fl ''polaris-endpoint'' = [] then (2, [], w)
         else if dsn = [] then (2, [], w)
         else (case generateWebhookSecret e of
           None \<Rightarrow> (1, [], w)
         | Some secret \<Rightarrow>
            if \<not> oe_pool e dsn then (1, [], w)
            else (case storeWebhookSecret e t secret (ow_db w) of
              (False, db) \<Rightarrow> (1, [], w\<lparr>ow_db := db\<rparr>)
            | (True, db) \<Rightarrow>
                (0, (if flagBool fl ''skip-upstream'' \<or> registerWithPolaris e (flagStr fl ''polaris-endpoint'') webhook secret
                     then [] else [UpstreamWarning]) @ [Secret t secret], w\<lparr>ow_db := db\<rparr>))))"

section \<open>Policy files\<close>

text \<open>
  \<open>celEnv\<close> tells whether the CEL environment builds; the compiler starts with an empty cache. The
  program is thrown away.
\<close>

definition runPolicyCompile ::
  "('ast, 'prog) cel_engine \<Rightarrow> (cel_key \<Rightarrow> 'prog \<Rightarrow> 'prog prog_cache \<Rightarrow> 'prog prog_cache) \<Rightarrow> bool \<Rightarrow> (string \<Rightarrow> string option) \<Rightarrow> string list \<Rightarrow> nat" where
  "runPolicyCompile eng add celEnv readFile args =
     (case parseFlags [] Map.empty args of
        None \<Rightarrow> 2
      | Some (_, rest) \<Rightarrow>
         (case rest of
            [path] \<Rightarrow>
              (case readFile path of
                 None \<Rightarrow> 2
               | Some content \<Rightarrow>
                   if \<not> celEnv then 1
                   else (case fst (CompileOrGet eng add (''cli-compile-'' @ path) content Map.empty) of Inl _ \<Rightarrow> 1 | Inr _ \<Rightarrow> 0))
          | _ \<Rightarrow> 2))"

section \<open>Dispatch\<close>

definition dispatchTenant :: "'db op_env \<Rightarrow> string list \<Rightarrow> 'db op_world \<Rightarrow> 'db cli_result" where
  "dispatchTenant e args w =
     (case args of
        [] \<Rightarrow> (2, [], w)
      | verb # sub \<Rightarrow>
          if verb = ''create'' then runTenantCreate e sub w
          else if verb = ''migrate'' then runTenantMigrate e sub w
          else if verb = ''migrate-to-pool-b'' then runTenantMigrateToPoolB e sub w
          else if verb = ''peer'' then runTenantPeer e sub w
          else if verb = ''smoke'' then runTenantSmoke e sub w
          else if verb = ''cert-issue'' then runTenantCertIssue e sub w
          else if verb = ''suspend'' then runTenantSuspend e sub w
          else if verb = ''wind-down'' \<or> verb = ''windown'' then runTenantWindDown e sub w
          else if verb = ''delete'' then runTenantDelete e sub w
          else (2, [], w))"

definition dispatchPolaris :: "'db op_env \<Rightarrow> string list \<Rightarrow> 'db op_world \<Rightarrow> 'db cli_result" where
  "dispatchPolaris e args w =
     (case args of
        [] \<Rightarrow> (2, [], w)
      | verb # sub \<Rightarrow> if verb = ''webhook-register'' then runPolarisWebhookRegister e sub w else (2, [], w))"

definition dispatchPolicy ::
  "('ast, 'prog) cel_engine \<Rightarrow> (cel_key \<Rightarrow> 'prog \<Rightarrow> 'prog prog_cache \<Rightarrow> 'prog prog_cache) \<Rightarrow> bool \<Rightarrow> (string \<Rightarrow> string option) \<Rightarrow> string list \<Rightarrow> nat" where
  "dispatchPolicy eng add celEnv readFile args =
     (case args of
        [] \<Rightarrow> 2
      | verb # sub \<Rightarrow> if verb = ''compile'' then runPolicyCompile eng add celEnv readFile sub else 2)"

text \<open>The arguments after the name of the program.\<close>

definition cliMain ::
  "('ast, 'prog) cel_engine \<Rightarrow> (cel_key \<Rightarrow> 'prog \<Rightarrow> 'prog prog_cache \<Rightarrow> 'prog prog_cache) \<Rightarrow> bool \<Rightarrow> (string \<Rightarrow> string option) \<Rightarrow>
   'db op_env \<Rightarrow> string list \<Rightarrow> 'db op_world \<Rightarrow> 'db cli_result" where
  "cliMain eng add celEnv readFile e args w =
     (case args of
        [] \<Rightarrow> (2, [], w)
      | noun # rest \<Rightarrow>
          if noun = ''tenant'' then dispatchTenant e rest w
          else if noun = ''polaris'' then dispatchPolaris e rest w
          else if noun = ''policy'' then (dispatchPolicy eng add celEnv readFile rest, [], w)
          else if noun = ''-h'' \<or> noun = ''--help'' \<or> noun = ''help'' then (0, [], w)
          else (2, [], w))"

section \<open>Usage errors\<close>

definition usage_safe :: "'db op_world \<Rightarrow> 'db cli_result \<Rightarrow> bool" where
  "usage_safe w r \<longleftrightarrow> (fst r = 2 \<longrightarrow> snd (snd r) = w)"

lemma usage_safe_simps [simp]: "usage_safe w (n, out, w)" "usage_safe w (0, out, w')" "usage_safe w (Suc 0, out, w')"
  by (simp_all add: usage_safe_def)

lemma verbs_usage_safe:
  "usage_safe w (runTenantCreate e args w)"
  "usage_safe w (runTenantMigrate e args w)"
  "usage_safe w (lifecycleVerb d tr e args w)"
  "usage_safe w (runTenantDelete e args w)"
  "usage_safe w (runTenantMigrateToPoolB e args w)"
  "usage_safe w (runTenantPeer e args w)"
  "usage_safe w (runTenantSmoke e args w)"
  "usage_safe w (runTenantCertIssue e args w)"
  "usage_safe w (runPolarisWebhookRegister e args w)"
  by (simp_all add: runTenantCreate_def runTenantMigrate_def lifecycleVerb_def runTenantDelete_def runTenantMigrateToPoolB_def
      runTenantPeer_def runTenantSmoke_def runTenantCertIssue_def runPolarisWebhookRegister_def Let_def
      split: option.split prod.split sum.split bool.split tenant_error.split)

text \<open>
  A command line that is refused as a usage error, exit code 2, has changed nothing: all validation
  of flags, identifiers and environment comes before the first effect, for every noun and verb.
\<close>
theorem usage_error_no_effect:
  assumes "cliMain eng add celEnv readFile e args w = (2, out, w')"
  shows "w' = w"
proof -
  have "usage_safe w (cliMain eng add celEnv readFile e args w)"
    by (simp add: cliMain_def dispatchTenant_def dispatchPolaris_def runTenantSuspend_def runTenantWindDown_def verbs_usage_safe
        split: list.split)
  then show ?thesis by (simp add: assms usage_safe_def)
qed

section \<open>Which tenant a command moves\<close>

definition moves_only :: "string \<Rightarrow> string set \<Rightarrow> registry \<Rightarrow> registry \<Rightarrow> bool" where
  "moves_only tid news rg rg' \<longleftrightarrow> (\<forall>k. state_of rg' k = state_of rg k \<or> k = tid \<and> state_of rg' k \<in> Some ` news)"

lemma moves_only_same: "rg_tenants rg' = rg_tenants rg \<Longrightarrow> moves_only tid news rg rg'"
  by (simp add: moves_only_def state_of_def)

lemma moves_only_trans: "moves_only tid news rg rg1 \<Longrightarrow> moves_only tid news rg1 rg2 \<Longrightarrow> moves_only tid news rg rg2"
  unfolding moves_only_def by metis

lemma moves_only_mono: "moves_only tid news rg rg' \<Longrightarrow> news \<subseteq> news' \<Longrightarrow> moves_only tid news' rg rg'"
  unfolding moves_only_def by blast

lemma moves_only_update:
  assumes "\<And>t. P t \<Longrightarrow> tn_id t = tid" "\<And>t. tn_id (f t) = tn_id t" "\<And>t. tn_state (f t) = tn_state t \<or> tn_state (f t) \<in> news"
    and "rg_tenants rg' = rg_tenants (updateWhere P f rg)"
  shows "moves_only tid news rg rg'"
  unfolding moves_only_def
proof (rule allI)
  fix k
  show "state_of rg' k = state_of rg k \<or> k = tid \<and> state_of rg' k \<in> Some ` news"
  proof (cases "List.find (\<lambda>t. tn_id t = k) (rg_tenants rg)")
    case None
    then show ?thesis by (simp add: state_of_def assms(4) row_updateWhere [OF assms(2)])
  next
    case (Some row)
    then have "tn_id row = k" by (auto simp: find_Some_iff)
    then show ?thesis
      using assms(1) [of row] assms(3) [of row] Some by (auto simp: state_of_def assms(4) row_updateWhere [OF assms(2)])
  qed
qed

lemma transition_moves_only:
  assumes "transitionLifecycle fault now tid new from event actor rg = (r, rg')"
  shows "moves_only tid {new} rg rg'"
  using assms
proof (cases rule: transition_cases)
  case failed
  then show ?thesis by (simp add: moves_only_same)
next
  case moved
  show ?thesis
    by (rule moves_only_update [where P = "\<lambda>t. tn_id t = tid \<and> tn_state t \<in> set from" and f = "\<lambda>t. t\<lparr>tn_state := new, tn_updated := now\<rparr>"])
      (simp_all add: moved(4))
qed

lemma Create_moves_only: "moves_only (tn_id t) {''active''} rg (snd (Create fault now ob (t\<lparr>tn_state := ''active''\<rparr>) rg))"
  by (auto simp: moves_only_def Create_def Let_def state_of_def find_append split: option.split)

lemma Delete_moves_only:
  assumes "Delete fault now tid actor confirm rg = (r, rg')"
  shows "moves_only tid {''deleted''} rg rg'"
proof (cases confirm)
  case True
  obtain r1 rg1 where t: "transitionLifecycle fault now tid ''deleted'' [''active'', ''suspended'', ''wind_down''] ''tenant.deleted'' actor rg = (r1, rg1)"
    by (meson surj_pair)
  have "rg_tenants rg' = rg_tenants rg1"
    using assms True t dropSchema_keeps by (auto simp: Delete_def split: sum.splits)
  then show ?thesis using transition_moves_only [OF t] moves_only_same moves_only_trans by metis
qed (use assms in \<open>simp add: Delete_def moves_only_same\<close>)

lemma pool_moves_only: "moves_only tid news rg (snd (UpdatePoolAndDSN fault now tid pl dsn rg))"
  unfolding UpdatePoolAndDSN_def
  by (auto simp: moves_only_same split: option.split
      intro!: moves_only_update [where P = "\<lambda>t. tn_id t = tid" and f = "\<lambda>t. t\<lparr>tn_pool := pl, tn_dsn := Some dsn, tn_updated := now\<rparr>"])

lemma set_moves_only: "moves_only tid {st} rg (snd (SetLifecycleState fault now tid st rg))"
  unfolding SetLifecycleState_def
  by (auto simp: moves_only_same split: option.split
      intro!: moves_only_update [where P = "\<lambda>t. tn_id t = tid" and f = "\<lambda>t. t\<lparr>tn_state := st, tn_updated := now\<rparr>"])

lemma finish_moves_only: "moves_only (mo_tenant o') {''active''} rg (snd (finishMigration fault now o' rg))"
proof -
  obtain r1 rg1 where u: "UpdatePoolAndDSN fault now (mo_tenant o') ''B'' (mo_target o') rg = (r1, rg1)" by (meson surj_pair)
  obtain r2 rg2 where l: "SetLifecycleState fault now (mo_tenant o') ''active'' rg1 = (r2, rg2)" by (meson surj_pair)
  have m: "moves_only (mo_tenant o') {''active''} rg rg1" "moves_only (mo_tenant o') {''active''} rg1 rg2"
    using pool_moves_only [of "mo_tenant o'" _ rg fault now "''B''" "mo_target o'"] set_moves_only [of "mo_tenant o'" "''active''" rg1 fault now] u l
    by simp_all
  have "rg_tenants (snd (writeMigrationAudit fault o' rg2)) = rg_tenants rg2" by (simp add: writeMigrationAudit_def split: option.split)
  then have "moves_only (mo_tenant o') {''active''} rg2 (snd (writeMigrationAudit fault o' rg2))" by (rule moves_only_same)
  note a = this
  note m2 = moves_only_trans [OF m]
  note m3 = moves_only_trans [OF m2 a]
  show ?thesis using m(1) m2 m3 by (simp add: finishMigration_def u l split: sum.split)
qed

lemma migrate_moves_only:
  "moves_only (mo_tenant opts) {''active'', ''suspended''} rg (snd (MigratePoolAToB fault tools now opts rg))"
proof (cases "validateOpts opts")
  case (Inl e)
  then show ?thesis by (simp add: MigratePoolAToB_def moves_only_same)
next
  case (Inr o')
  then have o': "mo_tenant o' = mo_tenant opts" by (auto simp: validateOpts_def split: if_splits)
  obtain r rg1 where s: "Suspend fault now (mo_tenant o') (mo_actor o') rg = (r, rg1)" by (meson surj_pair)
  have m1: "moves_only (mo_tenant opts) {''active'', ''suspended''} rg rg1"
    using moves_only_mono [OF transition_moves_only [OF s [unfolded Suspend_def]], of "{''active'', ''suspended''}"] by (simp add: o')
  obtain r2 rg2 where f: "finishMigration fault now o' rg1 = (r2, rg2)" by (meson surj_pair)
  have "moves_only (mo_tenant opts) {''active'', ''suspended''} rg1 rg2"
    using moves_only_mono [OF finish_moves_only [of o' rg1 fault now], of "{''active'', ''suspended''}"] f by (simp add: o')
  then have "moves_only (mo_tenant opts) {''active'', ''suspended''} rg rg2" by (rule moves_only_trans [OF m1])
  then show ?thesis using m1 by (simp add: MigratePoolAToB_def Inr s f split: sum.split)
qed

definition acts_on :: "'db op_env \<Rightarrow> string list \<Rightarrow> string set \<Rightarrow> 'db op_world \<Rightarrow> 'db cli_result \<Rightarrow> bool" where
  "acts_on e sub news w r \<longleftrightarrow> ow_registry (snd (snd r)) = ow_registry w \<or>
     (\<exists>formal fl rest tid. parseFlags formal Map.empty sub = Some (fl, rest) \<and> ValidateUUIDv4 (flagStr fl ''tenant-uuid'') \<and>
        oe_uuid e (flagStr fl ''tenant-uuid'') = Some tid \<and> moves_only tid news (ow_registry w) (ow_registry (snd (snd r))) \<and>
        (''deleted'' \<in> news \<longrightarrow> flagBool fl ''yes''))"

lemma acts_on_same [simp]: "ow_registry w' = ow_registry w \<Longrightarrow> acts_on e sub news w (n, out, w')"
  by (simp add: acts_on_def)

lemma acts_onI:
  "parseFlags formal Map.empty sub = Some (fl, rest) \<Longrightarrow> oe_uuid e (flagStr fl ''tenant-uuid'') = Some tid \<Longrightarrow>
   ValidateUUIDv4 (flagStr fl ''tenant-uuid'') \<Longrightarrow> moves_only tid news (ow_registry w) (ow_registry w') \<Longrightarrow>
   (''deleted'' \<in> news \<Longrightarrow> flagBool fl ''yes'') \<Longrightarrow> acts_on e sub news w (n, out, w')"
  unfolding acts_on_def by auto

lemma lifecycle_acts:
  assumes "\<And>fault now tid actor rg r rg'. tr fault now tid actor rg = (r, rg') \<Longrightarrow> moves_only tid news rg rg'" "''deleted'' \<notin> news"
  shows "acts_on e sub news w (lifecycleVerb d tr e sub w)"
  using assms
  by (auto simp: lifecycleVerb_def Let_def split: option.split prod.split sum.split tenant_error.split intro!: acts_onI)

lemma delete_acts: "acts_on e sub {''deleted''} w (runTenantDelete e sub w)"
  by (auto simp: runTenantDelete_def Let_def split: option.split prod.split sum.split intro!: acts_onI dest: Delete_moves_only)

lemma poolB_acts: "acts_on e sub {''active'', ''suspended''} w (runTenantMigrateToPoolB e sub w)"
proof -
  have m: "MigratePoolAToB fault tools now opts rg = (r, rg') \<Longrightarrow> moves_only (mo_tenant opts) {''active'', ''suspended''} rg rg'"
    for fault tools now opts rg r rg' using migrate_moves_only [of opts rg fault tools now] by simp
  show ?thesis
    by (auto simp: runTenantMigrateToPoolB_def Let_def split: option.split prod.split sum.split intro!: acts_onI dest: m)
qed

lemma create_acts: "acts_on e sub {''active''} w (runTenantCreate e sub w)"
proof -
  have m: "Create fault now ob \<lparr>tn_id = tid, tn_org = org, tn_state = ''active'', tn_pool = pl, tn_dsn = dsn, tn_onboarded = t1, tn_updated = t2,
      tn_last_audit = a\<rparr> rg = (r, rg') \<Longrightarrow> moves_only tid {''active''} rg rg'" for fault now ob tid org pl dsn t1 t2 a rg r rg'
    using Create_moves_only [of "\<lparr>tn_id = tid, tn_org = org, tn_state = ''active'', tn_pool = pl, tn_dsn = dsn, tn_onboarded = t1,
      tn_updated = t2, tn_last_audit = a\<rparr>" rg fault now ob] by simp
  show ?thesis
    by (auto simp: runTenantCreate_def Let_def split: option.split prod.split sum.split intro!: acts_onI dest: m)
qed

lemma suspend_acts: "acts_on e sub {''suspended''} w (runTenantSuspend e sub w)"
  unfolding runTenantSuspend_def
  by (rule lifecycle_acts) (auto simp: Suspend_def dest: transition_moves_only)

lemma windDown_acts: "acts_on e sub {''wind_down''} w (runTenantWindDown e sub w)"
  unfolding runTenantWindDown_def
  by (rule lifecycle_acts) (auto simp: WindDown_def dest: transition_moves_only)

lemma others_keep_registry:
  "ow_registry (snd (snd (runTenantMigrate e sub w))) = ow_registry w"
  "ow_registry (snd (snd (runTenantPeer e sub w))) = ow_registry w"
  "ow_registry (snd (snd (runTenantSmoke e sub w))) = ow_registry w"
  "ow_registry (snd (snd (runTenantCertIssue e sub w))) = ow_registry w"
  "ow_registry (snd (snd (runPolarisWebhookRegister e sub w))) = ow_registry w"
  by (simp_all add: runTenantMigrate_def runTenantPeer_def runTenantSmoke_def runTenantCertIssue_def runPolarisWebhookRegister_def Let_def
      split: option.split prod.split sum.split bool.split)

lemma others_act:
  "acts_on e sub news w (runTenantMigrate e sub w)" "acts_on e sub news w (runTenantPeer e sub w)"
  "acts_on e sub news w (runTenantSmoke e sub w)" "acts_on e sub news w (runTenantCertIssue e sub w)"
  by (simp_all add: acts_on_def others_keep_registry)

definition verbStates :: "string \<Rightarrow> string set" where
  "verbStates verb =
     (if verb = ''create'' then {''active''} else if verb = ''suspend'' then {''suspended''}
      else if verb = ''wind-down'' \<or> verb = ''windown'' then {''wind_down''} else if verb = ''delete'' then {''deleted''}
      else if verb = ''migrate-to-pool-b'' then {''active'', ''suspended''} else {})"

lemma tenant_acts: "acts_on e sub (verbStates verb) w (dispatchTenant e (verb # sub) w)"
  by (simp add: dispatchTenant_def verbStates_def create_acts suspend_acts windDown_acts delete_acts poolB_acts others_act)

text \<open>
  C19 The only way for the command line to move a tenant to another lifecycle state is a tenant verb
  whose flags parse and whose \<open>--tenant-uuid\<close> is a version 4 UUID that names that tenant; the verb
  leaves it in one of its own states, and it becomes deleted only under \<open>delete\<close> with \<open>--yes\<close>.
\<close>
theorem cli_moves_named_tenant:
  assumes "cliMain eng add celEnv readFile e args w = (code, out, w')" "state_of (ow_registry w') k \<noteq> state_of (ow_registry w) k"
  shows "\<exists>verb sub formal fl rest. args = ''tenant'' # verb # sub \<and> parseFlags formal Map.empty sub = Some (fl, rest) \<and>
    ValidateUUIDv4 (flagStr fl ''tenant-uuid'') \<and> oe_uuid e (flagStr fl ''tenant-uuid'') = Some k \<and>
    state_of (ow_registry w') k \<in> Some ` verbStates verb \<and>
    (state_of (ow_registry w') k = Some ''deleted'' \<longrightarrow> verb = ''delete'' \<and> flagBool fl ''yes'')"
proof -
  have "ow_registry w' \<noteq> ow_registry w" using assms(2) by auto
  then obtain after where t: "args = ''tenant'' # after" "dispatchTenant e after w = (code, out, w')"
    using assms(1) others_keep_registry(5) [of e "tl (tl args)" w]
    by (auto simp: cliMain_def dispatchPolaris_def split: list.splits if_splits)
  with \<open>ow_registry w' \<noteq> ow_registry w\<close> obtain verb sub where a: "args = ''tenant'' # verb # sub"
    and r: "dispatchTenant e (verb # sub) w = (code, out, w')"
    by (cases after) (auto simp: dispatchTenant_def [of e "[]"])
  from tenant_acts [of e sub verb w] \<open>ow_registry w' \<noteq> ow_registry w\<close> obtain formal fl rest tid where
    p: "parseFlags formal Map.empty sub = Some (fl, rest)" "ValidateUUIDv4 (flagStr fl ''tenant-uuid'')"
      "oe_uuid e (flagStr fl ''tenant-uuid'') = Some tid" "moves_only tid (verbStates verb) (ow_registry w) (ow_registry w')"
      "''deleted'' \<in> verbStates verb \<Longrightarrow> flagBool fl ''yes''"
    unfolding r acts_on_def by auto
  have k: "k = tid" "state_of (ow_registry w') k \<in> Some ` verbStates verb" using p(4) assms(2) by (auto simp: moves_only_def)
  have "''deleted'' \<in> verbStates verb \<Longrightarrow> verb = ''delete''" by (simp add: verbStates_def split: if_splits)
  then show ?thesis using a p k by fastforce
qed

section \<open>The printed secret signs\<close>

text \<open>
  What the statements of the registration and of the webhook do to the secrets of the polaris rows
  in the schema of a tenant: the tenant setting leaves them, the update replaces each and answers as
  many rows, the query answers the first.
\<close>

definition secret_store :: "'db pg \<Rightarrow> string \<Rightarrow> ('db \<Rightarrow> string list) \<Rightarrow> bool" where
  "secret_store pg tid secrets \<longleftrightarrow>
     (\<forall>t db rows db'. pg_exec pg setTenantSQL [t] db = Inr (rows, db') \<longrightarrow> secrets db' = secrets db) \<and>
     (\<forall>s db rows db'. pg_exec pg (storeSecretSQL tid) [s] db = Inr (rows, db') \<longrightarrow>
        length rows = length (secrets db) \<and> secrets db' = map (\<lambda>_. s) (secrets db)) \<and>
     (\<forall>db rows db'. pg_exec pg (webhookSecretSQL tid) [] db = Inr (rows, db') \<longrightarrow> rows = map (\<lambda>s. [s]) (take 1 (secrets db)))"

lemma stored_secret:
  assumes "secret_store (oe_pg e) tid secrets" "oe_uuid e t = Some tid" "storeWebhookSecret e t secret db = (True, db')"
  obtains n where "secrets db' = replicate (Suc n) secret"
proof -
  from assms(2,3) obtain db1 rows where p: "pg_exec (oe_pg e) (storeSecretSQL tid) [secret] db1 = Inr (rows, db')" "rows \<noteq> []"
    by (auto simp: storeWebhookSecret_def split: option.splits sum.splits prod.splits)
  then have "length rows = length (secrets db1)" "secrets db' = map (\<lambda>_. secret) (secrets db1)"
    using assms(1) by (auto simp: secret_store_def)
  then have "secrets db' = replicate (length rows) secret" by (simp add: map_replicate_const)
  then show thesis using p(2) by (cases rows) (auto intro: that [of "length (tl rows)"])
qed

lemma loaded_secret:
  assumes "secret_store pg tid secrets" "secrets db = replicate (Suc n) secret" "loadWebhookSecret pg tid db = (Inr s, db')"
  shows "s = secret"
proof -
  from assms(3) obtain r1 db1 rows where q: "pg_exec pg setTenantSQL [tid] db = Inr (r1, db1)" "pg_exec pg (webhookSecretSQL tid) [] db1 = Inr (rows, db')"
    and s: "rows = [] \<and> s = [] \<or> (\<exists>rest. rows = [s] # rest)"
    by (auto simp: loadWebhookSecret_def txQuery_def split: option.splits sum.splits prod.splits list.splits)
  have "secrets db1 = secrets db" "rows = map (\<lambda>s. [s]) (take 1 (secrets db1))"
    using assms(1) q unfolding secret_store_def by blast+
  then show ?thesis using s assms(2) by simp
qed

lemma signature_set: "SignBody body secret \<noteq> []"
proof
  assume "SignBody body secret = []"
  then have "length (hexEncode (hmacSHA256 secret body)) = 0" by (simp add: SignBody_def)
  then show False by (simp add: hexEncode_length hmacSHA256_def Let_def)
qed

text \<open>
  C26 A registration that succeeds prints a secret of 64 characters that the webhook takes: whatever the
  operator signs with it for that tenant afterwards is verified against the stored secret and queued, also when the
  registration replaced an older secret in several rows or the upstream call failed.
\<close>
theorem webhook_secret_roundtrip:
  assumes "secret_store (oe_pg e) tid secrets" "runPolarisWebhookRegister e args w = (0, out, w')" "Secret t secret \<in> set out"
    and "oe_random e = Some bs" "length bs = 32"
    and "oe_uuid e t = Some tid" "loadWebhookSecret (oe_pg e) tid (ow_db w') = (Inr s, db)"
    and "length body \<le> maxPolarisWebhookBytes" "decode body = Some p" "wp_location p \<noteq> []" "enabled \<noteq> ''0''"
  shows "length secret = 64 \<and>
    WebhookHandler (oe_uuid e) decode (oe_pg e) enabled False
      \<lparr>wh_method = ''POST'', wh_body = Some body, wh_sig = SignBody body secret, wh_tenant = t\<rparr> (ow_db w') = (200, Some (webhookHit tid p), db)"
proof -
  obtain db' where r: "generateWebhookSecret e = Some secret" "storeWebhookSecret e t secret (ow_db w) = (True, db')" "ow_db w' = db'" "t \<noteq> []"
    using assms(2,3)
    by (auto simp: runPolarisWebhookRegister_def Let_def split: option.splits prod.splits bool.splits if_splits)
  have len: "length secret = 64" using r(1) assms(4,5) by (auto simp: generateWebhookSecret_def hexEncode_length)
  obtain n where "secrets (ow_db w') = replicate (Suc n) secret"
    using stored_secret [OF assms(1,6) r(2)] r(3) by auto
  then have "s = secret" using loaded_secret [OF assms(1) _ assms(7)] by blast
  moreover have "secret \<noteq> []" using len by auto
  ultimately show ?thesis
    using len assms(6-11) r(4) webhook_signature_roundtrip [of body secret, THEN conjunct1] signature_set [of body secret] by (simp add: WebhookHandler_def)
qed

section \<open>Compiling a policy file\<close>

text \<open>
  The exit code of \<open>policy compile\<close> says what the gateway will do with the text: zero exactly when the
  same engine builds a program for it, so that no evaluation of that text ends in a compile error.
\<close>

lemma policy_compile_agrees:
  "runPolicyCompile eng add celEnv readFile [path] = 0 \<longleftrightarrow>
     \<not> (length path \<ge> 2 \<and> hd path = CHR ''-'') \<and> celEnv \<and> (\<exists>content prog. readFile path = Some content \<and> buildProgram eng content = Inr prog)"
  by (auto simp: runPolicyCompile_def CompileOrGet_def Let_def splitFlag_def split: option.split sum.split)

section \<open>Samples\<close>

text \<open>A database that is the list of secrets of one schema, and an environment in which everything succeeds.\<close>

definition sample_uuid :: string where
  "sample_uuid = ''0a1b2c3d-0000-4000-8000-000000000001''"

definition idle_engine :: "(unit, unit) cel_engine" where
  "idle_engine = \<lparr>ce_compile = (\<lambda>_. Inl []), ce_program = (\<lambda>_. Inl []), ce_eval = (\<lambda>_ _ _. EvalFailed []), ce_idents = (\<lambda>_. [])\<rparr>"

definition one_schema_pg :: "string list pg" where
  "one_schema_pg =
     \<lparr>pg_acquire = (\<lambda>_. None), pg_begin = (\<lambda>_. None),
      pg_exec = (\<lambda>q args db. if q = setTenantSQL then Inr ([], db)
        else if q = storeSecretSQL sample_uuid then Inr (map (\<lambda>_. []) db, map (\<lambda>_. hd args) db)
        else if q = webhookSecretSQL sample_uuid then Inr (map (\<lambda>s. [s]) (take 1 db), db) else Inl ''unknown''),
      pg_commit = (\<lambda>_. None), pg_reset = (\<lambda>_. None)\<rparr>"

lemma sql_distinct: "storeSecretSQL t \<noteq> setTenantSQL" "webhookSecretSQL t \<noteq> setTenantSQL" "webhookSecretSQL t \<noteq> storeSecretSQL t"
  by (simp_all add: storeSecretSQL_def setTenantSQL_def webhookSecretSQL_def)

lemma one_schema_store: "secret_store one_schema_pg sample_uuid (\<lambda>db. db)"
  by (auto simp: secret_store_def one_schema_pg_def sql_distinct)

definition sample_op :: "string list op_env" where
  "sample_op =
     \<lparr>oe_env = (\<lambda>k. if k = ''DATABASE_URL'' then ''dsn'' else []), oe_uuid = Some, oe_pool = (\<lambda>_. True), oe_graph = (\<lambda>_. True), oe_now = 7,
      oe_fault = (\<lambda>_. None), oe_sql = (\<lambda>_. None), oe_atlas = (\<lambda>_ _ c. (None, c)), oe_terraform = (\<lambda>_. None), oe_outputs = (\<lambda>_. Inl []),
      oe_aws = (\<lambda>_. Inl []),
      oe_tools = \<lparr>mt_dump = (\<lambda>_. None), mt_restore = (\<lambda>_. None), mt_connect = (\<lambda>_. None), mt_tables = (\<lambda>_ _. Inr []), mt_count = (\<lambda>_ _. Inr 0)\<rparr>,
      oe_pg = one_schema_pg, oe_read = (\<lambda>_. None), oe_auditInsert = (\<lambda>_ _ db. Inr db), oe_random = Some (replicate 32 7),
      oe_post = (\<lambda>_ _. Inl ''refused''), oe_remove = (\<lambda>_. True)\<rparr>"

definition sample_ops_world :: "string list op_world" where
  "sample_ops_world =
     \<lparr>ow_registry = \<lparr>rg_tenants = [\<lparr>tn_id = sample_uuid, tn_org = ''org_A'', tn_state = ''active'', tn_pool = ''A'', tn_dsn = None,
        tn_onboarded = 0, tn_updated = 0, tn_last_audit = None\<rparr>], rg_audit = [], rg_schemas = [SchemaName sample_uuid]\<rparr>,
      ow_catalogue = empty_catalogue, ow_db = [''old''], ow_unlinked = []\<rparr>"

abbreviation register_args :: "string list" where
  "register_args \<equiv> [''--tenant'', sample_uuid, ''--neksur-webhook=u'', ''-polaris-endpoint'', ''p'']"

lemma register_runs:
  "\<exists>w'. runPolarisWebhookRegister sample_op register_args sample_ops_world =
     (0, [UpstreamWarning, Secret sample_uuid (hexEncode (replicate 32 7))], w') \<and> ow_db w' = [hexEncode (replicate 32 7)]"
  by (simp add: runPolarisWebhookRegister_def splitFlag_def Let_def flagStr_def flagBool_def sample_op_def generateWebhookSecret_def
      storeWebhookSecret_def one_schema_pg_def sql_distinct sample_ops_world_def registerWithPolaris_def sample_uuid_def)

theorem webhook_secret_roundtrip_witness:
  "\<exists>w' db. runPolarisWebhookRegister sample_op register_args sample_ops_world =
       (0, [UpstreamWarning, Secret sample_uuid (hexEncode (replicate 32 7))], w') \<and>
     WebhookHandler Some (\<lambda>_. Some \<lparr>wp_tenant = [], wp_location = ''m1'', wp_namespace = [], wp_table = []\<rparr>) one_schema_pg [] False
       \<lparr>wh_method = ''POST'', wh_body = Some ''b'', wh_sig = SignBody ''b'' (hexEncode (replicate 32 7)), wh_tenant = sample_uuid\<rparr> (ow_db w') =
       (200, Some (webhookHit sample_uuid \<lparr>wp_tenant = [], wp_location = ''m1'', wp_namespace = [], wp_table = []\<rparr>), db)"
proof -
  obtain w' where w': "runPolarisWebhookRegister sample_op register_args sample_ops_world =
      (0, [UpstreamWarning, Secret sample_uuid (hexEncode (replicate 32 7))], w')" "ow_db w' = [hexEncode (replicate 32 7)]"
    using register_runs by blast
  have l: "loadWebhookSecret (oe_pg sample_op) sample_uuid (ow_db w') = (Inr (hexEncode (replicate 32 7)), ow_db w')"
    by (simp add: loadWebhookSecret_def txQuery_def sample_op_def one_schema_pg_def sql_distinct w'(2))
  have st: "secret_store (oe_pg sample_op) sample_uuid (\<lambda>db. db)" using one_schema_store by (simp add: sample_op_def)
  show ?thesis
    using webhook_secret_roundtrip [OF st w'(1), of sample_uuid "hexEncode (replicate 32 7)" "replicate 32 7", OF _ _ _ _ l, of "''b''"
        "\<lambda>_. Some \<lparr>wp_tenant = [], wp_location = ''m1'', wp_namespace = [], wp_table = []\<rparr>" "\<lparr>wp_tenant = [], wp_location = ''m1'', wp_namespace = [], wp_table = []\<rparr>" "[]"] w'(1)
    by (auto simp: sample_op_def maxPolarisWebhookBytes_def)
qed

lemma sample_valid: "ValidateUUIDv4 sample_uuid"
  by code_simp

lemma deleted_sample:
  "\<exists>out w'. cliMain eng add celEnv readFile sample_op [''tenant'', ''delete'', ''--tenant-uuid'', sample_uuid, ''--yes''] sample_ops_world = (0, out, w') \<and>
     state_of (ow_registry w') sample_uuid = Some ''deleted''"
  using sample_valid
  by (simp add: cliMain_def dispatchTenant_def runTenantDelete_def splitFlag_def Let_def flagStr_def flagBool_def sample_op_def orElse_def
      Delete_def transitionLifecycle_def matches_def sample_ops_world_def dropSchema_def updateWhere_def state_of_def sample_uuid_def)

theorem cli_moves_named_tenant_witness:
  "\<exists>(w' :: string list op_world) formal fl rest. parseFlags formal Map.empty [''--tenant-uuid'', sample_uuid, ''--yes''] = Some (fl, rest) \<and>
     state_of (ow_registry w') sample_uuid = Some ''deleted'' \<and> flagBool fl ''yes''"
proof -
  obtain out w' where d: "cliMain idle_engine (\<lambda>_ _ c. c) True (\<lambda>_. None) sample_op [''tenant'', ''delete'', ''--tenant-uuid'', sample_uuid, ''--yes'']
      sample_ops_world = (0, out, w')" and st: "state_of (ow_registry w') sample_uuid = Some ''deleted''"
    using deleted_sample by blast
  have "state_of (ow_registry sample_ops_world) sample_uuid = Some ''active''" by (simp add: sample_ops_world_def state_of_def)
  then have ne: "state_of (ow_registry w') sample_uuid \<noteq> state_of (ow_registry sample_ops_world) sample_uuid" using st by simp
  show ?thesis using cli_moves_named_tenant [OF d ne] st by auto
qed

theorem usage_error_no_effect_witness:
  "snd (snd (cliMain idle_engine (\<lambda>_ _ c. c) True (\<lambda>_. None)
     sample_op [''tenant'', ''delete'', ''--tenant-uuid'', sample_uuid] sample_ops_world)) = sample_ops_world"
proof -
  have "ValidateUUIDv4 ''0a1b2c3d-0000-4000-8000-000000000001''" using sample_valid by (simp add: sample_uuid_def)
  then obtain out w' where d: "cliMain idle_engine (\<lambda>_ _ c. c) True (\<lambda>_. None) sample_op [''tenant'', ''delete'', ''--tenant-uuid'', sample_uuid] sample_ops_world = (2, out, w')"
    by (simp add: cliMain_def dispatchTenant_def runTenantDelete_def splitFlag_def Let_def flagStr_def flagBool_def sample_uuid_def)
  show ?thesis using usage_error_no_effect [OF d] d by simp
qed

end
