(* ===== verification/Alarms.thy ===== *)
theory Alarms
  imports Neksur_Prelude
begin

text \<open>
  Alarm routing, \<open>internal/observability\<close>: \<open>alerts.go\<close>, \<open>pagerduty.go\<close> and \<open>statuspage.go\<close>. The calls to
  the two services are parameters that answer an error or a status; what a dispatch sends is the
  event. The incidents of PagerDuty follow its events API: a trigger opens the incident of its
  deduplication key or keeps it open, a resolve closes it.
\<close>

section \<open>Events\<close>

record pagerduty =
  pd_routingKey :: string
  pd_serviceTag :: string

record pd_event =
  ev_routingKey :: string
  ev_action :: string
  ev_dedup :: string
  ev_summary :: string
  ev_source :: string
  ev_severity :: string
  ev_component :: string
  ev_details :: "string \<rightharpoonup> string"

definition DedupKey :: "string \<Rightarrow> string \<Rightarrow> string \<Rightarrow> string" where
  "DedupKey service alertName tenantOrGlobal =
     service @ '':'' @ alertName @ '':'' @ (if tenantOrGlobal = [] then ''global'' else tenantOrGlobal)"

definition pdEvent :: "pagerduty \<Rightarrow> string \<Rightarrow> string \<Rightarrow> string \<Rightarrow> string \<Rightarrow> string \<Rightarrow> (string \<rightharpoonup> string) \<Rightarrow> pd_event" where
  "pdEvent p action severity summary alertName tenant details =
     \<lparr>ev_routingKey = pd_routingKey p, ev_action = action, ev_dedup = DedupKey (pd_serviceTag p) alertName tenant,
      ev_summary = summary, ev_source = pd_serviceTag p, ev_severity = severity, ev_component = alertName, ev_details = details\<rparr>"

definition triggerOrResolve ::
  "(pd_event \<Rightarrow> string option) \<Rightarrow> pagerduty \<Rightarrow> string \<Rightarrow> string \<Rightarrow> string \<Rightarrow> string \<Rightarrow> string \<Rightarrow> (string \<rightharpoonup> string) \<Rightarrow>
   string option \<times> pd_event list" where
  "triggerOrResolve send p action severity summary alertName tenant details =
     (let ev = pdEvent p action severity summary alertName tenant details in
      case send ev of
        Some e \<Rightarrow> (Some (''observability: pagerduty '' @ action @ '': '' @ e), [])
      | None \<Rightarrow> (None, [ev]))"

definition Trigger ::
  "(pd_event \<Rightarrow> string option) \<Rightarrow> pagerduty \<Rightarrow> string \<Rightarrow> string \<Rightarrow> string \<Rightarrow> string \<Rightarrow> (string \<rightharpoonup> string) \<Rightarrow> string option \<times> pd_event list" where
  "Trigger send p severity summary alertName tenant details =
     triggerOrResolve send p ''trigger'' severity summary alertName tenant details"

section \<open>Alarms\<close>

record alarm_payload =
  al_name :: string
  al_state :: string
  al_description :: string
  al_dimensions :: "(string \<times> string) list"

definition alarmTenant :: "alarm_payload \<Rightarrow> string" where
  "alarmTenant a = (case List.find (\<lambda>(n, _). n = ''TenantID'') (al_dimensions a) of None \<Rightarrow> [] | Some (_, v) \<Rightarrow> v)"

definition alarmAction :: "alarm_payload \<Rightarrow> string \<times> string" where
  "alarmAction a =
     (if al_state a = ''OK'' then (''resolve'', ''info'')
      else (''trigger'', if str_contains (al_name a) ''storage'' \<or> str_contains (al_name a) ''5xx'' then ''critical'' else ''warning''))"

definition DispatchAlarm :: "(pd_event \<Rightarrow> string option) \<Rightarrow> pagerduty \<Rightarrow> alarm_payload \<Rightarrow> string option \<times> pd_event list" where
  "DispatchAlarm send p a =
     (case alarmAction a of (action, severity) \<Rightarrow>
        triggerOrResolve send p action severity (al_description a) (al_name a) (alarmTenant a) Map.empty)"

section \<open>Status page\<close>

record statuspage =
  sp_apiKey :: string
  sp_pageID :: string
  sp_baseURL :: string

definition NewStatuspage :: "string \<Rightarrow> string \<Rightarrow> string \<Rightarrow> statuspage" where
  "NewStatuspage apiKey pageID baseURL =
     \<lparr>sp_apiKey = apiKey, sp_pageID = pageID,
      sp_baseURL = rev (dropWhile (\<lambda>c. c = CHR ''/'') (rev (if baseURL = [] then ''https://api.statuspage.io'' else baseURL)))\<rparr>"

text \<open>\<open>patch\<close> gets the URL, the authorization header and the status, and answers an error or a status code with a body.\<close>

definition UpdateComponent ::
  "(string \<Rightarrow> string \<Rightarrow> string \<Rightarrow> string + nat \<times> string) \<Rightarrow> statuspage \<Rightarrow> string \<Rightarrow> string \<Rightarrow> (string + nat \<times> string) option" where
  "UpdateComponent patch s componentID status =
     (case patch (sp_baseURL s @ ''/v1/pages/'' @ sp_pageID s @ ''/components/'' @ componentID) (''OAuth '' @ sp_apiKey s) status of
        Inl e \<Rightarrow> Some (Inl e)
      | Inr (code, body) \<Rightarrow> if code < 200 \<or> code \<ge> 300 then Some (Inr (code, take 1024 body)) else None)"

section \<open>Incidents\<close>

definition pdIncidents :: "pd_event list \<Rightarrow> string set" where
  "pdIncidents evs = fold (\<lambda>ev opened. if ev_action ev = ''trigger'' then insert (ev_dedup ev) opened
     else if ev_action ev = ''resolve'' then opened - {ev_dedup ev} else opened) evs {}"

definition dispatchAll :: "(pd_event \<Rightarrow> string option) \<Rightarrow> pagerduty \<Rightarrow> alarm_payload list \<Rightarrow> pd_event list" where
  "dispatchAll send p as = concat (map (\<lambda>a. snd (DispatchAlarm send p a)) as)"

definition alarmKey :: "pagerduty \<Rightarrow> alarm_payload \<Rightarrow> string" where
  "alarmKey p a = DedupKey (pd_serviceTag p) (al_name a) (alarmTenant a)"

text \<open>
  After any sequence of alarm notifications of which none failed to be sent, the incident of an
  alarm and a tenant is open exactly when the last notification under its key was not \<open>OK\<close>: the
  resolve of an alarm carries the key of its trigger whatever the severity and the description were,
  and it closes no incident of another key.
\<close>
theorem incidents_follow_alarms:
  assumes "\<And>ev. send ev = None"
  shows "key \<in> pdIncidents (dispatchAll send p as) \<longleftrightarrow>
    (\<exists>pre a post. as = pre @ a # post \<and> alarmKey p a = key \<and> al_state a \<noteq> ''OK'' \<and> (\<forall>b \<in> set post. alarmKey p b \<noteq> key))"
proof (induction as rule: rev_induct)
  case Nil
  then show ?case by (simp add: dispatchAll_def pdIncidents_def)
next
  case (snoc b as)
  have one: "dispatchAll send p (as @ [b]) = dispatchAll send p as @
      [pdEvent p (fst (alarmAction b)) (snd (alarmAction b)) (al_description b) (al_name b) (alarmTenant b) Map.empty]"
    by (simp add: dispatchAll_def DispatchAlarm_def triggerOrResolve_def assms case_prod_beta)
  have step: "key \<in> pdIncidents (dispatchAll send p (as @ [b])) \<longleftrightarrow>
      (if alarmKey p b = key then al_state b \<noteq> ''OK'' else key \<in> pdIncidents (dispatchAll send p as))"
    unfolding one by (auto simp: pdIncidents_def pdEvent_def alarmAction_def alarmKey_def)
  show ?case
  proof (cases "alarmKey p b = key")
    case True
    have "al_state b \<noteq> ''OK''" if "as @ [b] = pre @ a # post" "alarmKey p a = key" "al_state a \<noteq> ''OK''" "\<forall>c \<in> set post. alarmKey p c \<noteq> key" for pre a post
      using that True by (cases post rule: rev_cases) auto
    moreover have "\<exists>pre a post. as @ [b] = pre @ a # post \<and> alarmKey p a = key \<and> al_state a \<noteq> ''OK'' \<and> (\<forall>c \<in> set post. alarmKey p c \<noteq> key)"
      if "al_state b \<noteq> ''OK''" using that True by (intro exI [of _ as] exI [of _ b] exI [of _ "[]"]) simp
    ultimately show ?thesis unfolding step using True by auto
  next
    case False
    have "(\<exists>pre a post. as @ [b] = pre @ a # post \<and> alarmKey p a = key \<and> al_state a \<noteq> ''OK'' \<and> (\<forall>c \<in> set post. alarmKey p c \<noteq> key)) \<longleftrightarrow>
        (\<exists>pre a post. as = pre @ a # post \<and> alarmKey p a = key \<and> al_state a \<noteq> ''OK'' \<and> (\<forall>c \<in> set post. alarmKey p c \<noteq> key))" (is "?L = ?R")
    proof
      assume ?L
      then obtain pre a post where s: "as @ [b] = pre @ a # post" "alarmKey p a = key" "al_state a \<noteq> ''OK''" "\<forall>c \<in> set post. alarmKey p c \<noteq> key" by blast
      then have "post \<noteq> []" using False by auto
      then obtain post' where "post = post' @ [b]" "as = pre @ a # post'" using s(1) by (cases post rule: rev_cases) auto
      then show ?R using s by auto
    next
      assume ?R
      then obtain pre a post where "as = pre @ a # post" "alarmKey p a = key" "al_state a \<noteq> ''OK''" "\<forall>c \<in> set post. alarmKey p c \<noteq> key" by blast
      then show ?L using False by (intro exI [of _ pre] exI [of _ a] exI [of _ "post @ [b]"]) auto
    qed
    then show ?thesis unfolding step using False snoc.IH by simp
  qed
qed

theorem incidents_follow_alarms_witness:
  "''s:disk:global'' \<notin> pdIncidents (dispatchAll (\<lambda>_. None) \<lparr>pd_routingKey = ''r'', pd_serviceTag = ''s''\<rparr>
     [\<lparr>al_name = ''disk'', al_state = ''ALARM'', al_description = ''full'', al_dimensions = []\<rparr>,
      \<lparr>al_name = ''disk'', al_state = ''OK'', al_description = ''fine'', al_dimensions = [(''Host'', ''h'')]\<rparr>])"
  using incidents_follow_alarms [of "\<lambda>_. None" "''s:disk:global''" "\<lparr>pd_routingKey = ''r'', pd_serviceTag = ''s''\<rparr>"
      "[\<lparr>al_name = ''disk'', al_state = ''ALARM'', al_description = ''full'', al_dimensions = []\<rparr>,
      \<lparr>al_name = ''disk'', al_state = ''OK'', al_description = ''fine'', al_dimensions = [(''Host'', ''h'')]\<rparr>]"]
  by (simp add: Cons_eq_append_conv alarmKey_def alarmTenant_def DedupKey_def) fastforce

text \<open>
  Two different alarms can share a key: the segments are joined without escaping, and a tenant
  named \<open>global\<close> is the platform. Without a colon in the names the key tells alarms and tenants apart.
\<close>

lemma dedup_collision:
  "DedupKey s ''a:b'' ''c'' = DedupKey s ''a'' ''b:c''" "DedupKey s a ''global'' = DedupKey s a []"
  by (simp_all add: DedupKey_def)

lemma append_colon_inj: "CHR '':'' \<notin> set a \<Longrightarrow> CHR '':'' \<notin> set b \<Longrightarrow> a @ CHR '':'' # x = b @ CHR '':'' # y \<Longrightarrow> a = b \<and> x = y"
proof (induction a arbitrary: b)
  case Nil
  then show ?case by (cases b) auto
next
  case (Cons c a)
  then show ?case by (cases b) auto
qed

lemma dedup_injective:
  assumes "CHR '':'' \<notin> set a" "CHR '':'' \<notin> set b" "t \<noteq> ''global''" "u \<noteq> ''global''" "DedupKey s a t = DedupKey s b u"
  shows "a = b \<and> t = u"
proof -
  let ?g = "\<lambda>t. if t = [] then ''global'' else t"
  have "a @ CHR '':'' # ?g t = b @ CHR '':'' # ?g u" using assms(5) unfolding DedupKey_def by simp
  then have "a = b \<and> ?g t = ?g u" by (rule append_colon_inj [OF assms(1,2)])
  then show ?thesis using assms(3,4) by (cases "t = []"; cases "u = []") simp_all
qed

lemma insufficient_data_triggers: "al_state a = ''INSUFFICIENT_DATA'' \<Longrightarrow> fst (alarmAction a) = ''trigger''"
  by (simp add: alarmAction_def)

end
