(* ===== verification/Spec2Isabelle.thy ===== *)
theory Spec2Isabelle
  imports Enforcement SQL_Proxy Gateway Policy_Compiler Notifications Snapshot_Pins Lineage_Ingest Graph_Telemetry License
    Tenant_Registry Tenant_Provision Credential_Vending Detection_Dispatch Catalog_Adapters Glue_Signing Migration_Runner
    Server_Boot Operator_CLI Alarms
begin

text \<open>
  \<^bold>\<open>Neksur\<close>, a policy plane for lakehouse catalogs and query engines: a verification of the Go code
  under \<open>src/internal\<close>, \<open>src/pkg\<close> and \<open>src/cmd\<close>.

  \<^bold>\<open>The program.\<close> A policy author writes row filters, column masks and CEL predicates. The policy
  compiler turns them into SQL for each engine and stores the artifacts in a property graph; the SQL
  proxy splices them into the queries of a tenant. Commits to Iceberg tables pass the catalog
  gateway, which evaluates the CEL policies of the table, audits, and forwards to the catalog of the
  tenant through an adapter. Lineage events, snapshot pins and classifications of data files feed the
  same graph. A server process wires these parts behind sessions, an operator's command line provisions and
  retires tenants, a migration runner brings their schemas up, and a license opens the commercial modules.

  \<^bold>\<open>Theories and sources.\<close> Names of definitions are those of the source wherever the logic allows.

  \<^item> \<open>Neksur_Prelude\<close>: results and their chaining (\<open>rbind\<close>), Go's string functions, the contract of an LRU insertion
    and the soundness of a cache under it, shared simplification rules. \<open>Go_Time\<close>, \<open>Go_JSON\<close>,
    \<open>Go_Regexp\<close>, \<open>Sha256\<close>: what the sources use of the standard library, with round trips, the
    meaning of the regular expressions, the length and the range of digests.
  \<^item> \<open>SQL_Grammar\<close> (\<open>policy/compiler/sql_grammar.go\<close>), \<open>Dialect_Emit\<close> (\<open>policy/compiler/dialect\<close>),
    \<open>SQL_Splice\<close>, \<open>Splice_Reparse\<close>, \<open>Splice_Masks\<close> (\<open>sqlproxy/dialect/splice.go\<close>) and \<open>Enforcement\<close>: the fragment language,
    its emitters, the splicer, and that an emitted filter, spliced into a query, is enforced.
  \<^item> \<open>Graph_Client\<close>, \<open>Artifact_Codec\<close>, \<open>Graph_Telemetry\<close> (\<open>graph\<close>), \<open>Policy_Store\<close> (\<open>policy/store\<close>):
    literals, tenant transactions, stored artifacts, the sampled plan walk.
  \<^item> \<open>SQL_Proxy\<close> (\<open>sqlproxy\<close>), \<open>CEL_Policy\<close> (\<open>policy/cel\<close>), \<open>Policy_Compiler\<close> (\<open>policy/compiler\<close>),
    \<open>Notifications\<close> (\<open>pkg/pglistener\<close>), \<open>Gateway_Inputs\<close> and \<open>Gateway\<close> (\<open>gateway/iceberg\<close>).
  \<^item> \<open>Snapshot_Pins\<close> (\<open>coordination/snapshot\<close>), \<open>Lineage_Ingest\<close> (\<open>ingest\<close>, \<open>lineage/http\<close>), \<open>Detection\<close> and
    \<open>Detection_Dispatch\<close> (\<open>detect\<close>, \<open>cmd/neksur-server/regex_scanner.go\<close>, \<open>alerts\<close>).
  \<^item> \<open>Credential_Vending\<close> (\<open>credvend\<close>), \<open>Catalog_Adapters\<close> and \<open>Glue_Signing\<close> (\<open>iceberg\<close>), \<open>Data_Keys\<close> (\<open>crypto/kms\<close>).
  \<^item> \<open>Tenant_Session\<close>, \<open>Tenant_Registry\<close>, \<open>Tenant_Provision\<close> (\<open>tenant\<close>, \<open>catalog\<close>), \<open>Migration_Runner\<close> (\<open>migrate\<close>,
    \<open>cmd/migrate\<close>), \<open>Operator_CLI\<close> (\<open>cmd/neksur-cli\<close>).
  \<^item> \<open>Hot_Reload\<close>, \<open>License\<close> (\<open>license\<close>, \<open>licensegen\<close>), \<open>Cert_Watcher\<close> (\<open>sqlproxy/cert_watcher.go\<close>), \<open>Session_Auth\<close>
    (\<open>auth/workos\<close>), \<open>Admin_Surface\<close> (\<open>admin\<close>, \<open>billing\<close>), \<open>Alarms\<close> (\<open>observability\<close>), \<open>Server_Boot\<close> (\<open>cmd/neksur-server\<close>).

  \<^bold>\<open>How the code is represented.\<close> A struct is a record, an enumeration or an interface with known
  implementations a datatype, a map a partial function. A stateful operation takes its state last
  and returns it updated; an operation that can fail returns a sum whose left side is the error, and
  every early return is a branch. Concurrent code is a step relation: the worker pool of
  detection, the callers of the key cache with their program counters and lock, the histories of caches,
  watchers, sessions and tenants. Widths are kept where they matter: SHA-256 on 32-bit words, plan counters
  and key exponents on 64-bit words; instants are integers of nanoseconds.

  \<^bold>\<open>Parameters.\<close> What is not under \<open>src\<close> is an argument. The database is a record \<open>pg\<close> of acquire,
  begin, execute, commit and reset over an arbitrary state. A connection (\<open>conn\<close>) holds the committed state and
  the view of an open transaction: statements change the view, commit makes it the state, rollback
  drops it, and a commit can fail after the server has taken it; the rollback is the deferred one of
  the code, which a panic of the callback does not reach. What a claim needs of a statement is a named
  hypothesis on that statement alone: \<open>lineage_db\<close> on the cycle query and the merge of the ingest,
  \<open>detection_db\<close> on the insert of a detection run and on the graph statements of the same scan
  (\<open>scanStatement\<close>), \<open>secret_store\<close> on the webhook secret. The tenant registry and the
  provisioning catalogue give the statements of their files their documented effect, with a fault
  function that can make each fail; the tenant migrations are the list \<open>tenantMigrations\<close> of the tables they
  create and the privileges they grant or revoke, and a role can use a table (\<open>canAccess\<close>) when it, a role it
  is a member of, or \<open>PUBLIC\<close> has both the usage of the schema and the privilege on the table. White space inside SQL texts of several lines is normalised. Further parameters:
  the CEL engine, the LRU insertion (which may evict), JSON decoders, the UUID parser, the clock and
  fresh ids, the JWT library (\<open>jwt_contract\<close>) and the JWKS endpoint, the KMS, signatures, REST clients of the
  catalogs, command-line tools, the file system.

  \<^bold>\<open>Interfaces.\<close> \<open>predicate_emitter\<close> states what the parser needs of an emitter and is interpreted for Trino
  and Spark; \<open>compiled_loader\<close> what the proxy needs of the store, interpreted for the graph store (the injectors take
  its answer as a value);
  \<open>audited_machine\<close> lifts one lifecycle step to histories, interpreted for the registry; \<open>hot_reload\<close> is the
  contract of a watched file, interpreted for the license and for the certificate pair.

  \<^bold>\<open>What is shown.\<close>

  \<^item> Enforcement: parse and emit are inverse for both engines and accepted filters are typed; a spliced query has the user predicate
    and the policy each in parentheses; masks replace every projected column; the proxy and the
    gateway fail closed, with the documented status for every error an injector can return; a commit is
    forwarded only when every policy allowed it; an active row filter is stored as a body that parses back
    to its source, and was probed where an executor is wired, which the server does for none.
  \<^item> Isolation: a tenant transaction reports an error only with the state unchanged, except for an
    unacknowledged commit and a failed session reset, and leaves no transaction open unless the callback panics; literals are safe, caches answer only what was stored
    for the key, a role can use the tables of its own schema only, whatever
    the migrations grant to \<open>PUBLIC\<close>; the audit log is append-only and its pages are complete.
  \<^item> Sessions and requests: a session is signed by a key published less than an hour before; every handler
    of the router is authenticated; a rotated key is accepted; each answer of the webhook is characterised, and it accepts what the operator signs
    with the registered secret.
  \<^item> Histories: lineage stays acyclic up to the checked depth, pins are complete, a snapshot is
    recorded and scanned once, a data key is not generated again once it was delivered
    (within its life time and the capacity of the LRU), lifecycle states move forward, graph
    migrations run once, features need a verified license.
  \<^item> Bounds and termination: the retry loop, the listener's backoff, the reachability probe, key exponents, plan counters.
  \<^item> Where the code departs from its comments or cannot do what it is for, a theorem states what it
    does: the SaaS boot never succeeds, suspended tenants still commit, an unbalanced \<open>WHERE\<close> body
    turns the policy into one side of a disjunction, no catalog adapter forwards a commit with an update, and others in the component theories.

  \<^bold>\<open>Fuel and bounds.\<close> The predicate parser recurses on the rest of the input; its fuel is four times the
  length plus four, and the parser lemmas show that every call consumes less, so that the fuel never
  decides an answer. The search for the repository root looks at six levels, as the source does. All other loops are structural or
  have a measure, or are relations.

  \<^bold>\<open>Not modelled.\<close> Prometheus collectors and log lines (no answer depends on them), pool
  configuration, HTML templates, usage texts, the TLS handshake and HTTP transport below the
  handlers, the commercial modules (their sources are in other repositories), the placeholder
  packages, and the harnesses under \<open>src/tests\<close>, which drive a deployment and are not part of it.
\<close>

end
